(* ===== verification/Prelude.thy ===== *)
theory Prelude
  imports Main "HOL-Library.Word" "HOL-Library.Code_Target_Nat"
begin

text \<open>
  What every component shares: the fact collections of the development, byte strings and Go's error
  results, the maps Go programs use, and programs that call their environment and may loop for ever.

  A Go \<^verbatim>\<open>string\<close> or \<^verbatim>\<open>[]byte\<close> is a list of 8-bit characters, so \<open>length\<close> counts bytes.
  A function that returns \<^verbatim>\<open>(T, error)\<close> returns \<open>'e + 'a\<close> here, and one that returns only an
  \<^verbatim>\<open>error\<close> returns \<open>'e option\<close> with \<open>None\<close> for nil.
\<close>

section \<open>Fact collections\<close>

named_theorems go_str \<open>evaluation of the string functions\<close>
named_theorems prog_rules \<open>safety rules for programs\<close>
named_theorems keeps_intro \<open>operations that keep an invariant of the service\<close>
named_theorems frame_simps \<open>fields an operation does not write\<close>

section \<open>Bytes\<close>

type_synonym bytes = string

definition byte :: "char \<Rightarrow> nat" where
  "byte c = of_char c"

definition chr :: "nat \<Rightarrow> char" where
  "chr n = char_of n"

lemma byte_chr [simp]: "n < 256 \<Longrightarrow> byte (chr n) = n"
  by (simp add: byte_def chr_def)

lemma chr_byte [simp]: "chr (byte c) = c"
  by (simp add: byte_def chr_def)

lemma byte_less [simp]: "byte c < 256"
  by (simp add: byte_def)

lemma byte_inject [simp]: "byte c = byte d \<longleftrightarrow> c = d"
  by (metis chr_byte)

lemma byte_Char [simp]:
  "byte (Char b0 b1 b2 b3 b4 b5 b6 b7) = of_char (Char b0 b1 b2 b3 b4 b5 b6 b7)"
  by (simp add: byte_def)

section \<open>Errors\<close>

text \<open>
  The errors the code tells apart by identity (\<^verbatim>\<open>errors.Is\<close>), and all the others with their text.
\<close>

datatype go_error = Canceled | DeadlineExceeded | NotFound | Errorf bytes

section \<open>Lists\<close>

lemma takeWhile_all: "\<forall>x \<in> set xs. P x \<Longrightarrow> takeWhile P (xs @ ys) = xs @ takeWhile P ys"
  by (induction xs) auto

lemma dropWhile_all: "\<forall>x \<in> set xs. P x \<Longrightarrow> dropWhile P (xs @ ys) = dropWhile P ys"
  by (induction xs) auto

lemma dropWhile_hd: "xs \<noteq> [] \<Longrightarrow> \<not> P (hd xs) \<Longrightarrow> dropWhile P xs = xs"
  by (cases xs) auto

lemma list_ex_iff_ex: "list_ex P xs \<longleftrightarrow> (\<exists>x \<in> set xs. P x)"
  by (induction xs) auto

lemma find_SomeD: "find P xs = Some x \<Longrightarrow> x \<in> set xs \<and> P x"
  by (induction xs) (auto split: if_splits)

section \<open>64-bit words\<close>

lemma unat_of_nat64 [simp]: "n < 18446744073709551616 \<Longrightarrow> unat (of_nat n :: 64 word) = n"
  by (simp add: unat_of_nat)

lemma unat64_less [simp]: "unat (w :: 64 word) < 18446744073709551616"
  using unsigned_less [of w] by simp

text \<open>Signed values: \<open>sint\<close> is exact while a result stays within 64 bits.\<close>

lemma sint64_of_int:
  "- 9223372036854775808 \<le> i \<Longrightarrow> i < 9223372036854775808 \<Longrightarrow> sint (word_of_int i :: 64 word) = i"
  by (simp add: signed_of_int signed_take_bit_int_eq_self)

lemma sint64_add:
  fixes a b :: "64 word"
  assumes "- 9223372036854775808 \<le> sint a + sint b" and "sint a + sint b < 9223372036854775808"
  shows "sint (a + b) = sint a + sint b"
proof -
  have "a + b = word_of_int (sint a + sint b)" by simp
  then show ?thesis using sint64_of_int [OF assms] by metis
qed

section \<open>Programs over an environment\<close>

text \<open>
  A program over the world \<open>'w\<close> (the stores, the broker, the clock, the contexts) returns a value
  and the world it leaves. A loop that may never end takes fuel, one unit per round; \<open>None\<close> says
  that the rounds given were not enough, and the world returned with it is the world of that moment.
  A property that holds for every amount of fuel therefore holds at every moment of a run that
  never ends as well as at the end of one that does.
\<close>

type_synonym ('w, 'a) prog = "'w \<Rightarrow> 'a option \<times> 'w"

definition retp :: "'a \<Rightarrow> ('w, 'a) prog" where
  "retp a w = (Some a, w)"

definition bindp :: "('w, 'a) prog \<Rightarrow> ('a \<Rightarrow> ('w, 'b) prog) \<Rightarrow> ('w, 'b) prog" where
  "bindp m k w = (case m w of (None, w') \<Rightarrow> (None, w') | (Some a, w') \<Rightarrow> k a w')"

definition liftp :: "('w \<Rightarrow> 'a \<times> 'w) \<Rightarrow> ('w, 'a) prog" where
  "liftp f w = (case f w of (a, w') \<Rightarrow> (Some a, w'))"

text \<open>
  \<open>safe P m Q R\<close>: started where \<open>P\<close> holds, the program returns a value and a world in \<open>Q\<close>,
  or is still running in a world in \<open>R\<close>.
\<close>

definition safe :: "('w \<Rightarrow> bool) \<Rightarrow> ('w, 'a) prog \<Rightarrow> ('a \<Rightarrow> 'w \<Rightarrow> bool) \<Rightarrow> ('w \<Rightarrow> bool) \<Rightarrow> bool"
  where
  "safe P m Q R \<longleftrightarrow>
     (\<forall>w. P w \<longrightarrow> (case m w of (Some a, w') \<Rightarrow> Q a w' | (None, w') \<Rightarrow> R w'))"

lemma safeI:
  "(\<And>w a w'. P w \<Longrightarrow> m w = (Some a, w') \<Longrightarrow> Q a w') \<Longrightarrow>
   (\<And>w w'. P w \<Longrightarrow> m w = (None, w') \<Longrightarrow> R w') \<Longrightarrow> safe P m Q R"
  by (auto simp: safe_def split: prod.splits option.splits)

lemma safe_runI:
  "(\<And>w r w'. P w \<Longrightarrow> m w = (r, w') \<Longrightarrow> (case r of Some a \<Rightarrow> Q a w' | None \<Rightarrow> R w')) \<Longrightarrow> safe P m Q R"
  by (auto simp: safe_def split: prod.splits)

lemma safeD_Some: "safe P m Q R \<Longrightarrow> P w \<Longrightarrow> m w = (Some a, w') \<Longrightarrow> Q a w'"
  by (fastforce simp: safe_def)

lemma safeD_None: "safe P m Q R \<Longrightarrow> P w \<Longrightarrow> m w = (None, w') \<Longrightarrow> R w'"
  by (fastforce simp: safe_def)

lemma safe_retp [prog_rules]: "(\<And>w. P w \<Longrightarrow> Q a w) \<Longrightarrow> safe P (retp a) Q R"
  by (simp add: safe_def retp_def)

lemma safe_liftp [prog_rules]:
  "(\<And>w a w'. P w \<Longrightarrow> f w = (a, w') \<Longrightarrow> Q a w') \<Longrightarrow> safe P (liftp f) Q R"
  by (auto simp: safe_def liftp_def split: prod.splits)

lemma safe_bindp [prog_rules]:
  assumes "safe P m M R" and "\<And>a. safe (M a) (k a) Q R"
  shows "safe P (bindp m k) Q R"
proof -
  have "case bindp m k w of (Some b, w') \<Rightarrow> Q b w' | (None, w') \<Rightarrow> R w'" if "P w" for w
  proof (cases "m w")
    case (Pair r w1)
    show ?thesis
    proof (cases r)
      case None
      with Pair that assms(1) show ?thesis by (fastforce simp: safe_def bindp_def)
    next
      case (Some a)
      with Pair that assms(1) have "M a w1" by (fastforce simp: safe_def)
      with assms(2) have "case k a w1 of (Some b, w') \<Rightarrow> Q b w' | (None, w') \<Rightarrow> R w'"
        by (auto simp: safe_def)
      with Pair Some show ?thesis by (simp add: bindp_def)
    qed
  qed
  then show ?thesis by (simp add: safe_def)
qed

lemma safe_weaken:
  "safe P' m Q' R' \<Longrightarrow> (\<And>w. P w \<Longrightarrow> P' w) \<Longrightarrow> (\<And>a w. Q' a w \<Longrightarrow> Q a w) \<Longrightarrow> (\<And>w. R' w \<Longrightarrow> R w) \<Longrightarrow>
   safe P m Q R"
  by (rule safeI) (blast dest: safeD_Some safeD_None)+

lemma safe_after: "safe P m Q R \<Longrightarrow> (\<And>w. P w \<Longrightarrow> P (f w)) \<Longrightarrow> safe P (\<lambda>w. m (f w)) Q R"
  by (simp add: safe_def)

lemma bindp_eq_Some:
  "bindp m k w = (Some b, w'') \<longleftrightarrow> (\<exists>a w'. m w = (Some a, w') \<and> k a w' = (Some b, w''))"
  by (auto simp: bindp_def split: prod.splits option.splits)

lemma fst_bindp_None:
  "fst (bindp m k w) = None \<longleftrightarrow>
   fst (m w) = None \<or> (\<exists>a w'. m w = (Some a, w') \<and> fst (k a w') = None)"
  by (auto simp: bindp_def split: prod.splits option.splits)

end
