(* ===== verification/GoStd.thy ===== *)
theory GoStd
  imports Prelude "HOL-Library.Char_ord" "HOL-Library.List_Lexorder"
begin

text \<open>
  The part of Go's standard library on strings and integers that Postie calls: \<^verbatim>\<open>strconv\<close>
  (\<^verbatim>\<open>Itoa\<close>, \<^verbatim>\<open>FormatUint\<close>, \<^verbatim>\<open>ParseUint\<close>, \<^verbatim>\<open>ParseInt\<close>, \<^verbatim>\<open>Quote\<close>), \<^verbatim>\<open>strings\<close>
  (\<^verbatim>\<open>Cut\<close>, \<^verbatim>\<open>TrimSpace\<close>, \<^verbatim>\<open>TrimPrefix\<close>, \<^verbatim>\<open>Split\<close>, \<^verbatim>\<open>Join\<close>, ...) and lower-case hexadecimal.
  Strings are bytes and compare byte by byte, which is the order \<open>Char_ord\<close> and
  \<open>List_Lexorder\<close> give them.
\<close>

section \<open>Decimal integers\<close>

definition digit :: "nat \<Rightarrow> char" where
  "digit d = chr (48 + d)"

definition is_digit :: "char \<Rightarrow> bool" where
  "is_digit c \<longleftrightarrow> 48 \<le> byte c \<and> byte c \<le> 57"

definition digit_val :: "char \<Rightarrow> nat" where
  "digit_val c = byte c - 48"

fun nat_str :: "nat \<Rightarrow> bytes" where
  "nat_str n = (if n < 10 then [digit n] else nat_str (n div 10) @ [digit (n mod 10)])"

declare nat_str.simps [simp del]

definition int_str :: "int \<Rightarrow> bytes" where
  "int_str i = (if i < 0 then CHR ''-'' # nat_str (nat (- i)) else nat_str (nat i))"

definition digits_val :: "bytes \<Rightarrow> nat" where
  "digits_val s = foldl (\<lambda>v c. 10 * v + digit_val c) 0 s"

text \<open>\<^verbatim>\<open>strconv.ParseUint(s, 10, bits)\<close>: decimal digits only, and the value must fit.\<close>

definition parse_uint :: "nat \<Rightarrow> bytes \<Rightarrow> nat option" where
  "parse_uint bits s =
     (if s \<noteq> [] \<and> list_all is_digit s \<and> digits_val s < 2 ^ bits then Some (digits_val s) else None)"

text \<open>\<^verbatim>\<open>strconv.ParseInt(s, 10, bits)\<close>: an optional sign, then digits within two's complement.\<close>

definition parse_int :: "nat \<Rightarrow> bytes \<Rightarrow> int option" where
  "parse_int bits s =
     (case s of
        [] \<Rightarrow> None
      | c # r \<Rightarrow>
          let neg = (c = CHR ''-''); body = (if c = CHR ''-'' \<or> c = CHR ''+'' then r else s)
          in (case parse_uint bits body of
                None \<Rightarrow> None
              | Some u \<Rightarrow>
                  if neg then (if u \<le> 2 ^ (bits - 1) then Some (- int u) else None)
                  else (if u < 2 ^ (bits - 1) then Some (int u) else None)))"

lemma is_digit_digit [simp]: "d < 10 \<Longrightarrow> is_digit (digit d)"
  by (simp add: is_digit_def digit_def)

lemma digit_val_digit [simp]: "d < 10 \<Longrightarrow> digit_val (digit d) = d"
  by (simp add: digit_val_def digit_def)

lemma nat_str_nonempty [simp]: "nat_str n \<noteq> []"
  by (subst nat_str.simps) simp

lemma nat_str_digits: "list_all is_digit (nat_str n)"
proof (induction n rule: nat_str.induct)
  case (1 n)
  then show ?case by (subst nat_str.simps) simp
qed

lemma digits_val_snoc [simp]: "digits_val (s @ [c]) = 10 * digits_val s + digit_val c"
  by (simp add: digits_val_def)

lemma digits_val_nat_str [simp]: "digits_val (nat_str n) = n"
proof (induction n rule: nat_str.induct)
  case (1 n)
  show ?case
  proof (cases "n < 10")
    case True
    then show ?thesis by (subst nat_str.simps) (simp add: digits_val_def)
  next
    case False
    with 1 show ?thesis by (subst nat_str.simps) simp
  qed
qed

lemma parse_uint_nat_str: "n < 2 ^ bits \<Longrightarrow> parse_uint bits (nat_str n) = Some n"
  by (simp add: parse_uint_def nat_str_digits)

lemma nat_str_inject [simp]: "nat_str m = nat_str n \<longleftrightarrow> m = n"
  by (metis digits_val_nat_str)

lemma nat_str_no_char: "\<not> is_digit c \<Longrightarrow> c \<notin> set (nat_str n)"
  using nat_str_digits [of n] by (auto simp: list_all_iff)

lemma length_nat_str: "n < 10 ^ k \<Longrightarrow> 0 < k \<Longrightarrow> length (nat_str n) \<le> k"
proof (induction k arbitrary: n)
  case 0
  then show ?case by simp
next
  case (Suc k)
  show ?case
  proof (cases "n < 10")
    case True
    then show ?thesis by (subst nat_str.simps) simp
  next
    case False
    with Suc.prems have k: "0 < k" by (cases k) auto
    from Suc.prems have "n div 10 < 10 ^ k" by (simp add: less_mult_imp_div_less)
    with Suc.IH k have "length (nat_str (n div 10)) \<le> k" by blast
    with False show ?thesis by (subst nat_str.simps) simp
  qed
qed

lemma int_str_inject [simp]: "int_str i = int_str j \<longleftrightarrow> i = j"
proof -
  have hd: "hd (nat_str n) \<noteq> CHR ''-''" for n
    using nat_str_digits [of n] by (cases "nat_str n") (auto simp: is_digit_def)
  have neq: "CHR ''-'' # s \<noteq> nat_str n" for s n
    using hd [of n] by (metis list.sel(1))
  show ?thesis
    using neq by (auto simp: int_str_def neq [symmetric])
qed

lemma parse_int_int_str:
  assumes "0 \<le> i" and "i < 2 ^ (bits - 1)" and "0 < bits"
  shows "parse_int bits (int_str i) = Some i"
proof -
  obtain c r where cr: "nat_str (nat i) = c # r" by (cases "nat_str (nat i)") auto
  with nat_str_digits [of "nat i"] have "is_digit c" by simp
  then have "c \<noteq> CHR ''-''" "c \<noteq> CHR ''+''" by (auto simp: is_digit_def)
  moreover have b: "nat i < 2 ^ (bits - 1)" using assms by (simp add: nat_less_iff)
  then have "nat i < 2 ^ bits"
    by (rule less_le_trans) (simp add: power_increasing)
  ultimately show ?thesis
    using assms b cr parse_uint_nat_str [of "nat i" bits]
    by (simp add: parse_int_def int_str_def)
qed

lemma parse_int_range:
  assumes "parse_int bits s = Some i"
  shows "- (2 ^ (bits - 1)) \<le> i \<and> i < 2 ^ (bits - 1)"
proof -
  have le: "int u \<le> 2 ^ (bits - 1)" if "u \<le> 2 ^ (bits - 1)" for u
    using that by (metis of_nat_le_iff of_nat_numeral of_nat_power)
  have less: "int u < 2 ^ (bits - 1)" if "u < 2 ^ (bits - 1)" for u
    using that by (metis of_nat_less_iff of_nat_numeral of_nat_power)
  have pos: "(0::int) < 2 ^ (bits - 1)" by simp
  obtain u where "(u \<le> 2 ^ (bits - 1) \<and> i = - int u) \<or> (u < 2 ^ (bits - 1) \<and> i = int u)"
    using assms by (auto simp: parse_int_def Let_def split: list.splits option.splits if_splits)
  then show ?thesis
  proof
    assume "u \<le> 2 ^ (bits - 1) \<and> i = - int u"
    with le [of u] pos show ?thesis by linarith
  next
    assume "u < 2 ^ (bits - 1) \<and> i = int u"
    with less [of u] pos show ?thesis by linarith
  qed
qed

section \<open>Substrings\<close>

fun has_prefix :: "bytes \<Rightarrow> bytes \<Rightarrow> bool" where
  "has_prefix s [] = True"
| "has_prefix [] (c # p) = False"
| "has_prefix (d # s) (c # p) = (d = c \<and> has_prefix s p)"

definition trim_prefix :: "bytes \<Rightarrow> bytes \<Rightarrow> bytes" where
  "trim_prefix s p = (if has_prefix s p then drop (length p) s else s)"

text \<open>\<^verbatim>\<open>strings.Cut(s, sep)\<close> for a separator of one byte: before, after, found.\<close>

definition cut :: "char \<Rightarrow> bytes \<Rightarrow> bytes \<times> bytes \<times> bool" where
  "cut c s =
     (case dropWhile (\<lambda>d. d \<noteq> c) s of
        [] \<Rightarrow> (s, [], False)
      | _ # r \<Rightarrow> (takeWhile (\<lambda>d. d \<noteq> c) s, r, True))"

fun split_on :: "char \<Rightarrow> bytes \<Rightarrow> bytes list" where
  "split_on c [] = [[]]"
| "split_on c (d # s) =
     (if d = c then [] # split_on c s
      else (case split_on c s of [] \<Rightarrow> [[d]] | p # ps \<Rightarrow> (d # p) # ps))"

fun join :: "bytes \<Rightarrow> bytes list \<Rightarrow> bytes" where
  "join sep [] = []"
| "join sep [s] = s"
| "join sep (s # t # ts) = s @ sep @ join sep (t # ts)"

definition trim_left_char :: "char \<Rightarrow> bytes \<Rightarrow> bytes" where
  "trim_left_char c s = dropWhile (\<lambda>d. d = c) s"

definition trim_right_char :: "char \<Rightarrow> bytes \<Rightarrow> bytes" where
  "trim_right_char c s = rev (dropWhile (\<lambda>d. d = c) (rev s))"

lemma has_prefix_append [simp]: "has_prefix (p @ s) p"
  by (induction p) auto

lemma has_prefixD: "has_prefix s p \<Longrightarrow> s = p @ drop (length p) s"
  by (induction s p rule: has_prefix.induct) auto

lemma trim_prefix_append [simp]: "trim_prefix (p @ s) p = s"
  by (simp add: trim_prefix_def)

lemma cut_append:
  assumes "c \<notin> set a"
  shows "cut c (a @ c # b) = (a, b, True)"
proof -
  have "dropWhile (\<lambda>d. d \<noteq> c) (a @ c # b) = c # b" and "takeWhile (\<lambda>d. d \<noteq> c) (a @ c # b) = a"
    using assms by (induction a) auto
  then show ?thesis by (simp add: cut_def)
qed

lemma split_on_nonempty [simp]: "split_on c s \<noteq> []"
  by (induction s) (auto split: list.splits)

lemma split_on_no_sep: "c \<notin> set s \<Longrightarrow> split_on c s = [s]"
  by (induction s) auto

lemma split_on_append: "c \<notin> set a \<Longrightarrow> split_on c (a @ c # b) = a # split_on c b"
  by (induction a) auto

section \<open>White space\<close>

text \<open>
  \<^verbatim>\<open>strings.TrimSpace\<close> and \<^verbatim>\<open>bytes.TrimSpace\<close> remove every rune of \<^verbatim>\<open>unicode.IsSpace\<close>
  from both ends. \<open>space_len\<close> is the length of the UTF-8 encoding of such a rune at the start of
  the text, or 0; \<open>space_len_rev\<close> reads the text backwards.
\<close>

definition ascii_space :: "nat \<Rightarrow> bool" where
  "ascii_space b \<longleftrightarrow> b = 32 \<or> (9 \<le> b \<and> b \<le> 13)"

definition space2 :: "nat \<Rightarrow> nat \<Rightarrow> bool" where
  "space2 a b \<longleftrightarrow> a = 194 \<and> (b = 133 \<or> b = 160)"

definition space3 :: "nat \<Rightarrow> nat \<Rightarrow> nat \<Rightarrow> bool" where
  "space3 a b c \<longleftrightarrow>
     (a = 225 \<and> b = 154 \<and> c = 128) \<or>
     (a = 226 \<and> b = 128 \<and> (128 \<le> c \<and> c \<le> 138 \<or> c = 168 \<or> c = 169 \<or> c = 175)) \<or>
     (a = 226 \<and> b = 129 \<and> c = 159) \<or>
     (a = 227 \<and> b = 128 \<and> c = 128)"

definition space_len :: "bytes \<Rightarrow> nat" where
  "space_len s =
     (case s of
        [] \<Rightarrow> 0
      | a # r \<Rightarrow>
          if ascii_space (byte a) then 1
          else (case r of
                  [] \<Rightarrow> 0
                | b # r' \<Rightarrow>
                    if space2 (byte a) (byte b) then 2
                    else (case r' of
                            [] \<Rightarrow> 0
                          | c # _ \<Rightarrow> if space3 (byte a) (byte b) (byte c) then 3 else 0)))"

definition space_len_rev :: "bytes \<Rightarrow> nat" where
  "space_len_rev s =
     (case s of
        [] \<Rightarrow> 0
      | a # r \<Rightarrow>
          if ascii_space (byte a) then 1
          else (case r of
                  [] \<Rightarrow> 0
                | b # r' \<Rightarrow>
                    if space2 (byte b) (byte a) then 2
                    else (case r' of
                            [] \<Rightarrow> 0
                          | c # _ \<Rightarrow> if space3 (byte c) (byte b) (byte a) then 3 else 0)))"

function drop_spaces :: "(bytes \<Rightarrow> nat) \<Rightarrow> bytes \<Rightarrow> bytes" where
  "drop_spaces f s = (if s \<noteq> [] \<and> 0 < f s then drop_spaces f (drop (f s) s) else s)"
  by pat_completeness auto
termination
  by (relation "measure (\<lambda>(f, s). length s)") auto

declare drop_spaces.simps [simp del]

definition trim_space :: "bytes \<Rightarrow> bytes" where
  "trim_space s = rev (drop_spaces space_len_rev (rev (drop_spaces space_len s)))"

lemma drop_spaces_id: "f s = 0 \<Longrightarrow> drop_spaces f s = s"
  by (subst drop_spaces.simps) simp

definition is_blank_ascii :: "char \<Rightarrow> bool" where
  "is_blank_ascii c \<longleftrightarrow> byte c \<ge> 128 \<or> ascii_space (byte c)"

lemma space2_high: "space2 a b \<Longrightarrow> 128 \<le> a \<and> 128 \<le> b"
  by (auto simp: space2_def)

lemma space3_high: "space3 a b c \<Longrightarrow> 128 \<le> a \<and> 128 \<le> c"
  by (auto simp: space3_def)

lemma space_len_plain:
  assumes "s = [] \<or> \<not> is_blank_ascii (hd s)"
  shows "space_len s = 0"
proof (cases s)
  case Nil
  then show ?thesis by (simp add: space_len_def)
next
  case (Cons a r)
  with assms have "byte a < 128" "\<not> ascii_space (byte a)" by (auto simp: is_blank_ascii_def)
  with Cons show ?thesis
    using space2_high [of "byte a"] space3_high [of "byte a"]
    by (cases r; cases "tl r") (fastforce simp: space_len_def)+
qed

lemma space_len_rev_plain:
  assumes "s = [] \<or> \<not> is_blank_ascii (hd s)"
  shows "space_len_rev s = 0"
proof (cases s)
  case Nil
  then show ?thesis by (simp add: space_len_rev_def)
next
  case (Cons a r)
  with assms have "byte a < 128" "\<not> ascii_space (byte a)" by (auto simp: is_blank_ascii_def)
  with Cons show ?thesis
    using space2_high [of _ "byte a"] space3_high [of _ _ "byte a"]
    by (cases r; cases "tl r") (fastforce simp: space_len_rev_def)+
qed

text \<open>A text whose first and last bytes are ASCII and not blank is already trimmed.\<close>

lemma trim_space_plain:
  assumes "s = [] \<or> \<not> is_blank_ascii (hd s) \<and> \<not> is_blank_ascii (last s)"
  shows "trim_space s = s"
proof -
  have "space_len s = 0" using assms by (intro space_len_plain) auto
  moreover have "space_len_rev (rev s) = 0"
    using assms by (intro space_len_rev_plain) (auto simp: hd_rev)
  ultimately show ?thesis by (simp add: trim_space_def drop_spaces_id)
qed

section \<open>Hexadecimal and quoting\<close>

definition hex_digit :: "nat \<Rightarrow> char" where
  "hex_digit d = (if d < 10 then chr (48 + d) else chr (87 + d))"

definition hex2 :: "nat \<Rightarrow> bytes" where
  "hex2 b = [hex_digit (b div 16), hex_digit (b mod 16)]"

definition hex_encode :: "nat list \<Rightarrow> bytes" where
  "hex_encode bs = concat (map hex2 bs)"

lemma length_hex_encode [simp]: "length (hex_encode bs) = 2 * length bs"
  by (induction bs) (simp_all add: hex_encode_def hex2_def)

text \<open>
  The \<^verbatim>\<open>%q\<close> of \<^verbatim>\<open>fmt\<close>. Bytes from 128 up are left as they are, which is what Go does with
  printable UTF-8 text.
\<close>

definition quote_char :: "char \<Rightarrow> bytes" where
  "quote_char c =
     (if byte c = 34 then [CHR 0x5C, CHR 0x22]
      else if byte c = 92 then [CHR 0x5C, CHR 0x5C]
      else if byte c = 7 then CHR 0x5C # ''a''
      else if byte c = 8 then CHR 0x5C # ''b''
      else if byte c = 12 then CHR 0x5C # ''f''
      else if byte c = 10 then CHR 0x5C # ''n''
      else if byte c = 13 then CHR 0x5C # ''r''
      else if byte c = 9 then CHR 0x5C # ''t''
      else if byte c = 11 then CHR 0x5C # ''v''
      else if byte c < 32 \<or> byte c = 127 then CHR 0x5C # CHR ''x'' # hex2 (byte c)
      else [c])"

definition quote :: "bytes \<Rightarrow> bytes" where
  "quote s = CHR 0x22 # concat (map quote_char s) @ [CHR 0x22]"

lemma quote_nonempty [simp]: "quote s \<noteq> []"
  by (simp add: quote_def)

end
