(* ===== verification/StreamModel.thy ===== *)
theory StreamModel
  imports GoStd
begin

text \<open>
  \<^verbatim>\<open>internal/stream/stream.go\<close>: the identities, names and records every other package passes
  around. Integers of the source that are only copied and compared are \<open>int\<close>; a \<^verbatim>\<open>[16]byte\<close>
  is a byte string.
\<close>

section \<open>Generations and scopes\<close>

type_synonym generation = int

definition generation_valid :: "generation \<Rightarrow> bool" where
  "generation_valid g \<longleftrightarrow> 1 \<le> g"

definition generation_string :: "generation \<Rightarrow> bytes" where
  "generation_string g = int_str g"

record scope =
  sc_namespace :: bytes
  sc_environment :: bytes
  sc_generation :: generation

section \<open>PostgreSQL types\<close>

type_synonym pgtype = bytes

definition pg_supported :: "pgtype \<Rightarrow> bool" where
  "pg_supported t \<longleftrightarrow>
     t \<in> set [''int2'', ''int4'', ''int8'', ''float4'', ''float8'', ''bool'', ''json'', ''bytea'',
             ''timestamp'', ''timestamptz'', ''text'']"

definition pg_integer :: "pgtype \<Rightarrow> bool" where
  "pg_integer t \<longleftrightarrow> t = ''int2'' \<or> t = ''int4'' \<or> t = ''int8''"

lemma pg_integer_supported: "pg_integer t \<Longrightarrow> pg_supported t"
  by (auto simp: pg_integer_def pg_supported_def)

section \<open>Sources, identities, registrations\<close>

record column =
  col_name :: bytes
  col_type :: pgtype

record source =
  src_id :: bytes
  src_description :: bytes
  src_table :: bytes
  src_columns :: "bytes list"
  src_serial :: bytes
  src_partitioning :: bytes

record identity =
  idn_table :: bytes
  idn_serial :: bytes
  idn_partitioning :: bytes
  idn_event_id :: bytes
  idn_partitions :: int
  idn_columns :: "column list"

record names =
  nm_topic_prefix :: bytes
  nm_topic :: bytes
  nm_connector :: bytes
  nm_slot :: bytes
  nm_publication :: bytes

record registration =
  reg_source :: bytes
  reg_identity :: identity
  reg_names :: names
  reg_topic_id :: bytes
  reg_blocked :: bytes

text \<open>The zero values Go gives for a missing map entry.\<close>

definition zero_identity :: identity where
  "zero_identity =
     \<lparr>idn_table = [], idn_serial = [], idn_partitioning = [], idn_event_id = [],
      idn_partitions = 0, idn_columns = []\<rparr>"

definition zero_names :: names where
  "zero_names =
     \<lparr>nm_topic_prefix = [], nm_topic = [], nm_connector = [], nm_slot = [], nm_publication = []\<rparr>"

definition zero_registration :: registration where
  "zero_registration =
     \<lparr>reg_source = [], reg_identity = zero_identity, reg_names = zero_names,
      reg_topic_id = replicate 16 (chr 0), reg_blocked = []\<rparr>"

lemma zero_registration_blocked [simp]: "reg_blocked zero_registration = []"
  by (simp add: zero_registration_def)

section \<open>Records\<close>

record raw_record =
  rr_topic :: bytes
  rr_partition :: int
  rr_offset :: int
  rr_leader_epoch :: int
  rr_key :: bytes
  rr_value :: bytes
  rr_historical :: bool

record stream_record =
  rec_source :: source
  rec_payload :: bytes
  rec_topic :: bytes
  rec_partition :: int
  rec_offset :: int
  rec_event_id :: bytes
  rec_aggregate_id :: bytes
  rec_event_name :: bytes
  rec_generation :: generation
  rec_replay :: bool

end
