(* ===== verification/Activity.thy ===== *)
theory Activity
  imports GoStd
begin

text \<open>
  \<^verbatim>\<open>internal/activity/log.go\<close>: the ring buffer of recent activity and its cursor reads.

  The sequence counter is a 64-bit word, as in the source. The fixed array is a function of its index;
  \<open>slot_less\<close> shows that no index leaves it. The loop of \<open>read_log\<close> counts up to the sequence number
  on words, so it is a partial function, and its results are proved to exist. The last section states
  the log's contract (a list of all entries ever added, of which the newest thousand can be read) and
  shows that the ring buffer keeps it.
\<close>

section \<open>The log\<close>

record entry =
  e_id :: bytes
  e_time :: int
  e_level :: bytes
  e_message :: bytes
  e_source :: bytes
  e_destination :: bytes
  e_generation :: int
  e_topic :: bytes
  e_partition :: int
  e_offset :: int
  e_event_id :: bytes
  e_aggregate_id :: bytes
  e_event_name :: bytes
  e_attempt :: int
  e_outcome :: bytes
  e_error :: bytes

definition zero_entry :: entry where
  "zero_entry =
     \<lparr>e_id = [], e_time = 0, e_level = [], e_message = [], e_source = [], e_destination = [],
      e_generation = 0, e_topic = [], e_partition = 0, e_offset = 0, e_event_id = [],
      e_aggregate_id = [], e_event_name = [], e_attempt = 0, e_outcome = [], e_error = []\<rparr>"

record page =
  p_entries :: "entry list"
  p_next_cursor :: bytes
  p_reset :: bool

definition capacity :: "64 word" where
  "capacity = 1000"

text \<open>\<open>l_writer\<close> holds the entries written to the writer, one JSON line each, or \<open>None\<close> for nil.\<close>

record log =
  l_boot :: bytes
  l_sequence :: "64 word"
  l_entries :: "64 word \<Rightarrow> entry"
  l_writer :: "entry list option"

text \<open>\<open>boot\<close> is the text \<^verbatim>\<open>rand.Text\<close> drew.\<close>

definition new_log :: "bytes \<Rightarrow> bool \<Rightarrow> log" where
  "new_log boot writes =
     \<lparr>l_boot = boot, l_sequence = 0, l_entries = (\<lambda>_. zero_entry),
      l_writer = (if writes then Some [] else None)\<rparr>"

definition cursor_for :: "bytes \<Rightarrow> 64 word \<Rightarrow> bytes" where
  "cursor_for boot sequence = boot @ CHR '':'' # nat_str (unat sequence)"

definition parse_cursor :: "bytes \<Rightarrow> (bytes \<times> 64 word) option" where
  "parse_cursor cursor =
     (case cut (CHR '':'') cursor of
        (boot, number, found) \<Rightarrow>
          if \<not> found \<or> boot = [] then None
          else (case parse_uint 64 number of None \<Rightarrow> None | Some n \<Rightarrow> Some (boot, of_nat n)))"

definition slot :: "64 word \<Rightarrow> 64 word" where
  "slot sequence = sequence mod capacity"

definition first_unread :: "64 word \<Rightarrow> 64 word \<Rightarrow> 64 word" where
  "first_unread sequence after = max (max sequence capacity - capacity + 1) (after + 1)"

text \<open>\<^verbatim>\<open>Add\<close>; \<open>now\<close> is the time of the call.\<close>

definition stamp :: "bytes \<Rightarrow> 64 word \<Rightarrow> int \<Rightarrow> entry \<Rightarrow> entry" where
  "stamp boot sequence now e =
     e\<lparr>e_id := cursor_for boot sequence, e_time := now,
       e_level := (if e_level e = [] then ''info'' else e_level e)\<rparr>"

definition add_entry :: "int \<Rightarrow> entry \<Rightarrow> log \<Rightarrow> log" where
  "add_entry now e l =
     (let sequence = l_sequence l + 1;
          e' = stamp (l_boot l) sequence now e
      in l\<lparr>l_sequence := sequence,
           l_entries := (l_entries l)(slot sequence := e'),
           l_writer := map_option (\<lambda>written. written @ [e']) (l_writer l)\<rparr>)"

text \<open>The loop of \<^verbatim>\<open>Read\<close>, from \<open>n\<close> up to the sequence number.\<close>

partial_function (option) read_loop ::
    "(64 word \<Rightarrow> entry) \<Rightarrow> 64 word \<Rightarrow> 64 word \<Rightarrow> entry list \<Rightarrow> entry list option" where
  "read_loop entries sequence n acc =
     (if n \<le> sequence then read_loop entries sequence (n + 1) (acc @ [entries (slot n)])
      else Some acc)"

text \<open>
  \<^verbatim>\<open>Read\<close>: the page, and whether the cursor was invalid. \<open>None\<close> would be a loop without end.
\<close>

definition read_log :: "bytes \<Rightarrow> log \<Rightarrow> (page \<times> bool) option" where
  "read_log cursor l =
     (let page0 = \<lparr>p_entries = [], p_next_cursor = cursor_for (l_boot l) (l_sequence l),
                   p_reset = False\<rparr>
      in if cursor = [] then
           map_option (\<lambda>es. (page0\<lparr>p_entries := es\<rparr>, False))
             (read_loop (l_entries l) (l_sequence l) (first_unread (l_sequence l) 0) [])
         else
           (case parse_cursor cursor of
              None \<Rightarrow> Some (page0, True)
            | Some (boot, sequence) \<Rightarrow>
                let reset = (boot \<noteq> l_boot l \<or> sequence > l_sequence l \<or>
                             l_sequence l - sequence > capacity);
                    after = (if reset then 0 else sequence)
                in map_option (\<lambda>es. (page0\<lparr>p_entries := es, p_reset := reset\<rparr>, False))
                     (read_loop (l_entries l) (l_sequence l) (first_unread (l_sequence l) after) [])))"

section \<open>Cursors and slots\<close>

lemma slot_less: "unat (slot n) < 1000"
  by (simp add: slot_def capacity_def unat_mod)

lemma slot_of_nat: "n < 2 ^ 64 \<Longrightarrow> unat (slot (of_nat n)) = n mod 1000"
  by (simp add: slot_def capacity_def unat_mod)

lemma slot_eq_iff:
  "m < 2 ^ 64 \<Longrightarrow> n < 2 ^ 64 \<Longrightarrow> slot (of_nat m) = slot (of_nat n) \<longleftrightarrow> m mod 1000 = n mod 1000"
  by (metis slot_of_nat word_unat_eq_iff)

lemma parse_cursor_for:
  assumes "boot \<noteq> []" and "CHR '':'' \<notin> set boot"
  shows "parse_cursor (cursor_for boot n) = Some (boot, n)"
proof -
  have "unat n < 2 ^ 64" using unat64_less [of n] by simp
  with assms show ?thesis
    by (simp add: parse_cursor_def cursor_for_def cut_append parse_uint_nat_str)
qed

lemma cursor_for_nonempty [simp]: "cursor_for boot n \<noteq> []"
  by (simp add: cursor_for_def)

lemma first_unread_of_nat:
  assumes "n < 2 ^ 64 - 1" and "a \<le> n"
  shows "first_unread (of_nat n) (of_nat a) = of_nat (max (n - 1000 + 1) (a + 1))"
proof -
  have n: "unat (of_nat n :: 64 word) = n" and a: "unat (of_nat a + 1 :: 64 word) = a + 1"
    using assms by (auto simp: unat_word_ariths)
  have "unat (max (of_nat n) (1000 :: 64 word)) = max n 1000"
    using n by (simp add: max_def word_le_nat_alt)
  then have "unat (max (of_nat n) (1000 :: 64 word) - 1000) = n - 1000"
    by (simp add: unat_sub word_le_nat_alt)
  then have m: "unat (max (of_nat n) (1000 :: 64 word) - 1000 + 1) = n - 1000 + 1"
    using assms by (subst unat_word_ariths) simp
  define k where "k = max (n - 1000 + 1) (a + 1)"
  have "unat (first_unread (of_nat n) (of_nat a)) = k"
    using m a by (simp add: first_unread_def capacity_def max_def word_le_nat_alt k_def)
  moreover have "k < 2 ^ 64" using assms by (simp add: k_def)
  ultimately have "first_unread (of_nat n) (of_nat a) = of_nat k"
    by (simp add: word_unat_eq_iff)
  then show ?thesis unfolding k_def .
qed

lemma read_loop_eq:
  assumes "n < 2 ^ 64 - 1" and "m \<le> n + 1"
  shows "read_loop f (of_nat n) (of_nat m) acc =
         Some (acc @ map (\<lambda>k. f (slot (of_nat k))) [m ..< n + 1])"
  using assms
proof (induction "n + 1 - m" arbitrary: m acc)
  case 0
  then have "m = n + 1" by simp
  then have "\<not> (of_nat m :: 64 word) \<le> of_nat n"
    using assms(1) by (simp add: word_le_nat_alt unat_word_ariths)
  with \<open>m = n + 1\<close> show ?case by (subst read_loop.simps) simp
next
  case (Suc d)
  then have m: "m \<le> n" by simp
  then have le: "(of_nat m :: 64 word) \<le> of_nat n"
    using assms(1) by (simp add: word_le_nat_alt)
  have "read_loop f (of_nat n) (of_nat (m + 1)) (acc @ [f (slot (of_nat m))]) =
        Some ((acc @ [f (slot (of_nat m))]) @ map (\<lambda>k. f (slot (of_nat k))) [m + 1 ..< n + 1])"
    using Suc m by (intro Suc.hyps(1)) auto
  with le m show ?case
    by (subst read_loop.simps) (simp add: upt_conv_Cons [of m "Suc n"] add.commute del: upt_Suc)
qed

section \<open>The contract: a history with a readable window\<close>

text \<open>
  \<open>holds boot es l\<close>: the log was started with \<open>boot\<close> and \<open>es\<close> is everything added to it so far.
  Only the newest thousand entries are still in the buffer.
\<close>

definition holds :: "bytes \<Rightarrow> entry list \<Rightarrow> log \<Rightarrow> bool" where
  "holds boot es l \<longleftrightarrow>
     boot \<noteq> [] \<and> CHR '':'' \<notin> set boot \<and> l_boot l = boot \<and> l_sequence l = of_nat (length es) \<and>
     (\<forall>n < length es. length es \<le> n + 1000 \<longrightarrow> l_entries l (slot (of_nat (n + 1))) = es ! n)"

definition entry_of :: "bytes \<Rightarrow> nat \<Rightarrow> int \<times> entry \<Rightarrow> entry" where
  "entry_of boot n x = stamp boot (of_nat (n + 1)) (fst x) (snd x)"

definition add_pair :: "int \<times> entry \<Rightarrow> log \<Rightarrow> log" where
  "add_pair x l = add_entry (fst x) (snd x) l"

text \<open>A read that neither failed nor lost its place: the entries and the cursor to read on from.\<close>

definition read_page :: "bytes \<Rightarrow> log \<Rightarrow> (entry list \<times> bytes) option" where
  "read_page cursor l =
     (case read_log cursor l of
        Some (p, False) \<Rightarrow> if p_reset p then None else Some (p_entries p, p_next_cursor p)
      | _ \<Rightarrow> None)"

definition sequence_limit :: nat where
  "sequence_limit = 2 ^ 64 - 2"

lemma holds_new: "boot \<noteq> [] \<Longrightarrow> CHR '':'' \<notin> set boot \<Longrightarrow> holds boot [] (new_log boot writes)"
  by (simp add: holds_def new_log_def)

lemma add_pair_boot [simp]: "l_boot (add_pair x l) = l_boot l"
  by (simp add: add_pair_def add_entry_def Let_def)

lemma add_pair_sequence [simp]: "l_sequence (add_pair x l) = l_sequence l + 1"
  by (simp add: add_pair_def add_entry_def Let_def)

lemma holds_add:
  assumes "holds boot es l" and "length es < sequence_limit"
  shows "holds boot (es @ [entry_of boot (length es) x]) (add_pair x l)"
proof -
  have lim: "length es + 1 < 2 ^ 64" using assms(2) by (simp add: sequence_limit_def)
  have other: "slot (of_nat (length es + 1)) \<noteq> slot (of_nat (n + 1))"
    if "n < length es" "length es < n + 1000" for n
  proof -
    have "(length es + 1) mod 1000 \<noteq> (n + 1) mod 1000"
    proof
      assume "(length es + 1) mod 1000 = (n + 1) mod 1000"
      then have "(length es - n) mod 1000 = 0"
        using that mod_eq_dvd_iff_nat [of "n + 1" "length es + 1" 1000] by simp
      with that show False by (auto dest!: dvd_imp_le simp: mod_eq_0_iff_dvd)
    qed
    with that lim show ?thesis by (subst slot_eq_iff) auto
  qed
  have "l_entries (add_pair x l) (slot (of_nat (n + 1))) = (es @ [entry_of boot (length es) x]) ! n"
    if n: "n < length es + 1" "length es < n + 1000" for n
  proof (cases "n = length es")
    case True
    with assms(1) show ?thesis
      by (simp add: holds_def add_pair_def add_entry_def entry_of_def Let_def add.commute)
  next
    case False
    with n have "n < length es" by simp
    moreover from this n have "l_entries l (slot (of_nat (n + 1))) = es ! n"
      using assms(1) by (simp add: holds_def)
    ultimately show ?thesis
      using other [of n] n assms(1)
      by (simp add: holds_def add_pair_def add_entry_def Let_def nth_append add.commute)
  qed
  then show ?thesis
    using assms(1) by (simp add: holds_def add.commute)
qed

lemma read_loop_holds:
  assumes "holds boot es l" and "length es \<le> sequence_limit" and "n \<le> length es"
  shows "read_loop (l_entries l) (l_sequence l) (first_unread (l_sequence l) (of_nat n)) [] =
         Some (drop (max n (length es - 1000)) es)"
proof -
  define k where "k = max n (length es - 1000)"
  have lim: "length es < 2 ^ 64 - 1" using assms(2) by (simp add: sequence_limit_def)
  have fu: "first_unread (of_nat (length es)) (of_nat n) = of_nat (k + 1)"
    using first_unread_of_nat [OF lim assms(3)] by (simp add: k_def max_def)
  have "read_loop (l_entries l) (of_nat (length es)) (of_nat (k + 1)) [] =
        Some (map (\<lambda>j. l_entries l (slot (of_nat j))) [k + 1 ..< length es + 1])"
    using read_loop_eq [OF lim, of "k + 1" "l_entries l" "[]"] assms(3) by (simp add: k_def)
  also have "map (\<lambda>j. l_entries l (slot (of_nat j))) [k + 1 ..< length es + 1] = drop k es"
  proof (rule nth_equalityI)
    fix i
    assume "i < length (map (\<lambda>j. l_entries l (slot (of_nat j))) [k + 1 ..< length es + 1])"
    then have i: "k + i < length es" by (simp del: upt_Suc)
    moreover have "length es \<le> k + i + 1000" by (simp add: k_def)
    ultimately have "l_entries l (slot (of_nat (k + i + 1))) = es ! (k + i)"
      using assms(1) unfolding holds_def by blast
    with i show "map (\<lambda>j. l_entries l (slot (of_nat j))) [k + 1 ..< length es + 1] ! i = drop k es ! i"
      by (simp del: upt_Suc add: add.commute add.left_commute)
  qed (simp del: upt_Suc)
  finally show ?thesis
    using assms(1) fu by (simp add: holds_def k_def)
qed

lemma read_log_holds:
  assumes "holds boot es l" and "length es \<le> sequence_limit"
    and "n \<le> length es" and "length es - n \<le> 1000"
  shows "read_log (cursor_for boot (of_nat n)) l =
         Some (\<lparr>p_entries = drop n es, p_next_cursor = cursor_for boot (of_nat (length es)),
                p_reset = False\<rparr>, False)"
proof -
  have boot: "boot \<noteq> []" "CHR '':'' \<notin> set boot" "l_boot l = boot"
    and seq: "l_sequence l = of_nat (length es)"
    using assms(1) by (auto simp: holds_def)
  have n: "unat (of_nat n :: 64 word) = n" and m: "unat (of_nat (length es) :: 64 word) = length es"
    using assms(2,3) by (auto simp: sequence_limit_def)
  have nle: "(of_nat n :: 64 word) \<le> of_nat (length es)"
    using assms(3) n m by (simp add: word_le_nat_alt)
  then have "unat (of_nat (length es) - of_nat n :: 64 word) = length es - n"
    using n m by (simp add: unat_sub)
  then have "\<not> of_nat (length es) - of_nat n > capacity"
    using assms(4) by (simp add: capacity_def word_less_nat_alt)
  moreover have "max n (length es - 1000) = n" using assms(4) by simp
  moreover have "\<not> of_nat (length es) < (of_nat n :: 64 word)" using nle by simp
  ultimately show ?thesis
    using boot seq read_loop_holds [OF assms(1-3)]
    by (simp add: read_log_def Let_def parse_cursor_for)
qed

text \<open>
  What a log that is read by cursor promises, and what a reader who polls it can rely on. \<open>follow\<close> is
  such a reader: between two polls a batch of entries is added; it returns the pages it got.
\<close>

fun follow :: "('x \<Rightarrow> 'l \<Rightarrow> 'l) \<Rightarrow> ('c \<Rightarrow> 'l \<Rightarrow> ('e list \<times> 'c) option) \<Rightarrow> 'c \<Rightarrow> 'l \<Rightarrow> 'x list list \<Rightarrow> 'e list option"
  where
  "follow add read c l [] = Some []"
| "follow add read c l (b # bs) =
     (let l' = fold add b l
      in case read c l' of
           None \<Rightarrow> None
         | Some (es, c') \<Rightarrow> map_option ((@) es) (follow add read c' l' bs))"

fun entries_from :: "(nat \<Rightarrow> 'x \<Rightarrow> 'e) \<Rightarrow> nat \<Rightarrow> 'x list \<Rightarrow> 'e list" where
  "entries_from mk n [] = []"
| "entries_from mk n (x # xs) = mk n x # entries_from mk (Suc n) xs"

lemma entries_from_append:
  "entries_from mk n (xs @ ys) = entries_from mk n xs @ entries_from mk (n + length xs) ys"
  by (induction xs arbitrary: n) auto

lemma length_entries_from [simp]: "length (entries_from mk n xs) = length xs"
  by (induction xs arbitrary: n) auto

locale retained_log =
  fixes holds :: "'e list \<Rightarrow> 'l \<Rightarrow> bool"
    and add :: "'x \<Rightarrow> 'l \<Rightarrow> 'l"
    and mk :: "nat \<Rightarrow> 'x \<Rightarrow> 'e"
    and read :: "'c \<Rightarrow> 'l \<Rightarrow> ('e list \<times> 'c) option"
    and cursor :: "nat \<Rightarrow> 'c"
    and limit :: nat
    and window :: nat
  assumes add_holds: "holds es l \<Longrightarrow> length es < limit \<Longrightarrow> holds (es @ [mk (length es) x]) (add x l)"
    and read_holds: "holds es l \<Longrightarrow> length es \<le> limit \<Longrightarrow> n \<le> length es \<Longrightarrow>
      length es - n \<le> window \<Longrightarrow> read (cursor n) l = Some (drop n es, cursor (length es))"
begin

lemma fold_add_holds:
  "holds es l \<Longrightarrow> length es + length xs \<le> limit \<Longrightarrow>
   holds (es @ entries_from mk (length es) xs) (fold add xs l)"
proof (induction xs arbitrary: es l)
  case Nil
  then show ?case by simp
next
  case (Cons x xs)
  then have "holds (es @ [mk (length es) x]) (add x l)" by (intro add_holds) auto
  from Cons.IH [OF this] Cons.prems(2) show ?case by simp
qed

lemma follow_complete:
  assumes "holds es l" and "length es + length (concat bs) \<le> limit"
    and "\<forall>b \<in> set bs. length b \<le> window"
  shows "follow add read (cursor (length es)) l bs = Some (entries_from mk (length es) (concat bs))"
  using assms
proof (induction bs arbitrary: es l)
  case Nil
  then show ?case by simp
next
  case (Cons b bs)
  define es' where "es' = es @ entries_from mk (length es) b"
  have h: "holds es' (fold add b l)"
    unfolding es'_def using Cons.prems by (intro fold_add_holds) auto
  have len: "length es' = length es + length b" by (simp add: es'_def)
  have "read (cursor (length es)) (fold add b l) = Some (drop (length es) es', cursor (length es'))"
    using Cons.prems len by (intro read_holds [OF h]) auto
  moreover have "drop (length es) es' = entries_from mk (length es) b" by (simp add: es'_def)
  moreover have "follow add read (cursor (length es')) (fold add b l) bs =
      Some (entries_from mk (length es') (concat bs))"
    using Cons.prems len by (intro Cons.IH [OF h]) auto
  ultimately show ?case by (simp add: len entries_from_append)
qed

end

interpretation activity: retained_log "holds boot" add_pair "entry_of boot" read_page
    "\<lambda>n. cursor_for boot (of_nat n)" sequence_limit 1000 for boot
  by unfold_locales (auto simp: holds_add read_page_def read_log_holds)

section \<open>Properties\<close>

text \<open>
  A cursor that cannot be honoured (of another process, from the future, or older than the buffer)
  restarts the reader: the page is marked reset and holds the newest entries, at most a thousand, in
  order, and its cursor reads on without loss.
\<close>

theorem lost_cursor_resets:
  assumes "holds boot es l" and "length es \<le> sequence_limit" and "n < 2 ^ 64"
    and "boot' \<noteq> []" and "CHR '':'' \<notin> set boot'"
    and "boot' \<noteq> boot \<or> length es < n \<or> 1000 < length es - n"
  shows "read_log (cursor_for boot' (of_nat n)) l =
         Some (\<lparr>p_entries = drop (length es - 1000) es, p_next_cursor = cursor_for boot (of_nat (length es)),
                p_reset = True\<rparr>, False)"
proof -
  have seq: "l_boot l = boot" "l_sequence l = of_nat (length es)"
    using assms(1) by (auto simp: holds_def)
  have n: "unat (of_nat n :: 64 word) = n" and m: "unat (of_nat (length es) :: 64 word) = length es"
    using assms(2,3) by (auto simp: sequence_limit_def)
  have "boot' \<noteq> boot \<or> (of_nat (length es) :: 64 word) < of_nat n \<or>
      capacity < of_nat (length es) - (of_nat n :: 64 word)"
  proof (cases "length es < n")
    case True
    then show ?thesis using n m by (simp add: word_less_nat_alt)
  next
    case False
    then have "unat (of_nat (length es) - of_nat n :: 64 word) = length es - n"
      using n m by (simp add: unat_sub word_le_nat_alt)
    with assms(6) False show ?thesis by (auto simp: capacity_def word_less_nat_alt)
  qed
  with seq show ?thesis
    using read_loop_holds [OF assms(1,2), of 0] parse_cursor_for [OF assms(4,5)]
    by (simp add: read_log_def Let_def)
qed

theorem lost_cursor_resets_witness:
  "read_log (cursor_for ''old'' (of_nat 3)) (new_log ''new'' False) =
   Some (\<lparr>p_entries = drop (length ([] :: entry list) - 1000) [],
          p_next_cursor = cursor_for ''new'' (of_nat (length ([] :: entry list))), p_reset = True\<rparr>, False)"
  by (rule lost_cursor_resets) (simp_all add: holds_new sequence_limit_def)

text \<open>
  C20. Following the log loses nothing unnoticed and repeats nothing. A reader who polls from his last cursor at least once
  per thousand new entries gets exactly the entries added since, in order, each once, for any number of polls, up to the
  largest sequence number of the counter. A reader who let more than a thousand entries pass is told so: his next
  page is marked reset, holds the newest thousand of them in order, and its cursor is the one to follow from.
\<close>

theorem follow_loses_nothing:
  assumes "holds boot es l" and "length es + length (concat batches) \<le> sequence_limit"
    and "\<forall>b \<in> set batches. length b \<le> 1000"
  shows "follow add_pair read_page (cursor_for boot (of_nat (length es))) l batches =
         Some (entries_from (entry_of boot) (length es) (concat batches)) \<and>
    (\<forall>burst. 1000 < length burst \<and> length es + length burst \<le> sequence_limit \<longrightarrow>
       read_log (cursor_for boot (of_nat (length es))) (fold add_pair burst l) =
       Some (\<lparr>p_entries = drop (length burst - 1000) (entries_from (entry_of boot) (length es) burst),
              p_next_cursor = cursor_for boot (of_nat (length es + length burst)), p_reset = True\<rparr>, False))"
proof (intro conjI allI impI)
  show "follow add_pair read_page (cursor_for boot (of_nat (length es))) l batches =
      Some (entries_from (entry_of boot) (length es) (concat batches))"
    using assms by (rule activity.follow_complete)
  fix burst :: "(int \<times> entry) list"
  assume burst: "1000 < length burst \<and> length es + length burst \<le> sequence_limit"
  have "boot \<noteq> []" "CHR '':'' \<notin> set boot" using assms(1) by (auto simp: holds_def)
  moreover have "holds boot (es @ entries_from (entry_of boot) (length es) burst) (fold add_pair burst l)"
    using activity.fold_add_holds [OF assms(1)] burst by blast
  moreover have "length es \<le> length es + length burst - 1000" using burst by linarith
  ultimately show "read_log (cursor_for boot (of_nat (length es))) (fold add_pair burst l) =
      Some (\<lparr>p_entries = drop (length burst - 1000) (entries_from (entry_of boot) (length es) burst),
             p_next_cursor = cursor_for boot (of_nat (length es + length burst)), p_reset = True\<rparr>, False)"
    using lost_cursor_resets [of boot "es @ entries_from (entry_of boot) (length es) burst" "fold add_pair burst l"
        "length es" boot] burst
    by (simp add: sequence_limit_def)
qed

theorem follow_loses_nothing_witness:
  "follow add_pair read_page (cursor_for ''b'' (of_nat (length ([] :: entry list)))) (new_log ''b'' True)
     [[(5, zero_entry)], [], [(6, zero_entry), (7, zero_entry)]] =
   Some (entries_from (entry_of ''b'') (length ([] :: entry list))
     (concat [[(5, zero_entry)], [], [(6, zero_entry), (7, zero_entry)]]))"
  by (rule follow_loses_nothing [THEN conjunct1]) (simp_all add: holds_new sequence_limit_def)

text \<open>Cursors round-trip: the cursor of a boot identifier and a sequence number parses to them.\<close>

theorem cursor_roundtrip:
  assumes "boot \<noteq> []" and "CHR '':'' \<notin> set boot"
  shows "parse_cursor (cursor_for boot n) = Some (boot, n)"
  using assms by (rule parse_cursor_for)

theorem cursor_roundtrip_witness:
  "parse_cursor (cursor_for ''K7'' 18446744073709551615) = Some (''K7'', 18446744073709551615)"
  by (rule cursor_roundtrip) simp_all

end
