(* ===== verification/GoJson.thy ===== *)
theory GoJson
  imports GoStd
begin

text \<open>
  The part of Go's \<^verbatim>\<open>encoding/json\<close> and \<^verbatim>\<open>unicode/utf8\<close> that Postie calls. The validity check
  is the scanner of the package: one step per byte, over a mode and a stack of enclosing objects and
  arrays. \<open>json_object\<close> is \<^verbatim>\<open>json.Unmarshal\<close> into a \<^verbatim>\<open>map[string]json.RawMessage\<close>:
  the values stay the bytes they were, and later code decodes them again. \<open>json_string\<close> is
  \<^verbatim>\<open>Unmarshal\<close> into a string, \<open>marshal_string\<close> and \<open>compact\<close> are what \<^verbatim>\<open>Marshal\<close>
  writes for a string and for a raw message.
\<close>

section \<open>UTF-8\<close>

definition between :: "nat \<Rightarrow> nat \<Rightarrow> nat \<Rightarrow> bool" where
  "between lo hi b \<longleftrightarrow> lo \<le> b \<and> b \<le> hi"

definition rune_error :: nat where
  "rune_error = 65533"

text \<open>\<open>utf8.DecodeRune\<close>: the rune and the number of bytes read; an invalid byte is \<open>rune_error\<close>.\<close>

definition decode2 :: "nat \<Rightarrow> bytes \<Rightarrow> nat \<times> nat" where
  "decode2 a s =
     (case s of
        b # _ \<Rightarrow>
          if between 128 191 (byte b) then ((a - 192) * 64 + (byte b - 128), 2) else (rune_error, 1)
      | _ \<Rightarrow> (rune_error, 1))"

definition decode3 :: "nat \<Rightarrow> bytes \<Rightarrow> nat \<times> nat" where
  "decode3 a s =
     (case s of
        b # c # _ \<Rightarrow>
          if between (if a = 224 then 160 else 128) (if a = 237 then 159 else 191) (byte b) \<and>
             between 128 191 (byte c)
          then ((a - 224) * 4096 + (byte b - 128) * 64 + (byte c - 128), 3) else (rune_error, 1)
      | _ \<Rightarrow> (rune_error, 1))"

definition decode4 :: "nat \<Rightarrow> bytes \<Rightarrow> nat \<times> nat" where
  "decode4 a s =
     (case s of
        b # c # d # _ \<Rightarrow>
          if between (if a = 240 then 144 else 128) (if a = 244 then 143 else 191) (byte b) \<and>
             between 128 191 (byte c) \<and> between 128 191 (byte d)
          then ((a - 240) * 262144 + (byte b - 128) * 4096 + (byte c - 128) * 64 + (byte d - 128), 4)
          else (rune_error, 1)
      | _ \<Rightarrow> (rune_error, 1))"

fun decode_rune :: "bytes \<Rightarrow> nat \<times> nat" where
  "decode_rune [] = (rune_error, 0)"
| "decode_rune (c # s) =
     (let a = byte c in
      if a < 128 then (a, 1)
      else if between 194 223 a then decode2 a s
      else if between 224 239 a then decode3 a s
      else if between 240 244 a then decode4 a s
      else (rune_error, 1))"

definition encode_rune :: "nat \<Rightarrow> bytes" where
  "encode_rune r =
     (if r < 128 then [chr r]
      else if r < 2048 then [chr (192 + r div 64), chr (128 + r mod 64)]
      else if between 55296 57343 r \<or> 1114111 < r then [chr 239, chr 191, chr 189]
      else if r < 65536 then [chr (224 + r div 4096), chr (128 + r div 64 mod 64), chr (128 + r mod 64)]
      else [chr (240 + r div 262144), chr (128 + r div 4096 mod 64),
            chr (128 + r div 64 mod 64), chr (128 + r mod 64)])"

lemma decode_size_le: "snd (decode_rune s) \<le> length s"
  by (cases s) (auto simp: Let_def decode2_def decode3_def decode4_def split: list.splits)

lemma decode_size_pos: "s \<noteq> [] \<Longrightarrow> 0 < snd (decode_rune s)"
  by (cases s) (auto simp: Let_def decode2_def decode3_def decode4_def split: list.splits)

section \<open>The scanner\<close>

datatype pstate = PObjKey | PObjVal | PArrVal

datatype mode =
    BeginValue | BeginValueOrEmpty | BeginString | BeginStringOrEmpty
  | EndValue | EndTop | InString | InEsc | InEscU nat
  | Neg | Int0 | Int1 | Dot | Frac | Exp | ExpSign | ExpDig | Lit bytes

type_synonym scan = "mode \<times> pstate list"

definition jspace :: "char \<Rightarrow> bool" where
  "jspace c \<longleftrightarrow> byte c = 32 \<or> byte c = 9 \<or> byte c = 13 \<or> byte c = 10"

definition hexchar :: "char \<Rightarrow> bool" where
  "hexchar c \<longleftrightarrow> between 48 57 (byte c) \<or> between 97 102 (byte c) \<or> between 65 70 (byte c)"

definition max_nesting :: nat where
  "max_nesting = 10000"

definition push :: "pstate \<Rightarrow> pstate list \<Rightarrow> mode \<Rightarrow> scan option" where
  "push p stk m = (if length stk < max_nesting then Some (m, p # stk) else None)"

definition pop :: "pstate list \<Rightarrow> scan option" where
  "pop stk = Some (if tl stk = [] then (EndTop, []) else (EndValue, tl stk))"

definition begin_value :: "pstate list \<Rightarrow> char \<Rightarrow> scan option" where
  "begin_value stk c =
     (if jspace c then Some (BeginValue, stk)
      else if c = CHR ''{'' then push PObjKey stk BeginStringOrEmpty
      else if c = CHR ''['' then push PArrVal stk BeginValueOrEmpty
      else if c = CHR 0x22 then Some (InString, stk)
      else if c = CHR ''-'' then Some (Neg, stk)
      else if c = CHR ''0'' then Some (Int0, stk)
      else if c = CHR ''t'' then Some (Lit ''rue'', stk)
      else if c = CHR ''f'' then Some (Lit ''alse'', stk)
      else if c = CHR ''n'' then Some (Lit ''ull'', stk)
      else if is_digit c then Some (Int1, stk)
      else None)"

definition begin_string :: "pstate list \<Rightarrow> char \<Rightarrow> scan option" where
  "begin_string stk c =
     (if jspace c then Some (BeginString, stk)
      else if c = CHR 0x22 then Some (InString, stk) else None)"

fun end_value :: "pstate list \<Rightarrow> char \<Rightarrow> scan option" where
  "end_value [] c = (if jspace c then Some (EndTop, []) else None)"
| "end_value (p # stk) c =
     (if jspace c then Some (EndValue, p # stk)
      else (case p of
              PObjKey \<Rightarrow> if c = CHR '':'' then Some (BeginValue, PObjVal # stk) else None
            | PObjVal \<Rightarrow>
                if c = CHR '','' then Some (BeginString, PObjKey # stk)
                else if c = CHR ''}'' then pop (p # stk) else None
            | PArrVal \<Rightarrow>
                if c = CHR '','' then Some (BeginValue, p # stk)
                else if c = CHR '']'' then pop (p # stk) else None))"

definition escapable :: "char \<Rightarrow> bool" where
  "escapable c \<longleftrightarrow> c \<in> set ''bfnrt/'' \<or> c = CHR 0x5C \<or> c = CHR 0x22"

fun jstep :: "scan \<Rightarrow> char \<Rightarrow> scan option" where
  "jstep (BeginValue, stk) c = begin_value stk c"
| "jstep (BeginValueOrEmpty, stk) c =
     (if jspace c then Some (BeginValueOrEmpty, stk)
      else if c = CHR '']'' then end_value stk c else begin_value stk c)"
| "jstep (BeginString, stk) c = begin_string stk c"
| "jstep (BeginStringOrEmpty, stk) c =
     (if jspace c then Some (BeginStringOrEmpty, stk)
      else if c = CHR ''}'' then end_value (PObjVal # tl stk) c else begin_string stk c)"
| "jstep (EndValue, stk) c = end_value stk c"
| "jstep (EndTop, stk) c = (if jspace c then Some (EndTop, stk) else None)"
| "jstep (InString, stk) c =
     (if c = CHR 0x22 then Some (EndValue, stk)
      else if c = CHR 0x5C then Some (InEsc, stk)
      else if byte c < 32 then None else Some (InString, stk))"
| "jstep (InEsc, stk) c =
     (if escapable c then Some (InString, stk)
      else if c = CHR ''u'' then Some (InEscU 3, stk) else None)"
| "jstep (InEscU n, stk) c =
     (if hexchar c then Some (if n = 0 then InString else InEscU (n - 1), stk) else None)"
| "jstep (Neg, stk) c =
     (if c = CHR ''0'' then Some (Int0, stk) else if is_digit c then Some (Int1, stk) else None)"
| "jstep (Int1, stk) c =
     (if is_digit c then Some (Int1, stk)
      else if c = CHR ''.'' then Some (Dot, stk)
      else if c = CHR ''e'' \<or> c = CHR ''E'' then Some (Exp, stk) else end_value stk c)"
| "jstep (Int0, stk) c =
     (if c = CHR ''.'' then Some (Dot, stk)
      else if c = CHR ''e'' \<or> c = CHR ''E'' then Some (Exp, stk) else end_value stk c)"
| "jstep (Dot, stk) c = (if is_digit c then Some (Frac, stk) else None)"
| "jstep (Frac, stk) c =
     (if is_digit c then Some (Frac, stk)
      else if c = CHR ''e'' \<or> c = CHR ''E'' then Some (Exp, stk) else end_value stk c)"
| "jstep (Exp, stk) c =
     (if c = CHR ''+'' \<or> c = CHR ''-'' then Some (ExpSign, stk)
      else if is_digit c then Some (ExpDig, stk) else None)"
| "jstep (ExpSign, stk) c = (if is_digit c then Some (ExpDig, stk) else None)"
| "jstep (ExpDig, stk) c = (if is_digit c then Some (ExpDig, stk) else end_value stk c)"
| "jstep (Lit [], stk) c = None"
| "jstep (Lit (d # ds), stk) c =
     (if c = d then Some (if ds = [] then EndValue else Lit ds, stk) else None)"

fun jrun :: "scan \<Rightarrow> bytes \<Rightarrow> scan option" where
  "jrun st [] = Some st"
| "jrun st (c # s) = (case jstep st c of None \<Rightarrow> None | Some st' \<Rightarrow> jrun st' s)"

abbreviation jstart :: scan where
  "jstart \<equiv> (BeginValue, [])"

text \<open>The scanner's \<^verbatim>\<open>eof\<close>: complete already, or completed by a space.\<close>

definition jended :: "scan \<Rightarrow> bool" where
  "jended st \<longleftrightarrow> fst st = EndTop \<or> (case jstep st (CHR '' '') of Some (EndTop, _) \<Rightarrow> True | _ \<Rightarrow> False)"

definition json_valid :: "bytes \<Rightarrow> bool" where
  "json_valid s = (case jrun jstart s of None \<Rightarrow> False | Some st \<Rightarrow> jended st)"

lemma jrun_append:
  "jrun st (s @ t) = (case jrun st s of None \<Rightarrow> None | Some st' \<Rightarrow> jrun st' t)"
  by (induction st s rule: jrun.induct) (auto split: option.splits)

lemma jrun_append_Some: "jrun st s = Some st' \<Longrightarrow> jrun st (s @ t) = jrun st' t"
  by (simp add: jrun_append)

section \<open>Decoding\<close>

definition trim_json :: "bytes \<Rightarrow> bytes" where
  "trim_json s = rev (dropWhile jspace (rev (dropWhile jspace s)))"

definition hexval :: "char \<Rightarrow> nat" where
  "hexval c = (if byte c < 65 then byte c - 48 else if byte c < 97 then byte c - 55 else byte c - 87)"

text \<open>\<open>getu4\<close> reads the four digits of \<^verbatim>\<open>\uXXXX\<close> after the \<^verbatim>\<open>u\<close>.\<close>

definition getu4 :: "bytes \<Rightarrow> nat option" where
  "getu4 s =
     (case s of
        a # b # c # d # _ \<Rightarrow>
          if hexchar a \<and> hexchar b \<and> hexchar c \<and> hexchar d
          then Some (hexval a * 4096 + hexval b * 256 + hexval c * 16 + hexval d) else None
      | _ \<Rightarrow> None)"

definition unescape :: "char \<Rightarrow> char" where
  "unescape e =
     (if e = CHR ''b'' then chr 8 else if e = CHR ''f'' then chr 12
      else if e = CHR ''n'' then chr 10 else if e = CHR ''r'' then chr 13
      else if e = CHR ''t'' then chr 9 else e)"

definition low_surrogate_after :: "bytes \<Rightarrow> nat option" where
  "low_surrogate_after s =
     (case s of
        b # u # r \<Rightarrow>
          if b = CHR 0x5C \<and> u = CHR ''u'' then
            (case getu4 r of Some v \<Rightarrow> if between 56320 57343 v then Some v else None | None \<Rightarrow> None)
          else None
      | _ \<Rightarrow> None)"

text \<open>The bytes a string literal stands for, given what is between its quotes.\<close>

function unquote_body :: "bytes \<Rightarrow> bytes" where
  "unquote_body [] = []"
| "unquote_body (c # s) =
     (if c = CHR 0x5C then
        (case s of
           [] \<Rightarrow> []
         | e # r \<Rightarrow>
             if e = CHR ''u'' then
               (case getu4 r of
                  None \<Rightarrow> []
                | Some v \<Rightarrow>
                    if between 55296 56319 v then
                      (case low_surrogate_after (drop 4 r) of
                         Some w \<Rightarrow>
                           encode_rune ((v - 55296) * 1024 + (w - 56320) + 65536) @
                           unquote_body (drop 10 r)
                       | None \<Rightarrow> encode_rune rune_error @ unquote_body (drop 4 r))
                    else encode_rune v @ unquote_body (drop 4 r))
             else unescape e # unquote_body r)
      else if byte c < 128 then c # unquote_body s
      else encode_rune (fst (decode_rune (c # s))) @
           unquote_body (drop (snd (decode_rune (c # s)) - 1) s))"
  by pat_completeness auto
termination
  by (relation "measure length") auto

declare unquote_body.simps [simp del]

definition unquote :: "bytes \<Rightarrow> bytes" where
  "unquote s = unquote_body (butlast (tl s))"

text \<open>
  The members of an object, as raw bytes: the scanner at nesting depth one separates key from value
  at the colon and member from member at the comma.
\<close>

fun split_object :: "scan \<Rightarrow> bytes \<Rightarrow> bytes \<Rightarrow> bytes \<Rightarrow> (bytes \<times> bytes) list" where
  "split_object st key cur [] = []"
| "split_object st key cur (c # s) =
     (case jstep st c of
        None \<Rightarrow> []
      | Some st' \<Rightarrow>
          if snd st = [] then split_object st' [] [] s
          else if snd st = [PObjKey] \<and> snd st' = [PObjVal] then split_object st' cur [] s
          else if snd st = [PObjVal] \<and> snd st' = [PObjKey] then (key, cur) # split_object st' [] [] s
          else if snd st = [PObjVal] \<and> snd st' = [] then [(key, cur)]
          else split_object st' key (cur @ [c]) s)"

definition json_members :: "bytes \<Rightarrow> (bytes \<times> bytes) list" where
  "json_members s =
     map (\<lambda>(k, v). (unquote (trim_json k), trim_json v)) (split_object jstart [] [] s)"

datatype json_kind = JNull | JBool | JNumber | JString | JArray | JObject

definition json_kind_of :: "bytes \<Rightarrow> json_kind" where
  "json_kind_of s =
     (case trim_json s of
        [] \<Rightarrow> JNull
      | c # _ \<Rightarrow>
          if c = CHR ''{'' then JObject else if c = CHR ''['' then JArray
          else if c = CHR 0x22 then JString else if c = CHR ''n'' then JNull
          else if c = CHR ''t'' \<or> c = CHR ''f'' then JBool else JNumber)"

text \<open>
  \<^verbatim>\<open>Unmarshal\<close> into a \<^verbatim>\<open>map[string]json.RawMessage\<close>: \<open>None\<close> is the error, \<open>Some None\<close>
  the nil map that \<^verbatim>\<open>null\<close> leaves. The members are in the order written; \<open>member\<close> reads the map
  they make, in which the last of two equal keys wins.
\<close>

definition json_object :: "bytes \<Rightarrow> (bytes \<times> bytes) list option option" where
  "json_object s =
     (if \<not> json_valid s then None
      else if json_kind_of s = JObject then Some (Some (json_members s))
      else if json_kind_of s = JNull then Some None else None)"

definition member :: "(bytes \<times> bytes) list \<Rightarrow> bytes \<Rightarrow> bytes option" where
  "member ms k = map_of (rev ms) k"

text \<open>\<^verbatim>\<open>Unmarshal\<close> into a \<^verbatim>\<open>*string\<close>, and into a \<^verbatim>\<open>string\<close>, which \<^verbatim>\<open>null\<close> leaves empty.\<close>

definition json_string_ptr :: "bytes \<Rightarrow> bytes option option" where
  "json_string_ptr s =
     (if \<not> json_valid s then None
      else if json_kind_of s = JString then Some (Some (unquote (trim_json s)))
      else if json_kind_of s = JNull then Some None else None)"

definition json_string :: "bytes \<Rightarrow> bytes option" where
  "json_string s = map_option (\<lambda>v. case v of None \<Rightarrow> [] | Some t \<Rightarrow> t) (json_string_ptr s)"

section \<open>Encoding\<close>

definition u00 :: "nat \<Rightarrow> bytes" where
  "u00 b = CHR 0x5C # ''u00'' @ hex2 b"

definition marshal_ascii :: "char \<Rightarrow> bytes" where
  "marshal_ascii c =
     (if byte c = 34 \<or> byte c = 92 then [CHR 0x5C, c]
      else if byte c = 8 then CHR 0x5C # ''b'' else if byte c = 12 then CHR 0x5C # ''f''
      else if byte c = 10 then CHR 0x5C # ''n'' else if byte c = 13 then CHR 0x5C # ''r''
      else if byte c = 9 then CHR 0x5C # ''t''
      else if byte c < 32 \<or> byte c = 60 \<or> byte c = 62 \<or> byte c = 38 then u00 (byte c)
      else [c])"

function marshal_body :: "bytes \<Rightarrow> bytes" where
  "marshal_body [] = []"
| "marshal_body (c # s) =
     (if byte c < 128 then marshal_ascii c @ marshal_body s
      else
        let r = fst (decode_rune (c # s)); n = snd (decode_rune (c # s)); rest = drop (n - 1) s
        in if r = rune_error \<and> n = 1 then (CHR 0x5C # ''ufffd'') @ marshal_body rest
           else if r = 8232 then (CHR 0x5C # ''u2028'') @ marshal_body rest
           else if r = 8233 then (CHR 0x5C # ''u2029'') @ marshal_body rest
           else take n (c # s) @ marshal_body rest)"
  by pat_completeness auto
termination
  by (relation "measure length") auto

declare marshal_body.simps [simp del]

definition marshal_string :: "bytes \<Rightarrow> bytes" where
  "marshal_string s = CHR 0x22 # marshal_body s @ [CHR 0x22]"

fun in_string :: "mode \<Rightarrow> bool" where
  "in_string InString = True"
| "in_string InEsc = True"
| "in_string (InEscU n) = True"
| "in_string m = False"

text \<open>
  \<open>compact esc s\<close> removes the white space between tokens; \<open>esc\<close> also escapes the characters
  \<^verbatim>\<open>Marshal\<close> escapes for HTML. \<open>None\<close> when \<open>s\<close> is not one JSON value.
\<close>

fun compact_from :: "bool \<Rightarrow> scan \<Rightarrow> nat \<Rightarrow> bytes \<Rightarrow> bytes option" where
  "compact_from esc st skip [] = (if jended st then Some [] else None)"
| "compact_from esc st skip (c # s) =
     (case jstep st c of
        None \<Rightarrow> None
      | Some st' \<Rightarrow>
          let out = (if 0 < skip then []
                     else if esc \<and> (byte c = 60 \<or> byte c = 62 \<or> byte c = 38) then u00 (byte c)
                     else if esc \<and> byte c = 226 \<and> take 1 s = [chr 128] \<and>
                             (take 1 (drop 1 s) = [chr 168] \<or> take 1 (drop 1 s) = [chr 169])
                     then CHR 0x5C # ''u202'' @ [hex_digit (byte (hd (drop 1 s)) - 160)]
                     else if jspace c \<and> \<not> in_string (fst st) then [] else [c]);
              skip' = (if 0 < skip then skip - 1
                       else if esc \<and> byte c = 226 \<and> take 1 s = [chr 128] \<and>
                               (take 1 (drop 1 s) = [chr 168] \<or> take 1 (drop 1 s) = [chr 169])
                       then 2 else 0)
          in map_option ((@) out) (compact_from esc st' skip' s))"

definition compact :: "bool \<Rightarrow> bytes \<Rightarrow> bytes option" where
  "compact esc s = compact_from esc jstart 0 s"

section \<open>Numbers\<close>

text \<open>
  \<^verbatim>\<open>strconv.ParseFloat\<close> of a JSON number fails only when the value rounds to infinity. \<open>number_parts\<close>
  is the literal as digits times a power of ten; like \<^verbatim>\<open>ParseFloat\<close> it stops reading exponent digits
  once the exponent has reached 10000. \<open>float_limit\<close> is half a unit above the largest finite value.
\<close>

definition exponent_val :: "bytes \<Rightarrow> nat" where
  "exponent_val s = foldl (\<lambda>e c. if e < 10000 then 10 * e + digit_val c else e) 0 s"

definition signed_exponent :: "bytes \<Rightarrow> int" where
  "signed_exponent s =
     (case s of
        [] \<Rightarrow> 0
      | c # r \<Rightarrow>
          if c = CHR ''-'' then - int (exponent_val r)
          else if c = CHR ''+'' then int (exponent_val r) else int (exponent_val s))"

definition is_exp_char :: "char \<Rightarrow> bool" where
  "is_exp_char c \<longleftrightarrow> c = CHR ''e'' \<or> c = CHR ''E''"

definition number_parts :: "bytes \<Rightarrow> nat \<times> int" where
  "number_parts s =
     (let u = trim_prefix s ''-'';
          m = takeWhile (\<lambda>c. \<not> is_exp_char c) u;
          ex = tl (dropWhile (\<lambda>c. \<not> is_exp_char c) u);
          ip = takeWhile (\<lambda>c. c \<noteq> CHR ''.'') m;
          fp = tl (dropWhile (\<lambda>c. c \<noteq> CHR ''.'') m)
      in (digits_val (ip @ fp), signed_exponent ex - int (length fp)))"

definition float_limit :: "nat \<Rightarrow> nat" where
  "float_limit bits = (if bits = 32 then 2 ^ 128 - 2 ^ 103 else 2 ^ 1024 - 2 ^ 970)"

definition float_fits :: "nat \<Rightarrow> bytes \<Rightarrow> bool" where
  "float_fits bits s =
     (case number_parts s of
        (m, e) \<Rightarrow>
          m = 0 \<or>
          (if 0 \<le> e then e < 400 \<and> m * 10 ^ nat e < float_limit bits
           else m < float_limit bits * 10 ^ nat (- e)))"

definition number_mode :: "mode \<Rightarrow> bool" where
  "number_mode m \<longleftrightarrow> m \<in> set [Neg, Int0, Int1, Dot, Frac, Exp, ExpSign, ExpDig]"

text \<open>The number literals of a JSON text, in order.\<close>

fun json_numbers :: "scan \<Rightarrow> bytes \<Rightarrow> bytes \<Rightarrow> bytes list" where
  "json_numbers st cur [] = (if cur = [] then [] else [cur])"
| "json_numbers st cur (c # s) =
     (case jstep st c of
        None \<Rightarrow> []
      | Some st' \<Rightarrow>
          if number_mode (fst st') then json_numbers st' (cur @ [c]) s
          else if cur = [] then json_numbers st' [] s
          else cur # json_numbers st' [] s)"

text \<open>
  \<^verbatim>\<open>Unmarshal\<close> into a \<^verbatim>\<open>map[string]any\<close> decodes every number below it as a float64, so one that is
  out of range is an error.
\<close>

definition json_any_object :: "bytes \<Rightarrow> (bytes \<times> bytes) list option option" where
  "json_any_object s =
     (case json_object s of
        Some (Some ms) \<Rightarrow>
          if list_all (float_fits 64) (json_numbers jstart [] s) then Some (Some ms) else None
      | r \<Rightarrow> r)"

section \<open>Struct fields\<close>

text \<open>
  A struct field takes the keys that equal its name up to case folding; besides the letters of the other
  case these are the long s and the Kelvin sign.
\<close>

fun fold_key :: "bytes \<Rightarrow> bytes" where
  "fold_key [] = []"
| "fold_key (c # s) =
     (if between 97 122 (byte c) then chr (byte c - 32) # fold_key s
      else if byte c = 197 \<and> take 1 s = [chr 191] then CHR ''S'' # fold_key (drop 1 s)
      else if byte c = 226 \<and> take 2 s = [chr 132, chr 170] then CHR ''K'' # fold_key (drop 2 s)
      else c # fold_key s)"

definition field_matches :: "bytes \<Rightarrow> bytes \<Rightarrow> bool" where
  "field_matches name key \<longleftrightarrow> fold_key key = fold_key name"

text \<open>
  A \<^verbatim>\<open>*string\<close> field: every matching member sets it, in the order written; \<^verbatim>\<open>null\<close> clears it and a
  value of another type is an error that the whole decoding reports (\<open>None\<close>).
\<close>

fun string_field :: "bytes \<Rightarrow> (bytes \<times> bytes) list \<Rightarrow> bytes option \<Rightarrow> bytes option option" where
  "string_field name [] v = Some v"
| "string_field name ((k, raw) # ms) v =
     (if field_matches name k then
        (case json_string_ptr raw of
           None \<Rightarrow> None
         | Some v' \<Rightarrow> string_field name ms v')
      else string_field name ms v)"

text \<open>
  A \<^verbatim>\<open>map[string]json.RawMessage\<close> field: an object is merged into the map, \<^verbatim>\<open>null\<close> makes it nil.
\<close>

fun object_field :: "bytes \<Rightarrow> (bytes \<times> bytes) list \<Rightarrow> (bytes \<times> bytes) list \<Rightarrow> (bytes \<times> bytes) list option"
  where
  "object_field name [] acc = Some acc"
| "object_field name ((k, raw) # ms) acc =
     (if field_matches name k then
        (case json_object raw of
           None \<Rightarrow> None
         | Some None \<Rightarrow> object_field name ms []
         | Some (Some new) \<Rightarrow> object_field name ms (acc @ new))
      else object_field name ms acc)"

end
