(* ===== verification/Protocol.thy ===== *)
theory Protocol
  imports GoJson
begin

text \<open>
  \<^verbatim>\<open>internal/protocol/protocol.go\<close>: the answer of a destination, the envelope sent to it and the
  payload filter. JSON stays bytes until the code decodes it, so every malformed answer is an input of
  \<open>decode_acknowledgement\<close>.
\<close>

section \<open>Acknowledgements\<close>

datatype acknowledgement = Retry | Success | KeepGoing

definition is_success :: "bytes \<Rightarrow> bool" where
  "is_success raw \<longleftrightarrow> (case json_any_object raw of Some (Some _) \<Rightarrow> True | _ \<Rightarrow> False)"

text \<open>The structured error, with the \<^verbatim>\<open>ok\<close> result as \<open>Some\<close>.\<close>

definition error_fields :: "bytes \<Rightarrow> (bytes \<times> bytes \<times> bytes) option" where
  "error_fields raw =
     (case json_object raw of
        Some (Some ms) \<Rightarrow>
          (case (string_field ''policy'' ms None, string_field ''class'' ms None,
                 string_field ''description'' ms None) of
             (Some (Some p), Some (Some c), Some (Some d)) \<Rightarrow> Some (p, c, d)
           | _ \<Rightarrow> None)
      | _ \<Rightarrow> None)"

definition error_policy :: "bytes \<Rightarrow> acknowledgement option" where
  "error_policy raw =
     (case error_fields raw of
        None \<Rightarrow> None
      | Some (policy, class, description) \<Rightarrow>
          if policy = ''must_retry'' then Some Retry
          else if policy = ''keep_going'' then Some KeepGoing else None)"

text \<open>The \<^verbatim>\<open>result\<close> member of the body, empty where it is missing or null; \<open>None\<close> is a decoding error.\<close>

definition decode_result :: "bytes \<Rightarrow> (bytes \<times> bytes) list option" where
  "decode_result body =
     (case json_object body of
        None \<Rightarrow> None
      | Some None \<Rightarrow> Some []
      | Some (Some ms) \<Rightarrow> object_field ''result'' ms [])"

definition raw_member :: "(bytes \<times> bytes) list \<Rightarrow> bytes \<Rightarrow> bytes" where
  "raw_member ms k = (case member ms k of None \<Rightarrow> [] | Some raw \<Rightarrow> raw)"

text \<open>\<open>DecodeAcknowledgement\<close>: \<open>None\<close> is Retry with an error.\<close>

definition decode_acknowledgement :: "bytes \<Rightarrow> acknowledgement option" where
  "decode_acknowledgement body =
     (case decode_result body of
        None \<Rightarrow> None
      | Some result \<Rightarrow>
          if is_success (raw_member result ''success'') then Some Success
          else error_policy (raw_member result ''error''))"

section \<open>Envelopes\<close>

record envelope =
  env_source_id :: bytes
  env_source_description :: bytes
  env_destination_id :: bytes
  env_destination_description :: bytes
  env_payload :: bytes

text \<open>\<^verbatim>\<open>json.Marshal\<close> of an envelope; \<open>None\<close> when the payload is not JSON.\<close>

definition marshal_field :: "bytes \<Rightarrow> bytes \<Rightarrow> bytes" where
  "marshal_field name value = marshal_string name @ CHR '':'' # value"

definition marshal_envelope :: "envelope \<Rightarrow> bytes option" where
  "marshal_envelope e =
     map_option
       (\<lambda>payload.
          ''{'' @ join '',''
            [marshal_field ''data_source_id'' (marshal_string (env_source_id e)),
             marshal_field ''data_source_description'' (marshal_string (env_source_description e)),
             marshal_field ''data_destination_id'' (marshal_string (env_destination_id e)),
             marshal_field ''data_destination_description''
               (marshal_string (env_destination_description e)),
             marshal_field ''payload'' payload] @ ''}'')
       (compact True (env_payload e))"

section \<open>Filters\<close>

record filter =
  flt_column :: bytes
  flt_values :: "bytes list"

definition matches_filter :: "filter option \<Rightarrow> bytes \<Rightarrow> bool" where
  "matches_filter f payload =
     (case f of
        None \<Rightarrow> True
      | Some flt \<Rightarrow>
          (case json_object payload of
             None \<Rightarrow> True
           | Some None \<Rightarrow> True
           | Some (Some ms) \<Rightarrow>
               (case member ms (flt_column flt) of
                  None \<Rightarrow> True
                | Some raw \<Rightarrow>
                    (case json_string_ptr raw of
                       None \<Rightarrow> True
                     | Some None \<Rightarrow> True
                     | Some (Some value) \<Rightarrow> value \<in> set (flt_values flt)))))"

section \<open>What an answer can do\<close>

lemma is_success_object: "is_success raw \<Longrightarrow> json_valid raw \<and> json_kind_of raw = JObject"
  by (auto simp: is_success_def json_any_object_def json_object_def split: option.splits if_splits)

lemma not_success_empty [simp]: "\<not> is_success []"
  using is_success_object [of "[]"] by (auto simp: json_valid_def jended_def begin_value_def jspace_def)

lemma error_policy_empty [simp]: "error_policy [] = None"
  by (simp add: error_policy_def error_fields_def json_object_def json_valid_def jended_def
      begin_value_def jspace_def)

lemma error_policy_SomeD:
  "error_policy raw = Some a \<Longrightarrow>
   \<exists>p c d. error_fields raw = Some (p, c, d) \<and>
     (a = Retry \<and> p = ''must_retry'' \<or> a = KeepGoing \<and> p = ''keep_going'')"
  by (auto simp: error_policy_def split: option.splits if_splits)

lemma decode_success_iff:
  "decode_acknowledgement body = Some Success \<longleftrightarrow>
   (\<exists>result. decode_result body = Some result \<and> is_success (raw_member result ''success''))"
  by (auto simp: decode_acknowledgement_def dest!: error_policy_SomeD split: option.splits)

lemma decode_result_valid: "decode_result body = Some result \<Longrightarrow> json_valid body"
  by (auto simp: decode_result_def json_object_def split: if_splits)

lemma matches_filter_False_iff:
  "\<not> matches_filter f payload \<longleftrightarrow>
   (\<exists>flt ms raw value. f = Some flt \<and> json_object payload = Some (Some ms) \<and>
      member ms (flt_column flt) = Some raw \<and> json_string_ptr raw = Some (Some value) \<and>
      value \<notin> set (flt_values flt))"
  by (auto simp: matches_filter_def split: option.splits)

section \<open>Properties\<close>

text \<open>
  Nothing but an explicit request makes Postie give up on a record: \<^verbatim>\<open>KeepGoing\<close> is decoded only from a
  valid JSON body whose result has no success object and whose error is a complete structured error with
  the policy \<^verbatim>\<open>keep_going\<close>. Every other body is a success, a retry or a decoding error, which is a retry.
\<close>

theorem keep_going_is_explicit:
  "decode_acknowledgement body = Some KeepGoing \<longleftrightarrow>
   (\<exists>result class description. json_valid body \<and> decode_result body = Some result \<and>
      \<not> is_success (raw_member result ''success'') \<and>
      error_fields (raw_member result ''error'') = Some (''keep_going'', class, description))"
  (is "_ \<longleftrightarrow> ?explicit")
proof
  assume run: "decode_acknowledgement body = Some KeepGoing"
  then obtain result where result: "decode_result body = Some result"
    "\<not> is_success (raw_member result ''success'')" "error_policy (raw_member result ''error'') = Some KeepGoing"
    by (auto simp: decode_acknowledgement_def split: option.splits if_splits)
  with error_policy_SomeD [OF result(3)] decode_result_valid [OF result(1)] show ?explicit by auto
qed (auto simp: decode_acknowledgement_def error_policy_def)

text \<open>
  A success wins over an error in the same answer: when the result has a success object, the answer is
  \<^verbatim>\<open>Success\<close> whatever the error says, and no other answer is.
\<close>

lemma success_wins:
  "decode_acknowledgement body = Some Success \<longleftrightarrow>
   (\<exists>result. decode_result body = Some result \<and>
      (\<exists>ms. json_any_object (raw_member result ''success'') = Some (Some ms)))"
proof -
  have "is_success raw \<longleftrightarrow> (\<exists>ms. json_any_object raw = Some (Some ms))" for raw
    by (auto simp: is_success_def split: option.splits)
  then show ?thesis by (simp add: decode_success_iff)
qed

text \<open>
  A filter never drops what it cannot read: it rejects a payload only when that is a JSON object whose
  column is a string, and the string is not among the filter's values.
\<close>

theorem filter_fails_open:
  "\<not> matches_filter f payload \<longleftrightarrow>
   (\<exists>flt ms raw value. f = Some flt \<and> json_object payload = Some (Some ms) \<and>
      member ms (flt_column flt) = Some raw \<and> json_string_ptr raw = Some (Some value) \<and>
      value \<notin> set (flt_values flt))"
  by (rule matches_filter_False_iff)

end
