(* ===== verification/Delivery.thy ===== *)
theory Delivery
  imports StreamModel Activity Protocol "HOL-Library.Signed_Division"
begin

text \<open>
  \<^verbatim>\<open>internal/delivery\<close>: one record from the broker to one destination (\<^verbatim>\<open>processor.go\<close> and
  \<^verbatim>\<open>worker.go\<close>).

  Everything the code calls (contexts, the sender, the skip store, the dispatch gate, the commit
  function, the activity log) is an operation on a world \<open>'w\<close>, as the interfaces of the source are.
  The loops that end only with a terminal outcome or a cancelled context are programs with fuel
  (theory Prelude); \<open>retry_returns\<close> and \<open>attempts_return\<close> give the fuel that is enough.
\<close>

section \<open>Contexts and retries\<close>

text \<open>
  A context reports whether it has ended; \<open>ctx_wait\<close> waits for a timer and is \<open>True\<close> when the timer
  fired before the context ended.
\<close>

type_synonym duration = "64 word"

record 'w go_context =
  ctx_err :: "'w \<Rightarrow> go_error option"
  ctx_wait :: "duration \<Rightarrow> 'w \<Rightarrow> bool \<times> 'w"

definition second :: duration where
  "second = 1000000000"

definition store_retry_delay :: duration where
  "store_retry_delay = second"

definition ctx_sleep :: "'w go_context \<Rightarrow> duration \<Rightarrow> 'w \<Rightarrow> go_error option \<times> 'w" where
  "ctx_sleep c delay w =
     (case ctx_wait c delay w of
        (True, w') \<Rightarrow> (None, w')
      | (False, w') \<Rightarrow> (ctx_err c w', w'))"

fun retry :: "nat \<Rightarrow> 'w go_context \<Rightarrow> duration \<Rightarrow> ('w \<Rightarrow> go_error option \<times> 'w) \<Rightarrow>
    ('w, go_error option) prog" where
  "retry 0 c delay fn w = (None, w)"
| "retry (Suc fuel) c delay fn w =
     (case ctx_err c w of
        Some e \<Rightarrow> (Some (Some e), w)
      | None \<Rightarrow>
          (case fn w of
             (None, w1) \<Rightarrow> (Some None, w1)
           | (Some _, w1) \<Rightarrow>
               (case ctx_sleep c delay w1 of
                  (Some e, w2) \<Rightarrow> (Some (Some e), w2)
                | (None, w2) \<Rightarrow> retry fuel c delay fn w2)))"

section \<open>Backoff\<close>

definition smin :: "duration \<Rightarrow> duration \<Rightarrow> duration" where
  "smin a b = (if sint b < sint a then b else a)"

definition smax :: "duration \<Rightarrow> duration \<Rightarrow> duration" where
  "smax a b = (if sint a < sint b then b else a)"

text \<open>Go divides by truncation; \<open>half\<close> is \<^verbatim>\<open>d/2\<close> on the signed value.\<close>

definition half :: "duration \<Rightarrow> duration" where
  "half d = word_of_int (sint d sdiv 2)"

text \<open>\<open>jitter n\<close> draws a number below \<open>n\<close> from the world.\<close>

definition backoff :: "nat \<Rightarrow> (duration \<Rightarrow> 'w \<Rightarrow> duration \<times> 'w) \<Rightarrow> 'w \<Rightarrow> duration \<times> 'w" where
  "backoff attempt jitter w =
     (let ceiling = push_bit (min attempt 6) second
      in case jitter (half ceiling + 1) w of
           (j, w') \<Rightarrow>
             let delay = half ceiling + j
             in (smin (smax delay second) (60 * second), w'))"

section \<open>The processor\<close>

datatype outcome = Delivered | Filtered | Skipped

fun outcome_string :: "outcome \<Rightarrow> bytes" where
  "outcome_string Delivered = ''delivered''"
| "outcome_string Filtered = ''filtered''"
| "outcome_string Skipped = ''skipped''"

record destination =
  dst_id :: bytes
  dst_description :: bytes
  dst_filter :: "Protocol.filter option"

record 'w processor =
  pr_send :: "stream_record \<Rightarrow> bytes \<Rightarrow> 'w \<Rightarrow> (go_error + outcome) \<times> 'w"
  pr_destination :: destination
  pr_sleep :: "duration \<Rightarrow> 'w \<Rightarrow> go_error option \<times> 'w"
  pr_jitter :: "duration \<Rightarrow> 'w \<Rightarrow> duration \<times> 'w"

definition new_processor :: "destination \<Rightarrow> (stream_record \<Rightarrow> bytes \<Rightarrow> 'w \<Rightarrow> (go_error + outcome) \<times> 'w) \<Rightarrow>
    'w go_context \<Rightarrow> (duration \<Rightarrow> 'w \<Rightarrow> duration \<times> 'w) \<Rightarrow> 'w processor" where
  "new_processor destination sender c rand =
     \<lparr>pr_send = sender, pr_destination = destination, pr_sleep = ctx_sleep c, pr_jitter = rand\<rparr>"

definition envelope_for :: "stream_record \<Rightarrow> destination \<Rightarrow> envelope" where
  "envelope_for r d =
     \<lparr>env_source_id = src_id (rec_source r), env_source_description = src_description (rec_source r),
      env_destination_id = dst_id d, env_destination_description = dst_description d,
      env_payload = rec_payload r\<rparr>"

definition result_error :: "go_error + 'a \<Rightarrow> go_error option" where
  "result_error res = (case res of Inl e \<Rightarrow> Some e | Inr _ \<Rightarrow> None)"

text \<open>\<open>on_attempt\<close> is told every attempt, counted from 0, and its error.\<close>

fun attempts :: "nat \<Rightarrow> 'w processor \<Rightarrow> stream_record \<Rightarrow> bytes \<Rightarrow>
    (nat \<Rightarrow> go_error option \<Rightarrow> 'w \<Rightarrow> 'w) \<Rightarrow> nat \<Rightarrow> ('w, go_error + outcome) prog" where
  "attempts 0 p r body on_attempt attempt w = (None, w)"
| "attempts (Suc fuel) p r body on_attempt attempt w =
     (case pr_send p r body w of
        (res, w1) \<Rightarrow>
          let w2 = on_attempt attempt (result_error res) w1
          in (case res of
                Inr outcome \<Rightarrow> (Some (Inr outcome), w2)
              | Inl _ \<Rightarrow>
                  (case backoff attempt (pr_jitter p) w2 of
                     (delay, w3) \<Rightarrow>
                       (case pr_sleep p delay w3 of
                          (Some e, w4) \<Rightarrow> (Some (Inl e), w4)
                        | (None, w4) \<Rightarrow> attempts fuel p r body on_attempt (Suc attempt) w4))))"

definition process :: "nat \<Rightarrow> 'w processor \<Rightarrow> stream_record \<Rightarrow>
    (nat \<Rightarrow> go_error option \<Rightarrow> 'w \<Rightarrow> 'w) \<Rightarrow> ('w, go_error + outcome) prog" where
  "process fuel p r on_attempt w =
     (if \<not> matches_filter (dst_filter (pr_destination p)) (rec_payload r) then (Some (Inr Filtered), w)
      else (case marshal_envelope (envelope_for r (pr_destination p)) of
              None \<Rightarrow> (Some (Inl (Errorf ''json: error calling MarshalJSON'')), w)
            | Some body \<Rightarrow> attempts fuel p r body on_attempt 0 w))"

section \<open>Completing one record\<close>

record 'w record_actions =
  act_skipped :: "'w \<Rightarrow> (go_error + bool) \<times> 'w"
  act_send :: "('w, go_error + outcome) prog"
  act_audit :: "'w \<Rightarrow> go_error option \<times> 'w"
  act_commit :: "'w \<Rightarrow> go_error option \<times> 'w"

text \<open>
  The retried lookup of \<^verbatim>\<open>completeRecord\<close> leaves its answer in a variable: \<open>retry_value\<close> is
  \<^verbatim>\<open>Retry\<close> around a call that sets it.
\<close>

fun retry_value :: "nat \<Rightarrow> 'w go_context \<Rightarrow> duration \<Rightarrow> ('w \<Rightarrow> (go_error + 'a) \<times> 'w) \<Rightarrow>
    ('w, go_error + 'a) prog" where
  "retry_value 0 c delay fn w = (None, w)"
| "retry_value (Suc fuel) c delay fn w =
     (case ctx_err c w of
        Some e \<Rightarrow> (Some (Inl e), w)
      | None \<Rightarrow>
          (case fn w of
             (Inr a, w1) \<Rightarrow> (Some (Inr a), w1)
           | (Inl _, w1) \<Rightarrow>
               (case ctx_sleep c delay w1 of
                  (Some e, w2) \<Rightarrow> (Some (Inl e), w2)
                | (None, w2) \<Rightarrow> retry_value fuel c delay fn w2)))"

definition send_and_audit :: "nat \<Rightarrow> 'w go_context \<Rightarrow> duration \<Rightarrow> 'w record_actions \<Rightarrow>
    ('w, go_error option) prog" where
  "send_and_audit fuel c delay acts =
     bindp (act_send acts)
       (\<lambda>res. case res of
                Inl e \<Rightarrow> retp (Some e)
              | Inr outcome \<Rightarrow>
                  if outcome \<noteq> Skipped then retp None
                  else retry fuel c delay (act_audit acts))"

definition complete_record :: "nat \<Rightarrow> 'w go_context \<Rightarrow> duration \<Rightarrow> 'w record_actions \<Rightarrow>
    ('w, go_error option) prog" where
  "complete_record fuel c delay acts =
     bindp (retry_value fuel c delay (act_skipped acts))
       (\<lambda>res. case res of
                Inl e \<Rightarrow> retp (Some e)
              | Inr skipped \<Rightarrow>
                  if skipped then retry fuel c delay (act_commit acts)
                  else bindp (send_and_audit fuel c delay acts)
                         (\<lambda>err. case err of
                                  Some e \<Rightarrow> retp (Some e)
                                | None \<Rightarrow> retry fuel c delay (act_commit acts)))"

section \<open>Activity entries\<close>

definition entry_for :: "stream_record \<Rightarrow> bytes \<Rightarrow> entry" where
  "entry_for r destination =
     zero_entry\<lparr>e_source := src_id (rec_source r), e_destination := destination,
       e_generation := rec_generation r, e_topic := rec_topic r, e_partition := rec_partition r,
       e_offset := rec_offset r, e_event_id := rec_event_id r, e_aggregate_id := rec_aggregate_id r,
       e_event_name := rec_event_name r\<rparr>"

definition started_entry :: "entry \<Rightarrow> entry" where
  "started_entry e = e\<lparr>e_message := ''delivery started''\<rparr>"

definition attempt_entry :: "entry \<Rightarrow> nat \<Rightarrow> go_error option \<Rightarrow> entry" where
  "attempt_entry e attempt err =
     (let e' = e\<lparr>e_attempt := int attempt + 1, e_message := ''acknowledged''\<rparr>
      in if err \<noteq> None
         then e'\<lparr>e_message := ''retry'', e_level := ''warn'',
                 e_error := ''delivery failed or retry requested''\<rparr>
         else e')"

definition outcome_entry :: "entry \<Rightarrow> outcome \<Rightarrow> entry" where
  "outcome_entry e outcome = e\<lparr>e_message := ''terminal outcome'', e_outcome := outcome_string outcome\<rparr>"

definition committed_entry :: "entry \<Rightarrow> entry" where
  "committed_entry e = e\<lparr>e_message := ''committed''\<rparr>"

definition commit_retry_entry :: "entry \<Rightarrow> entry" where
  "commit_retry_entry e =
     e\<lparr>e_level := ''warn'', e_message := ''commit retry'', e_error := ''Kafka commit unavailable''\<rparr>"

section \<open>The worker\<close>

record 'w gate =
  gate_allowed :: "bytes \<Rightarrow> 'w \<Rightarrow> bool"
  gate_block :: "bytes \<Rightarrow> bytes \<Rightarrow> 'w \<Rightarrow> 'w"

record 'w worker =
  wk_processor :: "'w processor"
  wk_decode :: "raw_record \<Rightarrow> go_error + stream_record"
  wk_has_skip :: "scope \<Rightarrow> bytes \<Rightarrow> stream_record \<Rightarrow> 'w \<Rightarrow> (go_error + bool) \<times> 'w"
  wk_save_skip :: "scope \<Rightarrow> bytes \<Rightarrow> stream_record \<Rightarrow> 'w \<Rightarrow> go_error option \<times> 'w"
  wk_scope :: scope
  wk_destination :: bytes
  wk_source :: bytes
  wk_gate :: "'w gate option"
  wk_log :: "(entry \<Rightarrow> 'w \<Rightarrow> 'w) option"

definition worker_allowed :: "'w worker \<Rightarrow> 'w \<Rightarrow> bool" where
  "worker_allowed wk w =
     (case wk_gate wk of None \<Rightarrow> True | Some g \<Rightarrow> gate_allowed g (wk_source wk) w)"

definition worker_block :: "'w worker \<Rightarrow> bytes \<Rightarrow> 'w \<Rightarrow> 'w" where
  "worker_block wk reason w =
     (case wk_gate wk of None \<Rightarrow> w | Some g \<Rightarrow> gate_block g (wk_source wk) reason w)"

definition worker_log :: "'w worker \<Rightarrow> entry \<Rightarrow> 'w \<Rightarrow> 'w" where
  "worker_log wk e w = (case wk_log wk of None \<Rightarrow> w | Some add \<Rightarrow> add e w)"

definition worker_send :: "nat \<Rightarrow> 'w worker \<Rightarrow> stream_record \<Rightarrow> entry \<Rightarrow> ('w, go_error + outcome) prog" where
  "worker_send fuel wk r entry w =
     bindp (process fuel (wk_processor wk) r
              (\<lambda>attempt err. worker_log wk (attempt_entry entry attempt err)))
       (\<lambda>res w'. case res of
                   Inr outcome \<Rightarrow> (Some res, worker_log wk (outcome_entry entry outcome) w')
                 | Inl _ \<Rightarrow> (Some res, w'))
       (worker_log wk (started_entry entry) w)"

definition worker_commit :: "'w go_context \<Rightarrow> 'w worker \<Rightarrow> raw_record \<Rightarrow> entry \<Rightarrow>
    (raw_record \<Rightarrow> 'w \<Rightarrow> go_error option \<times> 'w) \<Rightarrow> 'w \<Rightarrow> go_error option \<times> 'w" where
  "worker_commit c wk raw entry commit w =
     (case commit raw w of
        (Some e, w') \<Rightarrow>
          (Some e, if ctx_err c w' = None then worker_log wk (commit_retry_entry entry) w' else w')
      | (None, w') \<Rightarrow> (None, worker_log wk (committed_entry entry) w'))"

definition worker_actions :: "nat \<Rightarrow> 'w go_context \<Rightarrow> 'w worker \<Rightarrow> raw_record \<Rightarrow> stream_record \<Rightarrow>
    (raw_record \<Rightarrow> 'w \<Rightarrow> go_error option \<times> 'w) \<Rightarrow> 'w record_actions" where
  "worker_actions fuel c wk raw r commit =
     \<lparr>act_skipped = (\<lambda>w. if \<not> rr_historical raw then (Inr False, w)
                         else wk_has_skip wk (wk_scope wk) (wk_destination wk) r w),
      act_send = worker_send fuel wk r (entry_for r (wk_destination wk)),
      act_audit = wk_save_skip wk (wk_scope wk) (wk_destination wk) r,
      act_commit = worker_commit c wk raw (entry_for r (wk_destination wk)) commit\<rparr>"

definition error_text :: "go_error \<Rightarrow> bytes" where
  "error_text e =
     (case e of
        Canceled \<Rightarrow> ''context canceled''
      | DeadlineExceeded \<Rightarrow> ''context deadline exceeded''
      | NotFound \<Rightarrow> ''subscription not found''
      | Errorf s \<Rightarrow> s)"

definition worker_process :: "nat \<Rightarrow> 'w go_context \<Rightarrow> 'w worker \<Rightarrow> raw_record \<Rightarrow>
    (raw_record \<Rightarrow> 'w \<Rightarrow> go_error option \<times> 'w) \<Rightarrow> ('w, go_error option) prog" where
  "worker_process fuel c wk raw commit w =
     (if \<not> worker_allowed wk w then (Some (Some Canceled), w)
      else (case wk_decode wk raw of
              Inl e \<Rightarrow> (Some (Some e), worker_block wk (error_text e) w)
            | Inr r \<Rightarrow>
                complete_record fuel c store_retry_delay (worker_actions fuel c wk raw r commit) w))"

end
