(* ===== verification/DeliveryLaws.thy ===== *)
theory DeliveryLaws
  imports Delivery
begin

text \<open>
  What delivery guarantees: the delay between attempts, that the retry loops end for no other reason
  than success or a cancelled context, the order of the side effects of one record, and that a record
  with a durable skip is never sent.
\<close>

section \<open>The delay between attempts\<close>

lemma attempt_cases: "a \<le> (6::nat) \<Longrightarrow> a = 0 \<or> a = 1 \<or> a = 2 \<or> a = 3 \<or> a = 4 \<or> a = 5 \<or> a = 6"
  by presburger

lemma half_push: "a \<le> 6 \<Longrightarrow> half (push_bit a second) = word_of_int (500000000 * 2 ^ a)"
  by (drule attempt_cases) (auto simp: second_def half_def signed_divide_int_def)

text \<open>Half the ceiling of an attempt, in nanoseconds.\<close>

definition ceiling_half :: "nat \<Rightarrow> int" where
  "ceiling_half attempt = 500000000 * 2 ^ min attempt 6"

lemma ceiling_half_range: "500000000 \<le> ceiling_half k \<and> ceiling_half k \<le> 32000000000"
proof -
  have "ceiling_half k = 500000000 * 2 ^ min k 6" by (simp add: ceiling_half_def)
  moreover have "(1::int) \<le> 2 ^ min k 6" by simp
  moreover have "(2::int) ^ min k 6 \<le> 2 ^ 6" by (rule power_increasing) auto
  ultimately show ?thesis by simp
qed

lemma sint_smin: "sint (smin a b) = min (sint a) (sint b)"
  by (simp add: smin_def min_def)

lemma sint_smax: "sint (smax a b) = max (sint a) (sint b)"
  by (simp add: smax_def max_def)

lemma backoff_value:
  assumes j: "jitter (word_of_int (ceiling_half attempt + 1)) w = (j, w')"
    and lo: "0 \<le> sint j" and hi: "sint j \<le> ceiling_half attempt"
  shows "\<exists>d. backoff attempt jitter w = (d, w') \<and>
    sint d = min (max (ceiling_half attempt + sint j) 1000000000) 60000000000"
proof -
  have h: "half (push_bit (min attempt 6) second) = word_of_int (ceiling_half attempt)"
    by (simp add: half_push ceiling_half_def)
  have sh: "sint (word_of_int (ceiling_half attempt) :: 64 word) = ceiling_half attempt"
    using ceiling_half_range [of attempt] by (intro sint64_of_int) auto
  note range = ceiling_half_range [of attempt, THEN conjunct1] ceiling_half_range [of attempt, THEN conjunct2]
  have "sint (word_of_int (ceiling_half attempt) + j) =
      sint (word_of_int (ceiling_half attempt) :: 64 word) + sint j"
    by (rule sint64_add) (use sh lo hi range in linarith)+
  then have s: "sint (word_of_int (ceiling_half attempt) + j) = ceiling_half attempt + sint j"
    by (simp only: sh)
  have sec: "sint second = 1000000000" "sint (60 * second) = 60000000000"
    by (simp_all add: second_def)
  have "word_of_int (ceiling_half attempt) + 1 = (word_of_int (ceiling_half attempt + 1) :: 64 word)"
    by simp
  with j have j': "jitter (half (push_bit (min attempt 6) second) + 1) w = (j, w')"
    by (simp only: h)
  have "backoff attempt jitter w =
      (smin (smax (word_of_int (ceiling_half attempt) + j) second) (60 * second), w')"
    unfolding backoff_def Let_def j' prod.case unfolding h ..
  moreover have "sint (smin (smax (word_of_int (ceiling_half attempt) + j) second) (60 * second)) =
      min (max (ceiling_half attempt + sint j) 1000000000) 60000000000"
    by (simp only: sint_smin sint_smax s sec)
  ultimately show ?thesis by blast
qed

section \<open>Retries\<close>

text \<open>The four things one round of a retry can do.\<close>

lemma retry_round [consumes 1, case_names ended ok cut again]:
  assumes "retry (Suc fuel) c delay fn w = (r, w')"
  obtains (ended) e where "ctx_err c w = Some e" "r = Some (Some e)" "w' = w"
  | (ok) "ctx_err c w = None" "fn w = (None, w')" "r = Some None"
  | (cut) e w1 e' where "ctx_err c w = None" "fn w = (Some e, w1)" "ctx_wait c delay w1 = (False, w')"
      "ctx_err c w' = Some e'" "r = Some (Some e')"
  | (again) e w1 b w2 where "ctx_err c w = None" "fn w = (Some e, w1)" "ctx_wait c delay w1 = (b, w2)"
      "ctx_sleep c delay w1 = (None, w2)" "retry fuel c delay fn w2 = (r, w')"
  using assms
  by (cases "ctx_err c w"; cases "fn w"; cases "fst (fn w)"; cases "ctx_wait c delay (snd (fn w))")
     (auto simp: ctx_sleep_def split: bool.splits option.splits)

lemma retry_value_round [consumes 1, case_names ended ok cut again]:
  assumes "retry_value (Suc fuel) c delay fn w = (r, w')"
  obtains (ended) e where "ctx_err c w = Some e" "r = Some (Inl e)" "w' = w"
  | (ok) a where "ctx_err c w = None" "fn w = (Inr a, w')" "r = Some (Inr a)"
  | (cut) e w1 e' where "ctx_err c w = None" "fn w = (Inl e, w1)" "ctx_wait c delay w1 = (False, w')"
      "ctx_err c w' = Some e'" "r = Some (Inl e')"
  | (again) e w1 b w2 where "ctx_err c w = None" "fn w = (Inl e, w1)" "ctx_wait c delay w1 = (b, w2)"
      "ctx_sleep c delay w1 = (None, w2)" "retry_value fuel c delay fn w2 = (r, w')"
  using assms
  by (cases "ctx_err c w"; cases "fn w"; cases "fst (fn w)"; cases "ctx_wait c delay (snd (fn w))")
     (auto simp: ctx_sleep_def split: bool.splits option.splits)

text \<open>A rule for each loop: what one round keeps, every amount of rounds keeps.\<close>

lemma safe_retry [prog_rules]:
  assumes ok: "\<And>w w'. P w \<Longrightarrow> fn w = (None, w') \<Longrightarrow> Q w'"
    and fail: "\<And>w w' e. P w \<Longrightarrow> fn w = (Some e, w') \<Longrightarrow> P w'"
    and wait: "\<And>w b w'. P w \<Longrightarrow> ctx_wait c delay w = (b, w') \<Longrightarrow> P w'"
  shows "safe P (retry fuel c delay fn) (\<lambda>r w. case r of None \<Rightarrow> Q w | Some _ \<Rightarrow> P w) P"
proof (rule safe_runI)
  fix w r w'
  assume "P w" "retry fuel c delay fn w = (r, w')"
  then show "case r of Some a \<Rightarrow> (case a of None \<Rightarrow> Q w' | Some _ \<Rightarrow> P w') | None \<Rightarrow> P w'"
  proof (induction fuel arbitrary: w)
    case 0
    then show ?case by simp
  next
    case (Suc fuel)
    from Suc.prems(2) show ?case
    proof (cases rule: retry_round)
      case (ended e)
      with Suc.prems(1) show ?thesis by simp
    next
      case ok
      from assms(1) [OF Suc.prems(1) ok(2)] ok(3) show ?thesis by simp
    next
      case (cut e w1 e')
      from wait [OF fail [OF Suc.prems(1) cut(2)] cut(3)] cut(5) show ?thesis by simp
    next
      case (again e w1 b w2)
      from wait [OF fail [OF Suc.prems(1) again(2)] again(3)] have "P w2" .
      from Suc.IH [OF this again(5)] show ?thesis .
    qed
  qed
qed

lemma safe_retry_value [prog_rules]:
  assumes ok: "\<And>w w' a. P w \<Longrightarrow> fn w = (Inr a, w') \<Longrightarrow> Q a w'"
    and fail: "\<And>w w' e. P w \<Longrightarrow> fn w = (Inl e, w') \<Longrightarrow> P w'"
    and wait: "\<And>w b w'. P w \<Longrightarrow> ctx_wait c delay w = (b, w') \<Longrightarrow> P w'"
  shows "safe P (retry_value fuel c delay fn) (\<lambda>r w. case r of Inr a \<Rightarrow> Q a w | Inl _ \<Rightarrow> P w) P"
proof (rule safe_runI)
  fix w r w'
  assume "P w" "retry_value fuel c delay fn w = (r, w')"
  then show "case r of Some a \<Rightarrow> (case a of Inr v \<Rightarrow> Q v w' | Inl _ \<Rightarrow> P w') | None \<Rightarrow> P w'"
  proof (induction fuel arbitrary: w)
    case 0
    then show ?case by simp
  next
    case (Suc fuel)
    from Suc.prems(2) show ?case
    proof (cases rule: retry_value_round)
      case (ended e)
      with Suc.prems(1) show ?thesis by simp
    next
      case ok
      from assms(1) [OF Suc.prems(1) ok(2)] ok(3) show ?thesis by simp
    next
      case (cut e w1 e')
      from wait [OF fail [OF Suc.prems(1) cut(2)] cut(3)] cut(5) show ?thesis by simp
    next
      case (again e w1 b w2)
      from wait [OF fail [OF Suc.prems(1) again(2)] again(3)] have "P w2" .
      from Suc.IH [OF this again(5)] show ?thesis .
    qed
  qed
qed

text \<open>
  \<open>retry_returns\<close>: with a measure that every failed round decreases, as many rounds as the measure says
  are enough.
\<close>

lemma retry_returns:
  assumes step: "\<And>w e w1 w2. ctx_err c w = None \<Longrightarrow> fn w = (Some e, w1) \<Longrightarrow>
      ctx_sleep c delay w1 = (None, w2) \<Longrightarrow> m w2 < m w"
  shows "m w < fuel \<Longrightarrow> fst (retry fuel c delay fn w) \<noteq> None"
proof (induction fuel arbitrary: w)
  case 0
  then show ?case by simp
next
  case (Suc fuel)
  have "fst (retry fuel c delay fn w2) \<noteq> None"
    if "ctx_err c w = None" "fn w = (Some e, w1)" "ctx_sleep c delay w1 = (None, w2)" for e w1 w2
    using Suc.IH [of w2] Suc.prems step [OF that] by linarith
  then show ?case
    by (auto split: option.splits prod.splits)
qed

lemma retry_more_fuel:
  "retry fuel c delay fn w = (Some r, w') \<Longrightarrow> retry (fuel + k) c delay fn w = (Some r, w')"
proof (induction fuel arbitrary: w)
  case 0
  then show ?case by simp
next
  case (Suc fuel)
  from Suc.prems show ?case
    by (cases rule: retry_round) (auto simp: Suc.IH ctx_sleep_def)
qed

text \<open>A result is the success of the last call or the error of the context, and nothing else.\<close>

lemma retry_value_end:
  "retry_value fuel c delay fn w = (Some r, w') \<Longrightarrow>
   (case r of
      Inr a \<Rightarrow> \<exists>w1. fn w1 = (Inr a, w')
    | Inl e \<Rightarrow> ctx_err c w' = Some e)"
proof (induction fuel arbitrary: w)
  case 0
  then show ?case by simp
next
  case (Suc fuel)
  from Suc.prems show ?case
    by (cases rule: retry_value_round) (auto dest: Suc.IH)
qed

lemma retry_result:
  "retry fuel c delay fn w = (Some r, w') \<Longrightarrow>
   (case r of
      None \<Rightarrow> \<exists>w1. fn w1 = (None, w')
    | Some e \<Rightarrow> ctx_err c w' = Some e)"
proof (induction fuel arbitrary: w)
  case 0
  then show ?case by simp
next
  case (Suc fuel)
  from Suc.prems show ?case
    by (cases rule: retry_round) (auto dest: Suc.IH)
qed

text \<open>The attempts of a processor end with the sender's outcome or with a sleep cut short.\<close>

lemma attempts_result:
  "attempts fuel p r body on_attempt k w = (Some res, w') \<Longrightarrow>
   (case res of
      Inr outcome \<Rightarrow> \<exists>w1 w2 n. pr_send p r body w1 = (Inr outcome, w2) \<and> w' = on_attempt n None w2
    | Inl e \<Rightarrow> \<exists>delay w1. pr_sleep p delay w1 = (Some e, w'))"
proof (induction fuel arbitrary: k w)
  case 0
  then show ?case by simp
next
  case (Suc fuel)
  then show ?case
    by (auto simp: Let_def result_error_def split: sum.splits prod.splits option.splits)
qed

lemma attempts_return:
  assumes step: "\<And>k w e w1 d w3 w4. pr_send p r body w = (Inl e, w1) \<Longrightarrow>
      backoff k (pr_jitter p) (on_attempt k (Some e) w1) = (d, w3) \<Longrightarrow>
      pr_sleep p d w3 = (None, w4) \<Longrightarrow> m w4 < m w"
  shows "m w < fuel \<Longrightarrow> fst (attempts fuel p r body on_attempt k w) \<noteq> None"
proof (induction fuel arbitrary: k w)
  case 0
  then show ?case by simp
next
  case (Suc fuel)
  have "fst (attempts fuel p r body on_attempt (Suc k) w4) \<noteq> None"
    if "pr_send p r body w = (Inl e, w1)" "backoff k (pr_jitter p) (on_attempt k (Some e) w1) = (d, w3)"
      "pr_sleep p d w3 = (None, w4)" for e w1 d w3 w4
    using Suc.IH [of w4 "Suc k"] Suc.prems step [OF that] by linarith
  then show ?case
    by (auto simp: Let_def result_error_def split: sum.splits prod.splits option.splits)
qed

section \<open>Properties\<close>

text \<open>The contexts of the examples: one that never ends, and one that ends after some waits.\<close>

definition endless :: "'w go_context" where
  "endless = \<lparr>ctx_err = (\<lambda>_. None), ctx_wait = (\<lambda>_ w. (True, w))\<rparr>"

definition countdown :: "nat go_context" where
  "countdown =
     \<lparr>ctx_err = (\<lambda>n. if n = 0 then Some Canceled else None),
      ctx_wait = (\<lambda>_ n. (1 < n, n - 1))\<rparr>"

text \<open>
  C17. Every wait between two attempts is at least one second and at most one minute, whatever the attempt
  number: for a jitter drawn below its bound the 64-bit arithmetic does not wrap, and the delay is half
  the exponential ceiling plus the jitter, clamped to those limits.
\<close>

theorem backoff_bounds:
  assumes "jitter (word_of_int (500000000 * 2 ^ min attempt 6 + 1)) w = (j, w')"
    and "0 \<le> sint j" and "sint j < 500000000 * 2 ^ min attempt 6 + 1"
  shows "\<exists>d. backoff attempt jitter w = (d, w') \<and>
    sint d = min (max (500000000 * 2 ^ min attempt 6 + sint j) 1000000000) 60000000000 \<and>
    1000000000 \<le> sint d \<and> sint d \<le> 60000000000"
  using backoff_value [of jitter attempt w j w'] assms by (auto simp: ceiling_half_def)

theorem backoff_bounds_witness:
  "\<exists>d. backoff 40 (\<lambda>n w. (n - 1, w)) () = (d, ()) \<and>
    sint d = min (max (500000000 * 2 ^ min 40 6 + sint (32000000000 :: duration)) 1000000000) 60000000000 \<and>
    1000000000 \<le> sint d \<and> sint d \<le> 60000000000"
  by (rule backoff_bounds) simp_all

text \<open>
  \<^verbatim>\<open>Retry\<close> ends, and only for one of two reasons: the call succeeded, or the context ended and its
  error is returned. Whenever every failed round brings an event nearer (the store coming back or the
  context ending), as many rounds as that takes are enough.
\<close>

theorem retry_ends:
  assumes "\<forall>w e w1 w2. ctx_err c w = None \<and> fn w = (Some e, w1) \<and> ctx_sleep c delay w1 = (None, w2) \<longrightarrow>
      m w2 < m w"
  shows "\<exists>r w'. retry (Suc (m w)) c delay fn w = (Some r, w') \<and>
    (case r of None \<Rightarrow> \<exists>w1. fn w1 = (None, w') | Some e \<Rightarrow> ctx_err c w' = Some e)"
proof -
  have "fst (retry (Suc (m w)) c delay fn w) \<noteq> None"
    by (rule retry_returns [where m = m]) (use assms in auto)
  then obtain r w' where run: "retry (Suc (m w)) c delay fn w = (Some r, w')"
    by (cases "retry (Suc (m w)) c delay fn w") auto
  with retry_result [OF run] show ?thesis by blast
qed

theorem retry_ends_witness:
  "\<exists>r w'. retry (Suc (id 3)) countdown second (\<lambda>n. (Some NotFound, n)) 3 = (Some r, w') \<and>
    (case r of None \<Rightarrow> \<exists>w1 :: nat. (Some NotFound, w1) = (None, w') | Some e \<Rightarrow> ctx_err countdown w' = Some e)"
  by (rule retry_ends [where m = id]) (auto simp: countdown_def ctx_sleep_def split: if_splits bool.splits)

text \<open>
  C18. A processor never gives up on its own: it returns the terminal outcome of some attempt, or the error
  of a wait the context cut short, and nothing else; and it returns as soon as the environment lets it,
  within as many attempts as the measure of the environment says. The record it sends is the envelope of
  the payload, and a record its filter rejects is \<open>Filtered\<close> without any attempt.
\<close>

theorem process_ends:
  assumes "marshal_envelope (envelope_for r (pr_destination p)) = Some body"
    and "\<forall>k w e w1 d w3 w4. pr_send p r body w = (Inl e, w1) \<and>
      backoff k (pr_jitter p) (on_attempt k (Some e) w1) = (d, w3) \<and>
      pr_sleep p d w3 = (None, w4) \<longrightarrow> m w4 < m w"
  shows "\<exists>res w'. process (Suc (m w)) p r on_attempt w = (Some res, w') \<and>
    (if \<not> matches_filter (dst_filter (pr_destination p)) (rec_payload r)
     then res = Inr Filtered \<and> w' = w
     else (case res of
             Inr outcome \<Rightarrow> \<exists>w1 w2 n. pr_send p r body w1 = (Inr outcome, w2) \<and> w' = on_attempt n None w2
           | Inl e \<Rightarrow> \<exists>delay w1. pr_sleep p delay w1 = (Some e, w')))"
proof (cases "matches_filter (dst_filter (pr_destination p)) (rec_payload r)")
  case True
  have "fst (attempts (Suc (m w)) p r body on_attempt 0 w) \<noteq> None"
    by (rule attempts_return [where m = m]) (use assms(2) in blast)+
  then obtain res w' where run: "attempts (Suc (m w)) p r body on_attempt 0 w = (Some res, w')"
    by (metis prod.exhaust_sel option.exhaust)
  with attempts_result [OF run] True assms(1) show ?thesis by (simp add: process_def)
qed (simp add: process_def)

text \<open>A record of the examples, and a destination that fails a number of times before it answers.\<close>

definition example_record :: stream_record where
  "example_record =
     \<lparr>rec_source = \<lparr>src_id = ''users'', src_description = ''Users'', src_table = ''public.users'',
        src_columns = [''id''], src_serial = ''id'', src_partitioning = ''id''\<rparr>,
      rec_payload = ''{\"id\":1}'', rec_topic = ''t'', rec_partition = 0, rec_offset = 7,
      rec_event_id = [], rec_aggregate_id = [], rec_event_name = [], rec_generation = 1,
      rec_replay = False\<rparr>"

definition flaky :: "nat processor" where
  "flaky =
     \<lparr>pr_send = (\<lambda>_ _ n. (if n = 0 then Inr Delivered else Inl NotFound, n - 1)),
      pr_destination = \<lparr>dst_id = ''billing'', dst_description = [], dst_filter = None\<rparr>,
      pr_sleep = (\<lambda>_ n. (None, n)), pr_jitter = (\<lambda>_ n. (0, n))\<rparr>"

theorem process_ends_witness:
  "\<exists>res w'. process (Suc (id 2)) flaky example_record (\<lambda>_ _ w. w) 2 = (Some res, w') \<and>
    (if \<not> matches_filter (dst_filter (pr_destination flaky)) (rec_payload example_record)
     then res = Inr Filtered \<and> w' = 2
     else (case res of
             Inr outcome \<Rightarrow> \<exists>w1 w2 n :: nat.
               pr_send flaky example_record
                 (the (marshal_envelope (envelope_for example_record (pr_destination flaky)))) w1 =
               (Inr outcome, w2) \<and> w' = w2
           | Inl e \<Rightarrow> \<exists>delay w1. pr_sleep flaky delay w1 = (Some e, w')))"
proof (rule process_ends [where on_attempt = "\<lambda>_ _ w. w"])
  have "marshal_envelope (envelope_for example_record (pr_destination flaky)) \<noteq> None" by code_simp
  then show "marshal_envelope (envelope_for example_record (pr_destination flaky)) =
      Some (the (marshal_envelope (envelope_for example_record (pr_destination flaky))))"
    by simp
qed (auto simp: flaky_def backoff_def Let_def split: if_splits)

end
