(* ===== verification/RecordOrder.thy ===== *)
theory RecordOrder
  imports DeliveryLaws
begin

text \<open>
  The order of the side effects of one record, for every store, broker and destination.

  \<open>traced\<close> records what \<open>complete_record\<close> calls and what each call answered. \<open>permits\<close> is the contract
  as a monitor: the phases of a record and the only call each phase allows. \<open>complete_record_monitored\<close>
  shows that every run, finished or not, is accepted by the monitor; the properties read their
  consequences off it. Since the world in which fuel ran out is covered too, they hold at every moment
  a crash could happen.
\<close>

section \<open>The monitor\<close>

datatype rec_event =
    EvSkipped "go_error + bool"
  | EvSendStart
  | EvSend "go_error + outcome"
  | EvAudit "go_error option"
  | EvCommit "go_error option"

datatype phase = Checking | Ready | Sending | MustAudit | MayCommit | Committed | Stopped

fun permits :: "phase \<Rightarrow> rec_event \<Rightarrow> phase option" where
  "permits Checking (EvSkipped (Inl e)) = Some Checking"
| "permits Checking (EvSkipped (Inr b)) = Some (if b then MayCommit else Ready)"
| "permits Ready EvSendStart = Some Sending"
| "permits Sending (EvSend (Inl e)) = Some Stopped"
| "permits Sending (EvSend (Inr x)) = Some (if x = Skipped then MustAudit else MayCommit)"
| "permits MustAudit (EvAudit (Some e)) = Some MustAudit"
| "permits MustAudit (EvAudit None) = Some MayCommit"
| "permits MayCommit (EvCommit (Some e)) = Some MayCommit"
| "permits MayCommit (EvCommit None) = Some Committed"
| "permits _ _ = None"

fun monitor :: "phase \<Rightarrow> rec_event list \<Rightarrow> phase option" where
  "monitor ph [] = Some ph"
| "monitor ph (e # es) = (case permits ph e of None \<Rightarrow> None | Some ph' \<Rightarrow> monitor ph' es)"

lemma monitor_append:
  "monitor ph (xs @ ys) = (case monitor ph xs of None \<Rightarrow> None | Some ph' \<Rightarrow> monitor ph' ys)"
  by (induction ph xs rule: monitor.induct) (auto split: option.splits)

lemma monitor_snoc [simp]:
  "monitor ph (xs @ [e]) = (case monitor ph xs of None \<Rightarrow> None | Some ph' \<Rightarrow> permits ph' e)"
  by (simp add: monitor_append split: option.splits)

fun_cases permits_commitE: "permits ph (EvCommit r) = Some ph'"
fun_cases permits_sendE: "permits ph EvSendStart = Some ph'"

text \<open>What must have happened before each phase.\<close>

fun earned :: "phase \<Rightarrow> rec_event list \<Rightarrow> bool" where
  "earned Checking t \<longleftrightarrow> EvSendStart \<notin> set t \<and> (\<forall>b. EvSkipped (Inr b) \<notin> set t)"
| "earned Ready t \<longleftrightarrow> EvSkipped (Inr False) \<in> set t \<and> EvSendStart \<notin> set t"
| "earned Sending t \<longleftrightarrow> EvSkipped (Inr False) \<in> set t \<and> count_list t EvSendStart = 1"
| "earned MustAudit t \<longleftrightarrow>
     EvSkipped (Inr False) \<in> set t \<and> count_list t EvSendStart = 1 \<and> EvSend (Inr Skipped) \<in> set t"
| "earned MayCommit t \<longleftrightarrow>
     count_list t EvSendStart \<le> 1 \<and>
     (EvSkipped (Inr True) \<in> set t \<and> EvSendStart \<notin> set t \<or>
      (\<exists>x. EvSend (Inr x) \<in> set t \<and> (x = Skipped \<longrightarrow> EvAudit None \<in> set t)))"
| "earned Committed t \<longleftrightarrow> count_list t EvSendStart \<le> 1 \<and> EvCommit None \<in> set t"
| "earned Stopped t \<longleftrightarrow> count_list t EvSendStart = 1 \<and> (\<exists>e. EvSend (Inl e) \<in> set t)"

lemma count_zero [simp]: "x \<notin> set xs \<Longrightarrow> count_list xs x = 0"
  by (induction xs) auto

lemma earned_step: "earned ph t \<Longrightarrow> permits ph e = Some ph' \<Longrightarrow> earned ph' (t @ [e])"
  by (induction ph e rule: permits.induct) (auto split: if_splits)

lemma monitor_earned: "monitor Checking t = Some ph \<Longrightarrow> earned ph t"
proof (induction t arbitrary: ph rule: rev_induct)
  case Nil
  then show ?case by auto
next
  case (snoc e t)
  then obtain ph1 where "monitor Checking t = Some ph1" "permits ph1 e = Some ph"
    by (auto split: option.splits)
  with snoc.IH earned_step show ?case by blast
qed

lemma permits_commitD: "permits ph (EvCommit r) = Some ph' \<Longrightarrow> ph = MayCommit"
  by (erule permits_commitE) auto

section \<open>Tracing\<close>

definition log_event :: "rec_event \<Rightarrow> rec_event list \<times> 'w \<Rightarrow> rec_event list \<times> 'w" where
  "log_event e tw = (fst tw @ [e], snd tw)"

definition traced :: "'w record_actions \<Rightarrow> (rec_event list \<times> 'w) record_actions" where
  "traced acts =
     \<lparr>act_skipped = (\<lambda>(t, w). case act_skipped acts w of (r, w') \<Rightarrow> (r, (t @ [EvSkipped r], w'))),
      act_send = (\<lambda>(t, w).
        case act_send acts w of
          (None, w') \<Rightarrow> (None, (t @ [EvSendStart], w'))
        | (Some r, w') \<Rightarrow> (Some r, (t @ [EvSendStart, EvSend r], w'))),
      act_audit = (\<lambda>(t, w). case act_audit acts w of (r, w') \<Rightarrow> (r, (t @ [EvAudit r], w'))),
      act_commit = (\<lambda>(t, w). case act_commit acts w of (r, w') \<Rightarrow> (r, (t @ [EvCommit r], w')))\<rparr>"

definition traced_ctx :: "'w go_context \<Rightarrow> (rec_event list \<times> 'w) go_context" where
  "traced_ctx c =
     \<lparr>ctx_err = (\<lambda>tw. ctx_err c (snd tw)),
      ctx_wait = (\<lambda>d tw. case ctx_wait c d (snd tw) of (b, w') \<Rightarrow> (b, (fst tw, w')))\<rparr>"

text \<open>The calls of a run, its result and the world it leaves.\<close>

definition run_traced :: "nat \<Rightarrow> 'w go_context \<Rightarrow> duration \<Rightarrow> 'w record_actions \<Rightarrow> 'w \<Rightarrow>
    go_error option option \<times> rec_event list \<times> 'w" where
  "run_traced fuel c delay acts w = complete_record fuel (traced_ctx c) delay (traced acts) ([], w)"

definition in_phase :: "phase \<Rightarrow> rec_event list \<times> 'w \<Rightarrow> bool" where
  "in_phase ph tw \<longleftrightarrow> monitor Checking (fst tw) = Some ph"

lemma traced_ctx_wait: "ctx_wait (traced_ctx c) d tw = (b, tw') \<Longrightarrow> fst tw' = fst tw"
  by (auto simp: traced_ctx_def split: prod.splits)

lemma in_phase_wait: "in_phase ph tw \<Longrightarrow> ctx_wait (traced_ctx c) d tw = (b, tw') \<Longrightarrow> in_phase ph tw'"
  by (simp add: in_phase_def traced_ctx_wait)

lemma safe_skip_check:
  "safe (in_phase Checking) (retry_value fuel (traced_ctx c) d (act_skipped (traced acts)))
     (\<lambda>r. case r of Inr b \<Rightarrow> in_phase (if b then MayCommit else Ready) | Inl _ \<Rightarrow> in_phase Checking)
     (in_phase Checking)"
  by (rule safe_weaken,
      rule safe_retry_value [where P = "in_phase Checking" and
        Q = "\<lambda>b. in_phase (if b then MayCommit else Ready)"])
     (auto simp: in_phase_def traced_def dest: traced_ctx_wait split: prod.splits sum.splits)

lemma safe_send:
  "safe (in_phase Ready) (act_send (traced acts))
     (\<lambda>r. case r of Inr x \<Rightarrow> in_phase (if x = Skipped then MustAudit else MayCommit)
                  | Inl _ \<Rightarrow> in_phase Stopped)
     (in_phase Sending)"
  by (rule safeI)
     (auto simp: in_phase_def traced_def monitor_append split: prod.splits sum.splits option.splits)

lemma safe_audit:
  "safe (in_phase MustAudit) (retry fuel (traced_ctx c) d (act_audit (traced acts)))
     (\<lambda>r. case r of None \<Rightarrow> in_phase MayCommit | Some _ \<Rightarrow> in_phase MustAudit) (in_phase MustAudit)"
  by (rule safe_weaken, rule safe_retry [where P = "in_phase MustAudit" and Q = "in_phase MayCommit"])
     (auto simp: in_phase_def traced_def dest: traced_ctx_wait split: prod.splits option.splits)

lemma safe_commit:
  "safe (in_phase MayCommit) (retry fuel (traced_ctx c) d (act_commit (traced acts)))
     (\<lambda>r. case r of None \<Rightarrow> in_phase Committed | Some _ \<Rightarrow> in_phase MayCommit) (in_phase MayCommit)"
  by (rule safe_weaken, rule safe_retry [where P = "in_phase MayCommit" and Q = "in_phase Committed"])
     (auto simp: in_phase_def traced_def dest: traced_ctx_wait split: prod.splits option.splits)

text \<open>A run is in some phase all the time, and in \<open>Committed\<close> exactly when it returned nil.\<close>

definition uncommitted :: "rec_event list \<times> 'w \<Rightarrow> bool" where
  "uncommitted tw \<longleftrightarrow> (\<exists>ph. ph \<noteq> Committed \<and> in_phase ph tw)"

definition ended_in :: "go_error option \<Rightarrow> rec_event list \<times> 'w \<Rightarrow> bool" where
  "ended_in r = (if r = None then in_phase Committed else uncommitted)"

lemma uncommittedI: "in_phase ph tw \<Longrightarrow> ph \<noteq> Committed \<Longrightarrow> uncommitted tw"
  by (auto simp: uncommitted_def)

lemma safe_commit_ended:
  "safe (in_phase MayCommit) (retry fuel (traced_ctx c) d (act_commit (traced acts))) ended_in uncommitted"
  by (rule safe_weaken [OF safe_commit]) (auto simp: ended_in_def dest: uncommittedI split: option.splits)

lemma safe_send_and_audit:
  "safe (in_phase Ready) (send_and_audit fuel (traced_ctx c) d (traced acts))
     (\<lambda>r. if r = None then in_phase MayCommit else uncommitted) uncommitted"
  unfolding send_and_audit_def
proof (rule safe_bindp)
  show "safe (in_phase Ready) (act_send (traced acts))
     (\<lambda>r. case r of Inr x \<Rightarrow> in_phase (if x = Skipped then MustAudit else MayCommit)
                  | Inl _ \<Rightarrow> in_phase Stopped) uncommitted"
    by (rule safe_weaken [OF safe_send]) (auto dest: uncommittedI)
next
  fix r
  have audit: "safe (in_phase MustAudit) (retry fuel (traced_ctx c) d (act_audit (traced acts)))
     (\<lambda>r. if r = None then in_phase MayCommit else uncommitted) uncommitted"
    by (rule safe_weaken [OF safe_audit]) (auto dest: uncommittedI split: option.splits)
  show "safe (case r of Inr x \<Rightarrow> in_phase (if x = Skipped then MustAudit else MayCommit)
                  | Inl _ \<Rightarrow> in_phase Stopped)
     (case r of Inl e \<Rightarrow> retp (Some e)
      | Inr x \<Rightarrow> if x \<noteq> Skipped then retp None else retry fuel (traced_ctx c) d (act_audit (traced acts)))
     (\<lambda>r. if r = None then in_phase MayCommit else uncommitted) uncommitted"
    by (cases r) (auto intro!: safe_retp audit dest: uncommittedI)
qed

lemma complete_record_monitored:
  "safe (in_phase Checking) (complete_record fuel (traced_ctx c) d (traced acts)) ended_in uncommitted"
  unfolding complete_record_def
proof (rule safe_bindp)
  show "safe (in_phase Checking) (retry_value fuel (traced_ctx c) d (act_skipped (traced acts)))
     (\<lambda>r. case r of Inr b \<Rightarrow> in_phase (if b then MayCommit else Ready) | Inl _ \<Rightarrow> in_phase Checking)
     uncommitted"
    by (rule safe_weaken [OF safe_skip_check]) (auto dest: uncommittedI)
next
  fix r
  have send: "safe (in_phase Ready)
      (bindp (send_and_audit fuel (traced_ctx c) d (traced acts))
         (\<lambda>err. case err of Some e \<Rightarrow> retp (Some e)
                | None \<Rightarrow> retry fuel (traced_ctx c) d (act_commit (traced acts)))) ended_in uncommitted"
  proof (rule safe_bindp [OF safe_send_and_audit])
    fix err
    show "safe (if err = None then in_phase MayCommit else uncommitted)
       (case err of Some e \<Rightarrow> retp (Some e)
        | None \<Rightarrow> retry fuel (traced_ctx c) d (act_commit (traced acts))) ended_in uncommitted"
      by (cases err) (auto intro!: safe_retp safe_commit_ended simp: ended_in_def)
  qed
  show "safe (case r of Inr b \<Rightarrow> in_phase (if b then MayCommit else Ready) | Inl _ \<Rightarrow> in_phase Checking)
     (case r of Inl e \<Rightarrow> retp (Some e)
      | Inr skipped \<Rightarrow> if skipped then retry fuel (traced_ctx c) d (act_commit (traced acts))
          else bindp (send_and_audit fuel (traced_ctx c) d (traced acts))
            (\<lambda>err. case err of Some e \<Rightarrow> retp (Some e)
                   | None \<Rightarrow> retry fuel (traced_ctx c) d (act_commit (traced acts))))
     ended_in uncommitted"
    by (cases r) (auto intro!: safe_retp safe_commit_ended send simp: ended_in_def dest: uncommittedI)
qed

lemma run_traced_monitored:
  assumes "run_traced fuel c d acts w = (r, t, w')"
  shows "\<exists>ph. monitor Checking t = Some ph \<and> (r = Some None \<longleftrightarrow> ph = Committed)"
proof -
  have start: "in_phase Checking ([], w)" by (simp add: in_phase_def)
  note run = assms [unfolded run_traced_def]
  note mon = complete_record_monitored [of fuel c d acts]
  show ?thesis
  proof (cases r)
    case None
    with safeD_None [OF mon start] run have "uncommitted (t, w')" by simp
    with None show ?thesis by (auto simp: uncommitted_def in_phase_def)
  next
    case (Some e)
    with safeD_Some [OF mon start] run have "ended_in e (t, w')" by simp
    with Some show ?thesis by (auto simp: ended_in_def uncommitted_def in_phase_def split: if_splits)
  qed
qed

section \<open>Tracing changes nothing\<close>

definition untrace :: "'a \<times> rec_event list \<times> 'w \<Rightarrow> 'a \<times> 'w" where
  "untrace x = (fst x, snd (snd x))"

lemma untrace_pair [simp]: "untrace (r, t, w) = (r, w)"
  by (simp add: untrace_def)

lemma ctx_sleep_traced:
  "ctx_sleep (traced_ctx c) d (t, w) = (r, tw') \<Longrightarrow> ctx_sleep c d w = (r, snd tw')"
  by (auto simp: ctx_sleep_def traced_ctx_def split: prod.splits bool.splits)

lemma retry_untrace:
  assumes fn: "\<And>t w. untrace (fn' (t, w)) = fn w"
  shows "untrace (retry fuel (traced_ctx c) d fn' (t, w)) = retry fuel c d fn w"
proof (induction fuel arbitrary: t w)
  case 0
  show ?case by simp
next
  case (Suc fuel)
  obtain r1 t1 w1 where f': "fn' (t, w) = (r1, t1, w1)" by (metis prod_cases3)
  with fn [of t w] have f: "fn w = (r1, w1)" by simp
  obtain r2 t2 w2 where sl: "ctx_sleep (traced_ctx c) d (t1, w1) = (r2, t2, w2)" by (metis prod_cases3)
  with ctx_sleep_traced [OF sl] have "ctx_sleep c d w1 = (r2, w2)" by simp
  with f f' sl Suc show ?case
    by (simp add: traced_ctx_def split: option.splits)
qed

lemma retry_value_untrace:
  assumes fn: "\<And>t w. untrace (fn' (t, w)) = fn w"
  shows "untrace (retry_value fuel (traced_ctx c) d fn' (t, w)) = retry_value fuel c d fn w"
proof (induction fuel arbitrary: t w)
  case 0
  show ?case by simp
next
  case (Suc fuel)
  obtain r1 t1 w1 where f': "fn' (t, w) = (r1, t1, w1)" by (metis prod_cases3)
  with fn [of t w] have f: "fn w = (r1, w1)" by simp
  obtain r2 t2 w2 where sl: "ctx_sleep (traced_ctx c) d (t1, w1) = (r2, t2, w2)" by (metis prod_cases3)
  with ctx_sleep_traced [OF sl] have "ctx_sleep c d w1 = (r2, w2)" by simp
  with f f' sl Suc show ?case
    by (simp add: traced_ctx_def split: option.splits sum.splits)
qed

lemma bindp_untrace:
  assumes "\<And>t w. untrace (m' (t, w)) = m w" and "\<And>a t w. untrace (k' a (t, w)) = k a w"
  shows "untrace (bindp m' k' (t, w)) = bindp m k w"
proof -
  obtain r t1 w1 where m': "m' (t, w) = (r, t1, w1)" by (metis prod_cases3)
  with assms(1) [of t w] have "m w = (r, w1)" by simp
  with m' assms(2) show ?thesis by (cases r) (simp_all add: bindp_def)
qed

lemma retp_untrace: "untrace (retp a (t, w)) = retp a w"
  by (simp add: retp_def)

lemma traced_untrace:
  "untrace (act_skipped (traced acts) (t, w)) = act_skipped acts w"
  "untrace (act_send (traced acts) (t, w)) = act_send acts w"
  "untrace (act_audit (traced acts) (t, w)) = act_audit acts w"
  "untrace (act_commit (traced acts) (t, w)) = act_commit acts w"
  by (auto simp: traced_def split: prod.splits option.splits)

lemmas untrace_rules = retry_untrace retry_value_untrace bindp_untrace retp_untrace traced_untrace

lemma send_and_audit_untrace:
  "untrace (send_and_audit fuel (traced_ctx c) d (traced acts) (t, w)) = send_and_audit fuel c d acts w"
  unfolding send_and_audit_def
  by (rule bindp_untrace) (auto simp: untrace_rules split: sum.splits)

lemma run_traced_erases: "untrace (run_traced fuel c d acts w) = complete_record fuel c d acts w"
  unfolding run_traced_def complete_record_def
  by (intro bindp_untrace)
     (auto simp: untrace_rules send_and_audit_untrace bindp_untrace split: sum.splits option.splits
       intro!: bindp_untrace)

section \<open>The order as it can be read off a trace\<close>

lemma commit_needs_outcome:
  assumes "monitor Checking (before @ EvCommit x # after) \<noteq> None"
  shows "EvSkipped (Inr True) \<in> set before \<or>
    (\<exists>o1. EvSend (Inr o1) \<in> set before \<and> (o1 = Skipped \<longrightarrow> EvAudit None \<in> set before))"
proof -
  obtain ph ph' where ph: "monitor Checking before = Some ph" "permits ph (EvCommit x) = Some ph'"
    using assms by (auto simp: monitor_append split: option.splits)
  from monitor_earned [OF ph(1)] have "earned MayCommit before"
    unfolding permits_commitD [OF ph(2)] .
  then show ?thesis by auto
qed

lemma committed_last:
  "monitor Checking t = Some ph \<Longrightarrow> ph = Committed \<longleftrightarrow> t \<noteq> [] \<and> last t = EvCommit None"
proof (cases t rule: rev_cases)
  case (snoc u e)
  assume "monitor Checking t = Some ph"
  with snoc obtain ph1 where "permits ph1 e = Some ph" by (auto split: option.splits)
  then show ?thesis
    using snoc by (induction ph1 e rule: permits.induct) (auto split: if_splits)
qed auto

lemma sends_once: "monitor Checking t = Some ph \<Longrightarrow> count_list t EvSendStart \<le> 1"
  by (drule monitor_earned) (cases ph; auto)

text \<open>An outcome Skipped leaves only the way through the audit to a commit.\<close>

fun before_audit :: "phase \<Rightarrow> rec_event list \<Rightarrow> bool" where
  "before_audit MayCommit t \<longleftrightarrow> EvSend (Inr Skipped) \<in> set t \<longrightarrow> EvAudit None \<in> set t"
| "before_audit Committed t \<longleftrightarrow> EvSend (Inr Skipped) \<in> set t \<longrightarrow> EvAudit None \<in> set t"
| "before_audit MustAudit t \<longleftrightarrow> True"
| "before_audit _ t \<longleftrightarrow> EvSend (Inr Skipped) \<notin> set t"

lemma before_audit_step: "before_audit ph t \<Longrightarrow> permits ph e = Some ph' \<Longrightarrow> before_audit ph' (t @ [e])"
  by (induction ph e rule: permits.induct) (auto split: if_splits)

lemma monitor_before_audit: "monitor Checking t = Some ph \<Longrightarrow> before_audit ph t"
proof (induction t arbitrary: ph rule: rev_induct)
  case Nil
  then show ?case by auto
next
  case (snoc e t)
  then obtain ph1 where "monitor Checking t = Some ph1" "permits ph1 e = Some ph"
    by (auto split: option.splits)
  with snoc.IH before_audit_step show ?case by blast
qed

lemma skipped_needs_audit:
  "\<exists>ph. monitor Checking t = Some ph \<and> (Some None = Some (None :: go_error option) \<longleftrightarrow> ph = Committed) \<Longrightarrow>
   EvSend (Inr Skipped) \<in> set t \<Longrightarrow> EvAudit None \<in> set t"
  using monitor_before_audit by fastforce

section \<open>Properties\<close>

text \<open>The actions of the examples: the lookup finds nothing, the destination answers Skipped.\<close>

definition skipping_actions :: "unit record_actions" where
  "skipping_actions =
     \<lparr>act_skipped = (\<lambda>w. (Inr False, w)), act_send = (\<lambda>w. (Some (Inr Skipped), w)),
      act_audit = (\<lambda>w. (None, w)), act_commit = (\<lambda>w. (None, w))\<rparr>"

lemma skipping_run:
  "run_traced 2 endless second skipping_actions () =
   (Some None, [EvSkipped (Inr False), EvSendStart, EvSend (Inr Skipped), EvAudit None, EvCommit None], ())"
  by code_simp

text \<open>
  C1. At-least-once: in every run of \<^verbatim>\<open>completeRecord\<close>, finished or cut off at any moment, for every
  behaviour of store, destination, broker and context, a commit of the offset is attempted only after
  the record was found skipped, or a request ended with a terminal outcome, and if that outcome was
  Skipped, only after the skip was stored.
\<close>

theorem commit_after_outcome:
  assumes "run_traced fuel c delay acts w = (r, before @ EvCommit x # after, w')"
  shows "EvSkipped (Inr True) \<in> set before \<or>
    (\<exists>o1. EvSend (Inr o1) \<in> set before \<and> (o1 = Skipped \<longrightarrow> EvAudit None \<in> set before))"
  using run_traced_monitored [OF assms] by (intro commit_needs_outcome [of before x after]) auto

theorem commit_after_outcome_witness:
  "EvSkipped (Inr True) \<in> set [EvSkipped (Inr False), EvSendStart, EvSend (Inr Skipped), EvAudit None] \<or>
    (\<exists>o1. EvSend (Inr o1) \<in> set [EvSkipped (Inr False), EvSendStart, EvSend (Inr Skipped), EvAudit None] \<and>
      (o1 = Skipped \<longrightarrow>
       EvAudit None \<in> set [EvSkipped (Inr False), EvSendStart, EvSend (Inr Skipped), EvAudit None]))"
  by (rule commit_after_outcome
        [of 2 endless second skipping_actions "()" "Some None" _ None "[]" "()"])
     (simp add: skipping_run)

text \<open>
  C2. \<^verbatim>\<open>completeRecord\<close> returns nil exactly when its last call was a commit that succeeded, it never
  calls the sender twice, and after the successful commit it calls nothing.
\<close>

theorem nil_iff_committed:
  assumes "run_traced fuel c delay acts w = (r, t, w')"
  shows "(r = Some None \<longleftrightarrow> t \<noteq> [] \<and> last t = EvCommit None) \<and> count_list t EvSendStart \<le> 1 \<and>
    EvCommit None \<notin> set (butlast t)"
proof -
  obtain ph where ph: "monitor Checking t = Some ph" "r = Some None \<longleftrightarrow> ph = Committed"
    using run_traced_monitored [OF assms] by blast
  have "EvCommit None \<notin> set (butlast t)"
  proof
    assume "EvCommit None \<in> set (butlast t)"
    then obtain xs ys where "butlast t = xs @ EvCommit None # ys" by (meson split_list)
    moreover have "t \<noteq> []" using \<open>EvCommit None \<in> set (butlast t)\<close> by auto
    ultimately have t: "t = (xs @ [EvCommit None]) @ (ys @ [last t])"
      by (metis append.assoc append_Cons append_Nil append_butlast_last_id)
    obtain p1 where p1: "monitor Checking (xs @ [EvCommit None]) = Some p1"
      "monitor p1 (ys @ [last t]) = Some ph"
      using ph(1) by (subst (asm) t) (auto simp only: monitor_append split: option.splits)
    from committed_last [OF p1(1)] have "p1 = Committed" by simp
    with p1(2) show False by (cases ys) auto
  qed
  with ph committed_last [OF ph(1)] sends_once [OF ph(1)] show ?thesis by blast
qed

theorem nil_iff_committed_witness:
  "(Some None = Some (None :: go_error option) \<longleftrightarrow>
     [EvSkipped (Inr False), EvSendStart, EvSend (Inr Skipped), EvAudit None, EvCommit None] \<noteq> [] \<and>
     last [EvSkipped (Inr False), EvSendStart, EvSend (Inr Skipped), EvAudit None, EvCommit None] =
       EvCommit None) \<and>
   count_list [EvSkipped (Inr False), EvSendStart, EvSend (Inr Skipped), EvAudit None, EvCommit None]
     EvSendStart \<le> 1 \<and>
   EvCommit None \<notin>
     set (butlast [EvSkipped (Inr False), EvSendStart, EvSend (Inr Skipped), EvAudit None, EvCommit None])"
  by (rule nil_iff_committed [OF skipping_run])

text \<open>
  The traced run the order properties speak of is the code's run: forgetting the trace gives exactly
  the result and the world of \<^verbatim>\<open>completeRecord\<close>.
\<close>

theorem traced_run_is_the_run:
  "(case run_traced fuel c delay acts w of (r, t, w') \<Rightarrow> (r, w')) = complete_record fuel c delay acts w"
  using run_traced_erases [of fuel c delay acts w]
  by (cases "run_traced fuel c delay acts w") (auto simp: untrace_def)

end
