(* ===== verification/Redelivery.thy ===== *)
theory Redelivery
  imports RecordOrder
begin

text \<open>
  The interface between delivery and the store of durable skips, and what delivery makes of it: once
  a skip is stored, the record is committed without another request, whatever the destination would
  answer; and a record whose skip was saved by one run is not sent by any later run.
\<close>

section \<open>The skip store\<close>

text \<open>
  \<open>skipped w\<close> is the set of keys with a stored skip. \<open>has\<close> answers truthfully or fails; \<open>save\<close> reports
  success only after storing; no operation forgets a skip. \<open>later w w'\<close> says that the world may have
  moved from \<open>w\<close> to \<open>w'\<close> by operations of the store.
\<close>

locale skip_store =
  fixes has :: "'k \<Rightarrow> 'w \<Rightarrow> (go_error + bool) \<times> 'w"
    and save :: "'k \<Rightarrow> 'w \<Rightarrow> go_error option \<times> 'w"
    and skipped :: "'w \<Rightarrow> 'k set"
  assumes has_truth: "has k w = (Inr b, w') \<Longrightarrow> b \<longleftrightarrow> k \<in> skipped w"
    and has_keeps: "has k w = (r, w') \<Longrightarrow> skipped w' = skipped w"
    and save_stores: "save k w = (None, w') \<Longrightarrow> k \<in> skipped w'"
    and save_keeps: "save k w = (err, w') \<Longrightarrow> skipped w \<subseteq> skipped w'"
begin

text \<open>The lookup of a stored skip: whatever the fuel, it answers \<open>True\<close> or fails with the context.\<close>

lemma lookup_found:
  assumes wait: "\<And>d w b w'. ctx_wait c d w = (b, w') \<Longrightarrow> skipped w \<subseteq> skipped w'"
  shows "safe (\<lambda>w. k \<in> skipped w) (retry_value fuel c d (has k))
           (\<lambda>r w. k \<in> skipped w \<and> r \<noteq> Inr False) (\<lambda>w. k \<in> skipped w)"
proof (rule safe_weaken)
  show "safe (\<lambda>w. k \<in> skipped w) (retry_value fuel c d (has k))
      (\<lambda>r w. case r of Inr b \<Rightarrow> b \<and> k \<in> skipped w | Inl _ \<Rightarrow> k \<in> skipped w) (\<lambda>w. k \<in> skipped w)"
  proof (rule safe_retry_value)
    fix w w' b
    assume "k \<in> skipped w" and run: "has k w = (Inr b, w')"
    with has_truth [OF run] has_keeps [OF run] show "b \<and> k \<in> skipped w'" by simp
  next
    fix w w' e
    assume "k \<in> skipped w" and run: "has k w = (Inl e, w')"
    with has_keeps [OF run] show "k \<in> skipped w'" by simp
  next
    fix w b w'
    assume "k \<in> skipped w" and "ctx_wait c d w = (b, w')"
    with wait show "k \<in> skipped w'" by blast
  qed
qed (auto split: sum.splits)

text \<open>
  With the skip stored, the request and the audit of the record do not matter: replacing them by any
  other actions gives the same run, so they are never called.
\<close>

lemma stored_skip_never_sent:
  assumes wait: "\<And>d w b w'. ctx_wait c d w = (b, w') \<Longrightarrow> skipped w \<subseteq> skipped w'"
    and found: "k \<in> skipped w" and look: "act_skipped acts = has k"
  shows "complete_record fuel c d (acts\<lparr>act_send := send', act_audit := audit'\<rparr>) w =
         complete_record fuel c d acts w"
proof -
  obtain r w1 where run: "retry_value fuel c d (has k) w = (r, w1)" by fastforce
  have ok: "safe (\<lambda>w. k \<in> skipped w) (retry_value fuel c d (has k))
           (\<lambda>r w. k \<in> skipped w \<and> r \<noteq> Inr False) (\<lambda>w. k \<in> skipped w)"
    by (rule lookup_found) (rule wait)
  show ?thesis
  proof (cases r)
    case None
    with run look show ?thesis by (simp add: complete_record_def bindp_def)
  next
    case (Some res)
    with safeD_Some [OF ok found] run have "res \<noteq> Inr False" by blast
    with run look Some show ?thesis
      by (cases res) (auto simp: complete_record_def bindp_def)
  qed
qed

text \<open>What is left for such a record is its commit: a run that returns has committed it, or was ended by its context.\<close>

lemma stored_skip_commits:
  assumes wait: "\<And>d w b w'. ctx_wait c d w = (b, w') \<Longrightarrow> skipped w \<subseteq> skipped w'"
    and found: "k \<in> skipped w" and look: "act_skipped acts = has k"
    and run: "complete_record fuel c d acts w = (Some r, w')"
  shows "case r of None \<Rightarrow> \<exists>w1. act_commit acts w1 = (None, w') | Some e \<Rightarrow> ctx_err c w' = Some e"
proof -
  obtain x w1 where x: "retry_value fuel c d (has k) w = (x, w1)" by fastforce
  with run look obtain a where a: "x = Some a" by (cases x) (auto simp: complete_record_def bindp_def)
  have "safe (\<lambda>w. k \<in> skipped w) (retry_value fuel c d (has k))
      (\<lambda>r w. k \<in> skipped w \<and> r \<noteq> Inr False) (\<lambda>w. k \<in> skipped w)"
    by (rule lookup_found) (rule wait)
  from safeD_Some [OF this found] x a have "a \<noteq> Inr False" by blast
  then consider (failed) e where "a = Inl e" | (found) "a = Inr True" by (cases a) auto
  then show ?thesis
  proof cases
    case failed
    with run look x a have "r = Some e" "w' = w1" by (auto simp: complete_record_def bindp_def retp_def)
    with retry_value_end [of fuel c d "has k" w a w1] x a failed show ?thesis by simp
  next
    case found
    with run look x a have "retry fuel c d (act_commit acts) w1 = (Some r, w')" by (simp add: complete_record_def bindp_def)
    then show ?thesis by (rule retry_result)
  qed
qed

lemma stored_skip_at_once:
  assumes "k \<in> skipped w" and "act_skipped acts = has k" and "0 < fuel"
    and "ctx_err c w = None" and "has k w = (Inr b, w1)" and "ctx_err c w1 = None" and "act_commit acts w1 = (None, w2)"
  shows "complete_record fuel c d acts w = (Some None, w2)"
proof (cases fuel)
  case (Suc n)
  have "b" using has_truth [OF assms(5)] assms(1) by simp
  with Suc assms(2,4-7) show ?thesis by (simp add: complete_record_def bindp_def)
qed (use assms(3) in simp)

text \<open>
  A run whose destination answered Skipped ends with the skip stored. \<open>audited\<close> is kept by every call:
  once an audit succeeded, the key is stored.
\<close>

definition audited :: "'k \<Rightarrow> rec_event list \<times> 'w \<Rightarrow> bool" where
  "audited k tw \<longleftrightarrow> (EvAudit None \<in> set (fst tw) \<longrightarrow> k \<in> skipped (snd tw))"

lemma audited_run:
  assumes audit: "act_audit acts = save k"
    and look: "\<And>w r w'. act_skipped acts w = (r, w') \<Longrightarrow> skipped w \<subseteq> skipped w'"
    and send: "\<And>w r w'. act_send acts w = (r, w') \<Longrightarrow> skipped w \<subseteq> skipped w'"
    and commit: "\<And>w r w'. act_commit acts w = (r, w') \<Longrightarrow> skipped w \<subseteq> skipped w'"
    and wait: "\<And>d w b w'. ctx_wait c d w = (b, w') \<Longrightarrow> skipped w \<subseteq> skipped w'"
  shows "safe (audited k) (complete_record fuel (traced_ctx c) d (traced acts))
    (\<lambda>r. audited k) (audited k)"
proof -
  have waits: "audited k tw'" if "audited k tw" "ctx_wait (traced_ctx c) d tw = (b, tw')" for d tw b tw'
    using that wait by (fastforce simp: audited_def traced_ctx_def split: prod.splits)
  have "safe (audited k) (retry_value fuel (traced_ctx c) d (act_skipped (traced acts)))
      (\<lambda>r w. case r of Inr a \<Rightarrow> audited k w | Inl _ \<Rightarrow> audited k w) (audited k)"
    by (rule safe_retry_value [where Q = "\<lambda>_. audited k"])
       (use look waits in \<open>fastforce simp: audited_def traced_def split: prod.splits\<close>)+
  then have looks: "safe (audited k) (retry_value fuel (traced_ctx c) d (act_skipped (traced acts)))
      (\<lambda>r. audited k) (audited k)"
    by (rule safe_weaken) (auto split: sum.splits)
  have sends: "safe (audited k) (act_send (traced acts)) (\<lambda>r. audited k) (audited k)"
    by (rule safe_runI)
       (use send in \<open>fastforce simp: audited_def traced_def split: prod.splits option.splits\<close>)
  have "safe (audited k) (retry fuel (traced_ctx c) d (act_audit (traced acts)))
      (\<lambda>r w. case r of None \<Rightarrow> audited k w | Some _ \<Rightarrow> audited k w) (audited k)"
    by (rule safe_retry)
       (use save_stores save_keeps audit waits in
         \<open>fastforce simp: audited_def traced_def split: prod.splits\<close>)+
  then have audits: "safe (audited k) (retry fuel (traced_ctx c) d (act_audit (traced acts)))
      (\<lambda>r. audited k) (audited k)"
    by (rule safe_weaken) (auto split: option.splits)
  have "safe (audited k) (retry fuel (traced_ctx c) d (act_commit (traced acts)))
      (\<lambda>r w. case r of None \<Rightarrow> audited k w | Some _ \<Rightarrow> audited k w) (audited k)"
    by (rule safe_retry)
       (use commit waits in \<open>fastforce simp: audited_def traced_def split: prod.splits\<close>)+
  then have commits: "safe (audited k) (retry fuel (traced_ctx c) d (act_commit (traced acts)))
      (\<lambda>r. audited k) (audited k)"
    by (rule safe_weaken) (auto split: option.splits)
  show ?thesis
    unfolding complete_record_def send_and_audit_def
    by (rule safe_bindp [OF looks])
       (auto intro!: safe_retp commits audits safe_bindp [OF sends] safe_bindp [where M = "\<lambda>_. audited k"]
         split: sum.splits option.splits)
qed

lemma skipped_commit_durable:
  assumes "act_audit acts = save k"
    and "\<And>w r w'. act_skipped acts w = (r, w') \<Longrightarrow> skipped w \<subseteq> skipped w'"
    and "\<And>w r w'. act_send acts w = (r, w') \<Longrightarrow> skipped w \<subseteq> skipped w'"
    and "\<And>w r w'. act_commit acts w = (r, w') \<Longrightarrow> skipped w \<subseteq> skipped w'"
    and "\<And>d w b w'. ctx_wait c d w = (b, w') \<Longrightarrow> skipped w \<subseteq> skipped w'"
    and run: "run_traced fuel c d acts w = (Some None, t, w')" and "EvSend (Inr Skipped) \<in> set t"
  shows "k \<in> skipped w'"
proof -
  have "audited k (t, w')"
    by (rule safeD_Some [OF audited_run [OF assms(1-5)]])
       (use run in \<open>auto simp: run_traced_def audited_def\<close>)
  moreover have "EvAudit None \<in> set t"
    using run_traced_monitored [OF run] skipped_needs_audit assms(7) by blast
  ultimately show ?thesis by (simp add: audited_def)
qed

text \<open>A completed audit leaves the skip stored, whatever failed before it.\<close>

lemma audit_stores:
  assumes "retry fuel c d (save k) w = (Some None, w')"
  shows "k \<in> skipped w'"
proof -
  from retry_result [OF assms] obtain w1 where "save k w1 = (None, w')" by auto
  then show ?thesis by (rule save_stores)
qed

end

end
