(* ===== verification/ControlStore.thy ===== *)
theory ControlStore
  imports Redelivery "HOL-Library.AList"
begin

text \<open>
  \<^verbatim>\<open>internal/adapters/controlpg\<close>: the durable control state (\<^verbatim>\<open>store.go\<close>, \<^verbatim>\<open>streams.go\<close>,
  \<^verbatim>\<open>subscriptions.go\<close>). PostgreSQL itself is not under src/; what its statements do is the SQL text
  of the source, so a table is an association list from its primary key to the rest of the row, and
  every statement is an update of it. The database may refuse a statement, or carry it out and lose the
  reply, which the code cannot tell apart: \<open>pg_faults\<close> is the script of what happens to the next
  statements. A read is one statement; a transaction takes effect at its commit.

  Rows are compared as values: the JSON encodings of identity and names are not spelled out, because
  the code only compares them for equality of content (\<^verbatim>\<open>jsonEqual\<close>).
\<close>

section \<open>Tables and statements\<close>

record db =
  db_streams :: "((scope \<times> bytes) \<times> registration) list"
  db_subscriptions :: "((scope \<times> bytes) \<times> bytes \<times> int) list"
  db_leases :: "((scope \<times> bytes) \<times> int) list"
  db_observed :: "((scope \<times> bytes \<times> bytes) \<times> int \<times> bytes) list"
  db_skips :: "((scope \<times> bytes \<times> bytes \<times> int \<times> int) \<times> bytes \<times> bytes) list"
  db_started :: "((scope \<times> bytes \<times> bytes \<times> int) \<times> int) list"

datatype fault = Fine | Refused | LostReply

record pg =
  pg_db :: db
  pg_now :: int
  pg_faults :: "fault list"

text \<open>What happens to the next statement.\<close>

definition next_fault :: "pg \<Rightarrow> fault \<times> pg" where
  "next_fault p =
     (case pg_faults p of [] \<Rightarrow> (Fine, p) | f # fs \<Rightarrow> (f, p\<lparr>pg_faults := fs\<rparr>))"

definition exec_write :: "bytes \<Rightarrow> (db \<Rightarrow> db) \<Rightarrow> pg \<Rightarrow> go_error option \<times> pg" where
  "exec_write err change p =
     (case next_fault p of
        (Fine, p') \<Rightarrow> (None, p'\<lparr>pg_db := change (pg_db p')\<rparr>)
      | (Refused, p') \<Rightarrow> (Some (Errorf err), p')
      | (LostReply, p') \<Rightarrow> (Some (Errorf err), p'\<lparr>pg_db := change (pg_db p')\<rparr>))"

definition exec_read :: "bytes \<Rightarrow> (db \<Rightarrow> 'a) \<Rightarrow> pg \<Rightarrow> (go_error + 'a) \<times> pg" where
  "exec_read err look p =
     (case next_fault p of
        (Fine, p') \<Rightarrow> (Inr (look (pg_db p')), p')
      | (_, p') \<Rightarrow> (Inl (Errorf err), p'))"

text \<open>A statement inside a transaction can only fail; its effect waits for the commit.\<close>

definition exec_in_tx :: "bytes \<Rightarrow> pg \<Rightarrow> go_error option \<times> pg" where
  "exec_in_tx err p =
     (case next_fault p of
        (Fine, p') \<Rightarrow> (None, p')
      | (_, p') \<Rightarrow> (Some (Errorf err), p'))"

fun exec_all_in_tx :: "bytes list \<Rightarrow> pg \<Rightarrow> go_error option \<times> pg" where
  "exec_all_in_tx [] p = (None, p)"
| "exec_all_in_tx (err # errs) p =
     (case exec_in_tx err p of
        (Some e, p') \<Rightarrow> (Some e, p')
      | (None, p') \<Rightarrow> exec_all_in_tx errs p')"

text \<open>\<^verbatim>\<open>INSERT ... ON CONFLICT DO NOTHING\<close>, and the upsert.\<close>

definition insert_new :: "'k \<Rightarrow> 'v \<Rightarrow> ('k \<times> 'v) list \<Rightarrow> ('k \<times> 'v) list" where
  "insert_new k v rows = (if map_of rows k = None then rows @ [(k, v)] else rows)"

definition upsert :: "'k \<Rightarrow> 'v \<Rightarrow> ('k \<times> 'v) list \<Rightarrow> ('k \<times> 'v) list" where
  "upsert k v rows = AList.update k v rows"

lemma map_of_insert_new [simp]:
  "map_of (insert_new k v rows) =
   (map_of rows)(k := (case map_of rows k of None \<Rightarrow> Some v | Some x \<Rightarrow> Some x))"
proof -
  have "map_of (rows @ [(k, v)]) x = ((map_of rows)(k := Some v)) x" if "map_of rows k = None" for x
    using that by (induction rows) (auto split: if_splits)
  then show ?thesis by (auto simp: insert_new_def fun_eq_iff split: option.splits)
qed

lemma map_of_upsert [simp]: "map_of (upsert k v rows) = (map_of rows)(k \<mapsto> v)"
  by (simp add: upsert_def update_conv')

definition valid_scope :: "scope \<Rightarrow> bool" where
  "valid_scope s \<longleftrightarrow> sc_namespace s \<noteq> [] \<and> sc_environment s \<noteq> [] \<and> generation_valid (sc_generation s)"

definition invalid_scope :: go_error where
  "invalid_scope = Errorf ''control: invalid scope''"

definition blank :: "bytes \<Rightarrow> bool" where
  "blank s \<longleftrightarrow> trim_space s = []"

section \<open>Leases and partition markers\<close>

definition renew_lease :: "scope \<Rightarrow> bytes \<Rightarrow> int \<Rightarrow> pg \<Rightarrow> go_error option \<times> pg" where
  "renew_lease s worker ttl p =
     (if \<not> valid_scope s then (Some invalid_scope, p)
      else if worker = [] \<or> ttl \<le> 0 then
        (Some (Errorf ''control: worker ID and positive lease TTL are required''), p)
      else exec_write ''control: renew lease''
             (\<lambda>d. d\<lparr>db_leases := upsert (s, worker) (pg_now p + ttl) (db_leases d)\<rparr>) p)"

definition remove_worker :: "scope \<Rightarrow> bytes \<Rightarrow> db \<Rightarrow> db" where
  "remove_worker s worker d =
     d\<lparr>db_observed := filter (\<lambda>((s', w, _), _). \<not> (s' = s \<and> w = worker)) (db_observed d),
       db_leases := filter (\<lambda>((s', w), _). \<not> (s' = s \<and> w = worker)) (db_leases d)\<rparr>"

definition release_lease :: "scope \<Rightarrow> bytes \<Rightarrow> pg \<Rightarrow> go_error option \<times> pg" where
  "release_lease s worker p =
     (if \<not> valid_scope s then (Some invalid_scope, p)
      else if worker = [] then (Some (Errorf ''control: worker ID is required''), p)
      else (case exec_all_in_tx
                   [''control: release lease'', ''control: release observations for worker'',
                    ''control: release lease for worker''] p of
              (Some e, p') \<Rightarrow> (Some e, p')
            | (None, p') \<Rightarrow> exec_write ''control: release lease'' (remove_worker s worker) p'))"

definition partition_started :: "scope \<Rightarrow> bytes \<Rightarrow> bytes \<Rightarrow> int \<Rightarrow> pg \<Rightarrow> (go_error + bool) \<times> pg" where
  "partition_started s destination topic part p =
     (if \<not> valid_scope s then (Inl invalid_scope, p)
      else exec_read ''control: partition marker''
             (\<lambda>d. map_of (db_started d) (s, destination, topic, part) \<noteq> None) p)"

definition mark_partition_started :: "scope \<Rightarrow> bytes \<Rightarrow> bytes \<Rightarrow> int \<Rightarrow> pg \<Rightarrow> go_error option \<times> pg" where
  "mark_partition_started s destination topic part p =
     (if \<not> valid_scope s then (Some invalid_scope, p)
      else if destination = [] \<or> topic = [] \<or> part < 0 then
        (Some (Errorf ''control: destination, topic, and non-negative partition are required''), p)
      else exec_write ''control: mark partition''
             (\<lambda>d. d\<lparr>db_started :=
                insert_new (s, destination, topic, part) (pg_now p) (db_started d)\<rparr>) p)"

section \<open>Skips\<close>

definition skip_key :: "scope \<Rightarrow> bytes \<Rightarrow> stream_record \<Rightarrow> scope \<times> bytes \<times> bytes \<times> int \<times> int" where
  "skip_key s destination r = (s, destination, rec_topic r, rec_partition r, rec_offset r)"

definition skip_position_ok :: "bytes \<Rightarrow> stream_record \<Rightarrow> bool" where
  "skip_position_ok destination r \<longleftrightarrow>
     destination \<noteq> [] \<and> rec_topic r \<noteq> [] \<and> 0 \<le> rec_partition r \<and> 0 \<le> rec_offset r"

definition skip_position_error :: go_error where
  "skip_position_error =
     Errorf ''control: destination, topic, non-negative partition, and offset are required''"

definition save_skip :: "scope \<Rightarrow> bytes \<Rightarrow> stream_record \<Rightarrow> pg \<Rightarrow> go_error option \<times> pg" where
  "save_skip s destination r p =
     (if \<not> valid_scope s then (Some invalid_scope, p)
      else if \<not> skip_position_ok destination r then (Some skip_position_error, p)
      else exec_write ''control: save skip''
             (\<lambda>d. d\<lparr>db_skips := insert_new (skip_key s destination r)
                     (src_id (rec_source r), rec_event_id r) (db_skips d)\<rparr>) p)"

definition has_skip :: "scope \<Rightarrow> bytes \<Rightarrow> stream_record \<Rightarrow> pg \<Rightarrow> (go_error + bool) \<times> pg" where
  "has_skip s destination r p =
     (if \<not> valid_scope s then (Inl invalid_scope, p)
      else if \<not> skip_position_ok destination r then (Inl skip_position_error, p)
      else exec_read ''control: check skip''
             (\<lambda>d. map_of (db_skips d) (skip_key s destination r) \<noteq> None) p)"

section \<open>Streams\<close>

definition get_stream :: "scope \<Rightarrow> bytes \<Rightarrow> pg \<Rightarrow> (go_error + registration option) \<times> pg" where
  "get_stream s source_id p =
     (if \<not> valid_scope s then (Inl invalid_scope, p)
      else exec_read ''control: get stream''
             (\<lambda>d. map_option (\<lambda>g. g\<lparr>reg_source := source_id\<rparr>) (map_of (db_streams d) (s, source_id))) p)"

definition same_stream :: "registration \<Rightarrow> registration \<Rightarrow> bool" where
  "same_stream old new \<longleftrightarrow>
     reg_identity old = reg_identity new \<and> reg_names old = reg_names new \<and>
     reg_topic_id old = reg_topic_id new"

text \<open>
  \<^verbatim>\<open>RegisterStream\<close>: insert unless present, read the row back under the same transaction, and roll
  back unless it is the stream asked for.
\<close>

definition register_stream :: "scope \<Rightarrow> registration \<Rightarrow> pg \<Rightarrow> go_error option \<times> pg" where
  "register_stream s g p =
     (if \<not> valid_scope s then (Some invalid_scope, p)
      else if reg_source g = [] then (Some (Errorf ''control: stream source ID is required''), p)
      else (case exec_all_in_tx
                   [''control: register stream'', ''control: register stream'',
                    ''control: read registered stream''] p of
              (Some e, p') \<Rightarrow> (Some e, p')
            | (None, p') \<Rightarrow>
                let rows = insert_new (s, reg_source g) g (db_streams (pg_db p'))
                in (case map_of rows (s, reg_source g) of
                      None \<Rightarrow> (Some (Errorf ''control: read registered stream''), p')
                    | Some old \<Rightarrow>
                        if \<not> same_stream old g then
                          (Some (Errorf ''control: stream is already registered with different identity, names, or topic''), p')
                        else exec_write ''control: register stream''
                               (\<lambda>d. d\<lparr>db_streams := rows\<rparr>) p')))"

definition block_row :: "scope \<Rightarrow> bytes \<Rightarrow> bytes \<Rightarrow> db \<Rightarrow> db" where
  "block_row s source_id reason d =
     (case map_of (db_streams d) (s, source_id) of
        None \<Rightarrow> d
      | Some g \<Rightarrow> d\<lparr>db_streams := upsert (s, source_id) (g\<lparr>reg_blocked := reason\<rparr>) (db_streams d)\<rparr>)"

definition block_source :: "scope \<Rightarrow> bytes \<Rightarrow> bytes \<Rightarrow> pg \<Rightarrow> go_error option \<times> pg" where
  "block_source s source_id reason p =
     (if \<not> valid_scope s then (Some invalid_scope, p)
      else if blank reason then (Some (Errorf ''control: block reason is required''), p)
      else (case exec_write ''control: block source'' (block_row s source_id reason) p of
              (Some e, p') \<Rightarrow> (Some e, p')
            | (None, p') \<Rightarrow>
                if map_of (db_streams (pg_db p)) (s, source_id) = None
                then (Some (Errorf ''control: stream is not registered''), p')
                else (None, p')))"

section \<open>Subscriptions\<close>

type_synonym desired_subscription = "bytes \<times> bytes \<times> int"

definition ensure_rows :: "scope \<Rightarrow> bytes list \<Rightarrow> db \<Rightarrow> db" where
  "ensure_rows s ids d =
     d\<lparr>db_subscriptions :=
        fold (\<lambda>i rows. insert_new (s, i) (''running'', 1) rows) ids (db_subscriptions d)\<rparr>"

fun ensure_statements :: "bytes list \<Rightarrow> pg \<Rightarrow> go_error option \<times> pg" where
  "ensure_statements [] p = (None, p)"
| "ensure_statements (i # ids) p =
     (if i = [] then (Some (Errorf ''control: subscription ID is required''), p)
      else (case exec_in_tx ''control: ensure subscription'' p of
              (Some e, p') \<Rightarrow> (Some e, p')
            | (None, p') \<Rightarrow> ensure_statements ids p'))"

definition ensure_subscriptions :: "scope \<Rightarrow> bytes list \<Rightarrow> pg \<Rightarrow> go_error option \<times> pg" where
  "ensure_subscriptions s ids p =
     (if \<not> valid_scope s then (Some invalid_scope, p)
      else (case exec_in_tx ''control: ensure subscriptions'' p of
              (Some e, p') \<Rightarrow> (Some e, p')
            | (None, p1) \<Rightarrow>
                (case ensure_statements (sort ids) p1 of
                   (Some e, p2) \<Rightarrow> (Some e, p2)
                 | (None, p2) \<Rightarrow>
                     exec_write ''control: ensure subscriptions'' (ensure_rows s (sort ids)) p2)))"

definition scope_subscriptions :: "scope \<Rightarrow> db \<Rightarrow> desired_subscription list" where
  "scope_subscriptions s d =
     sort_key fst (map (\<lambda>((_, i), v). (i, v)) (filter (\<lambda>((s', _), _). s' = s) (db_subscriptions d)))"

definition subscriptions :: "scope \<Rightarrow> pg \<Rightarrow> (go_error + desired_subscription list) \<times> pg" where
  "subscriptions s p =
     (if \<not> valid_scope s then (Inl invalid_scope, p)
      else exec_read ''control: list subscriptions'' (scope_subscriptions s) p)"

definition set_desired_row :: "scope \<Rightarrow> bytes \<Rightarrow> bytes \<Rightarrow> db \<Rightarrow> db" where
  "set_desired_row s i state d =
     (case map_of (db_subscriptions d) (s, i) of
        None \<Rightarrow> d
      | Some (desired, revision) \<Rightarrow>
          d\<lparr>db_subscriptions := upsert (s, i)
             (state, revision + (if desired = state then 0 else 1)) (db_subscriptions d)\<rparr>)"

definition set_desired :: "scope \<Rightarrow> bytes \<Rightarrow> bytes \<Rightarrow> pg \<Rightarrow> (go_error + desired_subscription) \<times> pg" where
  "set_desired s i state p =
     (if \<not> valid_scope s then (Inl invalid_scope, p)
      else if state \<noteq> ''running'' \<and> state \<noteq> ''paused'' then
        (Inl (Errorf ''control: invalid desired state''), p)
      else (case exec_write ''control: set subscription'' (set_desired_row s i state) p of
              (Some e, p') \<Rightarrow> (Inl e, p')
            | (None, p') \<Rightarrow>
                (case map_of (db_subscriptions (pg_db p')) (s, i) of
                   None \<Rightarrow> (Inl (Errorf ''control: subscription is not registered''), p')
                 | Some row \<Rightarrow> (Inr (i, row), p'))))"

definition observe_row :: "scope \<Rightarrow> bytes \<Rightarrow> bytes \<Rightarrow> int \<Rightarrow> bytes \<Rightarrow> db \<Rightarrow> db" where
  "observe_row s worker destination revision state d =
     (case map_of (db_observed d) (s, worker, destination) of
        Some (old, _) \<Rightarrow>
          if old \<le> revision
          then d\<lparr>db_observed := upsert (s, worker, destination) (revision, state) (db_observed d)\<rparr>
          else d
      | None \<Rightarrow>
          d\<lparr>db_observed := upsert (s, worker, destination) (revision, state) (db_observed d)\<rparr>)"

definition observe_subscription :: "scope \<Rightarrow> bytes \<Rightarrow> bytes \<Rightarrow> int \<Rightarrow> bytes \<Rightarrow> pg \<Rightarrow>
    go_error option \<times> pg" where
  "observe_subscription s worker destination revision state p =
     (if \<not> valid_scope s then (Some invalid_scope, p)
      else if worker = [] \<or> destination = [] \<or> revision \<le> 0 \<or> blank state then
        (Some (Errorf ''control: worker ID, destination, positive revision, and state are required''), p)
      else exec_write ''control: observe subscription''
             (observe_row s worker destination revision state) p)"

text \<open>The workers of a scope whose lease has not expired.\<close>

definition live_workers :: "scope \<Rightarrow> int \<Rightarrow> db \<Rightarrow> bytes list" where
  "live_workers s now d =
     map (\<lambda>((_, w), _). w) (filter (\<lambda>((s', _), expires). s' = s \<and> now < expires) (db_leases d))"

definition worker_observed :: "scope \<Rightarrow> bytes \<Rightarrow> int \<Rightarrow> bytes \<Rightarrow> db \<Rightarrow> bytes \<Rightarrow> bool" where
  "worker_observed s destination revision state d w =
     (case map_of (db_observed d) (s, w, destination) of
        None \<Rightarrow> False
      | Some (r, st) \<Rightarrow> \<not> (r < revision \<or> st \<noteq> state))"

definition all_observed :: "scope \<Rightarrow> int \<Rightarrow> bytes \<Rightarrow> int \<Rightarrow> bytes \<Rightarrow> db \<Rightarrow> bool" where
  "all_observed s now destination revision state d \<longleftrightarrow>
     live_workers s now d \<noteq> [] \<and>
     list_all (worker_observed s destination revision state d) (live_workers s now d)"

definition subscription_observed :: "scope \<Rightarrow> bytes \<Rightarrow> int \<Rightarrow> bytes \<Rightarrow> pg \<Rightarrow> (go_error + bool) \<times> pg" where
  "subscription_observed s destination revision state p =
     (if \<not> valid_scope s then (Inl invalid_scope, p)
      else if destination = [] \<or> revision \<le> 0 \<or> blank state then
        (Inl (Errorf ''control: destination, positive revision, and state are required''), p)
      else exec_read ''control: check subscription observation''
             (all_observed s (pg_now p) destination revision state) p)"

end
