(* ===== verification/Control.thy ===== *)
theory Control
  imports ControlStore Activity "HOL-Library.State_Monad"
begin

text \<open>
  \<^verbatim>\<open>internal/control\<close>: the control loop of one worker (\<^verbatim>\<open>state.go\<close>, \<^verbatim>\<open>service.go\<close>, \<^verbatim>\<open>reconcile.go\<close>).

  The fields guarded by the mutex are the record \<open>service\<close>; the interfaces the service calls (store, source
  monitor, consumers, Kafka, clock, activity log) are the operations of an \<open>env\<close> on a world \<open>'w\<close>. An
  operation of the service is a state transformer (theory State_Monad) over both.

  Concurrency is modelled at the granularity of the mutex: \<open>locked\<close> is one critical section, and before it
  runs the environment may apply to the service whatever other goroutines did since the last one
  (\<open>env_between\<close>). Calls to the environment happen outside the lock, as in the source. A Go map is an
  association list, and the order a \<^verbatim>\<open>range\<close> visits it in is the environment's choice (\<open>env_range\<close>).
  The \<^verbatim>\<open>*subscription\<close> pointers of the map are never replaced after \<open>new_service\<close>, so a pointer is its key.
\<close>

section \<open>States\<close>

abbreviation state_running :: bytes where "state_running \<equiv> ''running''"
abbreviation state_paused :: bytes where "state_paused \<equiv> ''paused''"
abbreviation state_starting :: bytes where "state_starting \<equiv> ''starting''"
abbreviation state_pausing :: bytes where "state_pausing \<equiv> ''pausing''"
abbreviation state_blocked :: bytes where "state_blocked \<equiv> ''blocked''"

abbreviation source_starting :: bytes where "source_starting \<equiv> ''starting''"
abbreviation source_running :: bytes where "source_running \<equiv> ''running''"
abbreviation source_blocked :: bytes where "source_blocked \<equiv> ''blocked''"
abbreviation source_unavailable :: bytes where "source_unavailable \<equiv> ''unavailable''"

abbreviation status_starting :: bytes where "status_starting \<equiv> ''starting''"
abbreviation status_ready :: bytes where "status_ready \<equiv> ''ready''"
abbreviation status_degraded :: bytes where "status_degraded \<equiv> ''degraded''"

record subscription_view =
  vw_id :: bytes
  vw_state :: bytes
  vw_desired :: bytes
  vw_error :: bytes

record source_status =
  ss_id :: bytes
  ss_state :: bytes
  ss_error :: bytes

record engine_status =
  es_status :: bytes
  es_kafka :: bool
  es_control :: bool
  es_sources :: "source_status list"

text \<open>A desired subscription is the row of the store: identifier, desired state, revision.\<close>

abbreviation ds_id :: "desired_subscription \<Rightarrow> bytes" where "ds_id d \<equiv> fst d"
abbreviation ds_desired :: "desired_subscription \<Rightarrow> bytes" where "ds_desired d \<equiv> fst (snd d)"
abbreviation ds_revision :: "desired_subscription \<Rightarrow> int" where "ds_revision d \<equiv> snd (snd d)"

definition paused :: "desired_subscription \<Rightarrow> bool" where
  "paused d \<longleftrightarrow> ds_desired d = state_paused"

record target =
  tg_id :: bytes
  tg_sources :: "bytes list"

record 'c subscription =
  sub_view :: subscription_view
  sub_revision :: int
  sub_consumer :: "'c option"

definition overall_status :: "(bytes \<times> source_status) list \<Rightarrow> (bytes \<times> 'c subscription) list \<Rightarrow> bytes" where
  "overall_status states subs =
     (if list_ex (\<lambda>(_, s). ss_state s \<noteq> source_running) states then status_degraded
      else if list_ex (\<lambda>(_, s). vw_state (sub_view s) \<noteq> state_running \<and>
                                vw_state (sub_view s) \<noteq> state_paused) subs then status_degraded
      else status_ready)"

definition resting_state :: "desired_subscription \<Rightarrow> bytes \<Rightarrow> bytes \<times> bytes" where
  "resting_state desired reason =
     (if paused desired then (state_paused, []) else (state_blocked, reason))"

definition pending_state :: "bytes \<Rightarrow> bytes" where
  "pending_state requested = (if requested = state_paused then state_pausing else state_starting)"

section \<open>The service and its environment\<close>

record 'c service =
  svc_sources :: "source list"
  svc_targets :: "target list"
  svc_scope :: scope
  svc_worker :: bytes
  svc_wake :: bool
  svc_status :: bytes
  svc_kafka :: bool
  svc_control :: bool
  svc_streams :: "(bytes \<times> registration) list"
  svc_states :: "(bytes \<times> source_status) list"
  svc_subs :: "(bytes \<times> 'c subscription) list"
  svc_lease :: int

text \<open>What ends the wait of the control loop.\<close>

datatype wakeup = Ended | Ticked | Woken

record ('c, 'w) env =
  env_get_stream :: "scope \<Rightarrow> bytes \<Rightarrow> 'w \<Rightarrow> (go_error + registration option) \<times> 'w"
  env_block_source :: "scope \<Rightarrow> bytes \<Rightarrow> bytes \<Rightarrow> 'w \<Rightarrow> go_error option \<times> 'w"
  env_ensure :: "scope \<Rightarrow> bytes list \<Rightarrow> 'w \<Rightarrow> go_error option \<times> 'w"
  env_subscriptions :: "scope \<Rightarrow> 'w \<Rightarrow> (go_error + desired_subscription list) \<times> 'w"
  env_set_desired :: "scope \<Rightarrow> bytes \<Rightarrow> bytes \<Rightarrow> 'w \<Rightarrow> (go_error + desired_subscription) \<times> 'w"
  env_renew :: "scope \<Rightarrow> bytes \<Rightarrow> int \<Rightarrow> 'w \<Rightarrow> go_error option \<times> 'w"
  env_observe :: "scope \<Rightarrow> bytes \<Rightarrow> bytes \<Rightarrow> int \<Rightarrow> bytes \<Rightarrow> 'w \<Rightarrow> go_error option \<times> 'w"
  env_observed :: "scope \<Rightarrow> bytes \<Rightarrow> int \<Rightarrow> bytes \<Rightarrow> 'w \<Rightarrow> (go_error + bool) \<times> 'w"
  env_release :: "scope \<Rightarrow> bytes \<Rightarrow> 'w \<Rightarrow> go_error option \<times> 'w"
  env_inspect :: "source \<Rightarrow> registration \<Rightarrow> 'w \<Rightarrow> (bytes \<times> bytes) \<times> 'w"
  env_ping :: "'w \<Rightarrow> go_error option \<times> 'w"
  env_consumer :: "target \<Rightarrow> (bytes \<times> registration) list \<Rightarrow> 'w \<Rightarrow> (go_error + 'c) \<times> 'w"
  env_run :: "'c \<Rightarrow> 'w \<Rightarrow> unit \<times> 'w"
  env_cancel :: "'c \<Rightarrow> 'w \<Rightarrow> unit \<times> 'w"
  env_stop :: "'c \<Rightarrow> 'w \<Rightarrow> unit \<times> 'w"
  env_ready :: "'c \<Rightarrow> 'w \<Rightarrow> bool \<times> 'w"
  env_finished :: "'c \<Rightarrow> 'w \<Rightarrow> bool \<times> 'w"
  env_log :: "entry \<Rightarrow> 'w \<Rightarrow> unit \<times> 'w"
  env_now :: "'w \<Rightarrow> int \<times> 'w"
  env_err :: "'w \<Rightarrow> go_error option \<times> 'w"
  env_wait :: "'w \<Rightarrow> wakeup \<times> 'w"
  env_poll :: "'w \<Rightarrow> bool \<times> 'w"
  env_range :: "bytes list \<Rightarrow> 'w \<Rightarrow> bytes list \<times> 'w"
  env_between :: "'w \<Rightarrow> ('c service \<Rightarrow> 'c service) \<times> 'w"

type_synonym ('c, 'w, 'a) action = "('c service \<times> 'w, 'a) state"

definition call :: "('w \<Rightarrow> 'a \<times> 'w) \<Rightarrow> ('c, 'w, 'a) action" where
  "call f = State (\<lambda>(s, w). case f w of (a, w') \<Rightarrow> (a, (s, w')))"

definition locked :: "('c, 'w) env \<Rightarrow> ('c service \<Rightarrow> 'a \<times> 'c service) \<Rightarrow> ('c, 'w, 'a) action" where
  "locked E f =
     State (\<lambda>(s, w). case env_between E w of
        (others, w') \<Rightarrow> (case f (others s) of (a, s') \<Rightarrow> (a, (s', w'))))"

text \<open>\<open>peek\<close> reads a field that is fixed after \<open>new_service\<close>; the others are read under the lock.\<close>

definition peek :: "('c service \<Rightarrow> 'a) \<Rightarrow> ('c, 'w, 'a) action" where
  "peek f = State (\<lambda>(s, w). (f s, (s, w)))"

definition read_locked :: "('c, 'w) env \<Rightarrow> ('c service \<Rightarrow> 'a) \<Rightarrow> ('c, 'w, 'a) action" where
  "read_locked E f = locked E (\<lambda>s. (f s, s))"

definition update_locked :: "('c, 'w) env \<Rightarrow> ('c service \<Rightarrow> 'c service) \<Rightarrow> ('c, 'w, unit) action" where
  "update_locked E f = locked E (\<lambda>s. ((), f s))"

text \<open>A critical section that reads the service and calls the environment while it holds the lock.\<close>

definition call_locked :: "('c, 'w) env \<Rightarrow> ('c service \<Rightarrow> 'w \<Rightarrow> 'a \<times> 'w) \<Rightarrow> ('c, 'w, 'a) action" where
  "call_locked E f =
     State (\<lambda>(s, w). case env_between E w of
        (others, w') \<Rightarrow> (case f (others s) w' of (a, w2) \<Rightarrow> (a, (others s, w2))))"

definition idle :: "('c, 'w, unit) action" where
  "idle = State_Monad.return ()"

primrec each :: "('x \<Rightarrow> ('c, 'w, unit) action) \<Rightarrow> 'x list \<Rightarrow> ('c, 'w, unit) action" where
  "each f [] = idle"
| "each f (x # xs) = do { f x; each f xs }"

text \<open>Lookups with Go's zero values for missing keys.\<close>

definition stream_of :: "bytes \<Rightarrow> 'c service \<Rightarrow> registration" where
  "stream_of i s = (case map_of (svc_streams s) i of None \<Rightarrow> zero_registration | Some g \<Rightarrow> g)"

definition state_of :: "bytes \<Rightarrow> 'c service \<Rightarrow> source_status" where
  "state_of i s =
     (case map_of (svc_states s) i of
        None \<Rightarrow> \<lparr>ss_id = [], ss_state = [], ss_error = []\<rparr>
      | Some x \<Rightarrow> x)"

definition set_stream :: "bytes \<Rightarrow> registration \<Rightarrow> 'c service \<Rightarrow> 'c service" where
  "set_stream i g s = s\<lparr>svc_streams := AList.update i g (svc_streams s)\<rparr>"

definition set_state :: "bytes \<Rightarrow> source_status \<Rightarrow> 'c service \<Rightarrow> 'c service" where
  "set_state i x s = s\<lparr>svc_states := AList.update i x (svc_states s)\<rparr>"

text \<open>An assignment through the \<^verbatim>\<open>*subscription\<close> pointer of a key.\<close>

definition on_sub :: "bytes \<Rightarrow> ('c subscription \<Rightarrow> 'c subscription) \<Rightarrow> 'c service \<Rightarrow> 'c service" where
  "on_sub i f s = s\<lparr>svc_subs := map (\<lambda>(j, x). (j, if j = i then f x else x)) (svc_subs s)\<rparr>"

definition settle :: "bytes \<Rightarrow> bytes \<Rightarrow> 'c subscription \<Rightarrow> 'c subscription" where
  "settle state err x = x\<lparr>sub_view := (sub_view x)\<lparr>vw_state := state, vw_error := err\<rparr>\<rparr>"

definition set_vw_state :: "bytes \<Rightarrow> 'c subscription \<Rightarrow> 'c subscription" where
  "set_vw_state state x = x\<lparr>sub_view := (sub_view x)\<lparr>vw_state := state\<rparr>\<rparr>"

section \<open>Sources\<close>

definition signal :: "('c, 'w) env \<Rightarrow> ('c, 'w, unit) action" where
  "signal E = update_locked E (\<lambda>s. s\<lparr>svc_wake := True\<rparr>)"

text \<open>The critical section of \<^verbatim>\<open>sourceState\<close>: the old status and what was recorded.\<close>

definition publish :: "bytes \<Rightarrow> bytes \<Rightarrow> bytes \<Rightarrow> 'c service \<Rightarrow> (source_status \<times> bytes \<times> bytes) \<times> 'c service"
  where
  "publish i state reason s =
     (let blocked = reg_blocked (stream_of i s);
          (state', reason') = (if blocked \<noteq> [] then (source_blocked, blocked) else (state, reason))
      in ((state_of i s, state', reason'),
          set_state i \<lparr>ss_id = i, ss_state = state', ss_error = reason'\<rparr> s))"

definition source_state :: "('c, 'w) env \<Rightarrow> bytes \<Rightarrow> bytes \<Rightarrow> bytes \<Rightarrow> ('c, 'w, unit) action" where
  "source_state E i state reason =
     do { (old, state', reason') \<leftarrow> locked E (publish i state reason);
          if ss_state old \<noteq> state' \<or> ss_error old \<noteq> reason'
          then call (env_log E (zero_entry\<lparr>e_message := ''source '' @ state', e_source := i, e_error := reason'\<rparr>))
          else idle }"

definition latch :: "bytes \<Rightarrow> bytes \<Rightarrow> 'c service \<Rightarrow> 'c service" where
  "latch i reason s = set_stream i ((stream_of i s)\<lparr>reg_blocked := reason\<rparr>) s"

definition block :: "('c, 'w) env \<Rightarrow> bytes \<Rightarrow> bytes \<Rightarrow> ('c, 'w, unit) action" where
  "block E i reason =
     do { update_locked E (latch i reason);
          source_state E i source_blocked reason;
          scope \<leftarrow> peek svc_scope;
          _ \<leftarrow> call (env_block_source E scope i reason);
          signal E }"

definition cache_stream :: "registration \<Rightarrow> 'c service \<Rightarrow> registration \<times> 'c service" where
  "cache_stream g s =
     (let blocked = reg_blocked (stream_of (reg_source g) s);
          g' = (if blocked \<noteq> [] then g\<lparr>reg_blocked := blocked\<rparr> else g)
      in (g', set_stream (reg_source g) g' s))"

definition inspect_source :: "('c, 'w) env \<Rightarrow> source \<Rightarrow> ('c, 'w, unit) action" where
  "inspect_source E src =
     do { local \<leftarrow> read_locked E (stream_of (src_id src));
          scope \<leftarrow> peek svc_scope;
          if reg_blocked local \<noteq> []
          then do { _ \<leftarrow> call (env_block_source E scope (src_id src) (reg_blocked local)); idle }
          else do {
            res \<leftarrow> call (env_get_stream E scope (src_id src));
            case res of
              Inl _ \<Rightarrow> source_state E (src_id src) source_unavailable ''control state unavailable''
            | Inr None \<Rightarrow> source_state E (src_id src) source_blocked ''source must be provisioned''
            | Inr (Some g) \<Rightarrow>
                do { registered \<leftarrow> locked E (cache_stream g);
                     if reg_blocked registered \<noteq> []
                     then source_state E (src_id src) source_blocked (reg_blocked registered)
                     else do {
                       (state, reason) \<leftarrow> call (env_inspect E src registered);
                       if state = source_blocked then block E (src_id src) reason
                       else source_state E (src_id src) state reason }}}}"

section \<open>Subscriptions\<close>

primrec find_target :: "target list \<Rightarrow> bytes \<Rightarrow> target" where
  "find_target [] i = \<lparr>tg_id = [], tg_sources = []\<rparr>"
| "find_target (d # ds) i = (if tg_id d = i then d else find_target ds i)"

primrec sources_ready :: "bytes list \<Rightarrow> 'c service \<Rightarrow> bool \<times> bytes" where
  "sources_ready [] s = (True, [])"
| "sources_ready (i # is) s =
     (if ss_state (state_of i s) \<noteq> source_running then (False, ''source unavailable: '' @ i)
      else sources_ready is s)"

definition destination_ready :: "('c, 'w) env \<Rightarrow> target \<Rightarrow> ('c, 'w, bool \<times> bytes) action" where
  "destination_ready E d = read_locked E (sources_ready (tg_sources d))"

text \<open>The last critical section of \<^verbatim>\<open>rest\<close>: the state before, and the view after.\<close>

definition settle_resting :: "desired_subscription \<Rightarrow> bytes \<Rightarrow> 'c service \<Rightarrow>
    (bytes \<times> subscription_view) \<times> 'c service" where
  "settle_resting desired reason s =
     (let (state, err) = resting_state desired reason;
          f = (\<lambda>x. (settle state err x)\<lparr>sub_revision := ds_revision desired\<rparr>)
      in case map_of (svc_subs s) (ds_id desired) of
           None \<Rightarrow> (([], \<lparr>vw_id = [], vw_state = [], vw_desired = [], vw_error = []\<rparr>), s)
         | Some x \<Rightarrow> ((vw_state (sub_view x), sub_view (f x)), on_sub (ds_id desired) f s))"

definition rest :: "('c, 'w) env \<Rightarrow> 'c option \<Rightarrow> desired_subscription \<Rightarrow> bytes \<Rightarrow> ('c, 'w, unit) action" where
  "rest E consumer desired reason =
     do { (case consumer of
             None \<Rightarrow> idle
           | Some c \<Rightarrow>
               do { update_locked E (on_sub (ds_id desired) (set_vw_state state_pausing));
                    call (env_stop E c);
                    update_locked E (on_sub (ds_id desired) (sub_consumer_update (\<lambda>_. None))) });
          (previous, view) \<leftarrow> locked E (settle_resting desired reason);
          if previous \<noteq> vw_state view
          then call (env_log E (zero_entry\<lparr>e_message := vw_state view, e_destination := ds_id desired,
                                           e_error := vw_error view\<rparr>))
          else idle }"

definition new_consumer :: "('c, 'w) env \<Rightarrow> target \<Rightarrow> ('c, 'w, go_error + 'c) action" where
  "new_consumer E d =
     do { registered \<leftarrow> read_locked E (\<lambda>s. map (\<lambda>i. (i, stream_of i s)) (tg_sources d));
          call (env_consumer E d registered) }"

text \<open>\<^verbatim>\<open>ensureConsumer\<close> for the subscription \<open>i\<close>: the consumer, unless none could be created.\<close>

definition ensure_consumer :: "('c, 'w) env \<Rightarrow> bytes \<Rightarrow> 'c option \<Rightarrow> target \<Rightarrow> ('c, 'w, 'c option) action" where
  "ensure_consumer E i consumer d =
     do { live \<leftarrow> (case consumer of
             None \<Rightarrow> State_Monad.return None
           | Some c \<Rightarrow>
               do { finished \<leftarrow> call (env_finished E c);
                    if finished
                    then do { call (env_stop E c);
                              update_locked E (on_sub i (sub_consumer_update (\<lambda>_. None)));
                              State_Monad.return None }
                    else State_Monad.return (Some c) });
          case live of
            Some c \<Rightarrow> State_Monad.return (Some c)
          | None \<Rightarrow>
              do { res \<leftarrow> new_consumer E d;
                   case res of
                     Inl _ \<Rightarrow>
                       do { update_locked E (on_sub i (settle state_blocked ''Kafka consumer unavailable''));
                            State_Monad.return None }
                   | Inr c \<Rightarrow>
                       do { update_locked E (on_sub i (\<lambda>x. (settle state_starting [] x)\<lparr>sub_consumer := Some c\<rparr>));
                            call (env_run E c);
                            State_Monad.return (Some c) }}}"

definition mark_progress :: "('c, 'w) env \<Rightarrow> desired_subscription \<Rightarrow> bool \<Rightarrow> ('c, 'w, unit) action" where
  "mark_progress E desired ready =
     (if \<not> ready then update_locked E (on_sub (ds_id desired) (set_vw_state state_starting))
      else do {
        changed \<leftarrow> locked E (\<lambda>s.
          (case map_of (svc_subs s) (ds_id desired) of
             None \<Rightarrow> False | Some x \<Rightarrow> vw_state (sub_view x) \<noteq> state_running,
           on_sub (ds_id desired)
             (\<lambda>x. (settle state_running [] x)\<lparr>sub_revision := ds_revision desired\<rparr>) s));
        if changed
        then call (env_log E (zero_entry\<lparr>e_message := ''running'', e_destination := ds_id desired\<rparr>))
        else idle })"

definition note_desired :: "desired_subscription \<Rightarrow> 'c service \<Rightarrow> 'c option option \<times> 'c service" where
  "note_desired desired s =
     (case map_of (svc_subs s) (ds_id desired) of
        None \<Rightarrow> (None, s)
      | Some x \<Rightarrow>
          (Some (sub_consumer x),
           on_sub (ds_id desired)
             (\<lambda>x. x\<lparr>sub_view := (sub_view x)\<lparr>vw_desired := ds_desired desired\<rparr>\<rparr>) s))"

definition reconcile_subscription :: "('c, 'w) env \<Rightarrow> desired_subscription \<Rightarrow> ('c, 'w, unit) action" where
  "reconcile_subscription E desired =
     do { known \<leftarrow> locked E (note_desired desired);
          case known of
            None \<Rightarrow> idle
          | Some consumer \<Rightarrow>
              do { targets \<leftarrow> peek svc_targets;
                   let d = find_target targets (ds_id desired);
                   (ready, reason) \<leftarrow> destination_ready E d;
                   if paused desired \<or> \<not> ready then rest E consumer desired reason
                   else do {
                     live \<leftarrow> ensure_consumer E (ds_id desired) consumer d;
                     case live of
                       None \<Rightarrow> idle
                     | Some c \<Rightarrow>
                         do { ready \<leftarrow> call (env_ready E c);
                              mark_progress E desired ready }}}}"

section \<open>A pass of the control loop\<close>

definition lease_ttl :: int where
  "lease_ttl = 30000000000"

definition refresh_dependencies :: "('c, 'w) env \<Rightarrow> ('c, 'w, desired_subscription list \<times> bool) action" where
  "refresh_dependencies E =
     do { scope \<leftarrow> peek svc_scope;
          worker \<leftarrow> peek svc_worker;
          lease_err \<leftarrow> call (env_renew E scope worker lease_ttl);
          listed \<leftarrow> call (env_subscriptions E scope);
          kafka_err \<leftarrow> call (env_ping E);
          now \<leftarrow> call (env_now E);
          let control = (lease_err = None \<and> isl listed = False);
          let kafka = (kafka_err = None);
          update_locked E (\<lambda>s. s\<lparr>svc_control := control, svc_kafka := kafka,
            svc_lease := (if lease_err = None then now + lease_ttl else svc_lease s)\<rparr>);
          State_Monad.return (case listed of Inl _ \<Rightarrow> [] | Inr ds \<Rightarrow> ds, control \<and> kafka) }"

definition consumers_of :: "bytes list \<Rightarrow> 'c service \<Rightarrow> 'c list" where
  "consumers_of ids s =
     List.map_filter (\<lambda>i. Option.bind (map_of (svc_subs s) i) sub_consumer) ids"

definition drop_consumer :: "'c subscription \<Rightarrow> 'c subscription" where
  "drop_consumer x =
     (if sub_consumer x = None then x
      else (settle state_blocked ''engine dependencies unavailable'' x)\<lparr>sub_consumer := None\<rparr>)"

text \<open>The first critical section of \<^verbatim>\<open>stopAll\<close>: the consumers, cancelled in the order they are found.\<close>

definition cancel_consumers :: "('c, 'w) env \<Rightarrow> 'c service \<Rightarrow> 'w \<Rightarrow> 'c list \<times> 'w" where
  "cancel_consumers E s w =
     (case env_range E (map fst (svc_subs s)) w of
        (order, w1) \<Rightarrow>
          let consumers = consumers_of order s
          in (consumers, fold (\<lambda>c w. snd (env_cancel E c w)) consumers w1))"

definition stop_all :: "('c, 'w) env \<Rightarrow> ('c, 'w, unit) action" where
  "stop_all E =
     do { consumers \<leftarrow> call_locked E (cancel_consumers E);
          each (\<lambda>c. call (env_stop E c)) consumers;
          update_locked E (\<lambda>s. s\<lparr>svc_subs := map (apsnd drop_consumer) (svc_subs s)\<rparr>) }"

definition degrade :: "('c, 'w) env \<Rightarrow> ('c, 'w, unit) action" where
  "degrade E = do { update_locked E (\<lambda>s. s\<lparr>svc_status := status_degraded\<rparr>); stop_all E }"

definition observations :: "bytes list \<Rightarrow> 'c service \<Rightarrow> desired_subscription list" where
  "observations ids s =
     List.map_filter
       (\<lambda>i. case map_of (svc_subs s) i of
              None \<Rightarrow> None
            | Some x \<Rightarrow> if 0 < sub_revision x then Some (i, vw_state (sub_view x), sub_revision x) else None)
       ids"

fun report :: "('c, 'w) env \<Rightarrow> desired_subscription list \<Rightarrow> ('c, 'w, bool) action" where
  "report E [] = State_Monad.return True"
| "report E (x # xs) =
     do { scope \<leftarrow> peek svc_scope;
          worker \<leftarrow> peek svc_worker;
          err \<leftarrow> call (env_observe E scope worker (ds_id x) (ds_revision x) (ds_desired x));
          if err \<noteq> None then State_Monad.return False else report E xs }"

definition report_observations :: "('c, 'w) env \<Rightarrow> ('c, 'w, bool) action" where
  "report_observations E =
     do { xs \<leftarrow> call_locked E (\<lambda>s w. apfst (\<lambda>order. observations order s) (env_range E (map fst (svc_subs s)) w));
          report E xs }"

definition reconcile :: "('c, 'w) env \<Rightarrow> ('c, 'w, unit) action" where
  "reconcile E =
     do { (desired, healthy) \<leftarrow> refresh_dependencies E;
          if \<not> healthy then degrade E
          else do {
            sources \<leftarrow> peek svc_sources;
            each (inspect_source E) sources;
            ended \<leftarrow> call (env_err E);
            if ended \<noteq> None then degrade E
            else do {
              each (reconcile_subscription E) desired;
              reported \<leftarrow> report_observations E;
              if \<not> reported
              then do { update_locked E (\<lambda>s. s\<lparr>svc_control := False\<rparr>); degrade E }
              else update_locked E (\<lambda>s. s\<lparr>svc_status := overall_status (svc_states s) (svc_subs s)\<rparr>) }}}"

section \<open>The service\<close>

definition zero_view :: subscription_view where
  "zero_view = \<lparr>vw_id = [], vw_state = [], vw_desired = [], vw_error = []\<rparr>"

definition starting_subscription :: "bytes \<Rightarrow> 'c subscription" where
  "starting_subscription i =
     \<lparr>sub_view = zero_view\<lparr>vw_id := i, vw_state := state_starting\<rparr>, sub_revision = 0, sub_consumer = None\<rparr>"

text \<open>\<open>New\<close>; \<open>worker\<close> is the text \<^verbatim>\<open>rand.Text\<close> drew.\<close>

definition new_service :: "('c, 'w) env \<Rightarrow> scope \<Rightarrow> source list \<Rightarrow> target list \<Rightarrow> bytes \<Rightarrow> 'w \<Rightarrow>
    (go_error + 'c service) \<times> 'w" where
  "new_service E scope sources targets worker w =
     (if \<not> generation_valid (sc_generation scope) then (Inl (Errorf ''generation must be positive''), w)
      else (case env_ensure E scope (map tg_id targets) w of
              (Some _, w') \<Rightarrow> (Inl (Errorf ''subscriptions could not be initialized''), w')
            | (None, w') \<Rightarrow>
                (Inr \<lparr>svc_sources = sources, svc_targets = targets, svc_scope = scope, svc_worker = worker,
                   svc_wake = False, svc_status = status_starting, svc_kafka = False, svc_control = False,
                   svc_streams = [],
                   svc_states = fold (\<lambda>x. AList.update (src_id x)
                     \<lparr>ss_id = src_id x, ss_state = source_starting, ss_error = []\<rparr>) sources [],
                   svc_subs = fold (\<lambda>d. AList.update (tg_id d) (starting_subscription (tg_id d))) targets [],
                   svc_lease = 0\<rparr>, w')))"

text \<open>The passes of \<^verbatim>\<open>Start\<close>, at most \<open>fuel\<close> of them: has the loop ended?\<close>

primrec start_loop :: "nat \<Rightarrow> ('c, 'w) env \<Rightarrow> ('c, 'w, bool) action" where
  "start_loop 0 E = State_Monad.return False"
| "start_loop (Suc fuel) E =
     do { reconcile E;
          event \<leftarrow> call (env_wait E);
          case event of
            Ended \<Rightarrow> do { stop_all E; State_Monad.return True }
          | Ticked \<Rightarrow> start_loop fuel E
          | Woken \<Rightarrow> do { update_locked E (\<lambda>s. s\<lparr>svc_wake := False\<rparr>); start_loop fuel E }}"

definition release :: "('c, 'w) env \<Rightarrow> ('c, 'w, unit) action" where
  "release E =
     do { scope \<leftarrow> peek svc_scope;
          worker \<leftarrow> peek svc_worker;
          _ \<leftarrow> call (env_release E scope worker);
          idle }"

definition start :: "nat \<Rightarrow> ('c, 'w) env \<Rightarrow> ('c, 'w, bool) action" where
  "start fuel E =
     do { scope \<leftarrow> peek svc_scope;
          call (env_log E (zero_entry\<lparr>e_message := ''engine started'', e_generation := sc_generation scope\<rparr>));
          ended \<leftarrow> start_loop fuel E;
          if ended then do { release E; State_Monad.return True } else State_Monad.return False }"

text \<open>The reads of the operator and of the workers.\<close>

definition status_of :: "'c service \<Rightarrow> engine_status" where
  "status_of s =
     \<lparr>es_status = svc_status s, es_kafka = svc_kafka s, es_control = svc_control s,
      es_sources = sort_key ss_id (map snd (svc_states s))\<rparr>"

definition subscriptions_of :: "'c service \<Rightarrow> subscription_view list" where
  "subscriptions_of s = sort_key vw_id (map (\<lambda>(_, x). sub_view x) (svc_subs s))"

definition allowed :: "int \<Rightarrow> bytes \<Rightarrow> 'c service \<Rightarrow> bool" where
  "allowed now i s \<longleftrightarrow>
     svc_control s \<and> svc_kafka s \<and> now < svc_lease s \<and> ss_state (state_of i s) = source_running"

definition snapshot :: "bytes \<Rightarrow> 'c service \<Rightarrow> (subscription_view \<times> int) option" where
  "snapshot i s = map_option (\<lambda>x. (sub_view x, sub_revision x)) (map_of (svc_subs s) i)"

section \<open>Changing a subscription\<close>

text \<open>
  \<^verbatim>\<open>awaitConvergence\<close>, at most \<open>fuel\<close> polls: the view and the error it returns, or \<open>None\<close> while it waits.
\<close>

primrec await_convergence :: "nat \<Rightarrow> ('c, 'w) env \<Rightarrow> bytes \<Rightarrow> bytes \<Rightarrow> int \<Rightarrow>
    ('c, 'w, (subscription_view \<times> go_error option) option) action" where
  "await_convergence 0 E i state revision = State_Monad.return None"
| "await_convergence (Suc fuel) E i state revision =
     do { found \<leftarrow> read_locked E (snapshot i);
          let (view, applied) = (case found of None \<Rightarrow> (zero_view, 0) | Some x \<Rightarrow> x);
          let again = (\<lambda>view.
            if revision < applied \<and> vw_desired view \<noteq> state
            then State_Monad.return (Some (view, Some (Errorf ''control request superseded'')))
            else do { ticked \<leftarrow> call (env_poll E);
                      if ticked then await_convergence fuel E i state revision
                      else do { err \<leftarrow> call (env_err E); State_Monad.return (Some (view, err)) }});
          if revision \<le> applied \<and> vw_state view = state \<and> vw_desired view = state
          then do { scope \<leftarrow> peek svc_scope;
                    res \<leftarrow> call (env_observed E scope i revision state);
                    case res of
                      Inl _ \<Rightarrow> State_Monad.return (Some (view, Some (Errorf ''worker observation unavailable'')))
                    | Inr True \<Rightarrow> State_Monad.return (Some (view, None))
                    | Inr False \<Rightarrow> again (view\<lparr>vw_state := pending_state state\<rparr>) }
          else again view }"

definition change_state :: "nat \<Rightarrow> ('c, 'w) env \<Rightarrow> bytes \<Rightarrow> bytes \<Rightarrow>
    ('c, 'w, (subscription_view \<times> go_error option) option) action" where
  "change_state fuel E i state =
     do { found \<leftarrow> read_locked E (snapshot i);
          case found of
            None \<Rightarrow> State_Monad.return (Some (zero_view, Some NotFound))
          | Some _ \<Rightarrow>
              do { scope \<leftarrow> peek svc_scope;
                   res \<leftarrow> call (env_set_desired E scope i state);
                   case res of
                     Inl _ \<Rightarrow>
                       do { found \<leftarrow> read_locked E (snapshot i);
                            State_Monad.return
                              (Some (case found of None \<Rightarrow> zero_view | Some x \<Rightarrow> fst x,
                                     Some (Errorf ''control store unavailable''))) }
                   | Inr d \<Rightarrow>
                       do { signal E;
                            await_convergence fuel E i state (ds_revision d) }}}"

end
