(* ===== verification/ControlLaws.thy ===== *)
theory ControlLaws
  imports Control
begin

text \<open>
  Reasoning about the control loop. \<open>triple\<close> is a Hoare triple over actions, \<open>keeps\<close> an invariant of
  the service that an action preserves whatever the environment answers; the rules are in the collection
  \<open>keeps_intro\<close>. \<open>section_step\<close> is one critical section of any goroutine, and every action is a sequence of them.
  \<open>worker_effect\<close> is what workers alone do to the service while the control loop runs: critical sections of
  \<^verbatim>\<open>Block\<close> and \<^verbatim>\<open>Signal\<close>, any number, in any order.
\<close>

section \<open>Triples\<close>

definition triple :: "('c service \<times> 'w \<Rightarrow> bool) \<Rightarrow> ('c, 'w, 'a) action \<Rightarrow> ('a \<Rightarrow> 'c service \<times> 'w \<Rightarrow> bool) \<Rightarrow> bool"
  where
  "triple P m Q \<longleftrightarrow> (\<forall>x. P x \<longrightarrow> (case run_state m x of (a, x') \<Rightarrow> Q a x'))"

lemma tripleD: "triple P m Q \<Longrightarrow> P x \<Longrightarrow> run_state m x = (a, x') \<Longrightarrow> Q a x'"
  unfolding triple_def by (drule spec [of _ x]) simp

lemma triple_return: "(\<And>x. P x \<Longrightarrow> Q a x) \<Longrightarrow> triple P (State_Monad.return a) Q"
  by (simp add: triple_def)

lemma triple_bind:
  "triple P m M \<Longrightarrow> (\<And>a. triple (M a) (k a) Q) \<Longrightarrow> triple P (State_Monad.bind m k) Q"
  by (fastforce simp: triple_def split: prod.splits)

lemma triple_call:
  "(\<And>s w a w'. P (s, w) \<Longrightarrow> f w = (a, w') \<Longrightarrow> Q a (s, w')) \<Longrightarrow> triple P (call f) Q"
  by (auto simp: triple_def call_def split: prod.splits)

lemma triple_locked:
  "(\<And>s w g w' a s'. P (s, w) \<Longrightarrow> env_between E w = (g, w') \<Longrightarrow> f (g s) = (a, s') \<Longrightarrow> Q a (s', w')) \<Longrightarrow>
   triple P (locked E f) Q"
  by (auto simp: triple_def locked_def split: prod.splits)

lemma triple_peek: "(\<And>s w. P (s, w) \<Longrightarrow> Q (f s) (s, w)) \<Longrightarrow> triple P (peek f) Q"
  by (auto simp: triple_def peek_def)

lemma triple_weaken:
  "triple P' m Q' \<Longrightarrow> (\<And>x. P x \<Longrightarrow> P' x) \<Longrightarrow> (\<And>a x. Q' a x \<Longrightarrow> Q a x) \<Longrightarrow> triple P m Q"
  by (fastforce simp: triple_def split: prod.splits)

section \<open>Invariants\<close>

definition keeps :: "('c service \<Rightarrow> bool) \<Rightarrow> ('c, 'w, 'a) action \<Rightarrow> bool" where
  "keeps I m \<longleftrightarrow> triple (\<lambda>x. I (fst x)) m (\<lambda>_ x. I (fst x))"

lemma keepsD: "keeps I m \<Longrightarrow> I s \<Longrightarrow> run_state m (s, w) = (a, s', w') \<Longrightarrow> I s'"
  unfolding keeps_def by (drule tripleD) auto

lemma keeps_triple: "keeps I m \<Longrightarrow> triple (\<lambda>x. I (fst x)) m (\<lambda>_ x. I (fst x))"
  by (simp add: keeps_def)

definition stable :: "('c, 'w) env \<Rightarrow> ('c service \<Rightarrow> bool) \<Rightarrow> bool" where
  "stable E I \<longleftrightarrow> (\<forall>w g w' s. env_between E w = (g, w') \<longrightarrow> I s \<longrightarrow> I (g s))"

lemma stableD: "stable E I \<Longrightarrow> env_between E w = (g, w') \<Longrightarrow> I s \<Longrightarrow> I (g s)"
  by (auto simp: stable_def)

lemma keeps_return [keeps_intro]: "keeps I (State_Monad.return a)"
  by (simp add: keeps_def triple_return)

lemma keeps_idle [keeps_intro]: "keeps I idle"
  by (simp add: idle_def keeps_return)

lemma keeps_call [keeps_intro]: "keeps I (call f)"
  unfolding keeps_def by (rule triple_call) simp

lemma keeps_peek [keeps_intro]: "keeps I (peek f)"
  unfolding keeps_def by (rule triple_peek) simp

lemma keeps_locked: "stable E I \<Longrightarrow> (\<And>s. I s \<Longrightarrow> I (snd (f s))) \<Longrightarrow> keeps I (locked E f)"
  unfolding keeps_def by (rule triple_locked) (metis fst_conv snd_conv stableD)

lemma keeps_read [keeps_intro]: "stable E I \<Longrightarrow> keeps I (read_locked E f)"
  by (simp add: read_locked_def keeps_locked)

lemma keeps_call_locked [keeps_intro]: "stable E I \<Longrightarrow> keeps I (call_locked E f)"
  unfolding keeps_def triple_def call_locked_def by (auto split: prod.splits dest: stableD)

lemma keeps_update: "stable E I \<Longrightarrow> (\<And>s. I s \<Longrightarrow> I (f s)) \<Longrightarrow> keeps I (update_locked E f)"
  by (simp add: update_locked_def keeps_locked)

lemma keeps_bind [keeps_intro]:
  "keeps I m \<Longrightarrow> (\<And>a. keeps I (k a)) \<Longrightarrow> keeps I (State_Monad.bind m k)"
  unfolding keeps_def by (rule triple_bind)

lemma keeps_bind_call:
  "(\<And>w a w'. f w = (a, w') \<Longrightarrow> keeps I (k a)) \<Longrightarrow> keeps I (State_Monad.bind (call f) k)"
  unfolding keeps_def
proof (rule triple_bind)
  show "triple (\<lambda>x. I (fst x)) (call f) (\<lambda>a x. I (fst x) \<and> (\<exists>w w'. f w = (a, w')))"
    by (rule triple_call) auto
  assume k: "\<And>w a w'. f w = (a, w') \<Longrightarrow> triple (\<lambda>x. I (fst x)) (k a) (\<lambda>_ x. I (fst x))"
  show "triple (\<lambda>x. I (fst x) \<and> (\<exists>w w'. f w = (a, w'))) (k a) (\<lambda>_ x. I (fst x))" for a
  proof (cases "\<exists>w w'. f w = (a, w')")
    case True
    then obtain w w' where "f w = (a, w')" by blast
    show ?thesis by (rule triple_weaken [OF k [OF \<open>f w = (a, w')\<close>]]) simp_all
  qed (simp add: triple_def)
qed

lemma keeps_if [keeps_intro]: "(b \<Longrightarrow> keeps I m) \<Longrightarrow> (\<not> b \<Longrightarrow> keeps I n) \<Longrightarrow> keeps I (if b then m else n)"
  by simp

lemma keeps_option [keeps_intro]:
  "(x = None \<Longrightarrow> keeps I m) \<Longrightarrow> (\<And>y. x = Some y \<Longrightarrow> keeps I (f y)) \<Longrightarrow> keeps I (case x of None \<Rightarrow> m | Some y \<Rightarrow> f y)"
  by (cases x) auto

lemma keeps_sum [keeps_intro]:
  "(\<And>e. x = Inl e \<Longrightarrow> keeps I (f e)) \<Longrightarrow> (\<And>y. x = Inr y \<Longrightarrow> keeps I (g y)) \<Longrightarrow>
   keeps I (case x of Inl e \<Rightarrow> f e | Inr y \<Rightarrow> g y)"
  by (cases x) auto

lemma keeps_prod [keeps_intro]:
  "(\<And>a b. x = (a, b) \<Longrightarrow> keeps I (f a b)) \<Longrightarrow> keeps I (case x of (a, b) \<Rightarrow> f a b)"
  by (cases x) auto

lemma keeps_let [keeps_intro]: "(\<And>a. a = x \<Longrightarrow> keeps I (f a)) \<Longrightarrow> keeps I (Let x f)"
  by simp

lemma keeps_each [keeps_intro]: "(\<And>x. keeps I (f x)) \<Longrightarrow> keeps I (each f xs)"
  by (induction xs) (auto intro!: keeps_idle keeps_bind)

section \<open>What other goroutines do\<close>

inductive worker_effect :: "('c service \<Rightarrow> 'c service) \<Rightarrow> bool" where
  nothing: "worker_effect id"
| latched: "worker_effect f \<Longrightarrow> reason \<noteq> [] \<Longrightarrow> worker_effect (latch i reason \<circ> f)"
| published: "worker_effect f \<Longrightarrow> worker_effect (snd \<circ> publish i source_blocked reason \<circ> f)"
| woken: "worker_effect f \<Longrightarrow> worker_effect (svc_wake_update (\<lambda>_. True) \<circ> f)"

definition workers_only :: "('c, 'w) env \<Rightarrow> bool" where
  "workers_only E \<longleftrightarrow> (\<forall>w. worker_effect (fst (env_between E w)))"

lemma workers_only_stable:
  assumes "workers_only E" and "\<And>f s. worker_effect f \<Longrightarrow> I s \<Longrightarrow> I (f s)"
  shows "stable E I"
  unfolding stable_def
proof (intro allI impI)
  fix w g w' s
  assume "env_between E w = (g, w')" and "I s"
  with assms(1) have "worker_effect g" unfolding workers_only_def by (metis fst_conv)
  with assms(2) \<open>I s\<close> show "I (g s)" by blast
qed

section \<open>A block is a latch\<close>

definition latched_source :: "bytes \<Rightarrow> 'c service \<Rightarrow> bool" where
  "latched_source i s \<longleftrightarrow> reg_blocked (stream_of i s) \<noteq> []"

definition shut :: "bytes \<Rightarrow> 'c service \<Rightarrow> bool" where
  "shut i s \<longleftrightarrow> latched_source i s \<and> ss_state (state_of i s) \<noteq> source_running"

lemma stream_of_set_stream [simp]:
  "stream_of i (set_stream j g s) = (if i = j then g else stream_of i s)"
  by (simp add: stream_of_def set_stream_def update_conv')

lemma state_of_set_stream [simp]: "state_of i (set_stream j g s) = state_of i s"
  by (simp add: state_of_def set_stream_def)

lemma state_of_set_state [simp]: "state_of i (set_state j x s) = (if i = j then x else state_of i s)"
  by (simp add: state_of_def set_state_def update_conv')

lemma stream_of_set_state [simp]: "stream_of i (set_state j x s) = stream_of i s"
  by (simp add: stream_of_def set_state_def)

lemma latch_keeps: "reason \<noteq> [] \<Longrightarrow> shut i s \<Longrightarrow> shut i (latch j reason s)"
  by (simp add: shut_def latched_source_def latch_def)

lemma latch_latches: "reason \<noteq> [] \<Longrightarrow> latched_source i s \<or> i = j \<Longrightarrow> latched_source i (latch j reason s)"
  by (auto simp: latched_source_def latch_def)

lemma publish_keeps: "shut i s \<Longrightarrow> shut i (snd (publish j state reason s))"
  by (auto simp: shut_def latched_source_def publish_def Let_def split: prod.splits if_splits)

lemma publish_latched: "latched_source i (snd (publish j state reason s)) = latched_source i s"
  by (simp add: latched_source_def publish_def Let_def split: prod.splits)

lemma publish_shuts: "latched_source i s \<Longrightarrow> shut i (snd (publish i state reason s))"
  by (simp add: shut_def latched_source_def publish_def Let_def)

lemma cache_keeps: "shut i s \<Longrightarrow> shut i (snd (cache_stream g s))"
  by (auto simp: shut_def latched_source_def cache_stream_def Let_def)

lemma latch_stays: "latched_source i s \<Longrightarrow> latched_source i (snd (cache_stream g s))"
  by (auto simp: latched_source_def cache_stream_def Let_def)

section \<open>Critical sections\<close>

text \<open>
  One critical section of the service, run by any goroutine at any moment: the latch of a block; a publication of any
  state, which may have been read long before and so may say that a source runs which has been blocked since; the caching of a
  registration; and the sections that leave streams and states alone.
\<close>

inductive section_step :: "'c service \<Rightarrow> 'c service \<Rightarrow> bool" where
  latching: "reason \<noteq> [] \<Longrightarrow> section_step s (latch i reason s)"
| publishing: "section_step s (snd (publish i state reason s))"
| caching: "section_step s (snd (cache_stream g s))"
| elsewhere: "svc_streams s' = svc_streams s \<Longrightarrow> svc_states s' = svc_states s \<Longrightarrow> section_step s s'"

text \<open>Between two sections of an action, others run sections of theirs.\<close>

definition interleaved :: "('c, 'w) env \<Rightarrow> bool" where
  "interleaved E \<longleftrightarrow> (\<forall>s w. section_step\<^sup>*\<^sup>* s (fst (env_between E w) s))"

definition respected :: "('c service \<Rightarrow> bool) \<Rightarrow> bool" where
  "respected I \<longleftrightarrow> (\<forall>s s'. section_step s s' \<longrightarrow> I s \<longrightarrow> I s')"

lemma respectedD: "respected I \<Longrightarrow> section_step s s' \<Longrightarrow> I s \<Longrightarrow> I s'"
  by (auto simp: respected_def)

lemma respected_run: "section_step\<^sup>*\<^sup>* s s' \<Longrightarrow> respected I \<Longrightarrow> I s \<Longrightarrow> I s'"
  by (induction rule: rtranclp_induct) (auto dest: respectedD)

lemma respected_reached: "respected (section_step\<^sup>*\<^sup>* s)"
  by (auto simp: respected_def intro: rtranclp.rtrancl_into_rtrancl)

lemma same_sources:
  "svc_streams s' = svc_streams s \<Longrightarrow> latched_source i s' = latched_source i s"
  "svc_streams s' = svc_streams s \<Longrightarrow> svc_states s' = svc_states s \<Longrightarrow> shut i s' = shut i s"
  by (simp_all add: shut_def latched_source_def stream_of_def state_of_def)

lemma section_shut: "section_step s s' \<Longrightarrow> shut i s \<Longrightarrow> shut i s'"
  by (induction rule: section_step.induct)
     (blast intro: latch_keeps publish_keeps cache_keeps same_sources(2) [THEN iffD2])+

lemma section_latched: "section_step s s' \<Longrightarrow> latched_source i s \<Longrightarrow> latched_source i s'"
  by (induction rule: section_step.induct)
     (blast intro: latch_latches publish_latched [THEN iffD2] latch_stays same_sources(1) [THEN iffD2])+

lemma respected_shut: "respected (shut i)"
  by (auto simp: respected_def intro: section_shut)

lemma respected_latched: "respected (latched_source i)"
  by (auto simp: respected_def intro: section_latched)

lemma worker_effect_sections: "worker_effect f \<Longrightarrow> section_step\<^sup>*\<^sup>* s (f s)"
proof (induction rule: worker_effect.induct)
  case (latched f reason i)
  from latched(2) have "section_step (f s) (latch i reason (f s))" by (rule section_step.latching)
  with latched show ?case by simp
next
  case (published f i reason)
  have "section_step (f s) (snd (publish i source_blocked reason (f s)))" by (rule section_step.publishing)
  with published show ?case by simp
next
  case (woken f)
  have "section_step (f s) ((f s)\<lparr>svc_wake := True\<rparr>)" by (rule section_step.elsewhere) simp_all
  with woken show ?case by simp
qed simp

lemma workers_interleaved: "workers_only E \<Longrightarrow> interleaved E"
  by (simp add: interleaved_def workers_only_def worker_effect_sections)

definition follows :: "('c, 'w) env \<Rightarrow> ('c service \<Rightarrow> bool) \<Rightarrow> bool" where
  "follows E I \<longleftrightarrow> interleaved E \<and> respected I"

lemma follows_stable: "follows E I \<Longrightarrow> stable E I"
  unfolding follows_def stable_def interleaved_def by (metis fst_conv respected_run)

text \<open>A monitor that reports a blocked source says why.\<close>

definition reasoned :: "('c, 'w) env \<Rightarrow> bool" where
  "reasoned E \<longleftrightarrow> (\<forall>src g w reason w'. env_inspect E src g w = ((source_blocked, reason), w') \<longrightarrow> reason \<noteq> [])"

lemma follows_locked: "follows E I \<Longrightarrow> (\<And>s. section_step s (snd (f s))) \<Longrightarrow> keeps I (locked E f)"
  by (rule keeps_locked [OF follows_stable]) (auto simp: follows_def dest: respectedD)

lemma follows_update: "follows E I \<Longrightarrow> (\<And>s. section_step s (f s)) \<Longrightarrow> keeps I (update_locked E f)"
  by (simp add: update_locked_def follows_locked)

lemma follows_read: "follows E I \<Longrightarrow> keeps I (read_locked E f)"
  by (rule keeps_read [OF follows_stable])

lemma follows_call_locked: "follows E I \<Longrightarrow> keeps I (call_locked E f)"
  by (rule keeps_call_locked [OF follows_stable])

lemmas follows_rules = follows_locked follows_update follows_read follows_call_locked

section \<open>Every action is a sequence of critical sections\<close>

lemma signal_follows [keeps_intro]: "follows E I \<Longrightarrow> keeps I (signal E)"
  unfolding signal_def by (rule follows_update, assumption, rule section_step.elsewhere) simp_all

lemma source_state_follows [keeps_intro]: "follows E I \<Longrightarrow> keeps I (source_state E j state reason)"
  unfolding source_state_def by (intro keeps_intro follows_rules section_step.publishing)

lemma block_follows [keeps_intro]: "follows E I \<Longrightarrow> reason \<noteq> [] \<Longrightarrow> keeps I (block E j reason)"
  unfolding block_def by (intro keeps_intro follows_rules section_step.latching)

lemma inspect_source_follows [keeps_intro]:
  assumes others: "follows E I" and monitor: "reasoned E"
  shows "keeps I (inspect_source E src)"
proof -
  have check: "keeps I (State_Monad.bind (call (env_inspect E src g))
      (\<lambda>(state, reason). if state = source_blocked then block E (src_id src) reason
                         else source_state E (src_id src) state reason))" for g
    using others monitor unfolding reasoned_def
    by (intro keeps_bind_call keeps_prod keeps_if block_follows source_state_follows) blast+
  show ?thesis
    unfolding inspect_source_def
    by (intro keeps_intro follows_rules section_step.caching others check)
qed

text \<open>The rest of a pass leaves streams and states alone.\<close>

lemma on_sub_sources [simp]: "svc_streams (on_sub j f s) = svc_streams s" "svc_states (on_sub j f s) = svc_states s"
  by (simp_all add: on_sub_def)

lemma settle_resting_sources [simp]:
  "svc_streams (snd (settle_resting desired reason s)) = svc_streams s"
  "svc_states (snd (settle_resting desired reason s)) = svc_states s"
  by (simp_all add: settle_resting_def Let_def split: option.splits prod.splits)

lemma note_desired_sources [simp]:
  "svc_streams (snd (note_desired desired s)) = svc_streams s" "svc_states (snd (note_desired desired s)) = svc_states s"
  by (simp_all add: note_desired_def split: option.splits)

lemma rest_follows [keeps_intro]: "follows E I \<Longrightarrow> keeps I (rest E consumer desired reason)"
  unfolding rest_def by (intro keeps_intro follows_rules; (rule section_step.elsewhere; simp)?)

lemma ensure_consumer_follows [keeps_intro]: "follows E I \<Longrightarrow> keeps I (ensure_consumer E j consumer d)"
  unfolding ensure_consumer_def new_consumer_def
  by (intro keeps_intro follows_rules; (rule section_step.elsewhere; simp)?)

lemma mark_progress_follows [keeps_intro]: "follows E I \<Longrightarrow> keeps I (mark_progress E desired ready)"
  unfolding mark_progress_def by (intro keeps_intro follows_rules; (rule section_step.elsewhere; simp)?)

lemma reconcile_subscription_follows [keeps_intro]: "follows E I \<Longrightarrow> keeps I (reconcile_subscription E desired)"
  unfolding reconcile_subscription_def destination_ready_def
  by (intro keeps_intro follows_rules; (rule section_step.elsewhere; simp)?)

lemma refresh_follows [keeps_intro]: "follows E I \<Longrightarrow> keeps I (refresh_dependencies E)"
  unfolding refresh_dependencies_def by (intro keeps_intro follows_rules; (rule section_step.elsewhere; simp)?)

lemma stop_all_follows [keeps_intro]: "follows E I \<Longrightarrow> keeps I (stop_all E)"
  unfolding stop_all_def by (intro keeps_intro follows_rules; (rule section_step.elsewhere; simp)?)

lemma degrade_follows [keeps_intro]: "follows E I \<Longrightarrow> keeps I (degrade E)"
  unfolding degrade_def by (intro keeps_intro follows_rules; (rule section_step.elsewhere; simp)?)

lemma report_keeps [keeps_intro]: "keeps I (report E xs)"
  by (induction xs) (auto intro!: keeps_intro)

lemma report_observations_follows [keeps_intro]: "follows E I \<Longrightarrow> keeps I (report_observations E)"
  unfolding report_observations_def by (intro keeps_intro follows_rules)

lemma reconcile_follows [keeps_intro]: "follows E I \<Longrightarrow> reasoned E \<Longrightarrow> keeps I (reconcile E)"
  unfolding reconcile_def by (intro keeps_intro follows_rules; (rule section_step.elsewhere; simp)?)

lemma keeps_wakeup [keeps_intro]:
  "keeps I a \<Longrightarrow> keeps I b \<Longrightarrow> keeps I c \<Longrightarrow> keeps I (case x of Ended \<Rightarrow> a | Ticked \<Rightarrow> b | Woken \<Rightarrow> c)"
  by (cases x) auto

lemma start_loop_follows [keeps_intro]: "follows E I \<Longrightarrow> reasoned E \<Longrightarrow> keeps I (start_loop fuel E)"
proof (induction fuel)
  case (Suc fuel)
  show ?case
    unfolding start_loop.simps
    by (intro keeps_intro follows_rules Suc; (rule section_step.elsewhere; simp)?)
qed (simp add: keeps_return)

lemma start_follows [keeps_intro]: "follows E I \<Longrightarrow> reasoned E \<Longrightarrow> keeps I (start fuel E)"
  unfolding start_def release_def by (intro keeps_intro follows_rules)

text \<open>\<^verbatim>\<open>Block\<close> shuts the source, whoever interleaves with it.\<close>

lemma block_shuts:
  assumes others: "interleaved E" and reason: "reason \<noteq> []"
  shows "triple (\<lambda>_. True) (block E i reason) (\<lambda>_ x. shut i (fst x))"
  unfolding block_def
proof (rule triple_bind)
  show "triple (\<lambda>_. True) (update_locked E (latch i reason)) (\<lambda>_ x. latched_source i (fst x))"
    unfolding update_locked_def by (rule triple_locked) (use reason in \<open>auto simp: latch_latches\<close>)
next
  have stable: "stable E (latched_source i)"
    using others by (intro follows_stable) (simp add: follows_def respected_latched)
  have shut: "follows E (shut i)" using others by (simp add: follows_def respected_shut)
  have pub: "triple (\<lambda>x. latched_source i (fst x)) (locked E (publish i source_blocked reason))
      (\<lambda>_ x. shut i (fst x))"
    by (rule triple_locked) (metis fst_conv snd_conv stableD [OF stable] publish_shuts)
  have "triple (\<lambda>x. latched_source i (fst x)) (source_state E i source_blocked reason)
      (\<lambda>_ x. shut i (fst x))"
    unfolding source_state_def
    by (rule triple_bind [OF pub], rule keeps_triple) (intro keeps_intro)
  then show "triple (\<lambda>x. latched_source i (fst x))
      (source_state E i source_blocked reason \<bind> (\<lambda>_. peek svc_scope \<bind>
        (\<lambda>scope. call (env_block_source E scope i reason) \<bind> (\<lambda>_. signal E)))) (\<lambda>_ x. shut i (fst x))"
    for u :: unit
    by (rule triple_bind, intro keeps_triple keeps_intro shut)
qed

end
