(* ===== verification/ControlPass.thy ===== *)
theory ControlPass
  imports ControlLaws
begin

text \<open>
  What a pass of the control loop leaves behind. \<open>at_sub i R\<close> asserts \<open>R\<close> of the subscription \<open>i\<close> while the
  others are well-formed; \<open>settled\<close> is what \<open>reconcile_subscription\<close> makes of it, and \<open>reconcile_leaves\<close>
  the state at the end of a pass: degraded with every consumer stopped, or healthy with the overall
  status computed from what the sources and the subscriptions are.
\<close>

section \<open>Subscriptions\<close>

definition sub_of :: "bytes \<Rightarrow> 'c service \<Rightarrow> 'c subscription option" where
  "sub_of i s = map_of (svc_subs s) i"

definition sub_ok :: "'c subscription \<Rightarrow> bool" where
  "sub_ok x \<longleftrightarrow>
     (vw_state (sub_view x) \<in> {state_paused, state_blocked} \<longrightarrow> sub_consumer x = None) \<and>
     (vw_state (sub_view x) = state_running \<longrightarrow> sub_consumer x \<noteq> None)"

definition pass_ok :: "'c service \<Rightarrow> bool" where
  "pass_ok s \<longleftrightarrow> (\<forall>i x. sub_of i s = Some x \<longrightarrow> sub_ok x)"

definition at_sub :: "bytes \<Rightarrow> ('c subscription \<Rightarrow> bool) \<Rightarrow> 'c service \<times> 'w \<Rightarrow> bool" where
  "at_sub i R x \<longleftrightarrow>
     (\<exists>y. sub_of i (fst x) = Some y \<and> R y) \<and>
     (\<forall>j y. j \<noteq> i \<longrightarrow> sub_of j (fst x) = Some y \<longrightarrow> sub_ok y)"

lemma sub_of_on_sub [simp]:
  "sub_of j (on_sub i f s) = (if j = i then map_option f (sub_of j s) else sub_of j s)"
proof -
  have "map_of (map (\<lambda>(j, x). (j, if j = i then f x else x)) xs) j =
      (if j = i then map_option f (map_of xs j) else map_of xs j)" for xs
    by (induction xs) auto
  then show ?thesis by (simp add: sub_of_def on_sub_def)
qed

lemma sub_of_cong: "svc_subs s' = svc_subs s \<Longrightarrow> sub_of i s' = sub_of i s"
  by (simp add: sub_of_def)

lemma worker_effect_subs: "worker_effect f \<Longrightarrow> svc_subs (f s) = svc_subs s"
  by (induction rule: worker_effect.induct)
     (simp_all add: latch_def publish_def set_stream_def set_state_def Let_def split: prod.splits)

lemma between_subs: "workers_only E \<Longrightarrow> env_between E w = (g, w') \<Longrightarrow> svc_subs (g s) = svc_subs s"
  by (metis workers_only_def fst_conv worker_effect_subs)

lemma at_sub_cong: "svc_subs s' = svc_subs s \<Longrightarrow> at_sub i R (s', w') = at_sub i R (s, w)"
  by (simp add: at_sub_def sub_of_def)

lemma at_sub_between:
  "workers_only E \<Longrightarrow> env_between E w = (g, w') \<Longrightarrow> at_sub i R (s, w) \<Longrightarrow> at_sub i R (g s, w')"
  using at_sub_cong [of "g s" s i R w' w] between_subs [of E w g w' s] by simp

lemma at_sub_weaken: "at_sub i R x \<Longrightarrow> (\<And>y. R y \<Longrightarrow> R' y) \<Longrightarrow> at_sub i R' x"
  by (auto simp: at_sub_def)

lemma at_sub_pass_ok: "at_sub i R x \<Longrightarrow> (\<And>y. R y \<Longrightarrow> sub_ok y) \<Longrightarrow> pass_ok (fst x)"
  unfolding at_sub_def pass_ok_def by (metis option.inject)

text \<open>One rule for each kind of step.\<close>

lemma at_sub_call: "triple (at_sub i R) (call f) (\<lambda>_. at_sub i R)"
  by (rule triple_call) (simp add: at_sub_def)

lemma at_sub_read: "workers_only E \<Longrightarrow> triple (at_sub i R) (read_locked E f) (\<lambda>_. at_sub i R)"
  unfolding read_locked_def by (rule triple_locked) (auto dest: at_sub_between)

lemma at_sub_peek: "triple (at_sub i R) (peek f) (\<lambda>_. at_sub i R)"
  by (rule triple_peek) simp

lemma at_sub_idle: "(\<And>y. R y \<Longrightarrow> R' y) \<Longrightarrow> triple (at_sub i R) idle (\<lambda>_. at_sub i R')"
  unfolding idle_def by (rule triple_return) (rule at_sub_weaken)

lemma at_sub_return: "(\<And>y. R y \<Longrightarrow> R' y) \<Longrightarrow> triple (at_sub i R) (State_Monad.return a) (\<lambda>_. at_sub i R')"
  by (rule triple_return) (rule at_sub_weaken)

lemma at_sub_on_sub: "(\<And>y. R y \<Longrightarrow> R' (f y)) \<Longrightarrow> at_sub i R (s, w) \<Longrightarrow> at_sub i R' (on_sub i f s, w)"
  by (auto simp: at_sub_def)

lemma at_sub_update:
  assumes "workers_only E" and "\<And>y. R y \<Longrightarrow> R' (f y)"
  shows "triple (at_sub i R) (update_locked E (on_sub i f)) (\<lambda>_. at_sub i R')"
  unfolding update_locked_def
proof (rule triple_locked)
  fix s w g w' a s'
  assume s: "at_sub i R (s, w)" and g: "env_between E w = (g, w')" and run: "((), on_sub i f (g s)) = (a, s')"
  have "at_sub i R' (on_sub i f (g s), w')"
    using assms(2) at_sub_between [OF assms(1) g s] by (rule at_sub_on_sub)
  with run show "at_sub i R' (s', w')" by simp
qed

section \<open>One subscription\<close>

definition resting :: "desired_subscription \<Rightarrow> 'c subscription \<Rightarrow> bool" where
  "resting d x \<longleftrightarrow>
     vw_desired (sub_view x) = ds_desired d \<and> sub_consumer x = None \<and> sub_revision x = ds_revision d \<and>
     vw_state (sub_view x) = (if paused d then state_paused else state_blocked) \<and>
     (paused d \<longrightarrow> vw_error (sub_view x) = [])"

definition holding :: "desired_subscription \<Rightarrow> 'c option \<Rightarrow> 'c subscription \<Rightarrow> bool" where
  "holding d c x \<longleftrightarrow> sub_consumer x = c \<and> vw_desired (sub_view x) = ds_desired d"

definition settled :: "desired_subscription \<Rightarrow> 'c subscription \<Rightarrow> bool" where
  "settled d x \<longleftrightarrow>
     sub_ok x \<and> vw_desired (sub_view x) = ds_desired d \<and>
     vw_state (sub_view x) \<in>
       (if paused d then {state_paused} else {state_blocked, state_starting, state_running}) \<and>
     (vw_state (sub_view x) \<in> {state_paused, state_running} \<longrightarrow>
        sub_revision x = ds_revision d \<and> vw_error (sub_view x) = [])"

lemma resting_settled: "resting d x \<Longrightarrow> settled d x"
  by (simp add: resting_def settled_def sub_ok_def split: if_splits)

lemma settled_ok: "settled d x \<Longrightarrow> sub_ok x"
  by (simp add: settled_def)

lemma rest_at_sub:
  assumes others: "workers_only E"
  shows "triple (at_sub (ds_id d) (holding d c)) (rest E c d reason) (\<lambda>_. at_sub (ds_id d) (resting d))"
  unfolding rest_def
proof (rule triple_bind)
  show "triple (at_sub (ds_id d) (holding d c))
     (case c of None \<Rightarrow> idle
      | Some c \<Rightarrow> update_locked E (on_sub (ds_id d) (set_vw_state state_pausing)) \<bind>
          (\<lambda>_. call (env_stop E c) \<bind>
            (\<lambda>_. update_locked E (on_sub (ds_id d) (sub_consumer_update (\<lambda>_. None))))))
     (\<lambda>_. at_sub (ds_id d) (holding d None))"
    by (cases c)
       (auto intro!: at_sub_idle triple_bind [where M = "\<lambda>_. at_sub (ds_id d) (holding d c)"]
          at_sub_update others at_sub_call simp: holding_def set_vw_state_def)
next
  have "triple (at_sub (ds_id d) (holding d None)) (locked E (settle_resting d reason))
      (\<lambda>_. at_sub (ds_id d) (resting d))"
  proof (rule triple_locked)
    fix s w g w' a s'
    assume s: "at_sub (ds_id d) (holding d None) (s, w)" and g: "env_between E w = (g, w')"
      and run: "settle_resting d reason (g s) = (a, s')"
    from s have g's: "at_sub (ds_id d) (holding d None) (g s, w')"
      by (rule at_sub_between [OF others g])
    then obtain x where "map_of (svc_subs (g s)) (ds_id d) = Some x" by (auto simp: at_sub_def sub_of_def)
    with run have s': "s' = on_sub (ds_id d) (\<lambda>x. (settle (fst (resting_state d reason))
        (snd (resting_state d reason)) x)\<lparr>sub_revision := ds_revision d\<rparr>) (g s)"
      by (auto simp: settle_resting_def split: prod.splits)
    show "at_sub (ds_id d) (resting d) (s', w')"
      unfolding s' by (rule at_sub_on_sub [OF _ g's])
        (auto simp: holding_def resting_def settle_def resting_state_def)
  qed
  then show "triple (at_sub (ds_id d) (holding d None))
     (locked E (settle_resting d reason) \<bind> (\<lambda>(previous, view).
        if previous \<noteq> vw_state view
        then call (env_log E (zero_entry\<lparr>e_message := vw_state view, e_destination := ds_id d,
                                         e_error := vw_error view\<rparr>))
        else idle)) (\<lambda>_. at_sub (ds_id d) (resting d))" for u :: unit
    by (rule triple_bind) (auto intro!: at_sub_call at_sub_idle split: prod.splits)
qed

text \<open>The two halves of ensuring a consumer: a finished consumer is closed and forgotten, and a
  missing one is created, a failure to do so leaving the subscription blocked.\<close>

lemma live_consumer_at_sub:
  assumes others: "workers_only E"
  shows "triple (at_sub i (holding d c))
     (case c of None \<Rightarrow> State_Monad.return None
      | Some k \<Rightarrow> call (env_finished E k) \<bind>
          (\<lambda>finished. if finished
             then call (env_stop E k) \<bind>
               (\<lambda>_. update_locked E (on_sub i (sub_consumer_update (\<lambda>_. None))) \<bind>
                 (\<lambda>_. State_Monad.return None))
             else State_Monad.return (Some k))) (\<lambda>res. at_sub i (holding d res))"
proof -
  let ?live = "\<lambda>res. at_sub i (holding d res)"
  have stop: "triple (at_sub i (holding d (Some k)))
      (State_Monad.bind (call (env_stop E k)) (\<lambda>_. State_Monad.bind
        (update_locked E (on_sub i (sub_consumer_update (\<lambda>_. None))))
        (\<lambda>_. State_Monad.return None))) ?live" for k
    by (rule triple_bind [OF at_sub_call], rule triple_bind [where M = "\<lambda>_. at_sub i (holding d None)"],
        rule at_sub_update [OF others], simp add: holding_def, rule triple_return)
  have finished: "triple (at_sub i (holding d (Some k)))
      (if b then State_Monad.bind (call (env_stop E k)) (\<lambda>_. State_Monad.bind
         (update_locked E (on_sub i (sub_consumer_update (\<lambda>_. None))))
         (\<lambda>_. State_Monad.return None))
       else State_Monad.return (Some k)) ?live" for k b
    using stop by (auto intro: triple_return)
  show ?thesis
    by (cases c) (auto intro!: triple_return triple_bind [OF at_sub_call] finished)
qed

lemma fresh_consumer_at_sub:
  assumes others: "workers_only E"
  shows "triple (at_sub i (holding d live))
     (case live of
        None \<Rightarrow> new_consumer E t \<bind> (\<lambda>res. case res of
            Inl e \<Rightarrow> update_locked E (on_sub i (settle state_blocked ''Kafka consumer unavailable'')) \<bind>
              (\<lambda>_. State_Monad.return None)
          | Inr k \<Rightarrow> update_locked E (on_sub i (\<lambda>x. (settle state_starting [] x)\<lparr>sub_consumer := Some k\<rparr>)) \<bind>
              (\<lambda>_. call (env_run E k) \<bind> (\<lambda>_. State_Monad.return (Some k))))
      | Some k \<Rightarrow> State_Monad.return (Some k)) (\<lambda>res. case res of
       Some c' \<Rightarrow> at_sub i (\<lambda>x. holding d (Some c') x)
     | None \<Rightarrow> at_sub i (\<lambda>x. holding d None x \<and> vw_state (sub_view x) = state_blocked))"
proof -
  let ?out = "(\<lambda>res. case res of
       Some c' \<Rightarrow> at_sub i (\<lambda>x. holding d (Some c') x)
     | None \<Rightarrow> at_sub i (\<lambda>x. holding d None x \<and> vw_state (sub_view x) = state_blocked))"
  have create: "triple (at_sub i (holding d None)) (new_consumer E t) (\<lambda>_. at_sub i (holding d None))"
    unfolding new_consumer_def by (rule triple_bind [OF at_sub_read [OF others] at_sub_call])
  have failed: "triple (at_sub i (holding d None))
      (State_Monad.bind (update_locked E (on_sub i (settle state_blocked ''Kafka consumer unavailable'')))
        (\<lambda>_. State_Monad.return None)) ?out"
    by (rule triple_bind [where M = "\<lambda>_. at_sub i (\<lambda>x. holding d None x \<and> vw_state (sub_view x) = state_blocked)"],
        rule at_sub_update [OF others], simp add: holding_def settle_def, rule triple_return, simp)
  have created: "triple (at_sub i (holding d None))
      (State_Monad.bind (update_locked E (on_sub i (\<lambda>x. (settle state_starting [] x)\<lparr>sub_consumer := Some k\<rparr>)))
        (\<lambda>_. State_Monad.bind (call (env_run E k)) (\<lambda>_. State_Monad.return (Some k)))) ?out" for k
    by (rule triple_bind [where M = "\<lambda>_. at_sub i (holding d (Some k))"], rule at_sub_update [OF others],
        simp add: holding_def settle_def, rule triple_bind [OF at_sub_call], rule triple_return, simp)
  show ?thesis
    by (cases live) (auto intro!: triple_return triple_bind [OF create] failed created split: sum.splits)
qed

lemma ensure_consumer_at_sub:
  assumes others: "workers_only E"
  shows "triple (at_sub i (holding d c)) (ensure_consumer E i c t)
    (\<lambda>res. case res of
       Some c' \<Rightarrow> at_sub i (\<lambda>x. holding d (Some c') x)
     | None \<Rightarrow> at_sub i (\<lambda>x. holding d None x \<and> vw_state (sub_view x) = state_blocked))"
  unfolding ensure_consumer_def
  by (rule triple_bind [OF live_consumer_at_sub fresh_consumer_at_sub], rule others, rule others)

lemma mark_progress_at_sub:
  assumes others: "workers_only E" and "\<not> paused d"
  shows "triple (at_sub (ds_id d) (holding d (Some c))) (mark_progress E d ready)
    (\<lambda>_. at_sub (ds_id d) (settled d))"
proof (cases ready)
  case False
  then show ?thesis
    using assms(2) unfolding mark_progress_def
    by (auto intro!: at_sub_update [OF others] simp: holding_def settled_def sub_ok_def set_vw_state_def)
next
  case True
  have "triple (at_sub (ds_id d) (holding d (Some c))) (locked E (\<lambda>s.
          (case map_of (svc_subs s) (ds_id d) of
             None \<Rightarrow> False | Some x \<Rightarrow> vw_state (sub_view x) \<noteq> state_running,
           on_sub (ds_id d) (\<lambda>x. (settle state_running [] x)\<lparr>sub_revision := ds_revision d\<rparr>) s)))
      (\<lambda>_. at_sub (ds_id d) (settled d))"
  proof (rule triple_locked)
    fix s w g w' a s'
    assume s: "at_sub (ds_id d) (holding d (Some c)) (s, w)" and g: "env_between E w = (g, w')"
      and run: "(case map_of (svc_subs (g s)) (ds_id d) of
             None \<Rightarrow> False | Some x \<Rightarrow> vw_state (sub_view x) \<noteq> state_running,
           on_sub (ds_id d) (\<lambda>x. (settle state_running [] x)\<lparr>sub_revision := ds_revision d\<rparr>) (g s)) = (a, s')"
    have "at_sub (ds_id d) (settled d)
        (on_sub (ds_id d) (\<lambda>x. (settle state_running [] x)\<lparr>sub_revision := ds_revision d\<rparr>) (g s), w')"
      by (rule at_sub_on_sub [OF _ at_sub_between [OF others g s]])
         (use assms(2) in \<open>auto simp: holding_def settled_def sub_ok_def settle_def\<close>)
    with run show "at_sub (ds_id d) (settled d) (s', w')" by simp
  qed
  then show ?thesis
    using True unfolding mark_progress_def
    by (auto intro!: triple_bind [where M = "\<lambda>_. at_sub (ds_id d) (settled d)"] at_sub_call at_sub_idle)
qed

text \<open>After its reconciliation a known subscription is settled, and all are well-formed.\<close>

abbreviation pass_settled :: "desired_subscription \<Rightarrow> 'c service \<times> 'w \<Rightarrow> bool" where
  "pass_settled d x \<equiv> pass_ok (fst x) \<and> (\<forall>y. sub_of (ds_id d) (fst x) = Some y \<longrightarrow> settled d y)"

lemma settled_over: "at_sub (ds_id d) (settled d) x \<Longrightarrow> pass_settled d x"
  using at_sub_pass_ok [of "ds_id d" "settled d" x, OF _ settled_ok] by (auto simp: at_sub_def)

lemma note_desired_finds:
  assumes others: "workers_only E"
  shows "triple (\<lambda>x. pass_ok (fst x)) (locked E (note_desired d))
      (\<lambda>known. case known of
         None \<Rightarrow> (\<lambda>x. pass_ok (fst x) \<and> sub_of (ds_id d) (fst x) = None)
       | Some c \<Rightarrow> at_sub (ds_id d) (holding d c))"
proof (rule triple_locked)
  fix s w g w' known s'
  assume s: "pass_ok (fst (s, w))" and g: "env_between E w = (g, w')"
    and run: "note_desired d (g s) = (known, s')"
  have same: "sub_of j (g s) = sub_of j s" for j using between_subs [OF others g] by (rule sub_of_cong)
  show "(case known of None \<Rightarrow> (\<lambda>x. pass_ok (fst x) \<and> sub_of (ds_id d) (fst x) = None)
     | Some c \<Rightarrow> at_sub (ds_id d) (holding d c)) (s', w')"
  proof (cases "sub_of (ds_id d) (g s)")
    case None
    with run have "known = None" "s' = g s" by (auto simp: note_desired_def sub_of_def)
    with None s same show ?thesis by (simp add: pass_ok_def)
  next
    case (Some y)
    with run have "known = Some (sub_consumer y)"
      "s' = on_sub (ds_id d) (\<lambda>x. x\<lparr>sub_view := (sub_view x)\<lparr>vw_desired := ds_desired d\<rparr>\<rparr>) (g s)"
      by (auto simp: note_desired_def sub_of_def)
    with Some s same show ?thesis by (auto simp: at_sub_def holding_def pass_ok_def)
  qed
qed

lemma started_settles:
  assumes others: "workers_only E"
  shows "triple (at_sub (ds_id d) (holding d c))
      (if paused d \<or> \<not> ready then rest E c d reason
       else ensure_consumer E (ds_id d) c t \<bind> (\<lambda>live. case live of
         None \<Rightarrow> idle | Some c \<Rightarrow> call (env_ready E c) \<bind> mark_progress E d)) (\<lambda>_. pass_settled d)"
proof -
  let ?i = "ds_id d"
  let ?final = "pass_settled d"
  note over = settled_over [of d]
  have rests: "triple (at_sub ?i (holding d c)) (rest E c d reason) (\<lambda>_. ?final)" for c reason
    by (rule triple_weaken [OF rest_at_sub [OF others]], assumption, rule over,
        erule at_sub_weaken, erule resting_settled)
  have unavailable: "triple (at_sub ?i (\<lambda>x. holding d None x \<and> vw_state (sub_view x) = state_blocked)) idle (\<lambda>_. ?final)"
    if "\<not> paused d"
  proof (rule triple_weaken)
    show "triple (at_sub ?i (\<lambda>x. holding d None x \<and> vw_state (sub_view x) = state_blocked)) idle
        (\<lambda>_. at_sub ?i (settled d))"
      by (rule at_sub_idle) (use that in \<open>simp add: holding_def settled_def sub_ok_def\<close>)
  qed (assumption, erule over)
  have progress: "triple (at_sub ?i (holding d (Some c)))
      (call (env_ready E c) \<bind> mark_progress E d) (\<lambda>_. ?final)" if "\<not> paused d" for c
    by (rule triple_bind [OF at_sub_call])
       (rule triple_weaken [OF mark_progress_at_sub [OF others that]], assumption, erule over)
  have starts: "triple (at_sub ?i (holding d c))
      (ensure_consumer E ?i c t \<bind> (\<lambda>live. case live of
         None \<Rightarrow> idle | Some c \<Rightarrow> call (env_ready E c) \<bind> mark_progress E d)) (\<lambda>_. ?final)"
    if "\<not> paused d" for c t
    by (rule triple_bind [OF ensure_consumer_at_sub [OF others]])
       (auto intro: unavailable [OF that] progress [OF that] split: option.splits)
  show ?thesis
    using rests starts by auto
qed

lemma reconcile_subscription_settles:
  assumes others: "workers_only E"
  shows "triple (\<lambda>x. pass_ok (fst x)) (reconcile_subscription E d)
    (\<lambda>_ x. pass_ok (fst x) \<and> (\<forall>y. sub_of (ds_id d) (fst x) = Some y \<longrightarrow> settled d y))"
  unfolding reconcile_subscription_def
proof (rule triple_bind [OF note_desired_finds [OF others]])
  fix known
  let ?i = "ds_id d"
  let ?final = "pass_settled d"
  note body = started_settles [OF others]
  show "triple (case known of
         None \<Rightarrow> (\<lambda>x. pass_ok (fst x) \<and> sub_of ?i (fst x) = None)
       | Some c \<Rightarrow> at_sub ?i (holding d c))
     (case known of None \<Rightarrow> idle
      | Some consumer \<Rightarrow> peek svc_targets \<bind> (\<lambda>targets.
          let t = find_target targets ?i
          in destination_ready E t \<bind> (\<lambda>(ready, reason).
            if paused d \<or> \<not> ready then rest E consumer d reason
            else ensure_consumer E ?i consumer t \<bind> (\<lambda>live. case live of
              None \<Rightarrow> idle | Some c \<Rightarrow> call (env_ready E c) \<bind> mark_progress E d)))) (\<lambda>_. ?final)"
  proof (cases known)
    case None
    then show ?thesis unfolding idle_def by (auto intro: triple_return)
  next
    case (Some c)
    then show ?thesis
      unfolding destination_ready_def Let_def
      by (auto intro!: triple_bind [OF at_sub_peek] triple_bind [OF at_sub_read [OF others]] body
          simp del: not_None_eq split: prod.splits)
  qed
qed

section \<open>A pass\<close>

lemma triple_conj:
  "triple P m Q \<Longrightarrow> triple P' m Q' \<Longrightarrow> triple (\<lambda>x. P x \<and> P' x) m (\<lambda>a x. Q a x \<and> Q' a x)"
  by (auto simp: triple_def split: prod.splits)

lemma triple_each:
  assumes "\<And>x. triple P (f x) (\<lambda>_. P)"
  shows "triple P (each f xs) (\<lambda>_. P)"
proof (induction xs)
  case Nil
  show ?case unfolding each.simps idle_def by (rule triple_return)
next
  case (Cons x xs)
  show ?case unfolding each.simps by (rule triple_bind [OF assms Cons.IH])
qed

text \<open>Invariants of fields that inspections, and those that reconciliations, do not write.\<close>

lemma inspect_source_keeps:
  assumes st: "stable E I" and stream: "\<And>j g s. I s \<Longrightarrow> I (set_stream j g s)"
    and state: "\<And>j x s. I s \<Longrightarrow> I (set_state j x s)" and wake: "\<And>s. I s \<Longrightarrow> I (s\<lparr>svc_wake := True\<rparr>)"
  shows "keeps I (inspect_source E src)"
proof -
  have cache: "I s \<Longrightarrow> I (snd (cache_stream g s))" for g s
    by (simp add: cache_stream_def Let_def stream)
  have latches: "I s \<Longrightarrow> I (latch j reason s)" for j reason s
    by (simp add: latch_def stream)
  have pub: "I s \<Longrightarrow> I (snd (publish j x reason s))" for j x reason s
    by (simp add: publish_def Let_def state split: prod.splits)
  have states: "keeps I (source_state E j x reason)" for j x reason
    unfolding source_state_def by (intro keeps_intro keeps_locked [OF st] pub)
  have blocks: "keeps I (block E j reason)" for j reason
    unfolding block_def signal_def
    by (intro keeps_intro keeps_update [OF st] states latches wake)
  show ?thesis
    unfolding inspect_source_def
    by (intro keeps_intro keeps_read [OF st] keeps_locked [OF st] states blocks cache)
qed

lemma reconcile_subscription_keeps:
  assumes st: "stable E I" and sub: "\<And>j f s. I s \<Longrightarrow> I (on_sub j f s)"
  shows "keeps I (reconcile_subscription E d)"
proof -
  have note_sub: "I s \<Longrightarrow> I (snd (note_desired d s))" for s
    by (simp add: note_desired_def sub split: option.splits)
  have settle_sub: "I s \<Longrightarrow> I (snd (settle_resting d reason s))" for reason s
    by (simp add: settle_resting_def sub Let_def split: option.splits prod.splits)
  show ?thesis
    unfolding reconcile_subscription_def destination_ready_def rest_def ensure_consumer_def
      new_consumer_def mark_progress_def
    by (intro keeps_intro keeps_read [OF st] keeps_locked [OF st] keeps_update [OF st] sub note_sub settle_sub)
      (simp_all add: sub st)
qed

lemma worker_effect_frame:
  "worker_effect f \<Longrightarrow> svc_control (f s) = svc_control s \<and> svc_kafka (f s) = svc_kafka s \<and>
   svc_status (f s) = svc_status s \<and> svc_lease (f s) = svc_lease s \<and> svc_scope (f s) = svc_scope s \<and>
   svc_worker (f s) = svc_worker s \<and> svc_sources (f s) = svc_sources s \<and> svc_targets (f s) = svc_targets s"
  by (induction rule: worker_effect.induct)
     (simp_all add: latch_def publish_def set_stream_def set_state_def Let_def split: prod.splits)

definition dependable :: "'c service \<Rightarrow> bool" where
  "dependable s \<longleftrightarrow> svc_control s \<and> svc_kafka s"

definition no_consumers :: "'c service \<Rightarrow> bool" where
  "no_consumers s \<longleftrightarrow> (\<forall>i x. sub_of i s = Some x \<longrightarrow> sub_consumer x = None)"

lemma stable_healthy: "workers_only E \<Longrightarrow> stable E dependable"
  by (erule workers_only_stable) (simp add: dependable_def worker_effect_frame)

lemma stable_pass_ok: "workers_only E \<Longrightarrow> stable E pass_ok"
  by (erule workers_only_stable) (simp add: pass_ok_def sub_of_def worker_effect_subs)

lemma stable_degraded: "workers_only E \<Longrightarrow> stable E (\<lambda>s. svc_status s = status_degraded)"
  by (erule workers_only_stable) (simp add: worker_effect_frame)

lemma inspect_healthy: "workers_only E \<Longrightarrow> keeps dependable (inspect_source E src)"
  by (rule inspect_source_keeps [OF stable_healthy])
     (simp_all add: dependable_def set_stream_def set_state_def)

lemma inspect_pass_ok: "workers_only E \<Longrightarrow> keeps pass_ok (inspect_source E src)"
  by (rule inspect_source_keeps [OF stable_pass_ok])
     (simp_all add: pass_ok_def sub_of_def set_stream_def set_state_def)

lemma reconcile_subscription_healthy: "workers_only E \<Longrightarrow> keeps dependable (reconcile_subscription E d)"
  by (rule reconcile_subscription_keeps [OF stable_healthy]) (simp_all add: dependable_def on_sub_def)

lemma reconcile_subscription_pass_ok: "workers_only E \<Longrightarrow> keeps pass_ok (reconcile_subscription E d)"
  unfolding keeps_def
  by (rule triple_weaken [OF reconcile_subscription_settles]) auto

lemma refresh_pass_ok: "workers_only E \<Longrightarrow> keeps pass_ok (refresh_dependencies E)"
  unfolding refresh_dependencies_def
  by (intro keeps_intro keeps_update [OF stable_pass_ok]) (simp_all add: pass_ok_def sub_of_def)

lemma refresh_healthy:
  "triple (\<lambda>_. True) (refresh_dependencies E) (\<lambda>res x. snd res \<longrightarrow> dependable (fst x))"
  by (auto simp: triple_def refresh_dependencies_def peek_def call_def update_locked_def locked_def
      dependable_def Let_def split: prod.splits)

lemma report_observations_keeps: "stable E I \<Longrightarrow> keeps I (report_observations E)"
  unfolding report_observations_def by (intro keeps_intro)

text \<open>Every consumer is stopped, and nothing else is forgotten.\<close>

lemma sub_of_drop: "sub_of i (s\<lparr>svc_subs := map (apsnd f) (svc_subs s)\<rparr>) = map_option f (sub_of i s)"
proof -
  have "map_of (map (apsnd f) xs) i = map_option f (map_of xs i)" for xs
    by (induction xs) auto
  then show ?thesis by (simp add: sub_of_def)
qed

lemma drop_consumer_ok: "sub_ok x \<Longrightarrow> sub_ok (drop_consumer x)"
  by (auto simp: sub_ok_def drop_consumer_def settle_def)

lemma drop_consumer_None [simp]: "sub_consumer (drop_consumer x) = None"
  by (simp add: drop_consumer_def)

lemma stop_all_leaves:
  assumes others: "workers_only E"
  shows "triple (\<lambda>x. pass_ok (fst x)) (stop_all E) (\<lambda>_ x. pass_ok (fst x) \<and> no_consumers (fst x))"
proof -
  let ?P = "\<lambda>x. pass_ok (fst x)"
  have last: "triple ?P (update_locked E (\<lambda>s. s\<lparr>svc_subs := map (apsnd drop_consumer) (svc_subs s)\<rparr>))
      (\<lambda>_ x. pass_ok (fst x) \<and> no_consumers (fst x))"
    unfolding update_locked_def
  proof (rule triple_locked)
    fix s w g w' a s'
    assume "pass_ok (fst (s, w))" and g: "env_between E w = (g, w')"
      and "((), (g s)\<lparr>svc_subs := map (apsnd drop_consumer) (svc_subs (g s))\<rparr>) = (a, s')"
    then show "pass_ok (fst (s', w')) \<and> no_consumers (fst (s', w'))"
      using stableD [OF stable_pass_ok [OF others] g]
      by (auto simp: pass_ok_def no_consumers_def sub_of_drop drop_consumer_ok)
  qed
  note step = keeps_triple [OF keeps_call_locked [OF stable_pass_ok [OF others]]]
    keeps_triple [OF keeps_each [OF keeps_call]]
  show ?thesis
    unfolding stop_all_def by (rule triple_bind [OF step(1)] triple_bind [OF step(2)] last)+
qed

lemma degrade_leaves:
  assumes others: "workers_only E"
  shows "triple (\<lambda>x. pass_ok (fst x)) (degrade E)
    (\<lambda>_ x. pass_ok (fst x) \<and> svc_status (fst x) = status_degraded \<and> no_consumers (fst x))"
  unfolding degrade_def
proof (rule triple_bind)
  show "triple (\<lambda>x. pass_ok (fst x)) (update_locked E (\<lambda>s. s\<lparr>svc_status := status_degraded\<rparr>))
      (\<lambda>_ x. pass_ok (fst x) \<and> svc_status (fst x) = status_degraded)"
    unfolding update_locked_def
    by (rule triple_locked)
       (use stableD [OF stable_pass_ok [OF others]] in \<open>auto simp: pass_ok_def sub_of_def\<close>)
  have "keeps (\<lambda>s. svc_status s = status_degraded) (stop_all E)"
    unfolding stop_all_def
    by (intro keeps_intro keeps_read keeps_update stable_degraded others) simp_all
  from triple_conj [OF stop_all_leaves [OF others] keeps_triple [OF this]]
  show "triple (\<lambda>x. pass_ok (fst x) \<and> svc_status (fst x) = status_degraded) (stop_all E)
    (\<lambda>_ x. pass_ok (fst x) \<and> svc_status (fst x) = status_degraded \<and> no_consumers (fst x))" for u :: unit
    by (rule triple_weaken) auto
qed

text \<open>How a pass ends.\<close>

definition pass_end :: "'c service \<Rightarrow> bool" where
  "pass_end s \<longleftrightarrow>
     pass_ok s \<and>
     (svc_status s = status_degraded \<and> no_consumers s \<or>
      dependable s \<and> svc_status s = overall_status (svc_states s) (svc_subs s))"

abbreviation healthy_pass :: "'c service \<times> 'w \<Rightarrow> bool" where
  "healthy_pass x \<equiv> pass_ok (fst x) \<and> dependable (fst x)"

lemma degrade_ends:
  "workers_only E \<Longrightarrow> triple (\<lambda>x. pass_ok (fst x)) (degrade E) (\<lambda>_ x. pass_end (fst x))"
  by (rule triple_weaken [OF degrade_leaves]) (simp_all add: pass_end_def)

lemma lost_control_ends:
  assumes others: "workers_only E"
  shows "triple healthy_pass (State_Monad.bind (update_locked E (\<lambda>s. s\<lparr>svc_control := False\<rparr>)) (\<lambda>_. degrade E))
      (\<lambda>_ x. pass_end (fst x))"
proof (rule triple_bind [OF _ degrade_ends [OF others]])
  show "triple healthy_pass (update_locked E (\<lambda>s. s\<lparr>svc_control := False\<rparr>)) (\<lambda>_ x. pass_ok (fst x))"
    unfolding update_locked_def
    by (rule triple_locked)
       (use stableD [OF stable_pass_ok [OF others]] in \<open>auto simp: pass_ok_def sub_of_def\<close>)
qed

lemma status_ends:
  assumes others: "workers_only E"
  shows "triple healthy_pass (update_locked E (\<lambda>s. s\<lparr>svc_status := overall_status (svc_states s) (svc_subs s)\<rparr>))
      (\<lambda>_ x. pass_end (fst x))"
  unfolding update_locked_def
  by (rule triple_locked)
     (use stableD [OF stable_pass_ok [OF others]] stableD [OF stable_healthy [OF others]] in
       \<open>auto simp: pass_end_def pass_ok_def sub_of_def dependable_def\<close>)

lemma healthy_pass_ends:
  fixes E :: "('c, 'w) env"
  assumes others: "workers_only E"
  shows "triple healthy_pass (peek svc_sources \<bind> (\<lambda>sources. each (inspect_source E) sources \<bind> (\<lambda>_.
          call (env_err E) \<bind> (\<lambda>ended. if ended \<noteq> None then degrade E
            else each (reconcile_subscription E) ds \<bind> (\<lambda>_. report_observations E \<bind> (\<lambda>reported.
              if \<not> reported
              then update_locked E (\<lambda>s. s\<lparr>svc_control := False\<rparr>) \<bind> (\<lambda>_. degrade E)
              else update_locked E (\<lambda>s. s\<lparr>svc_status := overall_status (svc_states s) (svc_subs s)\<rparr>)))))))
     (\<lambda>_ x. pass_end (fst x))"
proof -
  have both: "triple healthy_pass m (\<lambda>_. healthy_pass)" if "keeps pass_ok m" "keeps dependable m"
    for m :: "('c, 'w, 'r) action"
    by (rule triple_conj [OF keeps_triple [OF that(1)] keeps_triple [OF that(2)]])
  have inspect: "triple healthy_pass (each (inspect_source E) srcs) (\<lambda>_. healthy_pass)" for srcs
    by (intro triple_each both inspect_pass_ok inspect_healthy others)
  have subs: "triple healthy_pass (each (reconcile_subscription E) ds) (\<lambda>_. healthy_pass)" for ds
    by (intro triple_each both reconcile_subscription_pass_ok reconcile_subscription_healthy others)
  have reports: "triple healthy_pass (report_observations E) (\<lambda>_. healthy_pass)"
    by (intro both report_observations_keeps stable_pass_ok stable_healthy others)
  have bad: "triple healthy_pass (degrade E) (\<lambda>_ x. pass_end (fst x))"
    by (rule triple_weaken [OF degrade_ends [OF others]]) simp_all
  show ?thesis
    by (rule triple_bind [OF both [OF keeps_peek keeps_peek]], rule triple_bind [OF inspect],
        rule triple_bind [OF both [OF keeps_call keeps_call]])
       (auto intro!: bad triple_bind [OF subs] triple_bind [OF reports] lost_control_ends status_ends others)
qed

lemma reconcile_leaves:
  assumes others: "workers_only E"
  shows "triple (\<lambda>x. pass_ok (fst x)) (reconcile E) (\<lambda>_ x. pass_end (fst x))"
  unfolding reconcile_def
proof (rule triple_bind)
  show "triple (\<lambda>x. pass_ok (fst x)) (refresh_dependencies E)
      (\<lambda>res x. pass_ok (fst x) \<and> (snd res \<longrightarrow> dependable (fst x)))"
    by (rule triple_weaken [OF triple_conj [OF keeps_triple [OF refresh_pass_ok [OF others]] refresh_healthy]])
       simp_all
  fix res :: "desired_subscription list \<times> bool"
  show "triple (\<lambda>x. pass_ok (fst x) \<and> (snd res \<longrightarrow> dependable (fst x)))
     (case res of (desired, ok) \<Rightarrow>
        if \<not> ok then degrade E
        else peek svc_sources \<bind> (\<lambda>sources. each (inspect_source E) sources \<bind> (\<lambda>_.
          call (env_err E) \<bind> (\<lambda>ended. if ended \<noteq> None then degrade E
            else each (reconcile_subscription E) desired \<bind> (\<lambda>_. report_observations E \<bind> (\<lambda>reported.
              if \<not> reported
              then update_locked E (\<lambda>s. s\<lparr>svc_control := False\<rparr>) \<bind> (\<lambda>_. degrade E)
              else update_locked E (\<lambda>s. s\<lparr>svc_status := overall_status (svc_states s) (svc_subs s)\<rparr>)))))))
     (\<lambda>_ x. pass_end (fst x))"
  proof (cases "snd res")
    case False
    then show ?thesis using degrade_ends [OF others] by (cases res) (simp add: triple_weaken)
  next
    case True
    then obtain ds where "res = (ds, True)" by (cases res) auto
    with healthy_pass_ends [OF others, of ds] show ?thesis by simp
  qed
qed

section \<open>The control loop\<close>

text \<open>When the loop has ended no consumer is left, and the lease is released after that.\<close>

lemma pass_end_ok: "pass_end s \<Longrightarrow> pass_ok s"
  by (simp add: pass_end_def)

lemma start_loop_leaves:
  assumes others: "workers_only E"
  shows "triple (\<lambda>x. pass_ok (fst x)) (start_loop fuel E)
    (\<lambda>ended x. pass_ok (fst x) \<and> (ended \<longrightarrow> no_consumers (fst x)))"
proof (induction fuel)
  case 0
  show ?case unfolding start_loop.simps by (rule triple_return) simp
next
  case (Suc fuel)
  have pass: "triple (\<lambda>x. pass_ok (fst x)) (reconcile E) (\<lambda>_ x. pass_ok (fst x))"
    by (rule triple_weaken [OF reconcile_leaves [OF others]]) (simp_all add: pass_end_ok)
  have wake: "triple (\<lambda>x. pass_ok (fst x)) (update_locked E (\<lambda>s. s\<lparr>svc_wake := False\<rparr>))
      (\<lambda>_ x. pass_ok (fst x))"
    by (rule keeps_triple, rule keeps_update [OF stable_pass_ok [OF others]])
       (simp add: pass_ok_def sub_of_def)
  have ended: "triple (\<lambda>x. pass_ok (fst x)) (State_Monad.bind (stop_all E) (\<lambda>_. State_Monad.return True))
      (\<lambda>ended x. pass_ok (fst x) \<and> (ended \<longrightarrow> no_consumers (fst x)))"
    by (rule triple_bind [OF stop_all_leaves [OF others]]) (rule triple_return, simp)
  show ?case
    unfolding start_loop.simps
    by (rule triple_bind [OF pass], rule triple_bind [OF keeps_triple [OF keeps_call]])
       (auto intro!: Suc.IH ended triple_bind [OF wake] split: wakeup.splits)
qed

section \<open>Changing a subscription\<close>

text \<open>
  \<open>A\<close> is kept by whatever happens to the world, and a request the code reports as converged has been confirmed by
  the store for the revision it was given, in the call that ends the wait.
\<close>

lemma await_waits:
  assumes poll: "\<And>w b w'. A w \<Longrightarrow> env_poll E w = (b, w') \<Longrightarrow> A w'"
    and ended: "\<And>w w'. env_poll E w = (False, w') \<Longrightarrow> fst (env_err E w') \<noteq> None"
    and again: "\<And>w. A w \<Longrightarrow>
      run_state (await_convergence fuel E i state n) (s, w) = (Some (v, None), x') \<Longrightarrow> Q"
    and start: "A w"
    and run: "run_state (if b \<and> vw_desired view \<noteq> state
        then State_Monad.return (Some (view, Some (Errorf ''control request superseded'')))
        else call (env_poll E) \<bind> (\<lambda>ticked. if ticked then await_convergence fuel E i state n
          else call (env_err E) \<bind> (\<lambda>err. State_Monad.return (Some (view, err))))) (s, w) =
      (Some (v, None), x')"
  shows Q
proof (cases "b \<and> vw_desired view \<noteq> state")
  case False
  obtain ticked w3 where p: "env_poll E w = (ticked, w3)" by (rule prod.exhaust)
  show ?thesis
  proof (cases ticked)
    case True
    with run p False again [of w3] poll [OF start p] show ?thesis by (simp add: call_def)
  next
    case False
    with run p ended [of w w3] show ?thesis by (auto simp: call_def split: prod.splits if_splits)
  qed
qed (use run in auto)

lemma await_nil:
  assumes after: "\<And>w g w'. A w \<Longrightarrow> env_between E w = (g, w') \<Longrightarrow> A w'"
      "\<And>w r w' s n t. A w \<Longrightarrow> env_observed E s i n t w = (r, w') \<Longrightarrow> A w'"
      "\<And>w b w'. A w \<Longrightarrow> env_poll E w = (b, w') \<Longrightarrow> A w'"
    and scope: "\<And>w g w' s. env_between E w = (g, w') \<Longrightarrow> svc_scope (g s) = svc_scope s"
    and ended: "\<And>w w'. env_poll E w = (False, w') \<Longrightarrow> fst (env_err E w') \<noteq> None"
  shows "A w \<Longrightarrow> run_state (await_convergence fuel E i state n) (s, w) = (Some (v, None), x') \<Longrightarrow>
    vw_state v = state \<and> vw_desired v = state \<and>
    (\<exists>w1. A w1 \<and> env_observed E (svc_scope s) i n state w1 = (Inr True, snd x'))"
proof (induction fuel arbitrary: s w)
  case 0
  then show ?case by simp
next
  case (Suc fuel)
  obtain g w1 where g: "env_between E w = (g, w1)" by (rule prod.exhaust)
  have A1: "A w1" and sc: "svc_scope (g s) = svc_scope s"
    using after(1) [OF Suc.prems(1) g] scope [OF g] by auto
  define found where "found = snapshot i (g s)"
  obtain view applied where va: "(case found of None \<Rightarrow> (zero_view, 0) | Some x \<Rightarrow> x) = (view, applied)"
    by (rule prod.exhaust)
  have wait: ?case
    if "A w2" and "run_state (if n < applied \<and> vw_desired view' \<noteq> state
        then State_Monad.return (Some (view', Some (Errorf ''control request superseded'')))
        else call (env_poll E) \<bind> (\<lambda>ticked. if ticked then await_convergence fuel E i state n
          else call (env_err E) \<bind> (\<lambda>err. State_Monad.return (Some (view', err))))) (g s, w2) =
      (Some (v, None), x')" for view' w2
    by (rule await_waits [where A = A, OF after(3) ended _ that])
       (use Suc.IH [of _ "g s"] sc in simp_all)
  show ?case
  proof (cases "n \<le> applied \<and> vw_state view = state \<and> vw_desired view = state")
    case False
    with Suc.prems(2) g va show ?thesis
      by (intro wait [OF A1, of view])
         (auto simp: read_locked_def locked_def found_def Let_def split: prod.splits if_splits)
  next
    case True
    obtain r w2 where r: "env_observed E (svc_scope (g s)) i n state w1 = (r, w2)" by (rule prod.exhaust)
    show ?thesis
    proof (cases "r = Inr False")
      case True2: True
      with Suc.prems(2) g va True r show ?thesis
        by (intro wait [OF after(2) [OF A1 r], of "view\<lparr>vw_state := pending_state state\<rparr>"])
           (auto simp: read_locked_def locked_def found_def Let_def peek_def call_def split: prod.splits)
    next
      case False
      with Suc.prems(2) g va True r A1 sc show ?thesis
        by (cases r)
           (auto simp: read_locked_def locked_def found_def Let_def peek_def call_def split: prod.splits bool.splits)
    qed
  qed
qed

end
