(* ===== verification/ControlStoreLaws.thy ===== *)
theory ControlStoreLaws
  imports ControlStore
begin

text \<open>
  What the control store promises, whatever statements fail and whichever workers use it. A step of the
  store is any of its operations by anyone, or time passing; the promises are invariants of steps and
  therefore of runs: rows are keyed, a registration is frozen and its block is a latch, revisions only
  grow and change with every change of the desired state, and a skip is never forgotten. The last
  section is the instance of the interface delivery uses.
\<close>

section \<open>Statements\<close>

lemma next_fault_db: "next_fault p = (f, p') \<Longrightarrow> pg_db p' = pg_db p"
  by (auto simp: next_fault_def split: list.splits)

lemma next_fault_now: "next_fault p = (f, p') \<Longrightarrow> pg_now p' = pg_now p"
  by (auto simp: next_fault_def split: list.splits)

lemma exec_write_db:
  "exec_write err change p = (r, p') \<Longrightarrow> pg_db p' = pg_db p \<or> pg_db p' = change (pg_db p)"
  by (auto simp: exec_write_def dest: next_fault_db next_fault_now split: prod.splits fault.splits)

lemma exec_write_None: "exec_write err change p = (None, p') \<Longrightarrow> pg_db p' = change (pg_db p)"
  by (auto simp: exec_write_def dest: next_fault_db next_fault_now split: prod.splits fault.splits)

lemma exec_write_now: "exec_write err change p = (r, p') \<Longrightarrow> pg_now p' = pg_now p"
  by (auto simp: exec_write_def dest: next_fault_db next_fault_now split: prod.splits fault.splits)

lemma exec_read_db: "exec_read err look p = (r, p') \<Longrightarrow> pg_db p' = pg_db p"
  by (auto simp: exec_read_def dest: next_fault_db next_fault_now split: prod.splits fault.splits)

lemma exec_read_Inr: "exec_read err look p = (Inr a, p') \<Longrightarrow> a = look (pg_db p)"
  by (auto simp: exec_read_def dest: next_fault_db next_fault_now split: prod.splits fault.splits)

lemma exec_in_tx_db: "exec_in_tx err p = (r, p') \<Longrightarrow> pg_db p' = pg_db p"
  by (auto simp: exec_in_tx_def dest: next_fault_db next_fault_now split: prod.splits fault.splits)

lemma exec_all_in_tx_db: "exec_all_in_tx errs p = (r, p') \<Longrightarrow> pg_db p' = pg_db p"
  by (induction errs p rule: exec_all_in_tx.induct)
     (fastforce dest: exec_in_tx_db split: prod.splits option.splits)+

lemma ensure_statements_db: "ensure_statements ids p = (r, p') \<Longrightarrow> pg_db p' = pg_db p"
  by (induction ids p rule: ensure_statements.induct)
     (fastforce dest: exec_in_tx_db split: prod.splits option.splits if_splits)+

lemmas exec_dests = exec_write_db exec_read_db exec_in_tx_db exec_all_in_tx_db ensure_statements_db

section \<open>What one operation does to the tables\<close>

text \<open>The database after an operation, as one of few changes.\<close>

datatype change =
    Keep
  | Renew scope bytes int
  | RemoveWorker scope bytes
  | MarkStarted "scope \<times> bytes \<times> bytes \<times> int" int
  | AddSkip "scope \<times> bytes \<times> bytes \<times> int \<times> int" "bytes \<times> bytes"
  | Register scope registration
  | BlockRow scope bytes bytes
  | EnsureRows scope "bytes list"
  | DesiredRow scope bytes bytes
  | ObserveRow scope bytes bytes int bytes

fun apply_change :: "change \<Rightarrow> db \<Rightarrow> db" where
  "apply_change Keep d = d"
| "apply_change (Renew s w t) d = d\<lparr>db_leases := upsert (s, w) t (db_leases d)\<rparr>"
| "apply_change (RemoveWorker s w) d = remove_worker s w d"
| "apply_change (MarkStarted k t) d = d\<lparr>db_started := insert_new k t (db_started d)\<rparr>"
| "apply_change (AddSkip k v) d = d\<lparr>db_skips := insert_new k v (db_skips d)\<rparr>"
| "apply_change (Register s g) d = d\<lparr>db_streams := insert_new (s, reg_source g) g (db_streams d)\<rparr>"
| "apply_change (BlockRow s i reason) d = block_row s i reason d"
| "apply_change (EnsureRows s ids) d = ensure_rows s ids d"
| "apply_change (DesiredRow s i state) d = set_desired_row s i state d"
| "apply_change (ObserveRow s w i revn state) d = observe_row s w i revn state d"

text \<open>The checks an operation makes before it changes anything.\<close>

fun change_ok :: "change \<Rightarrow> bool" where
  "change_ok (BlockRow s i reason) \<longleftrightarrow> \<not> blank reason"
| "change_ok (DesiredRow s i state) \<longleftrightarrow> state = ''running'' \<or> state = ''paused''"
| "change_ok (ObserveRow s w i revn state) \<longleftrightarrow> 0 < revn \<and> \<not> blank state"
| "change_ok _ \<longleftrightarrow> True"

inductive store_step :: "pg \<Rightarrow> pg \<Rightarrow> bool" where
  renew: "renew_lease s w ttl p = (r, p') \<Longrightarrow> store_step p p'"
| release: "release_lease s w p = (r, p') \<Longrightarrow> store_step p p'"
| started: "partition_started s i t n p = (b, p') \<Longrightarrow> store_step p p'"
| mark: "mark_partition_started s i t n p = (r, p') \<Longrightarrow> store_step p p'"
| save: "save_skip s i x p = (r, p') \<Longrightarrow> store_step p p'"
| has: "has_skip s i x p = (b, p') \<Longrightarrow> store_step p p'"
| get: "get_stream s i p = (g, p') \<Longrightarrow> store_step p p'"
| register: "register_stream s g0 p = (r, p') \<Longrightarrow> store_step p p'"
| block: "block_source s i reason p = (r, p') \<Longrightarrow> store_step p p'"
| ensure: "ensure_subscriptions s ids p = (r, p') \<Longrightarrow> store_step p p'"
| list: "subscriptions s p = (ds, p') \<Longrightarrow> store_step p p'"
| set: "set_desired s i state p = (d, p') \<Longrightarrow> store_step p p'"
| observe: "observe_subscription s w i revn state p = (r, p') \<Longrightarrow> store_step p p'"
| observed: "subscription_observed s i revn state p = (b, p') \<Longrightarrow> store_step p p'"
| tick: "t \<ge> 0 \<Longrightarrow> store_step p (p\<lparr>pg_now := pg_now p + t\<rparr>)"
| faults: "store_step p (p\<lparr>pg_faults := fs\<rparr>)"

definition changed :: "pg \<Rightarrow> pg \<Rightarrow> bool" where
  "changed p p' \<longleftrightarrow> (\<exists>ch. change_ok ch \<and> pg_db p' = apply_change ch (pg_db p))"

lemma changed_keep: "pg_db p' = pg_db p \<Longrightarrow> changed p p'"
  unfolding changed_def by (rule exI [of _ Keep]) simp

lemma changed_write:
  "exec_write err f p1 = (r, p') \<Longrightarrow> pg_db p1 = pg_db p \<Longrightarrow> change_ok ch \<Longrightarrow>
   f (pg_db p1) = apply_change ch (pg_db p) \<Longrightarrow> changed p p'"
  by (drule exec_write_db) (auto simp: changed_def intro: changed_keep [unfolded changed_def])

lemma renew_changed: "renew_lease s w ttl p = (r, p') \<Longrightarrow> changed p p'"
  by (auto simp: renew_lease_def intro: changed_keep
      elim!: changed_write [where ch = "Renew s w (pg_now p + ttl)"] split: if_splits)

lemma release_changed: "release_lease s w p = (r, p') \<Longrightarrow> changed p p'"
  by (auto simp: release_lease_def intro: changed_keep dest: exec_all_in_tx_db
      simp del: exec_all_in_tx.simps elim!: changed_write [where ch = "RemoveWorker s w"] split: if_splits prod.splits option.splits)

lemma mark_changed: "mark_partition_started s i t n p = (r, p') \<Longrightarrow> changed p p'"
  by (auto simp: mark_partition_started_def intro: changed_keep
      elim!: changed_write [where ch = "MarkStarted (s, i, t, n) (pg_now p)"] split: if_splits)

lemma save_changed: "save_skip s i x p = (r, p') \<Longrightarrow> changed p p'"
  by (auto simp: save_skip_def intro: changed_keep split: if_splits
      elim!: changed_write [where ch = "AddSkip (skip_key s i x) (src_id (rec_source x), rec_event_id x)"])

lemma register_changed: "register_stream s g p = (r, p') \<Longrightarrow> changed p p'"
  by (auto simp: register_stream_def Let_def simp del: exec_all_in_tx.simps intro: changed_keep
      dest: exec_all_in_tx_db
      elim!: changed_write [where ch = "Register s g"]
      split: if_splits prod.splits option.splits)

lemma block_changed: "block_source s i reason p = (r, p') \<Longrightarrow> changed p p'"
  by (auto simp: block_source_def intro: changed_keep
      elim!: changed_write [where ch = "BlockRow s i reason"]
      split: if_splits prod.splits option.splits)

lemma ensure_changed: "ensure_subscriptions s ids p = (r, p') \<Longrightarrow> changed p p'"
  by (auto simp: ensure_subscriptions_def intro: changed_keep
      dest!: exec_in_tx_db ensure_statements_db
      elim!: changed_write [where ch = "EnsureRows s (sort ids)"]
      split: if_splits prod.splits option.splits)

lemma set_changed: "set_desired s i state p = (d, p') \<Longrightarrow> changed p p'"
  by (auto simp: set_desired_def intro: changed_keep
      elim!: changed_write [where ch = "DesiredRow s i state"]
      split: if_splits prod.splits option.splits)

lemma observe_changed: "observe_subscription s w i revn state p = (r, p') \<Longrightarrow> changed p p'"
  by (auto simp: observe_subscription_def intro: changed_keep
      elim!: changed_write [where ch = "ObserveRow s w i revn state"] split: if_splits)

lemma reads_changed:
  "partition_started s i t n p = (b, p') \<Longrightarrow> changed p p'"
  "has_skip s i x p = (b, p') \<Longrightarrow> changed p p'"
  "get_stream s i p = (g, p') \<Longrightarrow> changed p p'"
  "subscriptions s p = (ds, p') \<Longrightarrow> changed p p'"
  "subscription_observed s i revn state p = (b, p') \<Longrightarrow> changed p p'"
  by (auto simp: partition_started_def has_skip_def get_stream_def subscriptions_def
      subscription_observed_def intro: changed_keep dest: exec_read_db split: if_splits)

lemma store_step_changed: "store_step p p' \<Longrightarrow> changed p p'"
  by (induction rule: store_step.induct)
     (auto intro: renew_changed release_changed mark_changed save_changed register_changed block_changed
       ensure_changed set_changed observe_changed reads_changed changed_keep)

lemma store_step_cases [consumes 1]:
  assumes "store_step p p'"
  obtains ch where "change_ok ch" "pg_db p' = apply_change ch (pg_db p)"
  using store_step_changed [OF assms] by (auto simp: changed_def)


section \<open>What never goes back\<close>

text \<open>
  \<open>grows d d'\<close>: every registration is still there with the same identity, names and topic, and blocked
  if it was; every subscription is still there, with the same desired state unless its revision grew;
  no skip and no partition marker is lost.
\<close>

definition still_registered :: "registration \<Rightarrow> registration \<Rightarrow> bool" where
  "still_registered g g' \<longleftrightarrow>
     same_stream g g' \<and> reg_source g' = reg_source g \<and> (reg_blocked g \<noteq> [] \<longrightarrow> reg_blocked g' \<noteq> [])"

definition revision_kept :: "bytes \<times> int \<Rightarrow> bytes \<times> int \<Rightarrow> bool" where
  "revision_kept v v' \<longleftrightarrow> snd v \<le> snd v' \<and> (snd v = snd v' \<longrightarrow> fst v = fst v')"

definition rows_kept :: "('v \<Rightarrow> 'v \<Rightarrow> bool) \<Rightarrow> ('k \<times> 'v) list \<Rightarrow> ('k \<times> 'v) list \<Rightarrow> bool" where
  "rows_kept R rows rows' \<longleftrightarrow>
     (\<forall>k v. map_of rows k = Some v \<longrightarrow> (\<exists>v'. map_of rows' k = Some v' \<and> R v v'))"

definition grows :: "db \<Rightarrow> db \<Rightarrow> bool" where
  "grows d d' \<longleftrightarrow>
     rows_kept still_registered (db_streams d) (db_streams d') \<and>
     rows_kept revision_kept (db_subscriptions d) (db_subscriptions d') \<and>
     rows_kept (=) (db_skips d) (db_skips d') \<and>
     rows_kept (=) (db_started d) (db_started d')"

lemma rows_kept_refl: "(\<And>v. R v v) \<Longrightarrow> rows_kept R rows rows"
  by (simp add: rows_kept_def)

lemma rows_kept_trans:
  assumes "transp R" and "rows_kept R a b" and "rows_kept R b c"
  shows "rows_kept R a c"
  using assms unfolding rows_kept_def transp_def by meson

lemma rows_kept_insert_new: "(\<And>v. R v v) \<Longrightarrow> rows_kept R rows (insert_new k v rows)"
  by (auto simp: rows_kept_def split: option.splits)

lemma rows_kept_upsert:
  "(\<And>v. R v v) \<Longrightarrow> map_of rows k = Some old \<Longrightarrow> R old v \<Longrightarrow> rows_kept R rows (upsert k v rows)"
  by (auto simp: rows_kept_def)

lemma still_registered_refl: "still_registered g g"
  by (simp add: still_registered_def same_stream_def)

lemma still_registered_trans: "transp still_registered"
  by (auto simp: transp_def still_registered_def same_stream_def)

lemma revision_kept_refl: "revision_kept v v"
  by (simp add: revision_kept_def)

lemma revision_kept_trans: "transp revision_kept"
  by (auto simp: transp_def revision_kept_def)

lemmas kept_refl = still_registered_refl revision_kept_refl refl

lemma grows_refl: "grows d d"
  by (simp add: grows_def rows_kept_refl kept_refl)

lemma grows_trans: "grows a b \<Longrightarrow> grows b c \<Longrightarrow> grows a c"
  unfolding grows_def
  by (elim conjE, intro conjI)
     (rule rows_kept_trans [OF still_registered_trans] rows_kept_trans [OF revision_kept_trans]
        rows_kept_trans [OF transp_on_equality]; assumption)+

lemma rows_kept_fold:
  assumes trans: "transp R" and refl: "\<And>v. R v v"
    and step: "\<And>i rows. rows_kept R rows (f i rows)"
  shows "rows_kept R rows (fold f ids rows)"
proof (induction ids arbitrary: rows)
  case Nil
  show ?case using refl by (simp add: rows_kept_refl)
next
  case (Cons i ids)
  have "rows_kept R rows (fold f ids (f i rows))"
    by (rule rows_kept_trans [OF trans step Cons.IH])
  then show ?case by simp
qed

lemma rows_kept_ensure:
  "rows_kept revision_kept rows (fold (\<lambda>i rows. insert_new (s, i) (''running'', 1) rows) ids rows)"
  by (rule rows_kept_fold [OF revision_kept_trans revision_kept_refl])
     (rule rows_kept_insert_new [OF revision_kept_refl])

lemma blank_Nil [simp]: "blank []"
  by code_simp

lemma apply_change_grows:
  assumes ok: "change_ok ch"
  shows "grows d (apply_change ch d)"
proof (cases ch)
  case (BlockRow s i reason)
  with ok have "reason \<noteq> []" by auto
  then have "still_registered g (g\<lparr>reg_blocked := reason\<rparr>)" for g
    by (simp add: still_registered_def same_stream_def)
  with BlockRow show ?thesis
    by (auto simp: grows_def block_row_def rows_kept_refl kept_refl rows_kept_upsert split: option.splits)
next
  case (DesiredRow s i state)
  have "revision_kept (desired, r) (state, r + (if desired = state then 0 else 1))" for desired r
    by (simp add: revision_kept_def)
  with DesiredRow show ?thesis
    by (auto simp: grows_def set_desired_row_def rows_kept_refl kept_refl rows_kept_upsert
        split: option.splits)
qed (simp_all add: grows_def rows_kept_refl kept_refl rows_kept_insert_new rows_kept_ensure
      remove_worker_def ensure_rows_def observe_row_def split: option.splits)

lemma store_step_grows: "store_step p p' \<Longrightarrow> grows (pg_db p) (pg_db p')"
  by (erule store_step_cases) (simp add: apply_change_grows)

lemma store_run_grows: "store_step\<^sup>*\<^sup>* p p' \<Longrightarrow> grows (pg_db p) (pg_db p')"
  by (induction rule: rtranclp_induct) (auto intro: grows_refl grows_trans store_step_grows)

section \<open>Well-formed tables\<close>

definition keyed :: "('k \<times> 'v) list \<Rightarrow> bool" where
  "keyed rows \<longleftrightarrow> distinct (map fst rows)"

text \<open>The primary keys and the checks of the schema.\<close>

definition db_ok :: "db \<Rightarrow> bool" where
  "db_ok d \<longleftrightarrow>
     keyed (db_streams d) \<and> keyed (db_subscriptions d) \<and> keyed (db_leases d) \<and>
     keyed (db_observed d) \<and> keyed (db_skips d) \<and> keyed (db_started d) \<and>
     (\<forall>v \<in> ran (map_of (db_subscriptions d)).
        (fst v = ''running'' \<or> fst v = ''paused'') \<and> 0 < snd v) \<and>
     (\<forall>v \<in> ran (map_of (db_observed d)). 0 < fst v \<and> snd v \<noteq> [])"

lemma keyed_insert_new: "keyed rows \<Longrightarrow> keyed (insert_new k v rows)"
  by (auto simp: keyed_def insert_new_def map_of_eq_None_iff)

lemma keyed_upsert: "keyed rows \<Longrightarrow> keyed (upsert k v rows)"
  by (simp add: keyed_def upsert_def distinct_update)

lemma keyed_filter: "keyed rows \<Longrightarrow> keyed (filter P rows)"
  by (induction rows) (auto simp: keyed_def)

lemmas keyed_rules = keyed_insert_new keyed_upsert keyed_filter

lemma ran_insert_new: "ran (map_of (insert_new k v rows)) \<subseteq> insert v (ran (map_of rows))"
  by (auto simp: ran_def split: if_splits option.splits)

lemma ran_upsert: "ran (map_of (upsert k v rows)) \<subseteq> insert v (ran (map_of rows))"
  by (auto simp: ran_def split: if_splits)

lemma ran_filter: "keyed rows \<Longrightarrow> ran (map_of (filter P rows)) \<subseteq> ran (map_of rows)"
  by (auto simp: ran_def keyed_def dest!: map_of_SomeD)

lemma ensure_ok:
  assumes "keyed rows" and "\<forall>v \<in> ran (map_of rows). Q v" and "Q (''running'', 1)"
  shows "keyed (fold (\<lambda>i rows. insert_new (s, i) (''running'', 1::int) rows) ids rows) \<and>
    (\<forall>v \<in> ran (map_of (fold (\<lambda>i rows. insert_new (s, i) (''running'', 1) rows) ids rows)). Q v)"
  using assms
proof (induction ids arbitrary: rows)
  case (Cons i ids)
  have "\<forall>v \<in> ran (map_of (insert_new (s, i) (''running'', 1) rows)). Q v"
    using ran_insert_new [of "(s, i)" "(''running'', 1)" rows] Cons.prems(2,3) by blast
  then show ?case
    unfolding fold.simps comp_apply
    by (rule Cons.IH [OF keyed_insert_new [OF Cons.prems(1)] _ Cons.prems(3)])
next
  case Nil
  then show ?case by simp
qed

lemma apply_change_ok:
  assumes ok: "change_ok ch" and d: "db_ok d"
  shows "db_ok (apply_change ch d)"
proof (cases ch)
  case (RemoveWorker s w)
  with d show ?thesis
    using ran_filter [of "db_observed d"] by (auto simp: db_ok_def remove_worker_def keyed_rules)
next
  case (EnsureRows s ids)
  with d show ?thesis
    using ensure_ok [of "db_subscriptions d"
        "\<lambda>v. (fst v = ''running'' \<or> fst v = ''paused'') \<and> 0 < snd v" s ids]
    by (simp add: db_ok_def ensure_rows_def)
next
  case (DesiredRow s i state)
  show ?thesis
  proof (cases "map_of (db_subscriptions d) (s, i)")
    case (Some v)
    then have "v \<in> ran (map_of (db_subscriptions d))" by (auto simp: ran_def)
    with d have "0 < snd v" by (simp add: db_ok_def)
    with d ok DesiredRow Some show ?thesis
      using ran_upsert [of "(s, i)" _ "db_subscriptions d"]
      by (fastforce simp: db_ok_def set_desired_row_def keyed_rules split: prod.splits)
  qed (use d DesiredRow in \<open>simp add: set_desired_row_def\<close>)
next
  case (ObserveRow s w i revn state)
  have "state \<noteq> []" using ok ObserveRow by auto
  with d ok ObserveRow show ?thesis
    using ran_upsert [of "(s, w, i)" "(revn, state)" "db_observed d"]
    by (fastforce simp: db_ok_def observe_row_def keyed_rules split: option.splits)
next
  case (BlockRow s i reason)
  with d show ?thesis
    by (auto simp: db_ok_def block_row_def keyed_rules split: option.splits)
qed (use d in \<open>simp_all add: db_ok_def keyed_rules\<close>)

lemma store_step_ok: "store_step p p' \<Longrightarrow> db_ok (pg_db p) \<Longrightarrow> db_ok (pg_db p')"
  by (erule store_step_cases) (simp add: apply_change_ok)

lemma store_run_ok: "store_step\<^sup>*\<^sup>* p p' \<Longrightarrow> db_ok (pg_db p) \<Longrightarrow> db_ok (pg_db p')"
  by (induction rule: rtranclp_induct) (auto intro: store_step_ok)

section \<open>Skips\<close>

definition stored_skips :: "pg \<Rightarrow> (scope \<times> bytes \<times> stream_record) set" where
  "stored_skips p = {(s, i, r). map_of (db_skips (pg_db p)) (skip_key s i r) \<noteq> None}"

definition look_skip :: "scope \<times> bytes \<times> stream_record \<Rightarrow> pg \<Rightarrow> (go_error + bool) \<times> pg" where
  "look_skip k = (case k of (s, i, r) \<Rightarrow> has_skip s i r)"

definition store_skip :: "scope \<times> bytes \<times> stream_record \<Rightarrow> pg \<Rightarrow> go_error option \<times> pg" where
  "store_skip k = (case k of (s, i, r) \<Rightarrow> save_skip s i r)"

lemma grows_skips: "grows (pg_db p) (pg_db p') \<Longrightarrow> stored_skips p \<subseteq> stored_skips p'"
  unfolding grows_def rows_kept_def stored_skips_def by blast

lemma store_run_skips: "store_step\<^sup>*\<^sup>* p p' \<Longrightarrow> stored_skips p \<subseteq> stored_skips p'"
  by (rule grows_skips [OF store_run_grows])

interpretation control: skip_store look_skip store_skip stored_skips
proof unfold_locales
  fix k w b w'
  assume "look_skip k w = (Inr b, w')"
  then show "b \<longleftrightarrow> k \<in> stored_skips w"
    by (cases k) (auto simp: look_skip_def has_skip_def stored_skips_def dest: exec_read_Inr split: if_splits)
next
  fix k w r w'
  assume "look_skip k w = (r, w')"
  then show "stored_skips w' = stored_skips w"
    by (cases k) (auto simp: look_skip_def has_skip_def stored_skips_def dest!: exec_read_db split: if_splits)
next
  fix k w w'
  assume "store_skip k w = (None, w')"
  then show "k \<in> stored_skips w'"
    by (cases k) (auto simp: store_skip_def save_skip_def stored_skips_def dest!: exec_write_None
        split: if_splits option.splits)
next
  fix k w err w'
  assume "store_skip k w = (err, w')"
  then have "store_step\<^sup>*\<^sup>* w w'" by (cases k) (auto simp: store_skip_def intro: store_step.save)
  then show "stored_skips w \<subseteq> stored_skips w'" by (rule store_run_skips)
qed

text \<open>The store as part of a larger world, as a worker sees it.\<close>

definition on_store :: "(pg \<Rightarrow> 'a \<times> pg) \<Rightarrow> pg \<times> 'x \<Rightarrow> 'a \<times> pg \<times> 'x" where
  "on_store op w = (case op (fst w) of (a, p') \<Rightarrow> (a, p', snd w))"

lemma on_storeE: "on_store op w = (a, w') \<Longrightarrow> op (fst w) = (a, fst w')"
  by (auto simp: on_store_def split: prod.splits)

interpretation seen: skip_store "\<lambda>k. on_store (look_skip k)" "\<lambda>k. on_store (store_skip k)"
    "\<lambda>w. stored_skips (fst w)"
  by unfold_locales
     (erule control.has_truth [OF on_storeE] control.has_keeps [OF on_storeE]
        control.save_stores [OF on_storeE] control.save_keeps [OF on_storeE])+

section \<open>Properties\<close>

text \<open>The worker of the examples: its destination answers every request with Skipped.\<close>

definition example_scope :: scope where
  "example_scope = \<lparr>sc_namespace = ''shop'', sc_environment = ''prod'', sc_generation = 1\<rparr>"

definition empty_pg :: pg where
  "empty_pg =
     \<lparr>pg_db = \<lparr>db_streams = [], db_subscriptions = [], db_leases = [], db_observed = [], db_skips = [],
        db_started = []\<rparr>, pg_now = 0, pg_faults = []\<rparr>"

definition skipping_worker :: "(pg \<times> nat) worker" where
  "skipping_worker =
     \<lparr>wk_processor =
        \<lparr>pr_send = (\<lambda>_ _ w. (Inr Skipped, apsnd Suc w)),
         pr_destination = \<lparr>dst_id = ''billing'', dst_description = [], dst_filter = None\<rparr>,
         pr_sleep = (\<lambda>_ w. (None, w)), pr_jitter = (\<lambda>_ w. (0, w))\<rparr>,
      wk_decode = (\<lambda>raw. Inr (example_record\<lparr>rec_offset := rr_offset raw\<rparr>)),
      wk_has_skip = (\<lambda>s i r. on_store (has_skip s i r)),
      wk_save_skip = (\<lambda>s i r. on_store (save_skip s i r)),
      wk_scope = example_scope, wk_destination = ''billing'', wk_source = ''users'',
      wk_gate = None, wk_log = None\<rparr>"

definition example_raw :: raw_record where
  "example_raw =
     \<lparr>rr_topic = ''t'', rr_partition = 0, rr_offset = 7, rr_leader_epoch = 0, rr_key = [],
      rr_value = [], rr_historical = True\<rparr>"

definition skipped_pg :: pg where
  "skipped_pg = snd (save_skip example_scope ''billing'' example_record empty_pg)"

text \<open>What the worker does to a record, apart from sending it and storing its skip, depends on neither.\<close>

lemma worker_actions_parts:
  "worker_actions fuel c (wk\<lparr>wk_processor := p', wk_save_skip := save'\<rparr>) raw r commit =
   worker_actions fuel c wk raw r commit
     \<lparr>act_send := worker_send fuel (wk\<lparr>wk_processor := p'\<rparr>) r (entry_for r (wk_destination wk)),
      act_audit := save' (wk_scope wk) (wk_destination wk) r\<rparr>"
proof -
  have log: "worker_log (wk\<lparr>wk_processor := p', wk_save_skip := save'\<rparr>) = worker_log wk"
    "worker_log (wk\<lparr>wk_processor := p'\<rparr>) = worker_log wk"
    by (simp_all add: worker_log_def fun_eq_iff)
  show ?thesis
    unfolding worker_actions_def worker_commit_def worker_send_def log
    by (simp cong del: if_weak_cong sum.case_cong_weak option.case_cong_weak prod.case_cong_weak)
qed

lemma worker_commit_None:
  "worker_commit c wk raw entry commit w = (None, w') \<longleftrightarrow>
   (\<exists>w1. commit raw w = (None, w1) \<and> w' = worker_log wk (committed_entry entry) w1)"
  by (auto simp: worker_commit_def split: prod.splits option.splits)

text \<open>
  C4. A record whose skip is stored is never sent again, and is committed: when such a record is read back from the log, the
  run of the worker is the same whatever the processor and the saving of skips would do, so neither is
  called. A worker that may dispatch returns nil only from a commit that succeeded, its last call, and returns an error only
  when its context has ended; and when the store answers and the broker accepts the commit, it does return nil.
\<close>

theorem stored_skip_not_resent:
  assumes "wk_has_skip wk = (\<lambda>s i r. on_store (has_skip s i r))"
    and "rr_historical raw" and "wk_decode wk raw = Inr r"
    and "(wk_scope wk, wk_destination wk, r) \<in> stored_skips (fst w)"
    and "\<forall>d w b w'. ctx_wait c d w = (b, w') \<longrightarrow> stored_skips (fst w) \<subseteq> stored_skips (fst w')"
  shows "worker_process fuel c (wk\<lparr>wk_processor := p', wk_save_skip := save'\<rparr>) raw commit w =
         worker_process fuel c wk raw commit w \<and>
    (\<forall>res w'. worker_allowed wk w \<and> worker_process fuel c wk raw commit w = (Some res, w') \<longrightarrow>
       (case res of
          None \<Rightarrow> \<exists>w1 w2. commit raw w1 = (None, w2) \<and>
            w' = worker_log wk (committed_entry (entry_for r (wk_destination wk))) w2
        | Some e \<Rightarrow> ctx_err c w' = Some e)) \<and>
    (\<forall>b w1 w2. worker_allowed wk w \<and> 0 < fuel \<and> ctx_err c w = None \<and>
       on_store (has_skip (wk_scope wk) (wk_destination wk) r) w = (Inr b, w1) \<and> ctx_err c w1 = None \<and>
       commit raw w1 = (None, w2) \<longrightarrow>
       worker_process fuel c wk raw commit w =
         (Some None, worker_log wk (committed_entry (entry_for r (wk_destination wk))) w2))"
proof -
  let ?acts = "worker_actions fuel c wk raw r commit" and ?key = "(wk_scope wk, wk_destination wk, r)"
  have look: "act_skipped ?acts = on_store (look_skip ?key)"
    using assms(1,2) by (auto simp: worker_actions_def look_skip_def)
  have commit: "act_commit ?acts = worker_commit c wk raw (entry_for r (wk_destination wk)) commit"
    by (simp add: worker_actions_def)
  have wait: "ctx_wait c d w = (b, w') \<Longrightarrow> stored_skips (fst w) \<subseteq> stored_skips (fst w')" for d w b w'
    using assms(5) by blast
  have run: "worker_allowed wk w \<Longrightarrow> worker_process fuel c wk raw commit w =
      complete_record fuel c store_retry_delay ?acts w" using assms(3) by (simp add: worker_process_def)
  have gate: "worker_allowed (wk\<lparr>wk_processor := p', wk_save_skip := save'\<rparr>) w = worker_allowed wk w"
    by (simp add: worker_allowed_def split: option.splits)
  have "worker_process fuel c (wk\<lparr>wk_processor := p', wk_save_skip := save'\<rparr>) raw commit w =
      worker_process fuel c wk raw commit w"
    using assms(3) seen.stored_skip_never_sent [OF wait assms(4) look]
    by (simp add: worker_process_def gate worker_actions_parts)
  moreover have "case res of None \<Rightarrow> \<exists>w1 w2. commit raw w1 = (None, w2) \<and>
        w' = worker_log wk (committed_entry (entry_for r (wk_destination wk))) w2
      | Some e \<Rightarrow> ctx_err c w' = Some e"
    if "worker_allowed wk w" "worker_process fuel c wk raw commit w = (Some res, w')" for res w'
    using seen.stored_skip_commits [OF wait assms(4) look that(2) [unfolded run [OF that(1)]]]
    by (auto simp: commit worker_commit_None split: option.splits)
  moreover have "worker_process fuel c wk raw commit w =
      (Some None, worker_log wk (committed_entry (entry_for r (wk_destination wk))) w2)"
    if "worker_allowed wk w" "0 < fuel" "ctx_err c w = None"
      "on_store (has_skip (wk_scope wk) (wk_destination wk) r) w = (Inr b, w1)" "ctx_err c w1 = None"
      "commit raw w1 = (None, w2)" for b w1 w2
    unfolding run [OF that(1)]
    by (rule seen.stored_skip_at_once [OF assms(4) look that(2,3) _ that(5)])
       (use that(4,6) in \<open>auto simp: look_skip_def commit worker_commit_None\<close>)
  ultimately show ?thesis by blast
qed

theorem stored_skip_not_resent_witness:
  "worker_process 1 endless (skipping_worker\<lparr>wk_processor := undefined, wk_save_skip := undefined\<rparr>)
     example_raw (\<lambda>_ w. (None, w)) (skipped_pg, 0) = (Some None, skipped_pg, 0)"
proof -
  have "map_of (db_skips (pg_db skipped_pg)) (skip_key example_scope ''billing'' example_record) \<noteq> None"
    by code_simp
  then have skip: "(example_scope, ''billing'', example_record) \<in> stored_skips skipped_pg"
    unfolding stored_skips_def mem_Collect_eq prod.case .
  have "worker_process 1 endless (skipping_worker\<lparr>wk_processor := undefined, wk_save_skip := undefined\<rparr>)
      example_raw (\<lambda>_ w. (None, w)) (skipped_pg, 0) =
      worker_process 1 endless skipping_worker example_raw (\<lambda>_ w. (None, w)) (skipped_pg, 0)"
    by (rule stored_skip_not_resent [where r = example_record, THEN conjunct1])
       (use skip in \<open>auto simp: skipping_worker_def example_raw_def endless_def example_record_def\<close>)
  also have "\<dots> = (Some None, skipped_pg, 0)" by code_simp
  finally show ?thesis .
qed

text \<open>
  C5. A record the destination answered with Skipped is committed only with the skip durable: at the end of
  every run of the worker that committed, the skip is stored, and it stays stored whatever operations
  of any worker the store executes afterwards, with whatever failures.
\<close>

theorem skipped_commit_is_durable:
  assumes "wk_has_skip wk = (\<lambda>s i r. on_store (has_skip s i r))"
    and "wk_save_skip wk = (\<lambda>s i r. on_store (save_skip s i r))"
    and "\<forall>w x w'. act_send (worker_actions fuel c wk raw r commit) w = (x, w') \<longrightarrow>
      store_step\<^sup>*\<^sup>* (fst w) (fst w')"
    and "\<forall>w x w'. act_commit (worker_actions fuel c wk raw r commit) w = (x, w') \<longrightarrow>
      store_step\<^sup>*\<^sup>* (fst w) (fst w')"
    and "\<forall>d w b w'. ctx_wait c d w = (b, w') \<longrightarrow> store_step\<^sup>*\<^sup>* (fst w) (fst w')"
    and "run_traced fuel c store_retry_delay (worker_actions fuel c wk raw r commit) w = (Some None, t, w')"
    and "EvSend (Inr Skipped) \<in> set t" and "store_step\<^sup>*\<^sup>* (fst w') p"
  shows "(wk_scope wk, wk_destination wk, r) \<in> stored_skips p"
proof -
  have "(wk_scope wk, wk_destination wk, r) \<in> stored_skips (fst w')"
  proof (rule seen.skipped_commit_durable [OF _ _ _ _ _ assms(6,7)])
    show "act_audit (worker_actions fuel c wk raw r commit) =
        on_store (store_skip (wk_scope wk, wk_destination wk, r))"
      using assms(2) by (simp add: worker_actions_def store_skip_def fun_eq_iff)
  next
    fix v x v'
    assume "act_skipped (worker_actions fuel c wk raw r commit) v = (x, v')"
    with seen.has_keeps [of "(wk_scope wk, wk_destination wk, r)" v x v']
    show "stored_skips (fst v) \<subseteq> stored_skips (fst v')"
      using assms(1) by (auto simp: worker_actions_def look_skip_def split: if_splits)
  qed (use assms(3-5) store_run_skips in blast)+
  with store_run_skips [OF assms(8)] show ?thesis by blast
qed

lemma skipping_worker_run:
  "run_traced 3 endless store_retry_delay
     (worker_actions 3 endless skipping_worker example_raw example_record (\<lambda>_ w. (None, w))) (empty_pg, 0) =
   (Some None, [EvSkipped (Inr False), EvSendStart, EvSend (Inr Skipped), EvAudit None, EvCommit None],
    skipped_pg, 1)"
  by code_simp

theorem skipped_commit_is_durable_witness:
  "(wk_scope skipping_worker, wk_destination skipping_worker, example_record) \<in> stored_skips skipped_pg"
proof (rule skipped_commit_is_durable [OF _ _ _ _ _ skipping_worker_run])
  show "\<forall>w x w'. act_send (worker_actions 3 endless skipping_worker example_raw example_record
      (\<lambda>_ w. (None, w))) w = (x, w') \<longrightarrow> store_step\<^sup>*\<^sup>* (fst w) (fst w')"
  proof (intro allI impI)
    fix w x w'
    assume "act_send (worker_actions 3 endless skipping_worker example_raw example_record
      (\<lambda>_ w. (None, w))) w = (x, w')"
    then have "fst w' = fst w"
      by (auto simp: worker_actions_def worker_send_def process_def skipping_worker_def matches_filter_def
          numeral_3_eq_3 bindp_def worker_log_def Let_def split: option.splits)
    then show "store_step\<^sup>*\<^sup>* (fst w) (fst w')" by simp
  qed
qed (auto simp: skipping_worker_def worker_actions_def worker_commit_def worker_log_def endless_def)

text \<open>
  C6. A registration is frozen and its block is a latch: whatever operations the workers of all scopes
  execute, with whatever lost or failed statements, a registered stream keeps its identity, its names and
  its topic, and once blocked it stays blocked.
\<close>

theorem registration_frozen:
  assumes "store_step\<^sup>*\<^sup>* p p'" and "map_of (db_streams (pg_db p)) (s, i) = Some g"
  shows "\<exists>g'. map_of (db_streams (pg_db p')) (s, i) = Some g' \<and>
    reg_identity g' = reg_identity g \<and> reg_names g' = reg_names g \<and> reg_topic_id g' = reg_topic_id g \<and>
    (reg_blocked g \<noteq> [] \<longrightarrow> reg_blocked g' \<noteq> [])"
  using store_run_grows [OF assms(1)] assms(2)
  by (fastforce simp: grows_def rows_kept_def still_registered_def same_stream_def)

definition registered_pg :: pg where
  "registered_pg =
     snd (block_source example_scope ''users'' ''slot lost''
       (snd (register_stream example_scope (zero_registration\<lparr>reg_source := ''users''\<rparr>) empty_pg)))"

theorem registration_frozen_witness:
  "\<exists>g'. map_of (db_streams (pg_db (snd (register_stream example_scope
        (zero_registration\<lparr>reg_source := ''users'', reg_topic_id := []\<rparr>) registered_pg))))
      (example_scope, ''users'') = Some g' \<and>
    reg_identity g' = zero_identity \<and> reg_names g' = zero_names \<and>
    reg_topic_id g' = replicate 16 (chr 0) \<and> (''slot lost'' \<noteq> [] \<longrightarrow> reg_blocked g' \<noteq> [])"
proof -
  have "store_step\<^sup>*\<^sup>* registered_pg (snd (register_stream example_scope
      (zero_registration\<lparr>reg_source := ''users'', reg_topic_id := []\<rparr>) registered_pg))"
    by (rule r_into_rtranclp, rule store_step.register, rule surjective_pairing)
  moreover have "map_of (db_streams (pg_db registered_pg)) (example_scope, ''users'') =
      Some (zero_registration\<lparr>reg_source := ''users'', reg_blocked := ''slot lost''\<rparr>)"
    by code_simp
  ultimately show ?thesis
    by (drule_tac registration_frozen) (auto simp: zero_registration_def)
qed

text \<open>
  C19. A revision orders the requests for a subscription: whatever happens to the store, its revision never
  decreases, and while the revision is the same the desired state is the same. So two observers who see
  the same revision agree on what was asked for.
\<close>

theorem revisions_order_requests:
  assumes "store_step\<^sup>*\<^sup>* p p'" and "map_of (db_subscriptions (pg_db p)) (s, i) = Some (desired, n)"
  shows "\<exists>desired' n'. map_of (db_subscriptions (pg_db p')) (s, i) = Some (desired', n') \<and>
    n \<le> n' \<and> (n = n' \<longrightarrow> desired = desired')"
  using store_run_grows [OF assms(1)] assms(2)
  by (fastforce simp: grows_def rows_kept_def revision_kept_def)

definition subscribed_pg :: pg where
  "subscribed_pg = snd (ensure_subscriptions example_scope [''billing''] empty_pg)\<lparr>pg_faults := [LostReply]\<rparr>"

theorem revisions_order_requests_witness:
  "\<exists>desired' n'. map_of (db_subscriptions (pg_db
      (snd (set_desired example_scope ''billing'' ''paused'' subscribed_pg)))) (example_scope, ''billing'') =
      Some (desired', n') \<and> 1 \<le> n' \<and> (1 = n' \<longrightarrow> ''running'' = desired')"
proof (rule revisions_order_requests)
  show "store_step\<^sup>*\<^sup>* subscribed_pg (snd (set_desired example_scope ''billing'' ''paused'' subscribed_pg))"
    by (rule r_into_rtranclp, rule store_step.set, rule surjective_pairing)
  show "map_of (db_subscriptions (pg_db subscribed_pg)) (example_scope, ''billing'') = Some (''running'', 1)"
    by code_simp
qed

lemma set_desired_result:
  assumes "set_desired s i state p = (Inr (j, desired, n), p')"
  shows "j = i \<and> desired = state \<and> map_of (db_subscriptions (pg_db p')) (s, i) = Some (state, n) \<and>
    (\<exists>old m. map_of (db_subscriptions (pg_db p)) (s, i) = Some (old, m) \<and>
       n = (if old = state then m else m + 1))"
proof -
  obtain q err where run: "exec_write ''control: set subscription'' (set_desired_row s i state) p = (err, q)"
    by (rule prod.exhaust)
  with assms have "err = None \<and> p' = q \<and> map_of (db_subscriptions (pg_db q)) (s, i) = Some (desired, n) \<and> j = i"
    by (cases "map_of (db_subscriptions (pg_db q)) (s, i)")
       (simp_all add: set_desired_def split: if_splits option.splits)
  moreover from this run have "pg_db q = set_desired_row s i state (pg_db p)" by (simp add: exec_write_None)
  ultimately show ?thesis
    by (cases "map_of (db_subscriptions (pg_db p)) (s, i)", auto simp: set_desired_row_def) blast
qed

text \<open>
  \<^verbatim>\<open>SetDesired\<close> is idempotent on the revision: when it reports success the row holds the state asked
  for, and the revision it returns is the old one if that was the state already and the next one if not.
\<close>

theorem set_desired_applies:
  assumes "set_desired s i state p = (Inr (j, desired, n), p')"
  shows "j = i \<and> desired = state \<and> map_of (db_subscriptions (pg_db p')) (s, i) = Some (state, n) \<and>
    (\<exists>old m. map_of (db_subscriptions (pg_db p)) (s, i) = Some (old, m) \<and>
       n = (if old = state then m else m + 1))"
  using assms by (rule set_desired_result)

theorem set_desired_applies_witness:
  "''billing'' = ''billing'' \<and> ''paused'' = ''paused'' \<and>
    map_of (db_subscriptions (pg_db (snd (set_desired example_scope ''billing'' ''paused''
      (subscribed_pg\<lparr>pg_faults := []\<rparr>))))) (example_scope, ''billing'') = Some (''paused'', 2) \<and>
    (\<exists>old m. map_of (db_subscriptions (pg_db (subscribed_pg\<lparr>pg_faults := []\<rparr>))) (example_scope, ''billing'') =
       Some (old, m) \<and> 2 = (if old = ''paused'' then m else m + 1))"
  by (rule set_desired_applies) code_simp

text \<open>
  The tables stay well-formed: keys are unique, a desired state is \<^verbatim>\<open>running\<close> or \<^verbatim>\<open>paused\<close>, revisions
  are positive and no observation is empty, after any sequence of operations. The statements of the code
  never run into a constraint of the schema.
\<close>

theorem tables_well_formed:
  assumes "store_step\<^sup>*\<^sup>* p p'" and "db_ok (pg_db p)"
  shows "db_ok (pg_db p')"
  using assms by (rule store_run_ok)

theorem tables_well_formed_witness: "db_ok (pg_db (snd (ensure_subscriptions example_scope [''b'', ''a''] empty_pg)))"
proof (rule tables_well_formed)
  show "store_step\<^sup>*\<^sup>* empty_pg (snd (ensure_subscriptions example_scope [''b'', ''a''] empty_pg))"
    by (rule r_into_rtranclp, rule store_step.ensure, rule surjective_pairing)
qed (simp add: empty_pg_def db_ok_def keyed_def)

end
