(* ===== verification/ControlSafety.thy ===== *)
theory ControlSafety
  imports ControlPass ControlStoreLaws
begin

text \<open>
  What the control service guarantees to the rest of the program: the dispatch gate the workers ask
  (an interface as a locale), how a pass ends, what a subscription settles as, and that the loop leaves
  nothing running.
\<close>

section \<open>The dispatch gate\<close>

text \<open>
  \<open>closed i w\<close>: source \<open>i\<close> was reported broken. Reporting closes the gate, a closed gate refuses, and
  \<open>moves\<close>, whatever the service does afterwards, leaves it closed.
\<close>

locale dispatch_gate =
  fixes gate_open :: "bytes \<Rightarrow> 'w \<Rightarrow> bool"
    and report :: "bytes \<Rightarrow> bytes \<Rightarrow> 'w \<Rightarrow> 'w"
    and closed :: "bytes \<Rightarrow> 'w \<Rightarrow> bool"
    and moves :: "'w \<Rightarrow> 'w \<Rightarrow> bool"
  assumes report_closes: "reason \<noteq> [] \<Longrightarrow> closed i (report i reason w)"
    and closed_refuses: "closed i w \<Longrightarrow> \<not> gate_open i w"
    and moves_closed: "moves w w' \<Longrightarrow> closed i w \<Longrightarrow> closed i w'"
begin

definition gate_of :: "'w gate" where
  "gate_of = \<lparr>gate_allowed = gate_open, gate_block = report\<rparr>"

lemma moves_closed_run: "moves\<^sup>*\<^sup>* w w' \<Longrightarrow> closed i w \<Longrightarrow> closed i w'"
  by (induction rule: rtranclp_induct) (auto dest: moves_closed)

text \<open>A record that cannot be decoded is the last one its source dispatches.\<close>

lemma undecodable_closes:
  assumes "wk_gate wk = Some gate_of" and "gate_open (wk_source wk) w"
    and "wk_decode wk raw = Inl e" and "error_text e \<noteq> []"
  shows "worker_process fuel c wk raw commit w = (Some (Some e), report (wk_source wk) (error_text e) w) \<and>
    closed (wk_source wk) (report (wk_source wk) (error_text e) w)"
  using assms report_closes
  by (simp add: worker_process_def worker_allowed_def worker_block_def gate_of_def)

lemma closed_stops:
  assumes "wk_gate wk = Some gate_of" and "closed (wk_source wk) w" and "moves\<^sup>*\<^sup>* w w'"
  shows "worker_process fuel c wk raw commit w' = (Some (Some Canceled), w')"
  using assms closed_refuses moves_closed_run
  by (simp add: worker_process_def worker_allowed_def gate_of_def)

end

section \<open>The service as a gate\<close>

text \<open>
  What the service does while workers are around. An action already in flight goes on section by section, at any moment and
  with whatever it read before (\<open>in_flight\<close>); passes of the loop, blocks reported by anyone, changes asked by the operator and
  shutdowns also occur from their start, with the sections of others between theirs; and the world moves on.
\<close>

inductive service_step :: "('c, 'w) env \<Rightarrow> 'c service \<times> 'w \<Rightarrow> 'c service \<times> 'w \<Rightarrow> bool" for E where
  pass: "run_state (reconcile E) x = (u, x') \<Longrightarrow> service_step E x x'"
| blocked: "reason \<noteq> [] \<Longrightarrow> run_state (block E i reason) x = (u, x') \<Longrightarrow> service_step E x x'"
| change: "run_state (change_state fuel E i state) x = (r, x') \<Longrightarrow> service_step E x x'"
| ends: "run_state (stop_all E) x = (u, x') \<Longrightarrow> service_step E x x'"
| in_flight: "section_step s s' \<Longrightarrow> service_step E (s, w) (s', w')"

definition service_open :: "('w \<Rightarrow> int) \<Rightarrow> bytes \<Rightarrow> 'c service \<times> 'w \<Rightarrow> bool" where
  "service_open clock i x = allowed (clock (snd x)) i (fst x)"

definition service_block :: "('c, 'w) env \<Rightarrow> bytes \<Rightarrow> bytes \<Rightarrow> 'c service \<times> 'w \<Rightarrow> 'c service \<times> 'w" where
  "service_block E i reason x = snd (run_state (block E i reason) x)"

lemma shut_refuses: "shut i s \<Longrightarrow> \<not> allowed now i s"
  by (simp add: shut_def allowed_def)

lemma keeps_bool: "keeps I m \<Longrightarrow> keeps I n \<Longrightarrow> keeps I (case b of True \<Rightarrow> m | False \<Rightarrow> n)"
  by (cases b) auto

lemma await_keeps:
  assumes "stable E I"
  shows "keeps I (await_convergence fuel E i state n)"
proof (induction fuel)
  case (Suc fuel)
  show ?case
    unfolding await_convergence.simps Let_def
    by (intro keeps_intro keeps_bool assms Suc.IH)
qed (simp add: keeps_return)

lemma change_follows:
  assumes "follows E I"
  shows "keeps I (change_state fuel E j state)"
  unfolding change_state_def
  by (intro keeps_intro follows_read await_keeps [OF follows_stable] signal_follows assms)

text \<open>Whatever the service does is a sequence of critical sections.\<close>

lemma keeps_sections:
  "keeps (section_step\<^sup>*\<^sup>* (fst x)) m \<Longrightarrow> run_state m x = (a, x') \<Longrightarrow> section_step\<^sup>*\<^sup>* (fst x) (fst x')"
  by (drule keeps_triple, drule tripleD) simp_all

lemma service_step_sections:
  assumes others: "interleaved E" and monitor: "reasoned E" and step: "service_step E x x'"
  shows "section_step\<^sup>*\<^sup>* (fst x) (fst x')"
proof -
  have f: "follows E (section_step\<^sup>*\<^sup>* s)" for s
    using others by (simp add: follows_def respected_reached)
  from step show ?thesis
  proof (induction rule: service_step.induct)
    case (pass x u x')
    then show ?case by (intro keeps_sections [OF reconcile_follows [OF f monitor]])
  next
    case (blocked reason i x u x')
    then show ?case by (intro keeps_sections [OF block_follows [OF f]])
  next
    case (change i state x r x')
    then show ?case by (intro keeps_sections [OF change_follows [OF f]])
  next
    case (ends x u x')
    then show ?case by (intro keeps_sections [OF stop_all_follows [OF f]])
  qed auto
qed

lemma service_step_shut:
  assumes "interleaved E" and "reasoned E" and "service_step E x x'" and "shut i (fst x)"
  shows "shut i (fst x')"
  using respected_run [OF service_step_sections [OF assms(1-3)] respected_shut] assms(4) by simp

text \<open>
  An environment in which the others run critical sections of the service and the monitor gives reasons makes the service a
  dispatch gate.
\<close>

locale control_environment =
  fixes E :: "('c, 'w) env"
  assumes others: "interleaved E" and monitor: "reasoned E"

sublocale control_environment \<subseteq> gate: dispatch_gate "service_open clock" "service_block E"
    "\<lambda>i x. shut i (fst x)" "service_step E" for clock
proof unfold_locales
  fix reason :: bytes and i x
  assume "reason \<noteq> []"
  from block_shuts [OF others this, of i] show "shut i (fst (service_block E i reason x))"
    by (cases "run_state (block E i reason) x") (auto dest: tripleD simp: service_block_def)
qed (unfold service_open_def, erule shut_refuses, rule service_step_shut [OF others monitor])

section \<open>Properties\<close>

text \<open>The environment of the examples: everything is healthy, and one destination is asked to run or to pause.\<close>

definition calm_env :: "bytes \<Rightarrow> (nat, unit) env" where
  "calm_env desired =
     \<lparr>env_get_stream = (\<lambda>_ i w. (Inr (Some (zero_registration\<lparr>reg_source := i\<rparr>)), w)),
      env_block_source = (\<lambda>_ _ _ w. (None, w)), env_ensure = (\<lambda>_ _ w. (None, w)),
      env_subscriptions = (\<lambda>_ w. (Inr [(''billing'', desired, 2)], w)),
      env_set_desired = (\<lambda>_ i state w. (Inr (i, state, 2), w)),
      env_renew = (\<lambda>_ _ _ w. (None, w)), env_observe = (\<lambda>_ _ _ _ _ w. (None, w)),
      env_observed = (\<lambda>_ _ _ _ w. (Inr True, w)), env_release = (\<lambda>_ _ w. (None, w)),
      env_inspect = (\<lambda>_ _ w. ((source_running, []), w)), env_ping = (\<lambda>w. (None, w)),
      env_consumer = (\<lambda>_ _ w. (Inr 7, w)), env_run = (\<lambda>_ w. ((), w)), env_cancel = (\<lambda>_ w. ((), w)),
      env_stop = (\<lambda>_ w. ((), w)), env_ready = (\<lambda>_ w. (True, w)), env_finished = (\<lambda>_ w. (False, w)),
      env_log = (\<lambda>_ w. ((), w)), env_now = (\<lambda>w. (5, w)), env_err = (\<lambda>w. (None, w)),
      env_wait = (\<lambda>w. (Ended, w)), env_poll = (\<lambda>w. (True, w)), env_range = (\<lambda>is w. (is, w)),
      env_between = (\<lambda>w. (id, w))\<rparr>"

definition billing_service :: "nat service" where
  "billing_service =
     projr (fst (new_service (calm_env state_running) example_scope [rec_source example_record]
              [\<lparr>tg_id = ''billing'', tg_sources = [''users'']\<rparr>] ''w1'' ()))"

lemma calm_workers: "workers_only (calm_env desired)"
  by (simp add: workers_only_def calm_env_def worker_effect.nothing)

lemma calm_reasoned: "reasoned (calm_env desired)"
  by (simp add: reasoned_def calm_env_def)

interpretation calm: control_environment "calm_env desired" for desired
  by unfold_locales (rule workers_interleaved [OF calm_workers] calm_reasoned)+

lemma run_unit: "run_state m (s, ()) = (fst (run_state m (s, ())), fst (snd (run_state m (s, ()))), ())"
  by (simp add: prod_eq_iff)

lemma billing_service_fields:
  "svc_subs billing_service = [(''billing'', starting_subscription ''billing'')]"
  by (simp add: billing_service_def new_service_def calm_env_def example_scope_def generation_valid_def)

lemma billing_service_ok: "pass_ok billing_service"
  by (simp add: pass_ok_def sub_of_def billing_service_fields sub_ok_def starting_subscription_def zero_view_def)

text \<open>
  C21. A block is final in the process that raised it: once \<^verbatim>\<open>Block\<close> with a reason has returned, the
  dispatch fence refuses the source for ever. This holds whatever was in flight when it returned: an inspection that began
  before and found the source running, and publishes that only now, does not reopen it. It holds whatever passes of the
  control loop, further blocks, operator requests and shutdowns follow, whatever the store, Kafka and the source monitor
  answer in them, and however critical sections of other goroutines fall between those of \<^verbatim>\<open>Block\<close> and of all that follows.
\<close>

theorem block_is_final:
  assumes "interleaved E" and "reasoned E" and "reason \<noteq> []"
    and "run_state (block E i reason) x = (u, x1)" and "(service_step E)\<^sup>*\<^sup>* x1 x2"
  shows "\<not> allowed now i (fst x2)"
proof -
  from block_shuts [OF assms(1,3), of i] assms(4) have "shut i (fst x1)" by (auto dest: tripleD)
  with assms(5) have "shut i (fst x2)"
    by (induction rule: rtranclp_induct) (auto intro: service_step_shut [OF assms(1,2)])
  then show ?thesis by (rule shut_refuses)
qed

text \<open>The block is raised, an inspection of before publishes what it had found, and a pass follows.\<close>

theorem block_is_final_witness:
  "\<not> allowed 6 ''users'' (fst (snd (run_state (reconcile (calm_env state_running))
      (snd (publish ''users'' source_running []
        (fst (snd (run_state (block (calm_env state_running) ''users'' ''bad row'') (billing_service, ()))))), ()))))"
proof (rule block_is_final [where reason = "''bad row''", OF workers_interleaved [OF calm_workers] calm_reasoned])
  let ?x = "snd (run_state (block (calm_env state_running) ''users'' ''bad row'') (billing_service, ()))"
  let ?y = "(snd (publish ''users'' source_running [] (fst ?x)), ())"
  show "run_state (block (calm_env state_running) ''users'' ''bad row'') (billing_service, ()) = ((), ?x)"
    by (simp add: prod_eq_iff)
  have "service_step (calm_env state_running) (fst ?x, ()) ?y"
    by (rule service_step.in_flight, rule section_step.publishing)
  also have "(fst ?x, ()) = ?x" by (simp add: prod_eq_iff)
  finally have "service_step (calm_env state_running) ?x ?y" .
  moreover have "service_step (calm_env state_running) ?y (snd (run_state (reconcile (calm_env state_running)) ?y))"
    by (rule service_step.pass, rule surjective_pairing)
  ultimately show "(service_step (calm_env state_running))\<^sup>*\<^sup>* ?x (snd (run_state (reconcile (calm_env state_running)) ?y))"
    by (rule converse_rtranclp_into_rtranclp [OF _ r_into_rtranclp])
qed simp

text \<open>
  C22. Every pass of the control loop ends in one of two states: degraded, with no consumer left, or with
  the control store and Kafka healthy and the status that the sources and subscriptions of that moment
  call for. Either way a paused or blocked subscription has no consumer and a running one has one.
\<close>

theorem pass_ends_consistent:
  assumes "workers_only E" and "pass_ok s" and "run_state (reconcile E) (s, w) = (u, s', w')"
  shows "pass_ok s' \<and>
    (svc_status s' = status_degraded \<and> no_consumers s' \<or>
     svc_control s' \<and> svc_kafka s' \<and> svc_status s' = overall_status (svc_states s') (svc_subs s'))"
  using tripleD [OF reconcile_leaves [OF assms(1)] _ assms(3)] assms(2)
  by (simp add: pass_end_def dependable_def)

theorem pass_ends_consistent_witness:
  "pass_ok (fst (snd (run_state (reconcile (calm_env state_running)) (billing_service, ())))) \<and>
    (svc_status (fst (snd (run_state (reconcile (calm_env state_running)) (billing_service, ())))) =
       status_degraded \<and>
     no_consumers (fst (snd (run_state (reconcile (calm_env state_running)) (billing_service, ())))) \<or>
     svc_control (fst (snd (run_state (reconcile (calm_env state_running)) (billing_service, ())))) \<and>
     svc_kafka (fst (snd (run_state (reconcile (calm_env state_running)) (billing_service, ())))) \<and>
     svc_status (fst (snd (run_state (reconcile (calm_env state_running)) (billing_service, ())))) =
       overall_status (svc_states (fst (snd (run_state (reconcile (calm_env state_running)) (billing_service, ())))))
         (svc_subs (fst (snd (run_state (reconcile (calm_env state_running)) (billing_service, ()))))))"
  by (rule pass_ends_consistent [OF calm_workers billing_service_ok run_unit])

text \<open>
  Reconciling one subscription brings it where it was asked to be, as far as its sources and Kafka let
  it: a subscription asked to pause is paused, without a consumer, with the revision applied and no error;
  any other is blocked, starting or running, and running only with a consumer and the revision applied.
\<close>

theorem subscription_settles:
  assumes "workers_only E" and "pass_ok s"
    and "run_state (reconcile_subscription E d) (s, w) = (u, s', w')" and "sub_of (ds_id d) s' = Some y"
  shows "vw_desired (sub_view y) = ds_desired d \<and>
    (if paused d
     then vw_state (sub_view y) = state_paused \<and> sub_consumer y = None \<and> sub_revision y = ds_revision d \<and>
          vw_error (sub_view y) = []
     else vw_state (sub_view y) \<in> {state_blocked, state_starting, state_running} \<and>
          (vw_state (sub_view y) = state_blocked \<longrightarrow> sub_consumer y = None) \<and>
          (vw_state (sub_view y) = state_running \<longrightarrow>
             sub_consumer y \<noteq> None \<and> sub_revision y = ds_revision d \<and> vw_error (sub_view y) = []))"
proof -
  have "settled d y"
    using tripleD [OF reconcile_subscription_settles [OF assms(1)] _ assms(3)] assms(2,4) by simp
  then show ?thesis by (auto simp: settled_def sub_ok_def split: if_splits)
qed

lemma pausing_run:
  "sub_of (ds_id (''billing'', state_paused, 2)) (fst (snd (run_state (reconcile_subscription (calm_env state_paused) (''billing'', state_paused, 2))
     (billing_service, ())))) =
   Some \<lparr>sub_view = \<lparr>vw_id = ''billing'', vw_state = state_paused, vw_desired = state_paused, vw_error = []\<rparr>,
         sub_revision = 2, sub_consumer = None\<rparr>"
  by code_simp

theorem subscription_settles_witness:
  "vw_desired \<lparr>vw_id = ''billing'', vw_state = state_paused, vw_desired = state_paused, vw_error = []\<rparr> =
     state_paused"
  using subscription_settles [OF calm_workers billing_service_ok run_unit pausing_run] by simp

text \<open>A new service is well-formed.\<close>

lemma starting_subs:
  "map_of (fold (\<lambda>d. AList.update (tg_id d) (starting_subscription (tg_id d))) ts xs) i = Some y \<Longrightarrow>
   map_of xs i = Some y \<or> (\<exists>j. y = starting_subscription j)"
proof (induction ts arbitrary: xs)
  case (Cons t ts)
  then show ?case by (fastforce simp: update_conv' split: if_splits)
qed simp

lemma new_service_ok: "new_service E scope sources targets worker w = (Inr s, w') \<Longrightarrow> pass_ok s"
proof -
  assume "new_service E scope sources targets worker w = (Inr s, w')"
  then have subs: "svc_subs s = fold (\<lambda>d. AList.update (tg_id d) (starting_subscription (tg_id d))) targets []"
    by (auto simp: new_service_def split: if_splits prod.splits option.splits)
  have "sub_ok (starting_subscription j)" for j
    by (simp add: sub_ok_def starting_subscription_def zero_view_def)
  with starting_subs [of targets "[]"] show "pass_ok s"
    unfolding pass_ok_def sub_of_def subs by fastforce
qed

lemma start_leaves:
  assumes others: "workers_only E"
  shows "triple (\<lambda>x. pass_ok (fst x)) (start fuel E) (\<lambda>ended x. ended \<longrightarrow> no_consumers (fst x))"
proof -
  have stop: "stable E no_consumers"
    using others by (rule workers_only_stable) (simp add: no_consumers_def sub_of_def worker_effect_subs)
  have release: "triple (\<lambda>x. no_consumers (fst x)) (State_Monad.bind (release E) (\<lambda>_. State_Monad.return True))
      (\<lambda>ended x. ended \<longrightarrow> no_consumers (fst x))"
  proof (rule triple_weaken)
    have "keeps no_consumers (State_Monad.bind (release E) (\<lambda>_. State_Monad.return True))"
      unfolding release_def by (intro keeps_intro)
    then show "triple (\<lambda>x. no_consumers (fst x)) (State_Monad.bind (release E) (\<lambda>_. State_Monad.return True))
        (\<lambda>_ x. no_consumers (fst x))" by (rule keeps_triple)
  qed simp_all
  show ?thesis
    unfolding start_def
    by (rule triple_bind [OF keeps_triple [OF keeps_peek]], rule triple_bind [OF keeps_triple [OF keeps_call]],
        rule triple_bind [OF start_loop_leaves [OF others]])
       (auto intro: triple_weaken [OF release] triple_return)
qed

text \<open>
  Shutting down leaves nothing running: when the loop of a service made by \<^verbatim>\<open>New\<close> has ended, after any
  number of passes, no subscription holds a consumer any more.
\<close>

theorem shutdown_stops_everything:
  assumes "workers_only E" and "new_service E scope sources targets worker w0 = (Inr s, w1)"
    and "run_state (start fuel E) (s, w1) = (True, s', w')" and "sub_of i s' = Some y"
  shows "sub_consumer y = None"
  using tripleD [OF start_leaves [OF assms(1)] _ assms(3)] new_service_ok [OF assms(2)] assms(4)
  by (simp add: no_consumers_def)

theorem shutdown_stops_everything_witness:
  "sub_consumer (the (sub_of ''billing''
     (fst (snd (run_state (start 1 (calm_env state_running)) (billing_service, ())))))) = None"
proof (rule shutdown_stops_everything [OF calm_workers])
  show "new_service (calm_env state_running) example_scope [rec_source example_record]
      [\<lparr>tg_id = ''billing'', tg_sources = [''users'']\<rparr>] ''w1'' () = (Inr billing_service, ())"
    by (simp add: billing_service_def new_service_def calm_env_def example_scope_def generation_valid_def)
  have "fst (run_state (start 1 (calm_env state_running)) (billing_service, ()))" by code_simp
  then show "run_state (start 1 (calm_env state_running)) (billing_service, ()) =
      (True, fst (snd (run_state (start 1 (calm_env state_running)) (billing_service, ()))), ())"
    by (auto simp: prod_eq_iff)
  have "sub_of ''billing'' (fst (snd (run_state (start 1 (calm_env state_running)) (billing_service, ())))) \<noteq> None"
    by code_simp
  then show "sub_of ''billing'' (fst (snd (run_state (start 1 (calm_env state_running)) (billing_service, ())))) =
      Some (the (sub_of ''billing''
        (fst (snd (run_state (start 1 (calm_env state_running)) (billing_service, ()))))))"
    by simp
qed

end
