(* ===== verification/Convergence.thy ===== *)
theory Convergence
  imports ControlSafety
begin

text \<open>
  An operator's change end to end: the control service running on the control store. The service's
  \<^verbatim>\<open>Change\<close> reports success only when the store holds the request and every live worker of the scope has
  recorded reaching it.
\<close>

section \<open>The service on its store\<close>

text \<open>The environment \<open>E\<close> with the store operations of \<^verbatim>\<open>controlpg\<close>; the rest of the world is \<open>'x\<close>.\<close>

definition with_store :: "('c, pg \<times> 'x) env \<Rightarrow> ('c, pg \<times> 'x) env" where
  "with_store E =
     E\<lparr>env_get_stream := (\<lambda>s i. on_store (get_stream s i)),
       env_block_source := (\<lambda>s i reason. on_store (block_source s i reason)),
       env_ensure := (\<lambda>s ids. on_store (ensure_subscriptions s ids)),
       env_subscriptions := (\<lambda>s. on_store (subscriptions s)),
       env_set_desired := (\<lambda>s i state. on_store (set_desired s i state)),
       env_renew := (\<lambda>s w ttl. on_store (renew_lease s w ttl)),
       env_observe := (\<lambda>s w i n state. on_store (observe_subscription s w i n state)),
       env_observed := (\<lambda>s i n state. on_store (subscription_observed s i n state)),
       env_release := (\<lambda>s w. on_store (release_lease s w))\<rparr>"

lemma with_store_simps [simp]:
  "env_between (with_store E) = env_between E" "env_poll (with_store E) = env_poll E"
  "env_err (with_store E) = env_err E"
  "env_set_desired (with_store E) s i state = on_store (set_desired s i state)"
  "env_observed (with_store E) s i n state = on_store (subscription_observed s i n state)"
  by (simp_all add: with_store_def)

text \<open>What the store's answer means.\<close>

definition everyone_observed :: "scope \<Rightarrow> bytes \<Rightarrow> int \<Rightarrow> bytes \<Rightarrow> pg \<Rightarrow> bool" where
  "everyone_observed s i n state p \<longleftrightarrow>
     live_workers s (pg_now p) (pg_db p) \<noteq> [] \<and>
     (\<forall>wk \<in> set (live_workers s (pg_now p) (pg_db p)).
        \<exists>m. map_of (db_observed (pg_db p)) (s, wk, i) = Some (m, state) \<and> n \<le> m)"

lemma worker_observed_iff:
  "worker_observed s i n state d wk \<longleftrightarrow> (\<exists>m. map_of (db_observed d) (s, wk, i) = Some (m, state) \<and> n \<le> m)"
  by (auto simp: worker_observed_def split: option.splits)

lemma observed_True: "subscription_observed s i n state p = (Inr True, p') \<Longrightarrow> everyone_observed s i n state p"
  by (auto simp: subscription_observed_def everyone_observed_def all_observed_def worker_observed_iff
      list_all_iff split: if_splits dest!: exec_read_Inr)

lemma observed_keeps:
  assumes "subscription_observed s i n state p = (r, p')"
  shows "everyone_observed s' i' n' state' p' = everyone_observed s' i' n' state' p"
proof -
  have "pg_db p' = pg_db p" "pg_now p' = pg_now p"
    using assms by (auto simp: subscription_observed_def exec_read_def dest: next_fault_db next_fault_now
        split: if_splits prod.splits fault.splits)
  then show ?thesis by (simp add: everyone_observed_def)
qed

text \<open>
  What a request has done to the store by the time it is answered: on the way from \<open>p0\<close> to \<open>p'\<close> the decision was stored, and in
  \<open>p'\<close> everyone has observed it.
\<close>

definition decided_and_observed :: "scope \<Rightarrow> bytes \<Rightarrow> bytes \<Rightarrow> pg \<Rightarrow> pg \<Rightarrow> bool" where
  "decided_and_observed s i state p0 p' \<longleftrightarrow>
     (\<exists>q p n. store_step\<^sup>*\<^sup>* p0 q \<and> set_desired s i state q = (Inr (i, state, n), p) \<and>
        map_of (db_subscriptions (pg_db p)) (s, i) = Some (state, n) \<and> store_step\<^sup>*\<^sup>* p p' \<and>
        everyone_observed s i n state p')"

text \<open>What a request waits for: the decision it has just stored, with the worker
  told to look.  Everything the store does from then on is a step from the
  store that holds the decision.\<close>

lemma change_state_awaits:
  fixes E :: "('c, pg \<times> 'x) env"
  assumes between: "\<forall>w s. store_step\<^sup>*\<^sup>* (fst w) (fst (snd (env_between E w))) \<and>
      svc_scope (fst (env_between E w) s) = svc_scope s"
    and run: "run_state (change_state fuel (with_store E) i state) (s, w) = (Some (v, None), x')"
  obtains q p n s2 w2 where "store_step\<^sup>*\<^sup>* (fst w) q" "set_desired (svc_scope s) i state q = (Inr (i, state, n), p)"
    and "svc_scope s2 = svc_scope s" and "store_step\<^sup>*\<^sup>* p (fst w2)"
    and "run_state (await_convergence fuel (with_store E) i state n) (s2, w2) = (Some (v, None), x')"
proof -
  obtain g w1 where g: "env_between E w = (g, w1)" by (rule prod.exhaust)
  have sc: "svc_scope (g s) = svc_scope s" using between g by (metis fst_conv)
  obtain r p where r: "set_desired (svc_scope s) i state (fst w1) = (r, p)" by (rule prod.exhaust)
  from run g sc r obtain d where d: "r = Inr d" "snapshot i (g s) \<noteq> None"
    by (cases r)
       (auto simp: change_state_def read_locked_def locked_def peek_def call_def on_store_def
        split: option.splits prod.splits)
  obtain h w2 where h: "env_between E (p, snd w1) = (h, w2)" by (rule prod.exhaust)
  have await: "run_state (await_convergence fuel (with_store E) i state (ds_revision d))
      ((h (g s))\<lparr>svc_wake := True\<rparr>, w2) = (Some (v, None), x')"
    using run g sc r d h
    by (auto simp: change_state_def read_locked_def locked_def peek_def call_def on_store_def signal_def
        update_locked_def split: option.splits prod.splits)
  have stored: "set_desired (svc_scope s) i state (fst w1) = (Inr (i, state, ds_revision d), p)"
    using r d set_desired_result [of "svc_scope s" i state "fst w1" "fst d" "fst (snd d)" "snd (snd d)" p]
    by (cases d) simp
  have before: "store_step\<^sup>*\<^sup>* (fst w) (fst w1)" using between g by (metis snd_conv)
  have scope: "svc_scope ((h (g s))\<lparr>svc_wake := True\<rparr>) = svc_scope s"
    using between [rule_format, of "(p, snd w1)" "g s"] h sc by simp
  have "store_step\<^sup>*\<^sup>* p (fst w2)" using between h by (metis fst_conv snd_conv)
  then show thesis by (rule that [OF before stored scope _ await])
qed

text \<open>The promise of \<^verbatim>\<open>Change\<close>: a return without error means a stored request that every live worker has reached.\<close>

lemma change_state_converges:
  fixes E :: "('c, pg \<times> 'x) env"
  assumes between: "\<forall>w s. store_step\<^sup>*\<^sup>* (fst w) (fst (snd (env_between E w))) \<and>
      svc_scope (fst (env_between E w) s) = svc_scope s"
    and poll: "\<forall>w. store_step\<^sup>*\<^sup>* (fst w) (fst (snd (env_poll E w))) \<and>
      (fst (env_poll E w) \<or> fst (env_err E (snd (env_poll E w))) \<noteq> None)"
    and run: "run_state (change_state fuel (with_store E) i state) (s, w) = (Some (v, None), x')"
  shows "vw_state v = state \<and> vw_desired v = state \<and>
    decided_and_observed (svc_scope s) i state (fst w) (fst (snd x'))"
proof -
  obtain q p n s2 w2 where before: "store_step\<^sup>*\<^sup>* (fst w) q"
    and stored: "set_desired (svc_scope s) i state q = (Inr (i, state, n), p)"
    and scope: "svc_scope s2 = svc_scope s" and start: "store_step\<^sup>*\<^sup>* p (fst w2)"
    and await: "run_state (await_convergence fuel (with_store E) i state n) (s2, w2) = (Some (v, None), x')"
    by (rule change_state_awaits [OF between run])
  define A where "A = (\<lambda>w :: pg \<times> 'x. store_step\<^sup>*\<^sup>* p (fst w))"
  have A: "A w2" using start by (simp add: A_def)
  have "vw_state v = state \<and> vw_desired v = state \<and>
      (\<exists>w1. A w1 \<and> env_observed (with_store E) (svc_scope s2) i n state w1 = (Inr True, snd x'))"
  proof (rule await_nil [where A = A and w = w2 and x' = x' and fuel = fuel])
    fix w g w'
    assume "A w" "env_between (with_store E) w = (g, w')"
    then show "A w'" using between by (metis A_def with_store_simps(1) rtranclp_trans snd_conv)
  next
    fix w r w' s n t
    assume "A w" "env_observed (with_store E) s i n t w = (r, w')"
    then have "A w" "subscription_observed s i n t (fst w) = (r, fst w')" by (auto dest: on_storeE)
    then show "A w'" by (auto simp: A_def intro: rtranclp.rtrancl_into_rtrancl store_step.observed)
  next
    fix w b w'
    assume "A w" "env_poll (with_store E) w = (b, w')"
    then show "A w'" using poll by (metis A_def with_store_simps(2) rtranclp_trans snd_conv)
  next
    fix w g w' s
    assume "env_between (with_store E) w = (g, w')"
    then show "svc_scope (g s) = svc_scope s" using between by (metis with_store_simps(1) fst_conv)
  next
    fix w w'
    assume "env_poll (with_store E) w = (False, w')"
    then show "fst (env_err (with_store E) w') \<noteq> None" using poll by (metis with_store_simps(2,3) fst_conv snd_conv)
  qed (rule A await)+
  then obtain w3 where v: "vw_state v = state" "vw_desired v = state" and "A w3"
    and confirmed: "subscription_observed (svc_scope s) i n state (fst w3) = (Inr True, fst (snd x'))"
    using scope by (auto dest: on_storeE)
  from confirmed have "everyone_observed (svc_scope s) i n state (fst (snd x'))"
    using observed_True observed_keeps by blast
  moreover have "store_step\<^sup>*\<^sup>* p (fst (snd x'))"
    using \<open>A w3\<close> store_step.observed [OF confirmed] by (auto simp: A_def intro: rtranclp.rtrancl_into_rtrancl)
  ultimately have "decided_and_observed (svc_scope s) i state (fst w) (fst (snd x'))"
    using before stored set_desired_result [OF stored] unfolding decided_and_observed_def by blast
  with v show ?thesis by simp
qed

section \<open>Properties\<close>

text \<open>
  \<^verbatim>\<open>Change\<close> keeps its promise: when it returns without an error, it has stored the desired state with
  some revision, the view it returns has reached that state, and in the store of that moment every
  worker with an unexpired lease, and there is at least one, has recorded reaching that state for that
  revision or a later one. This holds whatever the other workers, the control loop and the database did
  meanwhile.
\<close>

theorem change_converges:
  fixes E :: "('c, pg \<times> 'x) env"
  assumes between: "\<forall>w s. store_step\<^sup>*\<^sup>* (fst w) (fst (snd (env_between E w))) \<and>
      svc_scope (fst (env_between E w) s) = svc_scope s"
    and poll: "\<forall>w. store_step\<^sup>*\<^sup>* (fst w) (fst (snd (env_poll E w))) \<and>
      (fst (env_poll E w) \<or> fst (env_err E (snd (env_poll E w))) \<noteq> None)"
    and run: "run_state (change_state fuel (with_store E) i state) (s, w) = (Some (v, None), x')"
  shows "vw_state v = state \<and> vw_desired v = state \<and>
    decided_and_observed (svc_scope s) i state (fst w) (fst (snd x'))"
  using assms by (rule change_state_converges)

text \<open>A store where one worker, whose lease runs, has observed the pause that is asked for again.\<close>

definition observed_pg :: pg where
  "observed_pg =
     snd (observe_subscription example_scope ''w1'' ''billing'' 2 state_paused
       (snd (set_desired example_scope ''billing'' state_paused
         (snd (renew_lease example_scope ''w1'' 30
           (snd (ensure_subscriptions example_scope [''billing''] empty_pg)))))))"

definition store_calm :: "(nat, pg \<times> unit) env" where
  "store_calm =
     \<lparr>env_get_stream = (\<lambda>_ i w. (Inr None, w)),
      env_block_source = (\<lambda>_ _ _ w. (None, w)), env_ensure = (\<lambda>_ _ w. (None, w)),
      env_subscriptions = (\<lambda>_ w. (Inr [], w)),
      env_set_desired = (\<lambda>_ i state w. (Inl NotFound, w)),
      env_renew = (\<lambda>_ _ _ w. (None, w)), env_observe = (\<lambda>_ _ _ _ _ w. (None, w)),
      env_observed = (\<lambda>_ _ _ _ w. (Inr True, w)), env_release = (\<lambda>_ _ w. (None, w)),
      env_inspect = (\<lambda>_ _ w. ((source_running, []), w)), env_ping = (\<lambda>w. (None, w)),
      env_consumer = (\<lambda>_ _ w. (Inr 7, w)), env_run = (\<lambda>_ w. ((), w)), env_cancel = (\<lambda>_ w. ((), w)),
      env_stop = (\<lambda>_ w. ((), w)), env_ready = (\<lambda>_ w. (True, w)), env_finished = (\<lambda>_ w. (False, w)),
      env_log = (\<lambda>_ w. ((), w)), env_now = (\<lambda>w. (5, w)), env_err = (\<lambda>w. (None, w)),
      env_wait = (\<lambda>w. (Ended, w)), env_poll = (\<lambda>w. (True, w)), env_range = (\<lambda>is w. (is, w)),
      env_between = (\<lambda>w. (id, w))\<rparr>"

definition paused_service :: "nat service" where
  "paused_service =
     fst (snd (run_state (reconcile_subscription (calm_env state_paused) (''billing'', state_paused, 2))
       (billing_service, ())))"

definition paused_view :: subscription_view where
  "paused_view = \<lparr>vw_id = ''billing'', vw_state = state_paused, vw_desired = state_paused, vw_error = []\<rparr>"

theorem change_converges_witness:
  "vw_state paused_view = state_paused \<and> vw_desired paused_view = state_paused \<and>
    decided_and_observed (svc_scope paused_service) ''billing'' state_paused observed_pg
      (fst (snd (snd (run_state (change_state 1 (with_store store_calm) ''billing'' state_paused)
        (paused_service, (observed_pg, ()))))))"
proof (rule change_converges [where E = store_calm and w = "(observed_pg, ())", simplified fst_conv])
  have "fst (run_state (change_state 1 (with_store store_calm) ''billing'' state_paused)
      (paused_service, (observed_pg, ()))) = Some (paused_view, None)"
    by code_simp
  then show "run_state (change_state 1 (with_store store_calm) ''billing'' state_paused)
      (paused_service, (observed_pg, ())) =
      (Some (paused_view, None), snd (run_state (change_state 1 (with_store store_calm) ''billing'' state_paused)
         (paused_service, (observed_pg, ()))))"
    by (simp add: prod_eq_iff)
qed (simp_all add: store_calm_def)

end
