(* ===== verification/Sha256.thy ===== *)
theory Sha256
  imports GoStd
begin

text \<open>
  \<^verbatim>\<open>crypto/sha256\<close> of the Go standard library, on 32-bit words: the padding, the message schedule and
  the compression function of FIPS 180-4. The program uses it to name resources.
\<close>

unbundle bit_operations_syntax

type_synonym word32 = "32 word"

definition rotr :: "nat \<Rightarrow> word32 \<Rightarrow> word32" where
  "rotr n x = drop_bit n x OR push_bit (32 - n) x"

definition sha_ch :: "word32 \<Rightarrow> word32 \<Rightarrow> word32 \<Rightarrow> word32" where
  "sha_ch x y z = (x AND y) XOR (NOT x AND z)"

definition sha_maj :: "word32 \<Rightarrow> word32 \<Rightarrow> word32 \<Rightarrow> word32" where
  "sha_maj x y z = (x AND y) XOR (x AND z) XOR (y AND z)"

definition big_sigma0 :: "word32 \<Rightarrow> word32" where
  "big_sigma0 x = rotr 2 x XOR rotr 13 x XOR rotr 22 x"

definition big_sigma1 :: "word32 \<Rightarrow> word32" where
  "big_sigma1 x = rotr 6 x XOR rotr 11 x XOR rotr 25 x"

definition small_sigma0 :: "word32 \<Rightarrow> word32" where
  "small_sigma0 x = rotr 7 x XOR rotr 18 x XOR drop_bit 3 x"

definition small_sigma1 :: "word32 \<Rightarrow> word32" where
  "small_sigma1 x = rotr 17 x XOR rotr 19 x XOR drop_bit 10 x"

definition round_constants :: "word32 list" where
  "round_constants =
    [1116352408, 1899447441, 3049323471, 3921009573, 961987163, 1508970993, 2453635748, 2870763221,
     3624381080, 310598401, 607225278, 1426881987, 1925078388, 2162078206, 2614888103, 3248222580,
     3835390401, 4022224774, 264347078, 604807628, 770255983, 1249150122, 1555081692, 1996064986,
     2554220882, 2821834349, 2952996808, 3210313671, 3336571891, 3584528711, 113926993, 338241895,
     666307205, 773529912, 1294757372, 1396182291, 1695183700, 1986661051, 2177026350, 2456956037,
     2730485921, 2820302411, 3259730800, 3345764771, 3516065817, 3600352804, 4094571909, 275423344,
     430227734, 506948616, 659060556, 883997877, 958139571, 1322822218, 1537002063, 1747873779,
     1955562222, 2024104815, 2227730452, 2361852424, 2428436474, 2756734187, 3204031479, 3329325298]"

type_synonym hash = "word32 \<times> word32 \<times> word32 \<times> word32 \<times> word32 \<times> word32 \<times> word32 \<times> word32"

definition initial_hash :: hash where
  "initial_hash =
     (1779033703, 3144134277, 1013904242, 2773480762, 1359893119, 2600822924, 528734635, 1541459225)"

text \<open>The schedule is kept newest first.\<close>

fun extend_schedule :: "nat \<Rightarrow> word32 list \<Rightarrow> word32 list" where
  "extend_schedule 0 ws = ws"
| "extend_schedule (Suc n) ws =
     extend_schedule n
       ((small_sigma1 (ws ! 1) + ws ! 6 + small_sigma0 (ws ! 14) + ws ! 15) # ws)"

definition message_schedule :: "word32 list \<Rightarrow> word32 list" where
  "message_schedule block = rev (extend_schedule 48 (rev block))"

fun compress_round :: "word32 \<times> word32 \<Rightarrow> hash \<Rightarrow> hash" where
  "compress_round (k, w) (a, b, c, d, e, f, g, h) =
     (let t1 = h + big_sigma1 e + sha_ch e f g + k + w;
          t2 = big_sigma0 a + sha_maj a b c
      in (t1 + t2, a, b, c, d + t1, e, f, g))"

fun add_hash :: "hash \<Rightarrow> hash \<Rightarrow> hash" where
  "add_hash (a, b, c, d, e, f, g, h) (a', b', c', d', e', f', g', h') =
     (a + a', b + b', c + c', d + d', e + e', f + f', g + g', h + h')"

definition sha_compress :: "word32 list \<Rightarrow> hash \<Rightarrow> hash" where
  "sha_compress block h = add_hash h (fold compress_round (zip round_constants (message_schedule block)) h)"

text \<open>Bytes are numbers below 256.\<close>

definition sha_pad :: "nat list \<Rightarrow> nat list" where
  "sha_pad bs =
     (let zeros = (119 - length bs mod 64) mod 64;
          bits = 8 * length bs
      in bs @ [128] @ replicate zeros 0 @ map (\<lambda>i. bits div 256 ^ (7 - i) mod 256) [0..<8])"

fun words_of :: "nat list \<Rightarrow> word32 list" where
  "words_of (a # b # c # d # bs) =
     of_nat (((a * 256 + b) * 256 + c) * 256 + d) # words_of bs"
| "words_of _ = []"

fun sha_blocks :: "nat \<Rightarrow> word32 list \<Rightarrow> word32 list list" where
  "sha_blocks 0 ws = []"
| "sha_blocks (Suc n) ws = take 16 ws # sha_blocks n (drop 16 ws)"

definition word_bytes :: "word32 \<Rightarrow> nat list" where
  "word_bytes w = map (\<lambda>i. unat w div 256 ^ (3 - i) mod 256) [0..<4]"

fun hash_bytes :: "hash \<Rightarrow> nat list" where
  "hash_bytes (a, b, c, d, e, f, g, h) = concat (map word_bytes [a, b, c, d, e, f, g, h])"

definition sha256 :: "bytes \<Rightarrow> nat list" where
  "sha256 s =
     (let ws = words_of (sha_pad (map byte s))
      in hash_bytes (fold sha_compress (sha_blocks (length ws div 16) ws) initial_hash))"

section \<open>The shape of a digest\<close>

lemma length_hash_bytes [simp]: "length (hash_bytes h) = 32"
  by (cases h rule: hash_bytes.cases) (simp add: word_bytes_def)

lemma length_sha256 [simp]: "length (sha256 s) = 32"
  by (simp add: sha256_def Let_def)

lemma hash_bytes_less: "b \<in> set (hash_bytes h) \<Longrightarrow> b < 256"
  by (cases h rule: hash_bytes.cases) (auto simp: word_bytes_def)

lemma sha256_less: "b \<in> set (sha256 s) \<Longrightarrow> b < 256"
  by (simp add: sha256_def Let_def hash_bytes_less)

end
