(* ===== verification/Provision.thy ===== *)
theory Provision
  imports Sha256 GoJson StreamModel
begin

text \<open>
  \<^verbatim>\<open>internal/provision\<close>: the capture contract and the names of a stream (\<^verbatim>\<open>contract.go\<close>), the inspection of
  an established stream (\<^verbatim>\<open>inspect.go\<close>) and its provisioning (\<^verbatim>\<open>service.go\<close>). The adapters the code calls
  (source database, Kafka, Kafka Connect, control store) are the operations of a \<open>capture\<close> on a world.

  The code tells errors apart by type (\<^verbatim>\<open>errors.As\<close>, \<^verbatim>\<open>errors.Is\<close>), so the types are constructors:
  a broken contract, a topic or partition error of Kafka, a missing connector, an error wrapped in a
  message, and any other error.
\<close>

section \<open>Errors\<close>

datatype capture_error =
    ContractError bytes bytes
  | TopicMetadata bool bytes
  | ConnectorMissing
  | Wrapped bytes capture_error
  | Plain bytes

fun is_contract :: "capture_error \<Rightarrow> bool" where
  "is_contract (ContractError _ _) = True"
| "is_contract (Wrapped _ e) = is_contract e"
| "is_contract _ = False"

fun is_connector_missing :: "capture_error \<Rightarrow> bool" where
  "is_connector_missing ConnectorMissing = True"
| "is_connector_missing (Wrapped _ e) = is_connector_missing e"
| "is_connector_missing _ = False"

text \<open>\<^verbatim>\<open>errors.As\<close> a topic metadata error: whether it is of a partition, and its text.\<close>

fun topic_metadata :: "capture_error \<Rightarrow> (bool \<times> bytes) option" where
  "topic_metadata (TopicMetadata part text) = Some (part, text)"
| "topic_metadata (Wrapped _ e) = topic_metadata e"
| "topic_metadata _ = None"

fun capture_error_text :: "capture_error \<Rightarrow> bytes" where
  "capture_error_text (ContractError table reason) = ''capture: table public.'' @ table @ '': '' @ reason"
| "capture_error_text (TopicMetadata _ text) = text"
| "capture_error_text ConnectorMissing = ''capture: connector missing''"
| "capture_error_text (Wrapped prefix e) = prefix @ capture_error_text e"
| "capture_error_text (Plain text) = text"

section \<open>Facts\<close>

record column_facts =
  cf_type :: pgtype
  cf_not_null :: bool

record table_facts =
  tf_exists :: bool
  tf_columns :: "(bytes \<times> column_facts) list"
  tf_serial_unique :: bool

datatype publication_mode = PublicationManaged | PublicationExternal

datatype connector_state = StateRunning | StateFailed | StatePaused | StateUnassigned | StateRestarting | StateOther bytes

record connector_status =
  cs_connector :: connector_state
  cs_tasks :: "connector_state list"
  cs_failed :: bool
  cs_trace :: bytes

datatype wal_status = WALReserved | WALExtended | WALUnreserved | WALLost | WALOther bytes

record slot_status =
  sl_exists :: bool
  sl_wal :: wal_status

record topic_facts =
  tp_exists :: bool
  tp_id :: bytes
  tp_partitions :: int
  tp_replicas :: "(int \<times> int) list"

definition history_lost :: "slot_status \<Rightarrow> bool" where
  "history_lost sl \<longleftrightarrow> sl_wal sl = WALLost \<or> sl_wal sl = WALUnreserved"

definition tasks_running :: "connector_state list \<Rightarrow> bool" where
  "tasks_running tasks \<longleftrightarrow> \<not> list_ex (\<lambda>t. t \<noteq> StateRunning) tasks"

definition capture_ready :: "connector_status \<Rightarrow> slot_status \<Rightarrow> bool" where
  "capture_ready st sl \<longleftrightarrow>
     cs_connector st = StateRunning \<and> cs_tasks st \<noteq> [] \<and> \<not> cs_failed st \<and>
     tasks_running (cs_tasks st) \<and> sl_exists sl \<and> \<not> history_lost sl"

section \<open>The capture contract\<close>

text \<open>\<^verbatim>\<open>configuredColumns\<close>, with the columns found and the names missing so far.\<close>

fun configured_loop :: "bytes \<Rightarrow> (bytes \<times> column_facts) list \<Rightarrow> bytes list \<Rightarrow> column list \<Rightarrow> bytes list \<Rightarrow>
    capture_error + column list" where
  "configured_loop table facts [] columns missing =
     (if missing \<noteq> []
      then Inl (ContractError table (''missing configured columns: '' @ join '', '' missing))
      else Inr columns)"
| "configured_loop table facts (name # names) columns missing =
     (case map_of facts name of
        None \<Rightarrow> configured_loop table facts names columns (missing @ [name])
      | Some c \<Rightarrow>
          if \<not> pg_supported (cf_type c)
          then Inl (ContractError table
                 (''column '' @ quote name @ '' has unsupported type '' @ quote (cf_type c)))
          else configured_loop table facts names
                 (columns @ [\<lparr>col_name = name, col_type = cf_type c\<rparr>]) missing)"

definition configured_columns :: "source \<Rightarrow> table_facts \<Rightarrow> capture_error + column list" where
  "configured_columns src facts = configured_loop (src_table src) (tf_columns facts) (src_columns src) [] []"

definition check_serial_column :: "source \<Rightarrow> table_facts \<Rightarrow> capture_error option" where
  "check_serial_column src facts =
     (let name = ''serialColumn '' @ quote (src_serial src) in
      case map_of (tf_columns facts) (src_serial src) of
        None \<Rightarrow> Some (ContractError (src_table src) (name @ '' not found''))
      | Some serial \<Rightarrow>
          if \<not> pg_integer (cf_type serial)
          then Some (ContractError (src_table src)
                 (name @ '' must be int2, int4, or int8, got '' @ quote (cf_type serial)))
          else if \<not> cf_not_null serial
          then Some (ContractError (src_table src) (name @ '' must be NOT NULL''))
          else if \<not> tf_serial_unique facts
          then Some (ContractError (src_table src)
                 (name @ '' has no unique or primary-key index on it alone''))
          else None)"

definition check_partitioning_column :: "source \<Rightarrow> table_facts \<Rightarrow> capture_error option" where
  "check_partitioning_column src facts =
     (let name = ''partitioningColumn '' @ quote (src_partitioning src) in
      case map_of (tf_columns facts) (src_partitioning src) of
        None \<Rightarrow> Some (ContractError (src_table src) (name @ '' not found''))
      | Some c \<Rightarrow>
          if \<not> cf_not_null c
          then Some (ContractError (src_table src) (name @ '' must be NOT NULL''))
          else None)"

definition event_id_column :: "bytes list \<Rightarrow> bytes" where
  "event_id_column columns = (if ''event_id'' \<in> set columns then ''event_id'' else [])"

definition identity_from :: "source \<Rightarrow> table_facts \<Rightarrow> int \<Rightarrow> capture_error + identity" where
  "identity_from src facts partitions =
     (if \<not> tf_exists facts then Inl (ContractError (src_table src) ''does not exist'')
      else (case configured_columns src facts of
              Inl e \<Rightarrow> Inl e
            | Inr columns \<Rightarrow>
                (case check_serial_column src facts of
                   Some e \<Rightarrow> Inl e
                 | None \<Rightarrow>
                     (case check_partitioning_column src facts of
                        Some e \<Rightarrow> Inl e
                      | None \<Rightarrow>
                          Inr \<lparr>idn_table = src_table src, idn_serial = src_serial src,
                            idn_partitioning = src_partitioning src,
                            idn_event_id = event_id_column (src_columns src),
                            idn_partitions = partitions, idn_columns = columns\<rparr>))))"

section \<open>Names\<close>

definition hash_input :: "bytes \<Rightarrow> bytes \<Rightarrow> bytes \<Rightarrow> generation \<Rightarrow> bytes" where
  "hash_input namespace environment source_id generation =
     ''['' @ join '','' (map marshal_string [namespace, environment, source_id, generation_string generation])
       @ '']''"

definition names_prefix :: "bytes \<Rightarrow> bytes \<Rightarrow> bytes \<Rightarrow> generation \<Rightarrow> bytes" where
  "names_prefix namespace environment source_id generation =
     ''postie_g'' @ generation_string generation @ ''_'' @
     hex_encode (take 14 (sha256 (hash_input namespace environment source_id generation)))"

definition names_for :: "bytes \<Rightarrow> bytes \<Rightarrow> source \<Rightarrow> generation \<Rightarrow> names" where
  "names_for namespace environment src generation =
     (let prefix = names_prefix namespace environment (src_id src) generation
      in \<lparr>nm_topic_prefix = prefix, nm_topic = prefix @ ''.public.'' @ src_table src,
          nm_connector = prefix @ ''_connector'', nm_slot = prefix @ ''_slot'',
          nm_publication = prefix @ ''_pub''\<rparr>)"

section \<open>The adapters\<close>

record 'w capture =
  cap_scope :: scope
  cap_partitions :: int
  cap_replication :: int
  cap_publications :: "(bytes \<times> bytes) list"
  cap_table :: "bytes \<Rightarrow> 'w \<Rightarrow> (capture_error + table_facts) \<times> 'w"
  cap_slot :: "bytes \<Rightarrow> bytes \<Rightarrow> 'w \<Rightarrow> (capture_error + slot_status) \<times> 'w"
  cap_ensure_topic :: "names \<Rightarrow> int \<Rightarrow> int \<Rightarrow> 'w \<Rightarrow> (capture_error + bytes) \<times> 'w"
  cap_topic :: "bytes \<Rightarrow> 'w \<Rightarrow> (capture_error + topic_facts) \<times> 'w"
  cap_ensure_connector :: "source \<Rightarrow> identity \<Rightarrow> names \<Rightarrow> publication_mode \<Rightarrow> 'w \<Rightarrow> capture_error option \<times> 'w"
  cap_connector :: "bytes \<Rightarrow> 'w \<Rightarrow> (capture_error + connector_status) \<times> 'w"
  cap_get_stream :: "scope \<Rightarrow> bytes \<Rightarrow> 'w \<Rightarrow> (capture_error + registration option) \<times> 'w"
  cap_register :: "scope \<Rightarrow> registration \<Rightarrow> 'w \<Rightarrow> capture_error option \<times> 'w"
  cap_block :: "scope \<Rightarrow> bytes \<Rightarrow> bytes \<Rightarrow> 'w \<Rightarrow> capture_error option \<times> 'w"
  cap_wait :: "'w \<Rightarrow> bool \<times> 'w"

definition capture_names :: "'w capture \<Rightarrow> source \<Rightarrow> names \<times> publication_mode" where
  "capture_names C src =
     (let scope = cap_scope C;
          names = names_for (sc_namespace scope) (sc_environment scope) src (sc_generation scope);
          external = (case map_of (cap_publications C) (src_id src) of None \<Rightarrow> [] | Some x \<Rightarrow> x)
      in if external \<noteq> [] then (names\<lparr>nm_publication := external\<rparr>, PublicationExternal)
         else (names, PublicationManaged))"

text \<open>\<^verbatim>\<open>validateReplication\<close>: the lowest partition with the wrong number of replicas.\<close>

definition validate_replication :: "bytes \<Rightarrow> topic_facts \<Rightarrow> int \<Rightarrow> capture_error option" where
  "validate_replication topic facts replication =
     (case find (\<lambda>(part, count). count \<noteq> replication) (sort_key fst (tp_replicas facts)) of
        None \<Rightarrow> None
      | Some (part, count) \<Rightarrow>
          Some (Plain (''capture: topic '' @ quote topic @ '' partition '' @ int_str part @ '' has '' @
                  int_str count @ '' replicas, want '' @ int_str replication)))"

section \<open>Inspection\<close>

datatype health = HealthRunning | HealthBlocked | HealthUnavailable

fun health_string :: "health \<Rightarrow> bytes" where
  "health_string HealthRunning = ''running''"
| "health_string HealthBlocked = ''blocked''"
| "health_string HealthUnavailable = ''unavailable''"

text \<open>A finding; \<open>None\<close> is the zero value, nothing wrong.\<close>

type_synonym finding = "(health \<times> bytes) option"

definition blocked :: "bytes \<Rightarrow> finding" where
  "blocked reason = Some (HealthBlocked, reason)"

definition unavailable :: "bytes \<Rightarrow> finding" where
  "unavailable reason = Some (HealthUnavailable, reason)"

definition table_failure :: "capture_error \<Rightarrow> finding" where
  "table_failure e =
     (if is_contract e then blocked ''source table violates capture contract''
      else unavailable ''source database unavailable'')"

definition inspect_identity :: "'w capture \<Rightarrow> source \<Rightarrow> registration \<Rightarrow> 'w \<Rightarrow> finding \<times> 'w" where
  "inspect_identity C src registered w =
     (case cap_table C (src_id src) w of
        (Inl e, w') \<Rightarrow> (table_failure e, w')
      | (Inr facts, w') \<Rightarrow>
          (case identity_from src facts (cap_partitions C) of
             Inl e \<Rightarrow> (table_failure e, w')
           | Inr identity \<Rightarrow>
               if identity \<noteq> reg_identity registered then (blocked ''stream identity changed'', w')
               else (None, w')))"

definition inspect_names :: "registration \<Rightarrow> names \<Rightarrow> 'w \<Rightarrow> finding \<times> 'w" where
  "inspect_names registered names w =
     (if reg_names registered \<noteq> names then (blocked ''stream configuration changed'', w) else (None, w))"

definition topic_failure :: "capture_error \<Rightarrow> bytes" where
  "topic_failure e =
     (case topic_metadata e of
        None \<Rightarrow> ''Kafka metadata unavailable''
      | Some (part, text) \<Rightarrow> if part then text else ''Kafka topic unavailable'')"

definition inspect_topic :: "'w capture \<Rightarrow> names \<Rightarrow> registration \<Rightarrow> 'w \<Rightarrow> finding \<times> 'w" where
  "inspect_topic C names registered w =
     (case cap_topic C (nm_topic names) w of
        (Inl e, w') \<Rightarrow> (unavailable (topic_failure e), w')
      | (Inr details, w') \<Rightarrow>
          if \<not> tp_exists details then (blocked ''established topic missing'', w')
          else (case validate_replication (nm_topic names) details (cap_replication C) of
                  Some e \<Rightarrow> (unavailable (capture_error_text e), w')
                | None \<Rightarrow>
                    if tp_id details \<noteq> reg_topic_id registered \<or>
                       tp_partitions details \<noteq> idn_partitions (reg_identity registered)
                    then (blocked ''topic identity changed'', w')
                    else (None, w')))"

definition inspect_slot :: "'w capture \<Rightarrow> source \<Rightarrow> names \<Rightarrow> 'w \<Rightarrow> finding \<times> 'w" where
  "inspect_slot C src names w =
     (case cap_slot C (src_id src) (nm_slot names) w of
        (Inl e, w') \<Rightarrow> (unavailable ''replication slot health unavailable'', w')
      | (Inr sl, w') \<Rightarrow>
          if \<not> sl_exists sl \<or> history_lost sl
          then (blocked ''replication slot or WAL history lost'', w')
          else (None, w'))"

definition inspect_connector :: "'w capture \<Rightarrow> names \<Rightarrow> 'w \<Rightarrow> finding \<times> 'w" where
  "inspect_connector C names w =
     (case cap_connector C (nm_connector names) w of
        (Inl e, w') \<Rightarrow>
          (if is_connector_missing e then blocked ''established connector missing''
           else unavailable ''capture connector unavailable'', w')
      | (Inr st, w') \<Rightarrow>
          if cs_failed st \<or> cs_connector st \<noteq> StateRunning \<or> cs_tasks st = []
          then (unavailable ''capture connector unavailable'', w')
          else if \<not> tasks_running (cs_tasks st)
          then (unavailable ''capture task unavailable'', w')
          else (None, w'))"

text \<open>The checks in order; the first finding wins.\<close>

fun run_checks :: "('w \<Rightarrow> finding \<times> 'w) list \<Rightarrow> 'w \<Rightarrow> (bytes \<times> bytes) \<times> 'w" where
  "run_checks [] w = ((health_string HealthRunning, []), w)"
| "run_checks (check # checks) w =
     (case check w of
        (Some (h, reason), w') \<Rightarrow> ((health_string h, reason), w')
      | (None, w') \<Rightarrow> run_checks checks w')"

definition inspect_stream :: "'w capture \<Rightarrow> source \<Rightarrow> registration \<Rightarrow> 'w \<Rightarrow> (bytes \<times> bytes) \<times> 'w" where
  "inspect_stream C src registered w =
     (let names = fst (capture_names C src)
      in run_checks
           [inspect_identity C src registered, inspect_names registered names,
            inspect_topic C names registered, inspect_slot C src names, inspect_connector C names] w)"

section \<open>Validation of a registered stream\<close>

definition validate_topic :: "'w capture \<Rightarrow> source \<Rightarrow> identity \<Rightarrow> names \<Rightarrow> registration \<Rightarrow> 'w \<Rightarrow>
    capture_error option \<times> 'w" where
  "validate_topic C src identity names registered w =
     (case cap_topic C (nm_topic names) w of
        (Inl e, w') \<Rightarrow>
          (if map_option fst (topic_metadata e) = Some True then Some e
           else Some (Plain ''topic inspection unavailable''), w')
      | (Inr details, w') \<Rightarrow>
          if \<not> tp_exists details
          then (Some (ContractError (src_table src) ''established topic is missing''), w')
          else (case validate_replication (nm_topic names) details (cap_replication C) of
                  Some e \<Rightarrow> (Some e, w')
                | None \<Rightarrow>
                    if tp_id details \<noteq> reg_topic_id registered
                    then (Some (ContractError (src_table src) ''established topic has a different UUID''), w')
                    else if tp_partitions details \<noteq> idn_partitions identity
                    then (Some (ContractError (src_table src) ''established partition count changed''), w')
                    else (None, w')))"

definition validate_slot :: "'w capture \<Rightarrow> source \<Rightarrow> names \<Rightarrow> 'w \<Rightarrow> capture_error option \<times> 'w" where
  "validate_slot C src names w =
     (case cap_slot C (src_id src) (nm_slot names) w of
        (Inl e, w') \<Rightarrow> (Some (Plain ''slot inspection unavailable''), w')
      | (Inr sl, w') \<Rightarrow>
          if \<not> sl_exists sl
          then (Some (ContractError (src_table src) ''established slot is missing''), w')
          else if history_lost sl
          then (Some (ContractError (src_table src) ''established slot has lost WAL history''), w')
          else (None, w'))"

definition validate_connector :: "'w capture \<Rightarrow> source \<Rightarrow> names \<Rightarrow> 'w \<Rightarrow> capture_error option \<times> 'w" where
  "validate_connector C src names w =
     (case cap_connector C (nm_connector names) w of
        (Inl e, w') \<Rightarrow>
          (if is_connector_missing e
           then Some (ContractError (src_table src) ''established connector is missing'')
           else Some (Plain ''connector is unavailable''), w')
      | (Inr st, w') \<Rightarrow>
          (if cs_failed st then Some (Plain ''connector is unavailable'') else None, w'))"

definition validate_registered_stream :: "'w capture \<Rightarrow> source \<Rightarrow> identity \<Rightarrow> names \<Rightarrow> registration \<Rightarrow> 'w \<Rightarrow>
    capture_error option \<times> 'w" where
  "validate_registered_stream C src identity names registered w =
     (if reg_identity registered \<noteq> identity
      then (Some (ContractError (src_table src) ''established identity differs from the source table''), w)
      else if reg_names registered \<noteq> names
      then (Some (ContractError (src_table src) ''established capture names differ from configuration''), w)
      else (case validate_topic C src identity names registered w of
              (Some e, w1) \<Rightarrow> (Some e, w1)
            | (None, w1) \<Rightarrow>
                (case validate_slot C src names w1 of
                   (Some e, w2) \<Rightarrow> (Some e, w2)
                 | (None, w2) \<Rightarrow> validate_connector C src names w2)))"

section \<open>Provisioning\<close>

text \<open>
  The polls of \<^verbatim>\<open>awaitCapture\<close>, at most \<open>fuel\<close>; \<open>cap_wait\<close> is \<open>True\<close> when the timer fired before the
  context ended.
\<close>

fun await_capture :: "nat \<Rightarrow> 'w capture \<Rightarrow> source \<Rightarrow> names \<Rightarrow> ('w, capture_error option) prog" where
  "await_capture 0 C src names w = (None, w)"
| "await_capture (Suc fuel) C src names w =
     (case cap_connector C (nm_connector names) w of
        (st, w1) \<Rightarrow>
          (case cap_slot C (src_id src) (nm_slot names) w1 of
             (sl, w2) \<Rightarrow>
               if (case (st, sl) of (Inr st, Inr sl) \<Rightarrow> capture_ready st sl | _ \<Rightarrow> False)
               then (Some None, w2)
               else (case cap_wait C w2 of
                       (False, w3) \<Rightarrow>
                         (Some (Some (Plain ''capture did not become ready before provisioning timed out'')), w3)
                     | (True, w3) \<Rightarrow> await_capture fuel C src names w3)))"

definition establish :: "nat \<Rightarrow> 'w capture \<Rightarrow> source \<Rightarrow> identity \<Rightarrow> names \<Rightarrow> publication_mode \<Rightarrow>
    ('w, capture_error + registration) prog" where
  "establish fuel C src identity names publication w =
     (case cap_ensure_topic C names (idn_partitions identity) (cap_replication C) w of
        (Inl e, w1) \<Rightarrow> (Some (Inl e), w1)
      | (Inr topic_id, w1) \<Rightarrow>
          (case cap_ensure_connector C src identity names publication w1 of
             (Some e, w2) \<Rightarrow> (Some (Inl e), w2)
           | (None, w2) \<Rightarrow>
               (case await_capture fuel C src names w2 of
                  (None, w3) \<Rightarrow> (None, w3)
                | (Some (Some e), w3) \<Rightarrow> (Some (Inl e), w3)
                | (Some None, w3) \<Rightarrow>
                    let registered = \<lparr>reg_source = src_id src, reg_identity = identity, reg_names = names,
                                      reg_topic_id = topic_id, reg_blocked = []\<rparr>
                    in (case cap_register C (cap_scope C) registered w3 of
                          (Some e, w4) \<Rightarrow> (Some (Inl e), w4)
                        | (None, w4) \<Rightarrow> (Some (Inr registered), w4)))))"

definition confirm_established :: "'w capture \<Rightarrow> source \<Rightarrow> identity \<Rightarrow> names \<Rightarrow> registration \<Rightarrow> 'w \<Rightarrow>
    (capture_error + registration) \<times> 'w" where
  "confirm_established C src identity names registered w =
     (if reg_blocked registered \<noteq> []
      then (Inl (Plain (''control: source is blocked: '' @ reg_blocked registered)), w)
      else (case validate_registered_stream C src identity names registered w of
              (None, w1) \<Rightarrow> (Inr registered, w1)
            | (Some e, w1) \<Rightarrow>
                if \<not> is_contract e
                then (Inl (Wrapped ''capture health could not be verified; retry provisioning: '' e), w1)
                else (case cap_block C (cap_scope C) (src_id src) (capture_error_text e) w1 of
                        (Some blockErr, w2) \<Rightarrow>
                          (Inl (Wrapped (capture_error_text e @ ''; block source: '') blockErr), w2)
                      | (None, w2) \<Rightarrow>
                          (Inl (Plain (''control: source blocked: '' @ capture_error_text e)), w2))))"

definition provision_source :: "nat \<Rightarrow> 'w capture \<Rightarrow> source \<Rightarrow> ('w, capture_error + registration) prog" where
  "provision_source fuel C src w =
     (case cap_table C (src_id src) w of
        (Inl e, w1) \<Rightarrow> (Some (Inl e), w1)
      | (Inr facts, w1) \<Rightarrow>
          (case identity_from src facts (cap_partitions C) of
             Inl e \<Rightarrow> (Some (Inl e), w1)
           | Inr identity \<Rightarrow>
               (case capture_names C src of
                  (names, publication) \<Rightarrow>
                    (case cap_get_stream C (cap_scope C) (src_id src) w1 of
                       (Inl e, w2) \<Rightarrow> (Some (Inl e), w2)
                     | (Inr (Some registered), w2) \<Rightarrow>
                         (case confirm_established C src identity names registered w2 of
                            (res, w3) \<Rightarrow> (Some res, w3))
                     | (Inr None, w2) \<Rightarrow> establish fuel C src identity names publication w2))))"

end
