(* ===== verification/ProvisionLaws.thy ===== *)
theory ProvisionLaws
  imports Provision
begin

text \<open>
  What provisioning guarantees: which tables the contract admits, that names fit PostgreSQL, that an
  inspection blocks only on evidence and always says why, and that a registration is made only of a
  capture that was seen ready.
\<close>

section \<open>The contract\<close>

lemma configured_loop_Inr:
  "configured_loop table facts names columns missing = Inr cs \<longleftrightarrow>
   missing = [] \<and>
   (\<forall>n \<in> set names. \<exists>c. map_of facts n = Some c \<and> pg_supported (cf_type c)) \<and>
   cs = columns @ map (\<lambda>n. \<lparr>col_name = n, col_type = cf_type (the (map_of facts n))\<rparr>) names"
  by (induction table facts names columns missing rule: configured_loop.induct)
     (auto split: option.splits)

lemma configured_loop_Inl: "configured_loop table facts names columns missing = Inl e \<Longrightarrow> is_contract e"
  by (induction table facts names columns missing rule: configured_loop.induct)
     (auto split: option.splits if_splits)

lemma check_serial_None:
  "check_serial_column src facts = None \<longleftrightarrow>
   (\<exists>c. map_of (tf_columns facts) (src_serial src) = Some c \<and> pg_integer (cf_type c) \<and> cf_not_null c) \<and>
   tf_serial_unique facts"
  by (auto simp: check_serial_column_def Let_def split: option.splits)

lemma check_partitioning_None:
  "check_partitioning_column src facts = None \<longleftrightarrow>
   (\<exists>c. map_of (tf_columns facts) (src_partitioning src) = Some c \<and> cf_not_null c)"
  by (auto simp: check_partitioning_column_def Let_def split: option.splits)

lemma check_contract:
  "check_serial_column src facts = Some e \<Longrightarrow> is_contract e"
  "check_partitioning_column src facts = Some e \<Longrightarrow> is_contract e"
  by (auto simp: check_serial_column_def check_partitioning_column_def Let_def split: option.splits if_splits)

text \<open>The tables the contract admits.\<close>

definition admissible :: "source \<Rightarrow> table_facts \<Rightarrow> bool" where
  "admissible src facts \<longleftrightarrow>
     tf_exists facts \<and>
     (\<forall>n \<in> set (src_columns src). \<exists>c. map_of (tf_columns facts) n = Some c \<and> pg_supported (cf_type c)) \<and>
     (\<exists>c. map_of (tf_columns facts) (src_serial src) = Some c \<and> pg_integer (cf_type c) \<and> cf_not_null c) \<and>
     tf_serial_unique facts \<and>
     (\<exists>c. map_of (tf_columns facts) (src_partitioning src) = Some c \<and> cf_not_null c)"

lemma identity_from_Inr:
  "identity_from src facts partitions = Inr identity \<longleftrightarrow>
   admissible src facts \<and>
   identity = \<lparr>idn_table = src_table src, idn_serial = src_serial src,
     idn_partitioning = src_partitioning src, idn_event_id = event_id_column (src_columns src),
     idn_partitions = partitions,
     idn_columns = map (\<lambda>n. \<lparr>col_name = n, col_type = cf_type (the (map_of (tf_columns facts) n))\<rparr>)
       (src_columns src)\<rparr>"
proof -
  let ?cs = "map (\<lambda>n. \<lparr>col_name = n, col_type = cf_type (the (map_of (tf_columns facts) n))\<rparr>) (src_columns src)"
  let ?supported = "\<forall>n \<in> set (src_columns src). \<exists>c. map_of (tf_columns facts) n = Some c \<and> pg_supported (cf_type c)"
  have columns: "configured_columns src facts = Inr cs \<longleftrightarrow> ?supported \<and> cs = ?cs" for cs
    by (simp add: configured_columns_def configured_loop_Inr)
  have admits: "admissible src facts \<longleftrightarrow> tf_exists facts \<and> ?supported \<and>
      check_serial_column src facts = None \<and> check_partitioning_column src facts = None"
    by (auto simp: admissible_def check_serial_None check_partitioning_None)
  show ?thesis
  proof (cases "configured_columns src facts")
    case (Inl e)
    with columns [of ?cs] have "\<not> ?supported" by auto
    with Inl show ?thesis by (auto simp: identity_from_def admits)
  next
    case (Inr cs)
    with columns [of cs] have "?supported" "cs = ?cs" by auto
    with Inr show ?thesis by (auto simp: identity_from_def admits split: option.splits)
  qed
qed

lemma identity_from_Inl: "identity_from src facts partitions = Inl e \<Longrightarrow> is_contract e"
  by (auto simp: identity_from_def configured_columns_def dest: configured_loop_Inl check_contract
      split: if_splits sum.splits option.splits)

section \<open>Names\<close>

definition name_char :: "char \<Rightarrow> bool" where
  "name_char c \<longleftrightarrow> 97 \<le> byte c \<and> byte c \<le> 122 \<or> is_digit c \<or> c = CHR ''_''"

lemma hex_digit_name: "d < 16 \<Longrightarrow> name_char (hex_digit d)"
  by (auto simp: hex_digit_def name_char_def is_digit_def)

lemma hex_encode_name: "\<forall>b \<in> set bs. b < 256 \<Longrightarrow> list_all name_char (hex_encode bs)"
  by (induction bs) (auto simp: hex_encode_def hex2_def intro!: hex_digit_name)

lemma generation_string_name: "0 \<le> g \<Longrightarrow> list_all name_char (generation_string g)"
  using nat_str_digits [of "nat g"]
  by (auto simp: generation_string_def int_str_def list_all_iff name_char_def)

lemma length_generation_string: "0 \<le> g \<Longrightarrow> g < 2 ^ 63 \<Longrightarrow> length (generation_string g) \<le> 19"
  using length_nat_str [of "nat g" 19] by (simp add: generation_string_def int_str_def)

lemma names_prefix_name: "0 \<le> g \<Longrightarrow> list_all name_char (names_prefix n e i g)"
  using hex_encode_name [of "take 14 (sha256 (hash_input n e i g))"] sha256_less [of _ "hash_input n e i g"]
    generation_string_name [of g]
  by (auto simp: names_prefix_def name_char_def dest: in_set_takeD)

lemma length_names_prefix: "0 \<le> g \<Longrightarrow> g < 2 ^ 63 \<Longrightarrow> length (names_prefix n e i g) \<le> 56"
  using length_generation_string [of g] by (simp add: names_prefix_def)

section \<open>Inspections\<close>

text \<open>What a check can report: a reason with every finding, and never that all is well.\<close>

definition honest :: "('w \<Rightarrow> finding \<times> 'w) \<Rightarrow> bool" where
  "honest check \<longleftrightarrow>
     (\<forall>w h reason w'. check w = (Some (h, reason), w') \<longrightarrow>
        h \<noteq> HealthRunning \<and> (h = HealthBlocked \<longrightarrow> reason \<noteq> []))"

lemma honest_checks:
  "honest (inspect_identity C src registered)" "honest (inspect_names registered names)"
  "honest (inspect_topic C names registered)" "honest (inspect_slot C src names)"
  "honest (inspect_connector C names)"
  by (auto simp: honest_def inspect_identity_def inspect_names_def inspect_topic_def inspect_slot_def
      inspect_connector_def table_failure_def blocked_def unavailable_def
      split: prod.splits sum.splits option.splits if_splits)

lemma run_checks_states:
  assumes "\<forall>check \<in> set checks. honest check" and "run_checks checks w = ((state, reason), w')"
  shows "state = ''running'' \<and> reason = [] \<or> state = ''blocked'' \<and> reason \<noteq> [] \<or> state = ''unavailable''"
  using assms
proof (induction checks arbitrary: w)
  case (Cons check checks)
  obtain f w1 where f: "check w = (f, w1)" by (rule prod.exhaust)
  show ?case
  proof (cases f)
    case None
    with f Cons show ?thesis by simp
  next
    case (Some x)
    obtain h r where x: "x = (h, r)" by (rule prod.exhaust)
    with Some f Cons.prems have "h \<noteq> HealthRunning" "h = HealthBlocked \<longrightarrow> r \<noteq> []"
      "state = health_string h" "reason = r"
      by (auto simp: honest_def)
    then show ?thesis by (cases h) auto
  qed
qed auto

lemma inspect_stream_states:
  assumes "inspect_stream C src registered w = ((state, reason), w')"
  shows "state = ''running'' \<and> reason = [] \<or> state = ''blocked'' \<and> reason \<noteq> [] \<or> state = ''unavailable''"
  by (rule run_checks_states [OF _ assms [unfolded inspect_stream_def Let_def]]) (simp add: honest_checks)

text \<open>The interface the control service relies on.\<close>

locale source_monitor =
  fixes inspect :: "source \<Rightarrow> registration \<Rightarrow> 'w \<Rightarrow> (bytes \<times> bytes) \<times> 'w"
  assumes states: "inspect src registered w = ((state, reason), w') \<Longrightarrow>
      state = ''running'' \<and> reason = [] \<or> state = ''blocked'' \<and> reason \<noteq> [] \<or> state = ''unavailable''"
begin

lemma blocked_reason: "inspect src registered w = ((''blocked'', reason), w') \<Longrightarrow> reason \<noteq> []"
  using states by fastforce

lemma running_reason: "inspect src registered w = ((''running'', reason), w') \<Longrightarrow> reason = []"
  using states by fastforce

end

interpretation provisioning: source_monitor "inspect_stream C" for C
  by unfold_locales (rule inspect_stream_states)

text \<open>What \<^verbatim>\<open>running\<close> means: in the order of the checks, every dependency answered, and as registered.\<close>

definition intact :: "'w capture \<Rightarrow> source \<Rightarrow> registration \<Rightarrow> table_facts \<Rightarrow> topic_facts \<Rightarrow> slot_status \<Rightarrow>
    connector_status \<Rightarrow> bool" where
  "intact C src registered table topic sl st \<longleftrightarrow>
     identity_from src table (cap_partitions C) = Inr (reg_identity registered) \<and>
     reg_names registered = fst (capture_names C src) \<and>
     tp_exists topic \<and> (\<forall>(part, count) \<in> set (tp_replicas topic). count = cap_replication C) \<and>
     tp_id topic = reg_topic_id registered \<and> tp_partitions topic = idn_partitions (reg_identity registered) \<and>
     sl_exists sl \<and> \<not> history_lost sl \<and>
     cs_connector st = StateRunning \<and> cs_tasks st \<noteq> [] \<and> \<not> cs_failed st \<and> tasks_running (cs_tasks st)"

lemma validate_replication_None:
  "validate_replication topic facts n = None \<longleftrightarrow> (\<forall>(part, count) \<in> set (tp_replicas facts). count = n)"
proof (cases "find (\<lambda>(part, count). count \<noteq> n) (sort_key fst (tp_replicas facts))")
  case None
  have "validate_replication topic facts n = None" unfolding validate_replication_def None by simp
  moreover have "\<forall>x \<in> set (tp_replicas facts). snd x = n" using None by (auto simp: find_None_iff)
  ultimately show ?thesis by auto
next
  case (Some x)
  then have "x \<in> set (sort_key fst (tp_replicas facts))" "snd x \<noteq> n"
    by (auto dest!: find_SomeD)
  with Some show ?thesis by (cases x) (auto simp: validate_replication_def)
qed

lemma inspect_running:
  assumes "inspect_stream C src registered w = ((''running'', reason), w')"
  shows "\<exists>table w1 topic w2 sl w3 st.
    cap_table C (src_id src) w = (Inr table, w1) \<and>
    cap_topic C (nm_topic (reg_names registered)) w1 = (Inr topic, w2) \<and>
    cap_slot C (src_id src) (nm_slot (reg_names registered)) w2 = (Inr sl, w3) \<and>
    cap_connector C (nm_connector (reg_names registered)) w3 = (Inr st, w') \<and>
    intact C src registered table topic sl st"
  using assms
  by (auto simp: inspect_stream_def Let_def inspect_identity_def inspect_names_def inspect_topic_def
      inspect_slot_def inspect_connector_def table_failure_def blocked_def unavailable_def intact_def
      validate_replication_None
      split: prod.splits sum.splits option.splits if_splits)

section \<open>Provisioning\<close>

lemma validate_topic_None:
  "validate_topic C src identity names registered w = (None, w') \<Longrightarrow>
   \<exists>topic. cap_topic C (nm_topic names) w = (Inr topic, w') \<and> tp_exists topic \<and>
     (\<forall>(part, count) \<in> set (tp_replicas topic). count = cap_replication C) \<and>
     tp_id topic = reg_topic_id registered \<and> tp_partitions topic = idn_partitions identity"
  by (auto simp: validate_topic_def validate_replication_None split: prod.splits sum.splits option.splits if_splits)

lemma validate_slot_None:
  "validate_slot C src names w = (None, w') \<Longrightarrow>
   \<exists>sl. cap_slot C (src_id src) (nm_slot names) w = (Inr sl, w') \<and> sl_exists sl \<and> \<not> history_lost sl"
  by (auto simp: validate_slot_def split: prod.splits sum.splits if_splits)

lemma await_capture_ready:
  "await_capture fuel C src names w = (Some None, w') \<Longrightarrow>
   \<exists>w1 st w2 sl. cap_connector C (nm_connector names) w1 = (Inr st, w2) \<and>
     cap_slot C (src_id src) (nm_slot names) w2 = (Inr sl, w') \<and> capture_ready st sl"
proof (induction fuel arbitrary: w)
  case (Suc fuel)
  then show ?case
    by (auto split: prod.splits sum.splits if_splits bool.splits)
qed simp

lemma await_capture_returns:
  assumes step: "\<And>w w1 st w2 sl w3. cap_connector C (nm_connector names) w = (st, w1) \<Longrightarrow>
      cap_slot C (src_id src) (nm_slot names) w1 = (sl, w2) \<Longrightarrow> cap_wait C w2 = (True, w3) \<Longrightarrow> m w3 < m w"
  shows "m w < fuel \<Longrightarrow> fst (await_capture fuel C src names w) \<noteq> None"
proof (induction fuel arbitrary: w)
  case 0
  then show ?case by simp
next
  case (Suc fuel)
  have "fst (await_capture fuel C src names w3) \<noteq> None"
    if "cap_connector C (nm_connector names) w = (st, w1)" "cap_slot C (src_id src) (nm_slot names) w1 = (sl, w2)"
      "cap_wait C w2 = (True, w3)" for st w1 sl w2 w3
    using Suc.IH [of w3] Suc.prems step [OF that] by linarith
  then show ?case by (auto split: prod.splits bool.splits)
qed

text \<open>A registration is made last, of a capture that was ready just before.\<close>

lemma establish_Inr:
  assumes "establish fuel C src identity names publication w = (Some (Inr g), w')"
  shows "\<exists>topic_id w1 w2 st sl w3.
    g = \<lparr>reg_source = src_id src, reg_identity = identity, reg_names = names, reg_topic_id = topic_id,
         reg_blocked = []\<rparr> \<and>
    cap_connector C (nm_connector names) w1 = (Inr st, w2) \<and>
    cap_slot C (src_id src) (nm_slot names) w2 = (Inr sl, w3) \<and> capture_ready st sl \<and>
    cap_register C (cap_scope C) g w3 = (None, w')"
  using assms
  by (auto simp: establish_def Let_def dest!: await_capture_ready
      split: prod.splits sum.splits option.splits) blast+

text \<open>
  Provisioning a registered stream creates nothing: replacing the operations that create topics,
  connectors and registrations, and the wait, gives the same run.
\<close>

lemma provision_registered:
  assumes "cap_table C (src_id src) w = (Inr facts, w1)"
    and "cap_get_stream C (cap_scope C) (src_id src) w1 = (Inr (Some registered), w2)"
  shows "provision_source fuel (C\<lparr>cap_ensure_topic := f, cap_ensure_connector := g, cap_register := h, cap_wait := k\<rparr>) src w =
         provision_source fuel C src w"
  using assms
  by (simp add: provision_source_def capture_names_def confirm_established_def validate_registered_stream_def
      validate_topic_def validate_slot_def validate_connector_def Let_def
      cong del: if_weak_cong sum.case_cong_weak option.case_cong_weak prod.case_cong_weak)

lemma inspect_blocked:
  assumes "inspect_stream C src g w = ((''blocked'', reason), w')"
  shows "(\<exists>facts w1. cap_table C (src_id src) w = (Inr facts, w1) \<and>
      identity_from src facts (cap_partitions C) \<noteq> Inr (reg_identity g)) \<or>
    (\<exists>e w1. cap_table C (src_id src) w = (Inl e, w1) \<and> is_contract e) \<or>
    reg_names g \<noteq> fst (capture_names C src) \<or>
    (\<exists>w1 topic w2. cap_topic C (nm_topic (reg_names g)) w1 = (Inr topic, w2) \<and>
      (\<not> tp_exists topic \<or> tp_id topic \<noteq> reg_topic_id g \<or>
       tp_partitions topic \<noteq> idn_partitions (reg_identity g))) \<or>
    (\<exists>w1 sl w2. cap_slot C (src_id src) (nm_slot (reg_names g)) w1 = (Inr sl, w2) \<and>
      (\<not> sl_exists sl \<or> history_lost sl)) \<or>
    (\<exists>w1 e w2. cap_connector C (nm_connector (reg_names g)) w1 = (Inl e, w2) \<and> is_connector_missing e)"
proof (cases "reg_names g = fst (capture_names C src)")
  case True
  show ?thesis
    using assms
    unfolding inspect_stream_def Let_def True [symmetric]
    by (auto simp: inspect_identity_def inspect_names_def inspect_topic_def
        inspect_slot_def inspect_connector_def table_failure_def blocked_def unavailable_def
        split: prod.splits sum.splits option.splits if_splits) blast+
qed simp

section \<open>Properties\<close>

text \<open>
  C23. The names of a stream fit PostgreSQL: for every generation of 64 bits the slot and the publication
  have at most 63 bytes, and both are made of lower-case letters, digits and underscores only.
\<close>

theorem names_fit_postgres:
  assumes "1 \<le> generation" and "generation < 2 ^ 63"
  shows "length (nm_slot (names_for namespace environment src generation)) \<le> 63 \<and>
    length (nm_publication (names_for namespace environment src generation)) \<le> 63 \<and>
    list_all name_char (nm_slot (names_for namespace environment src generation)) \<and>
    list_all name_char (nm_publication (names_for namespace environment src generation))"
  using length_names_prefix [of generation namespace environment "src_id src"]
    names_prefix_name [of generation namespace environment "src_id src"] assms
  by (simp add: names_for_def Let_def name_char_def)

definition users_source :: source where
  "users_source =
     \<lparr>src_id = ''users'', src_description = ''Users'', src_table = ''users'', src_columns = [''id''],
      src_serial = ''id'', src_partitioning = ''id''\<rparr>"

theorem names_fit_postgres_witness:
  "length (nm_slot (names_for ''acme'' ''production'' users_source 9223372036854775807)) \<le> 63 \<and>
    length (nm_publication (names_for ''acme'' ''production'' users_source 9223372036854775807)) \<le> 63 \<and>
    list_all name_char (nm_slot (names_for ''acme'' ''production'' users_source 9223372036854775807)) \<and>
    list_all name_char (nm_publication (names_for ''acme'' ''production'' users_source 9223372036854775807))"
  by (rule names_fit_postgres) simp_all

text \<open>
  C24. \<^verbatim>\<open>IdentityFrom\<close> accepts exactly the tables that keep the capture contract: the table exists, every
  configured column exists with a supported type, the serial column is a NOT NULL integer with a unique
  index of its own, and the partitioning column is NOT NULL. The identity it freezes has the configured
  columns in configuration order, and every refusal is a broken contract, never a transient error.
\<close>

theorem identity_iff_contract:
  "(identity_from src facts partitions = Inr identity \<longleftrightarrow>
     tf_exists facts \<and>
     (\<forall>n \<in> set (src_columns src). \<exists>c. map_of (tf_columns facts) n = Some c \<and> pg_supported (cf_type c)) \<and>
     (\<exists>c. map_of (tf_columns facts) (src_serial src) = Some c \<and> pg_integer (cf_type c) \<and> cf_not_null c) \<and>
     tf_serial_unique facts \<and>
     (\<exists>c. map_of (tf_columns facts) (src_partitioning src) = Some c \<and> cf_not_null c) \<and>
     identity = \<lparr>idn_table = src_table src, idn_serial = src_serial src,
       idn_partitioning = src_partitioning src, idn_event_id = event_id_column (src_columns src),
       idn_partitions = partitions,
       idn_columns = map (\<lambda>n. \<lparr>col_name = n, col_type = cf_type (the (map_of (tf_columns facts) n))\<rparr>)
         (src_columns src)\<rparr>) \<and>
   (identity_from src facts partitions = Inl e \<longrightarrow> is_contract e)"
  using identity_from_Inr [of src facts partitions identity] identity_from_Inl [of src facts partitions e]
  by (auto simp: admissible_def)

definition users_facts :: table_facts where
  "users_facts =
     \<lparr>tf_exists = True, tf_columns = [(''id'', \<lparr>cf_type = ''int8'', cf_not_null = True\<rparr>)],
      tf_serial_unique = True\<rparr>"

definition no_index :: capture_error where
  "no_index =
     ContractError ''users''
       (''serialColumn '' @ quote ''id'' @ '' has no unique or primary-key index on it alone'')"

theorem identity_iff_contract_witness:
  "identity_from users_source (users_facts\<lparr>tf_serial_unique := False\<rparr>) 10 = Inl no_index \<and> is_contract no_index"
proof -
  have "identity_from users_source (users_facts\<lparr>tf_serial_unique := False\<rparr>) 10 = Inl no_index"
    by code_simp
  with identity_iff_contract [of users_source "users_facts\<lparr>tf_serial_unique := False\<rparr>" 10 zero_identity no_index]
  show ?thesis by blast
qed

text \<open>A capture that is up, its registration, and a world that counts what is created.\<close>

definition users_identity :: identity where
  "users_identity =
     \<lparr>idn_table = ''users'', idn_serial = ''id'', idn_partitioning = ''id'', idn_event_id = [],
      idn_partitions = 10, idn_columns = [\<lparr>col_name = ''id'', col_type = ''int8''\<rparr>]\<rparr>"

definition up_capture :: "registration option \<Rightarrow> wal_status \<Rightarrow> nat capture" where
  "up_capture known wal =
     \<lparr>cap_scope = \<lparr>sc_namespace = ''acme'', sc_environment = ''production'', sc_generation = 1\<rparr>,
      cap_partitions = 10, cap_replication = 3, cap_publications = [],
      cap_table = (\<lambda>_ w. (Inr users_facts, w)),
      cap_slot = (\<lambda>_ _ w. (Inr \<lparr>sl_exists = True, sl_wal = wal\<rparr>, w)),
      cap_ensure_topic = (\<lambda>_ _ _ w. (Inr ''topic-id'', Suc w)),
      cap_topic = (\<lambda>_ w. (Inr \<lparr>tp_exists = True, tp_id = ''topic-id'', tp_partitions = 10,
                                tp_replicas = [(0, 3)]\<rparr>, w)),
      cap_ensure_connector = (\<lambda>_ _ _ _ w. (None, Suc w)),
      cap_connector = (\<lambda>_ w. (Inr \<lparr>cs_connector = StateRunning, cs_tasks = [StateRunning],
                                    cs_failed = False, cs_trace = []\<rparr>, w)),
      cap_get_stream = (\<lambda>_ _ w. (Inr known, w)),
      cap_register = (\<lambda>_ _ w. (None, Suc w)), cap_block = (\<lambda>_ _ _ w. (None, w)),
      cap_wait = (\<lambda>w. (True, w))\<rparr>"

definition users_registration :: registration where
  "users_registration =
     \<lparr>reg_source = ''users'', reg_identity = users_identity,
      reg_names = fst (capture_names (up_capture None WALReserved) users_source),
      reg_topic_id = ''topic-id'', reg_blocked = []\<rparr>"

lemma users_identity_from: "identity_from users_source users_facts 10 = Inr users_identity"
  by code_simp

lemma up_names: "capture_names (up_capture known wal) users_source =
    (reg_names users_registration, PublicationManaged)"
  by (simp add: users_registration_def capture_names_def up_capture_def Let_def)

lemma up_fields [simp]:
  "cap_partitions (up_capture known wal) = 10" "cap_replication (up_capture known wal) = 3"
  "cap_table (up_capture known wal) i w = (Inr users_facts, w)"
  "cap_slot (up_capture known wal) i j w = (Inr \<lparr>sl_exists = True, sl_wal = wal\<rparr>, w)"
  "cap_ensure_topic (up_capture known wal) ns m k w = (Inr ''topic-id'', Suc w)"
  "cap_topic (up_capture known wal) t w =
     (Inr \<lparr>tp_exists = True, tp_id = ''topic-id'', tp_partitions = 10, tp_replicas = [(0, 3)]\<rparr>, w)"
  "cap_ensure_connector (up_capture known wal) src idn ns pub w = (None, Suc w)"
  "cap_connector (up_capture known wal) c w =
     (Inr \<lparr>cs_connector = StateRunning, cs_tasks = [StateRunning], cs_failed = False, cs_trace = []\<rparr>, w)"
  "cap_get_stream (up_capture known wal) s i w = (Inr known, w)"
  "cap_register (up_capture known wal) s g w = (None, Suc w)"
  by (simp_all add: up_capture_def)

lemma users_registration_fields [simp]:
  "reg_identity users_registration = users_identity" "reg_topic_id users_registration = ''topic-id''"
  "reg_blocked users_registration = []" "idn_partitions users_identity = 10" "src_id users_source = ''users''"
  by (simp_all add: users_registration_def users_identity_def users_source_def)

text \<open>
  C25. Inspection reports a source blocked only on evidence: the table was read and breaks the contract or
  differs from the registered identity, the configuration derives other names, the topic was read and is
  missing or is another one, the slot was read and is missing or lost history, or Connect says the
  connector does not exist. A dependency that cannot answer never blocks a source, and a block always has a
  reason.
\<close>

theorem blocked_on_evidence:
  assumes "inspect_stream C src g w = ((''blocked'', reason), w')"
  shows "reason \<noteq> [] \<and>
    ((\<exists>facts w1. cap_table C (src_id src) w = (Inr facts, w1) \<and>
       identity_from src facts (cap_partitions C) \<noteq> Inr (reg_identity g)) \<or>
     (\<exists>e w1. cap_table C (src_id src) w = (Inl e, w1) \<and> is_contract e) \<or>
     reg_names g \<noteq> fst (capture_names C src) \<or>
     (\<exists>w1 topic w2. cap_topic C (nm_topic (reg_names g)) w1 = (Inr topic, w2) \<and>
       (\<not> tp_exists topic \<or> tp_id topic \<noteq> reg_topic_id g \<or>
        tp_partitions topic \<noteq> idn_partitions (reg_identity g))) \<or>
     (\<exists>w1 sl w2. cap_slot C (src_id src) (nm_slot (reg_names g)) w1 = (Inr sl, w2) \<and>
       (\<not> sl_exists sl \<or> history_lost sl)) \<or>
     (\<exists>w1 e w2. cap_connector C (nm_connector (reg_names g)) w1 = (Inl e, w2) \<and> is_connector_missing e))"
  using provisioning.blocked_reason [OF assms] inspect_blocked [OF assms] by simp

lemma lost_inspection:
  "inspect_stream (up_capture None WALLost) users_source users_registration 0 =
     ((''blocked'', ''replication slot or WAL history lost''), 0)"
  by (simp add: inspect_stream_def up_names Let_def inspect_identity_def users_identity_from inspect_names_def
      inspect_topic_def validate_replication_def inspect_slot_def history_lost_def blocked_def)

theorem blocked_on_evidence_witness:
  "\<exists>w1 sl w2. cap_slot (up_capture None WALLost) (src_id users_source)
      (nm_slot (reg_names users_registration)) w1 = (Inr sl, w2) \<and> (\<not> sl_exists sl \<or> history_lost sl)"
  using blocked_on_evidence [OF lost_inspection] by (auto simp: up_names users_identity_from)

text \<open>
  \<^verbatim>\<open>running\<close> means that everything was checked: the table still yields the registered identity, the
  names are the registered ones, the topic is the registered one with its partitions and every replica,
  the slot exists with its history, and the connector runs with at least one task, all running.
\<close>

theorem running_is_intact:
  assumes "inspect_stream C src g w = ((''running'', reason), w')"
  shows "reason = [] \<and>
    (\<exists>table w1 topic w2 sl w3 st.
      cap_table C (src_id src) w = (Inr table, w1) \<and>
      cap_topic C (nm_topic (reg_names g)) w1 = (Inr topic, w2) \<and>
      cap_slot C (src_id src) (nm_slot (reg_names g)) w2 = (Inr sl, w3) \<and>
      cap_connector C (nm_connector (reg_names g)) w3 = (Inr st, w') \<and>
      identity_from src table (cap_partitions C) = Inr (reg_identity g) \<and>
      reg_names g = fst (capture_names C src) \<and>
      tp_exists topic \<and> (\<forall>(part, count) \<in> set (tp_replicas topic). count = cap_replication C) \<and>
      tp_id topic = reg_topic_id g \<and> tp_partitions topic = idn_partitions (reg_identity g) \<and>
      capture_ready st sl)"
  using provisioning.running_reason [OF assms] inspect_running [OF assms]
  unfolding intact_def capture_ready_def by blast

lemma running_inspection:
  "inspect_stream (up_capture None WALReserved) users_source users_registration 0 = ((''running'', []), 0)"
  by (simp add: inspect_stream_def up_names Let_def inspect_identity_def users_identity_from inspect_names_def
      inspect_topic_def validate_replication_def inspect_slot_def history_lost_def inspect_connector_def
      tasks_running_def)

theorem running_is_intact_witness:
  "\<exists>topic :: topic_facts. tp_id topic = reg_topic_id users_registration \<and>
     (\<forall>(part, count) \<in> set (tp_replicas topic). count = cap_replication (up_capture None WALReserved))"
  using running_is_intact [OF running_inspection] by blast

text \<open>
  C27. Provisioning creates nothing for a stream that is registered: whatever the operations that create
  topics, connectors and registrations would do, and however long a wait would take, the run is the same,
  so none of them is called.
\<close>

theorem provisioning_is_idempotent:
  assumes "cap_table C (src_id src) w = (Inr facts, w1)"
    and "cap_get_stream C (cap_scope C) (src_id src) w1 = (Inr (Some registered), w2)"
  shows "provision_source fuel
      (C\<lparr>cap_ensure_topic := f, cap_ensure_connector := g, cap_register := h, cap_wait := k\<rparr>) src w =
    provision_source fuel C src w"
  using assms by (rule provision_registered)

theorem provisioning_is_idempotent_witness:
  "provision_source 1 ((up_capture (Some users_registration) WALReserved)
      \<lparr>cap_ensure_topic := undefined, cap_ensure_connector := undefined, cap_register := undefined,
       cap_wait := undefined\<rparr>) users_source 5 =
   provision_source 1 (up_capture (Some users_registration) WALReserved) users_source 5"
  by (rule provisioning_is_idempotent [where facts = users_facts and registered = users_registration]) simp_all

text \<open>
  A new registration always points at a capture that worked: when \<^verbatim>\<open>establish\<close> succeeds, its last call
  was the registration, made right after the connector was seen running with running tasks and the slot
  was seen with its history; and it returns exactly the registration it stored, unblocked.
\<close>

lemma registered_when_ready:
  assumes "establish fuel C src identity names publication w = (Some (Inr g), w')"
  shows "\<exists>topic_id w1 w2 st sl w3.
    g = \<lparr>reg_source = src_id src, reg_identity = identity, reg_names = names, reg_topic_id = topic_id,
         reg_blocked = []\<rparr> \<and>
    cap_connector C (nm_connector names) w1 = (Inr st, w2) \<and>
    cap_slot C (src_id src) (nm_slot names) w2 = (Inr sl, w3) \<and> capture_ready st sl \<and>
    cap_register C (cap_scope C) g w3 = (None, w')"
  using assms by (rule establish_Inr)

lemma establishing_run:
  "establish (Suc 0) (up_capture None WALReserved) users_source users_identity (reg_names users_registration)
      PublicationManaged 0 = (Some (Inr users_registration), 3)"
proof -
  have "users_registration = \<lparr>reg_source = ''users'', reg_identity = users_identity,
      reg_names = reg_names users_registration, reg_topic_id = ''topic-id'', reg_blocked = []\<rparr>"
    by (simp add: users_registration_def)
  then show ?thesis
    by (simp add: establish_def capture_ready_def tasks_running_def history_lost_def Let_def)
qed

lemma registered_when_ready_example:
  "\<exists>st sl w3. capture_ready st sl \<and>
    cap_register (up_capture None WALReserved) (cap_scope (up_capture None WALReserved)) users_registration w3 =
      (None, 3)"
  using registered_when_ready [OF establishing_run] by blast

end
