(* ===== verification/Engine.thy ===== *)
theory Engine
  imports Convergence ProvisionLaws
begin

text \<open>
  The engine of one worker process: the control service on the control store, with provisioning as its
  source monitor and any schedule of the workers around it. This is the composition \<^verbatim>\<open>internal/app\<close> makes,
  and the instance of the interfaces of the control service.
\<close>

section \<open>The environment\<close>

text \<open>
  What other goroutines do between two critical sections of an action: the sections of blocks, a reason never being empty, of
  inspections in flight, and of the rest of the loop.
\<close>

datatype 'c intrusion =
    Latching bytes char bytes
  | Publishing bytes bytes bytes
  | Caching registration
  | Refreshing bool bool int
  | Settling "(bytes \<times> 'c subscription) list"
  | Showing bytes
  | Waking bool

fun intrude :: "'c intrusion \<Rightarrow> 'c service \<Rightarrow> 'c service" where
  "intrude (Latching i c reason) s = latch i (c # reason) s"
| "intrude (Publishing i state reason) s = snd (publish i state reason s)"
| "intrude (Caching g) s = snd (cache_stream g s)"
| "intrude (Refreshing control kafka lease) s = s\<lparr>svc_control := control, svc_kafka := kafka, svc_lease := lease\<rparr>"
| "intrude (Settling subs) s = s\<lparr>svc_subs := subs\<rparr>"
| "intrude (Showing status) s = s\<lparr>svc_status := status\<rparr>"
| "intrude (Waking wake) s = s\<lparr>svc_wake := wake\<rparr>"

definition engine :: "('w \<Rightarrow> 'c intrusion list \<times> 'w) \<Rightarrow> 'w capture \<Rightarrow> ('c, 'w) env \<Rightarrow> ('c, 'w) env" where
  "engine schedule C E =
     E\<lparr>env_inspect := inspect_stream C,
       env_between := (\<lambda>w. case schedule w of (is, w') \<Rightarrow> (fold intrude is, w'))\<rparr>"

lemma intrude_section: "section_step s (intrude x s)"
  by (cases x) (auto intro: section_step.intros)

lemma intrude_sections: "section_step\<^sup>*\<^sup>* s (fold intrude is s)"
proof (induction "is" arbitrary: s)
  case (Cons x xs)
  have "section_step\<^sup>*\<^sup>* (intrude x s) (fold intrude xs (intrude x s))" by (rule Cons.IH)
  with intrude_section [of s x] show ?case by (simp add: converse_rtranclp_into_rtranclp)
qed simp

interpretation engine: control_environment "engine schedule C E" for schedule C E
proof unfold_locales
  show "interleaved (engine schedule C E)"
    by (auto simp: interleaved_def engine_def intrude_sections split: prod.splits)
  show "reasoned (engine schedule C E)"
    using provisioning.blocked_reason by (fastforce simp: reasoned_def engine_def)
qed

section \<open>Properties\<close>

text \<open>
  C29. A record that cannot be decoded stops its source for good: all that the worker that meets it does is block the source
  with the error of the decoder as the reason. It returns that error, and the world it leaves is the one \<^verbatim>\<open>Block\<close> leaves, so
  the record was neither sent nor committed. From then on every record any worker of the process is given for that source is
  refused with a cancellation before it is decoded, sent or committed, with the world left as it is, whatever the control
  loop, inspections that were in flight, the operator and the other workers do in between.
\<close>

theorem undecodable_source_stays_closed:
  assumes "wk_gate wk = Some \<lparr>gate_allowed = service_open clock, gate_block = service_block (engine schedule C E)\<rparr>"
    and "service_open clock (wk_source wk) x" and "wk_decode wk raw = Inl e" and "error_text e \<noteq> []"
    and "worker_process fuel c wk raw commit x = (r, x1)" and "(service_step (engine schedule C E))\<^sup>*\<^sup>* x1 x2"
    and "wk_gate wk' = wk_gate wk" and "wk_source wk' = wk_source wk"
  shows "r = Some (Some e) \<and> x1 = snd (run_state (block (engine schedule C E) (wk_source wk) (error_text e)) x) \<and>
    worker_process fuel' c' wk' raw' commit' x2 = (Some (Some Canceled), x2)"
proof -
  have gate: "wk_gate wk = Some (engine.gate.gate_of clock schedule C E)"
    using assms(1) by (simp add: engine.gate.gate_of_def)
  from engine.gate.undecodable_closes [OF gate assms(2-4), of fuel c commit] assms(5)
  have "r = Some (Some e)" "x1 = service_block (engine schedule C E) (wk_source wk) (error_text e) x"
    "shut (wk_source wk) (fst x1)" by auto
  with engine.gate.closed_stops [of wk' clock schedule C E x1 x2] gate assms(6-8)
  show ?thesis by (auto simp: service_block_def)
qed

definition quiet_engine :: "(nat, nat) env" where
  "quiet_engine = engine (\<lambda>w. ([], w)) (up_capture None WALReserved)
     \<lparr>env_get_stream = (\<lambda>_ i w. (Inr (Some users_registration), w)),
      env_block_source = (\<lambda>_ _ _ w. (None, w)), env_ensure = (\<lambda>_ _ w. (None, w)),
      env_subscriptions = (\<lambda>_ w. (Inr [(''billing'', state_running, 1)], w)),
      env_set_desired = (\<lambda>_ i state w. (Inr (i, state, 2), w)),
      env_renew = (\<lambda>_ _ _ w. (None, w)), env_observe = (\<lambda>_ _ _ _ _ w. (None, w)),
      env_observed = (\<lambda>_ _ _ _ w. (Inr True, w)), env_release = (\<lambda>_ _ w. (None, w)),
      env_inspect = (\<lambda>_ _ w. ((source_running, []), w)), env_ping = (\<lambda>w. (None, w)),
      env_consumer = (\<lambda>_ _ w. (Inr 7, w)), env_run = (\<lambda>_ w. ((), w)), env_cancel = (\<lambda>_ w. ((), w)),
      env_stop = (\<lambda>_ w. ((), w)), env_ready = (\<lambda>_ w. (True, w)), env_finished = (\<lambda>_ w. (False, w)),
      env_log = (\<lambda>_ w. ((), w)), env_now = (\<lambda>w. (5, w)), env_err = (\<lambda>w. (None, w)),
      env_wait = (\<lambda>w. (Ended, w)), env_poll = (\<lambda>w. (True, w)), env_range = (\<lambda>is w. (is, w)),
      env_between = (\<lambda>w. (id, w))\<rparr>"

text \<open>A service whose source runs, and a worker that cannot decode.\<close>

definition open_service :: "nat service" where
  "open_service =
     billing_service\<lparr>svc_control := True, svc_kafka := True, svc_lease := 100,
       svc_states := [(''users'', \<lparr>ss_id = ''users'', ss_state = source_running, ss_error = []\<rparr>)]\<rparr>"

definition failing_worker :: "(nat service \<times> nat) worker" where
  "failing_worker =
     \<lparr>wk_processor =
        \<lparr>pr_send = (\<lambda>_ _ w. (Inr Delivered, w)),
         pr_destination = \<lparr>dst_id = ''billing'', dst_description = [], dst_filter = None\<rparr>,
         pr_sleep = (\<lambda>_ w. (None, w)), pr_jitter = (\<lambda>_ w. (0, w))\<rparr>,
      wk_decode = (\<lambda>_. Inl (Errorf ''bad row'')), wk_has_skip = (\<lambda>_ _ _ w. (Inr False, w)),
      wk_save_skip = (\<lambda>_ _ _ w. (None, w)), wk_scope = example_scope, wk_destination = ''billing'',
      wk_source = ''users'',
      wk_gate = Some \<lparr>gate_allowed = service_open (\<lambda>_. 5), gate_block = service_block quiet_engine\<rparr>,
      wk_log = None\<rparr>"

definition blocked_world :: "nat service \<times> nat" where
  "blocked_world = snd (worker_process 1 endless failing_worker example_raw (\<lambda>_ w. (None, w)) (open_service, 0))"

theorem undecodable_source_stays_closed_witness:
  "Some (Some (Errorf ''bad row'')) = Some (Some (Errorf ''bad row'')) \<and>
   blocked_world = snd (run_state (block (engine (\<lambda>w. ([], w)) (up_capture None WALReserved) quiet_engine)
     (wk_source failing_worker) (error_text (Errorf ''bad row''))) (open_service, 0)) \<and>
   worker_process 9 endless failing_worker example_raw (\<lambda>_ w. (None, w))
     (snd (run_state (reconcile quiet_engine) blocked_world)) =
   (Some (Some Canceled), snd (run_state (reconcile quiet_engine) blocked_world))"
proof (rule undecodable_source_stays_closed)
  show "wk_gate failing_worker = Some \<lparr>gate_allowed = service_open (\<lambda>_. 5), gate_block = service_block
      (engine (\<lambda>w. ([], w)) (up_capture None WALReserved) quiet_engine)\<rparr>"
    by (simp add: failing_worker_def quiet_engine_def engine_def)
  show "service_open (\<lambda>_. 5) (wk_source failing_worker) (open_service, 0)"
    by (simp add: service_open_def allowed_def open_service_def failing_worker_def state_of_def)
  show "wk_decode failing_worker example_raw = Inl (Errorf ''bad row'')"
    by (simp add: failing_worker_def)
  show "worker_process 1 endless failing_worker example_raw (\<lambda>_ w. (None, w)) (open_service, 0) =
      (Some (Some (Errorf ''bad row'')), blocked_world)"
    by (simp add: blocked_world_def worker_process_def failing_worker_def worker_allowed_def service_open_def
        allowed_def open_service_def state_of_def)
  have "engine (\<lambda>w. ([], w)) (up_capture None WALReserved) quiet_engine = quiet_engine"
    by (simp add: quiet_engine_def engine_def)
  moreover have "(service_step quiet_engine)\<^sup>*\<^sup>* blocked_world (snd (run_state (reconcile quiet_engine) blocked_world))"
    by (rule r_into_rtranclp, rule service_step.pass, rule surjective_pairing)
  ultimately show "(service_step (engine (\<lambda>w. ([], w)) (up_capture None WALReserved) quiet_engine))\<^sup>*\<^sup>*
      blocked_world (snd (run_state (reconcile quiet_engine) blocked_world))"
    by simp
qed (simp_all add: error_text_def)

end
