(* ===== verification/Payload.thy ===== *)
theory Payload
  imports StreamModel GoJson
begin

text \<open>
  \<^verbatim>\<open>internal/protocol/payload.go\<close>: one column value of a change event, checked against the column's
  type and rewritten to the JSON value of the envelope. Numbers stay digits, so nothing is rounded;
  timestamps go through the calendar of Go's \<^verbatim>\<open>time\<close> package, which is modelled here as far as the
  code uses it. The errors name the column and never hold the value.
\<close>

type_synonym converted = "go_error + bytes"

section \<open>Decimals\<close>

definition max_expanded_digits :: int where
  "max_expanded_digits = 1048576"

record decimal =
  dec_negative :: bool
  dec_digits :: bytes
  dec_point :: int

text \<open>
  \<^verbatim>\<open>numberLiteral\<close>: \<^verbatim>\<open>UseNumber\<close> keeps the text of a number; \<open>trim_space\<close> has removed all the
  space around it already.
\<close>

definition number_literal :: "bytes \<Rightarrow> bytes option" where
  "number_literal raw =
     (let s = trim_space raw
      in if s = [] \<or> \<not> json_valid s then None
         else if json_kind_of s \<noteq> JNumber then None
         else Some s)"

definition split_sign :: "bytes \<Rightarrow> bool \<times> bytes" where
  "split_sign number = (if has_prefix number ''-'' then (True, drop 1 number) else (False, number))"

definition split_exponent :: "bytes \<Rightarrow> (bytes \<times> int) option" where
  "split_exponent number =
     (case dropWhile (\<lambda>c. \<not> is_exp_char c) number of
        [] \<Rightarrow> Some (number, 0)
      | _ # digits \<Rightarrow>
          (case parse_int 64 digits of
             None \<Rightarrow> None
           | Some parsed \<Rightarrow>
               if parsed > max_expanded_digits \<or> parsed < - max_expanded_digits then None
               else Some (takeWhile (\<lambda>c. \<not> is_exp_char c) number, parsed)))"

definition drop_point :: "bytes \<Rightarrow> int \<Rightarrow> bytes \<times> int" where
  "drop_point mantissa exponent =
     (case cut (CHR ''.'') mantissa of
        (before, after, found) \<Rightarrow>
          if \<not> found then (mantissa, int (length mantissa) + exponent)
          else (before @ after, int (length before) + exponent))"

definition parse_decimal :: "bytes \<Rightarrow> decimal option" where
  "parse_decimal raw =
     (case number_literal raw of
        None \<Rightarrow> None
      | Some literal \<Rightarrow>
          (case split_sign literal of (negative, magnitude) \<Rightarrow>
             (case split_exponent magnitude of
                None \<Rightarrow> None
              | Some (mantissa, exponent) \<Rightarrow>
                  (case drop_point mantissa exponent of (digits, point) \<Rightarrow>
                     if digits = [] \<or> point < - max_expanded_digits \<or> point > max_expanded_digits
                     then None
                     else Some \<lparr>dec_negative = negative, dec_digits = digits, dec_point = point\<rparr>))))"

definition place_point :: "bytes \<Rightarrow> int \<Rightarrow> bytes" where
  "place_point digits point =
     (if point \<le> 0 then ''0.'' @ replicate (nat (- point)) (CHR ''0'') @ digits
      else if point \<ge> int (length digits)
      then digits @ replicate (nat (point - int (length digits))) (CHR ''0'')
      else take (nat point) digits @ ''.'' @ drop (nat point) digits)"

definition trim_leading_zeros :: "bytes \<Rightarrow> bytes" where
  "trim_leading_zeros number =
     (case cut (CHR ''.'') number of
        (integer, fraction, found) \<Rightarrow>
          let trimmed = trim_left_char (CHR ''0'') integer;
              integer' = (if trimmed = [] then ''0'' else trimmed)
          in if \<not> found then integer' else integer' @ ''.'' @ fraction)"

definition decimal_string :: "decimal \<Rightarrow> bytes" where
  "decimal_string d =
     (if dec_negative d then ''-'' else '''') @ trim_leading_zeros (place_point (dec_digits d) (dec_point d))"

definition expand_decimal :: "bytes \<Rightarrow> bytes option" where
  "expand_decimal raw = map_option decimal_string (parse_decimal raw)"

section \<open>Literals and texts\<close>

definition invalid :: "bytes \<Rightarrow> bytes \<Rightarrow> go_error" where
  "invalid field what = Errorf (''field '' @ quote field @ '' is not '' @ what)"

definition raw_null :: "bytes \<Rightarrow> bool" where
  "raw_null raw \<longleftrightarrow> trim_space raw = ''null''"

definition integer_literal :: "bytes \<Rightarrow> bytes \<Rightarrow> bytes \<Rightarrow> nat \<Rightarrow> converted" where
  "integer_literal raw field name bits =
     (case parse_int bits (trim_space raw) of
        None \<Rightarrow> Inl (invalid field (''a valid '' @ name))
      | Some _ \<Rightarrow> Inr raw)"

text \<open>
  \<^verbatim>\<open>ParseFloat\<close> reads more than JSON numbers, but the expansion that follows accepts those only, with
  the same error; so the range check matters for a JSON number alone.
\<close>

definition float_literal :: "bytes \<Rightarrow> bytes \<Rightarrow> bytes \<Rightarrow> nat \<Rightarrow> converted" where
  "float_literal raw field name bits =
     (case number_literal raw of
        None \<Rightarrow> Inl (invalid field (''a valid '' @ name))
      | Some literal \<Rightarrow>
          if \<not> float_fits bits literal then Inl (invalid field (''a valid '' @ name))
          else (case expand_decimal raw of
                  None \<Rightarrow> Inl (invalid field (''a valid '' @ name))
                | Some expanded \<Rightarrow> Inr expanded))"

definition bool_literal :: "bytes \<Rightarrow> bytes \<Rightarrow> converted" where
  "bool_literal raw field =
     (let v = trim_space raw
      in if v \<noteq> ''true'' \<and> v \<noteq> ''false'' then Inl (invalid field ''a valid bool'') else Inr raw)"

definition decode_string :: "bytes \<Rightarrow> bytes \<Rightarrow> converted" where
  "decode_string raw field =
     (case json_string raw of None \<Rightarrow> Inl (invalid field ''a string'') | Some value \<Rightarrow> Inr value)"

definition json_text :: "bytes \<Rightarrow> bytes \<Rightarrow> converted" where
  "json_text raw field =
     (case decode_string raw field of
        Inl _ \<Rightarrow> Inl (invalid field ''valid JSON text'')
      | Inr value \<Rightarrow> if \<not> json_valid value then Inl (invalid field ''valid JSON text'') else Inr raw)"

definition plain_text :: "bytes \<Rightarrow> bytes \<Rightarrow> converted" where
  "plain_text raw field = (case decode_string raw field of Inl e \<Rightarrow> Inl e | Inr _ \<Rightarrow> Inr raw)"

text \<open>
  \<^verbatim>\<open>encoding/base64\<close>: line breaks are skipped; the standard encoding is padded to groups of four, the
  raw one has no padding and no group of one.
\<close>

definition base64_char :: "char \<Rightarrow> bool" where
  "base64_char c \<longleftrightarrow>
     between 65 90 (byte c) \<or> between 97 122 (byte c) \<or> is_digit c \<or> c = CHR ''+'' \<or> c = CHR ''/''"

definition base64_body :: "bytes \<Rightarrow> bytes" where
  "base64_body s = filter (\<lambda>c. byte c \<noteq> 10 \<and> byte c \<noteq> 13) s"

definition base64_padded :: "bytes \<Rightarrow> bool" where
  "base64_padded s =
     (let t = base64_body s; u = trim_right_char (CHR ''='') t
      in length t mod 4 = 0 \<and> length t - length u \<le> 2 \<and> list_all base64_char u)"

definition base64_raw :: "bytes \<Rightarrow> bool" where
  "base64_raw s = (let t = base64_body s in length t mod 4 \<noteq> 1 \<and> list_all base64_char t)"

definition base64_text :: "bytes \<Rightarrow> bytes \<Rightarrow> converted" where
  "base64_text raw field =
     (case decode_string raw field of
        Inl e \<Rightarrow> Inl e
      | Inr value \<Rightarrow>
          if \<not> base64_padded value \<and> \<not> base64_raw value then Inl (invalid field ''valid base64'')
          else Inr raw)"

section \<open>Civil dates\<close>

text \<open>
  The part of Go's \<^verbatim>\<open>time\<close> package the conversion uses, in the proleptic Gregorian calendar: days are
  counted from 1970-01-01, and the date of a day is found by cycles of 400, 100, 4 and 1 years.
\<close>

definition leap :: "int \<Rightarrow> bool" where
  "leap y \<longleftrightarrow> y mod 4 = 0 \<and> (y mod 100 \<noteq> 0 \<or> y mod 400 = 0)"

definition month_lengths :: "bool \<Rightarrow> int list" where
  "month_lengths l = [31, if l then 29 else 28, 31, 30, 31, 30, 31, 31, 30, 31, 30, 31]"

text \<open>Month and day of the 0-based day of a year.\<close>

fun month_day :: "int list \<Rightarrow> int \<Rightarrow> int \<Rightarrow> int \<times> int" where
  "month_day [] m d = (m, d + 1)"
| "month_day (n # ns) m d = (if d < n then (m, d + 1) else month_day ns (m + 1) (d - n))"

definition cycles :: "int \<Rightarrow> int \<Rightarrow> int \<times> int" where
  "cycles len d = (d div len, d mod len)"

text \<open>Of the last, shorter cycle there are at most four.\<close>

definition cycles4 :: "int \<Rightarrow> int \<Rightarrow> int \<times> int" where
  "cycles4 len d = (min 3 (d div len), d - len * min 3 (d div len))"

definition civil_date :: "int \<Rightarrow> int \<times> int \<times> int" where
  "civil_date days =
     (case cycles 146097 (days + 719162) of (n400, d1) \<Rightarrow>
      case cycles4 36524 d1 of (n100, d2) \<Rightarrow>
      case cycles 1461 d2 of (n4, d3) \<Rightarrow>
      case cycles4 365 d3 of (n1, yday) \<Rightarrow>
        let year = 1 + 400 * n400 + 100 * n100 + 4 * n4 + n1
        in (year, month_day (month_lengths (leap year)) 1 yday))"

text \<open>\<^verbatim>\<open>time.Date\<close>: the day number of a date.\<close>

definition day_number :: "int \<Rightarrow> int \<Rightarrow> int \<Rightarrow> int" where
  "day_number y m d =
     365 * (y - 1) + (y - 1) div 4 - (y - 1) div 100 + (y - 1) div 400
     + sum_list (take (nat (m - 1)) (month_lengths (leap y))) + (d - 1) - 719162"

text \<open>An instant is seconds since 1970-01-01 and nanoseconds of the second.\<close>

record instant =
  ins_second :: int
  ins_nano :: int

definition unix_micro :: "int \<Rightarrow> instant" where
  "unix_micro micros = \<lparr>ins_second = micros div 1000000, ins_nano = micros mod 1000000 * 1000\<rparr>"

text \<open>\<^verbatim>\<open>appendInt\<close>: decimal digits, padded with zeros to a width, after the sign.\<close>

definition pad_int :: "nat \<Rightarrow> int \<Rightarrow> bytes" where
  "pad_int width i =
     (let digits = nat_str (nat \<bar>i\<bar>)
      in (if i < 0 then ''-'' else '''') @ replicate (width - length digits) (CHR ''0'') @ digits)"

definition clock_text :: "int \<Rightarrow> bytes" where
  "clock_text s =
     pad_int 2 (s div 3600) @ '':'' @ pad_int 2 (s div 60 mod 60) @ '':'' @ pad_int 2 (s mod 60)"

definition date_text :: "int \<times> int \<times> int \<Rightarrow> bytes" where
  "date_text date =
     (case date of (y, m, d) \<Rightarrow> pad_int 4 y @ ''-'' @ pad_int 2 m @ ''-'' @ pad_int 2 d)"

definition format_timestamp :: "instant \<Rightarrow> bool \<Rightarrow> bytes" where
  "format_timestamp value zone =
     (let fraction = trim_right_char (CHR ''0'') (pad_int 9 (ins_nano value))
      in date_text (civil_date (ins_second value div 86400)) @ '' '' @
         clock_text (ins_second value mod 86400) @
         (if fraction \<noteq> [] then ''.'' @ fraction else '''') @ (if zone then ''+00'' else ''''))"

definition timestamp_from_micros :: "bytes \<Rightarrow> bytes \<Rightarrow> converted" where
  "timestamp_from_micros raw field =
     (case parse_int 64 (trim_space raw) of
        None \<Rightarrow> Inl (invalid field ''valid timestamp microseconds'')
      | Some micros \<Rightarrow> Inr (quote (format_timestamp (unix_micro micros) False)))"

section \<open>RFC 3339\<close>

text \<open>
  \<^verbatim>\<open>time.Parse\<close> with the layout \<^verbatim>\<open>RFC3339Nano\<close>. Beyond the standard it takes an hour of one digit,
  a comma before the fraction and zone offsets up to 24:60; of the fraction it keeps nine digits.
\<close>

type_synonym 'a parser = "bytes \<Rightarrow> ('a \<times> bytes) option"

definition get_num :: "bool \<Rightarrow> int parser" where
  "get_num fixed s =
     (case s of
        [] \<Rightarrow> None
      | a # r \<Rightarrow>
          if \<not> is_digit a then None
          else (case r of
                  b # r' \<Rightarrow>
                    if is_digit b then Some (int (digits_val [a, b]), r')
                    else if fixed then None else Some (int (digit_val a), r)
                | [] \<Rightarrow> if fixed then None else Some (int (digit_val a), [])))"

definition get_year :: "int parser" where
  "get_year s =
     (if 4 \<le> length s \<and> list_all is_digit (take 4 s) then Some (int (digits_val (take 4 s)), drop 4 s)
      else None)"

definition expect :: "char \<Rightarrow> unit parser" where
  "expect c s = (case s of d # r \<Rightarrow> if d = c then Some ((), r) else None | [] \<Rightarrow> None)"

definition get_fraction :: "int parser" where
  "get_fraction s =
     (case s of
        c # d # r \<Rightarrow>
          if (c = CHR ''.'' \<or> c = CHR '','') \<and> is_digit d then
            let digits = takeWhile is_digit (d # r); kept = take 9 digits
            in Some (int (digits_val kept * 10 ^ (9 - length kept)), dropWhile is_digit (d # r))
          else Some (0, s)
      | _ \<Rightarrow> Some (0, s))"

text \<open>The zone as seconds east of UTC.\<close>

definition get_zone :: "int parser" where
  "get_zone s =
     (case s of
        [] \<Rightarrow> None
      | z # r \<Rightarrow>
          if z = CHR ''Z'' then Some (0, r)
          else if length s < 6 \<or> s ! 3 \<noteq> CHR '':'' then None
          else (case (get_num True (take 2 r), get_num True (take 2 (drop 3 r))) of
                  (Some (hh, _), Some (mm, _)) \<Rightarrow>
                    if 24 < hh \<or> 60 < mm then None
                    else if z = CHR ''+'' then Some ((hh * 60 + mm) * 60, drop 5 r)
                    else if z = CHR ''-'' then Some (- ((hh * 60 + mm) * 60), drop 5 r)
                    else None
                | _ \<Rightarrow> None))"

definition days_in :: "int \<Rightarrow> int \<Rightarrow> int" where
  "days_in y m = month_lengths (leap y) ! nat (m - 1)"

definition parse_rfc3339 :: "bytes \<Rightarrow> instant option" where
  "parse_rfc3339 s0 =
     Option.bind (get_year s0) (\<lambda>(y, s1).
     Option.bind (expect (CHR ''-'') s1) (\<lambda>(_, s2).
     Option.bind (get_num True s2) (\<lambda>(m, s3).
     if m < 1 \<or> 12 < m then None else
     Option.bind (expect (CHR ''-'') s3) (\<lambda>(_, s4).
     Option.bind (get_num True s4) (\<lambda>(d, s5).
     Option.bind (expect (CHR ''T'') s5) (\<lambda>(_, s6).
     Option.bind (get_num False s6) (\<lambda>(hh, s7).
     if 24 \<le> hh then None else
     Option.bind (expect (CHR '':'') s7) (\<lambda>(_, s8).
     Option.bind (get_num True s8) (\<lambda>(mi, s9).
     if 60 \<le> mi then None else
     Option.bind (expect (CHR '':'') s9) (\<lambda>(_, s10).
     Option.bind (get_num True s10) (\<lambda>(sec, s11).
     if 60 \<le> sec then None else
     Option.bind (get_fraction s11) (\<lambda>(nano, s12).
     Option.bind (get_zone s12) (\<lambda>(offset, s13).
     if s13 \<noteq> [] \<or> d < 1 \<or> days_in y m < d then None
     else Some \<lparr>ins_second = day_number y m d * 86400 + hh * 3600 + mi * 60 + sec - offset,
                ins_nano = nano\<rparr>)))))))))))))"

definition timestamp_from_rfc3339 :: "bytes \<Rightarrow> bytes \<Rightarrow> converted" where
  "timestamp_from_rfc3339 raw field =
     (case decode_string raw field of
        Inl e \<Rightarrow> Inl e
      | Inr value \<Rightarrow>
          (case parse_rfc3339 value of
             None \<Rightarrow> Inl (invalid field ''valid RFC3339'')
           | Some parsed \<Rightarrow> Inr (quote (format_timestamp parsed True))))"

section \<open>One value\<close>

definition convert_value :: "pgtype \<Rightarrow> bytes \<Rightarrow> bytes \<Rightarrow> converted" where
  "convert_value typ raw field =
     (if raw_null raw then Inr ''null''
      else if typ = ''int2'' then integer_literal raw field ''int2'' 16
      else if typ = ''int4'' then integer_literal raw field ''int4'' 32
      else if typ = ''int8'' then integer_literal raw field ''int8'' 64
      else if typ = ''float4'' then float_literal raw field ''float4'' 32
      else if typ = ''float8'' then float_literal raw field ''float8'' 64
      else if typ = ''bool'' then bool_literal raw field
      else if typ = ''json'' then json_text raw field
      else if typ = ''bytea'' then base64_text raw field
      else if typ = ''text'' then plain_text raw field
      else if typ = ''timestamp'' then timestamp_from_micros raw field
      else if typ = ''timestamptz'' then timestamp_from_rfc3339 raw field
      else Inl (Errorf (''field '' @ quote field @ '' has unsupported type'')))"

end
