(* ===== verification/PayloadLaws.thy ===== *)
theory PayloadLaws
  imports Complex_Main Payload
begin

text \<open>
  What the conversion of values keeps: a float written without exponent is the same number, digit for
  digit; a timestamp is the same instant; and the result is JSON of the kind its column type promises.
\<close>

section \<open>JSON numbers\<close>

text \<open>The grammar of RFC 8259, which the scanner implements one character at a time.\<close>

definition digits :: "bytes \<Rightarrow> bool" where
  "digits s \<longleftrightarrow> list_all is_digit s"

definition int_part :: "bytes \<Rightarrow> bool" where
  "int_part s \<longleftrightarrow> s = ''0'' \<or> (s \<noteq> [] \<and> digits s \<and> hd s \<noteq> CHR ''0'')"

definition frac_part :: "bytes \<Rightarrow> bool" where
  "frac_part s \<longleftrightarrow> s = [] \<or> (hd s = CHR ''.'' \<and> tl s \<noteq> [] \<and> digits (tl s))"

definition exp_digits :: "bytes \<Rightarrow> bool" where
  "exp_digits s \<longleftrightarrow> (\<exists>sg ds. s = sg @ ds \<and> sg \<in> {'''', ''+'', ''-''} \<and> ds \<noteq> [] \<and> digits ds)"

definition exp_part :: "bytes \<Rightarrow> bool" where
  "exp_part s \<longleftrightarrow> s = [] \<or> (is_exp_char (hd s) \<and> exp_digits (tl s))"

definition unspaced :: "bytes \<Rightarrow> bool" where
  "unspaced s \<longleftrightarrow> s = [] \<or> \<not> jspace (last s)"

lemma digits_simps [simp]: "digits []" "digits (c # s) \<longleftrightarrow> is_digit c \<and> digits s"
  "digits (s @ t) \<longleftrightarrow> digits s \<and> digits t"
  by (auto simp: digits_def)

lemma digit_chars:
  assumes "is_digit c"
  shows "\<not> jspace c" "\<not> is_exp_char c" "c \<noteq> CHR ''.''" "c \<noteq> CHR ''-''" "c \<noteq> CHR ''+''"
  using assms by (auto simp: is_digit_def jspace_def is_exp_char_def)

lemma digit_begins:
  assumes "is_digit c"
  shows "begin_value stk c = Some (if c = CHR ''0'' then Int0 else Int1, stk)"
proof -
  have "c \<noteq> d" if "\<not> is_digit d" for d using that assms by auto
  then have "c \<noteq> CHR ''{''" "c \<noteq> CHR ''[''" "c \<noteq> CHR 0x22" "c \<noteq> CHR ''-''" "c \<noteq> CHR ''t''"
    "c \<noteq> CHR ''f''" "c \<noteq> CHR ''n''" by (simp_all add: is_digit_def)
  with assms digit_chars(1) show ?thesis by (simp add: begin_value_def)
qed

lemma begins_number:
  assumes "begin_value stk c = Some st" "\<not> jspace c" "c \<noteq> CHR ''{''" "c \<noteq> CHR ''[''" "c \<noteq> CHR 0x22"
    "c \<noteq> CHR ''n''" "c \<noteq> CHR ''t''" "c \<noteq> CHR ''f''" "c \<noteq> CHR ''-''"
  shows "is_digit c \<and> st = (if c = CHR ''0'' then Int0 else Int1, stk)"
proof -
  have "is_digit (CHR ''0'')" by (simp add: is_digit_def)
  with assms have "is_digit c" by (simp add: begin_value_def split: if_splits)
  with assms(1) show ?thesis by (simp add: digit_begins)
qed

lemma end_top_spaces: "jrun (EndTop, []) s = Some st \<Longrightarrow> list_all jspace s"
  by (induction s) (auto split: if_splits)

lemma end_value_unspaced:
  assumes "end_value [] c = Some st" "jrun st s = Some st'" "unspaced (c # s)"
  shows False
proof -
  from assms(1) have c: "jspace c" "st = (EndTop, [])" by (auto split: if_splits)
  with assms(2) have "list_all jspace s" by (simp add: end_top_spaces)
  with c assms(3) show False by (cases s rule: rev_cases) (auto simp: unspaced_def)
qed

lemma unspaced_tl: "unspaced (c # s) \<Longrightarrow> unspaced s"
  by (auto simp: unspaced_def split: if_splits)

lemma run_exp_dig:
  "jrun (ExpDig, []) s = Some st \<Longrightarrow> unspaced s \<Longrightarrow> digits s"
proof (induction s)
  case (Cons c s)
  show ?case
  proof (cases "is_digit c")
    case True
    with Cons unspaced_tl show ?thesis by auto
  next
    case False
    with Cons.prems(1) obtain st1 where "end_value [] c = Some st1" "jrun st1 s = Some st"
      by (auto split: option.splits)
    with Cons.prems(2) show ?thesis by (blast dest: end_value_unspaced)
  qed
qed simp

lemma run_exp:
  assumes "jrun (Exp, []) s = Some st" "jended st" "unspaced s"
  shows "exp_digits s"
proof (cases s)
  case Nil
  with assms show ?thesis by (auto simp: jended_def is_digit_def)
next
  case (Cons c r)
  show ?thesis
  proof (cases "is_digit c")
    case True
    with Cons assms(1) digit_chars(4,5) have "jrun (ExpDig, []) r = Some st" by auto
    with Cons assms(3) have "digits r" by (blast intro: run_exp_dig dest: unspaced_tl)
    with True Cons show ?thesis unfolding exp_digits_def by (intro exI [of _ "[]"] exI [of _ s]) simp
  next
    case False
    with Cons assms(1) have c: "c = CHR ''+'' \<or> c = CHR ''-''" and run: "jrun (ExpSign, []) r = Some st"
      by (auto split: if_splits)
    from run assms(2) obtain d q where r: "r = d # q" by (cases r) (auto simp: jended_def is_digit_def)
    with run have "is_digit d" "jrun (ExpDig, []) q = Some st" by (auto split: if_splits)
    moreover from assms(3) Cons r have "unspaced q" by (metis unspaced_tl)
    ultimately have "digits r" using r run_exp_dig by auto
    with c Cons r show ?thesis
      unfolding exp_digits_def by (intro exI [of _ "[c]"] exI [of _ r]) auto
  qed
qed

lemma run_frac:
  "jrun (Frac, []) s = Some st \<Longrightarrow> jended st \<Longrightarrow> unspaced s \<Longrightarrow>
   \<exists>ds x. s = ds @ x \<and> digits ds \<and> exp_part x"
proof (induction s)
  case Nil
  then show ?case by (auto simp: exp_part_def)
next
  case (Cons c s)
  consider (digit) "is_digit c" | (exp) "is_exp_char c" "\<not> is_digit c" | (other) "\<not> is_digit c" "\<not> is_exp_char c"
    by blast
  then show ?case
  proof cases
    case digit
    with Cons unspaced_tl obtain ds x where "s = ds @ x" "digits ds" "exp_part x" by auto
    with digit show ?thesis by (intro exI [of _ "c # ds"] exI [of _ x]) simp
  next
    case exp
    with Cons.prems have "jrun (Exp, []) s = Some st" by (auto simp: is_exp_char_def is_digit_def)
    with Cons.prems exp show ?thesis
      by (intro exI [of _ "[]"] exI [of _ "c # s"]) (auto simp: exp_part_def intro: run_exp dest: unspaced_tl)
  next
    case other
    with Cons.prems(1) obtain st1 where "end_value [] c = Some st1" "jrun st1 s = Some st"
      by (auto simp: is_exp_char_def split: option.splits)
    with Cons.prems(3) show ?thesis by (blast dest: end_value_unspaced)
  qed
qed

text \<open>What follows the integer part.\<close>

lemma run_after_int:
  assumes run: "jrun (Int0, []) s = Some st" and "jended st" "unspaced s"
  shows "\<exists>f x. s = f @ x \<and> frac_part f \<and> exp_part x"
proof (cases s)
  case Nil
  then show ?thesis by (auto simp: frac_part_def exp_part_def)
next
  case (Cons c r)
  consider (dot) "c = CHR ''.''" | (exp) "is_exp_char c" "c \<noteq> CHR ''.''" | (other) "\<not> is_exp_char c" "c \<noteq> CHR ''.''"
    by blast
  then show ?thesis
  proof cases
    case dot
    with run Cons have "jrun (Dot, []) r = Some st" by simp
    moreover from this assms(2) obtain d q where r: "r = d # q" by (cases r) (auto simp: jended_def is_digit_def)
    ultimately have d: "is_digit d" "jrun (Frac, []) q = Some st" by (auto split: if_splits)
    from assms(3) Cons r have "unspaced q" by (metis unspaced_tl)
    from run_frac [OF d(2) assms(2) this] obtain ds x where "q = ds @ x" "digits ds" "exp_part x" by blast
    with d(1) dot Cons r show ?thesis
      by (intro exI [of _ "c # d # ds"] exI [of _ x]) (simp add: frac_part_def)
  next
    case exp
    with run Cons have "jrun (Exp, []) r = Some st" by (auto simp: is_exp_char_def)
    with exp Cons assms show ?thesis
      by (intro exI [of _ "[]"] exI [of _ s])
         (auto simp: frac_part_def exp_part_def intro: run_exp dest: unspaced_tl)
  next
    case other
    with run Cons obtain st1 where "end_value [] c = Some st1" "jrun st1 r = Some st"
      by (auto simp: is_exp_char_def split: option.splits)
    with assms(3) Cons show ?thesis by (blast dest: end_value_unspaced)
  qed
qed

lemma run_int1:
  "jrun (Int1, []) s = Some st \<Longrightarrow> jended st \<Longrightarrow> unspaced s \<Longrightarrow>
   \<exists>ds f x. s = ds @ f @ x \<and> digits ds \<and> frac_part f \<and> exp_part x"
proof (induction s)
  case Nil
  then show ?case by (auto simp: frac_part_def exp_part_def)
next
  case (Cons c s)
  show ?case
  proof (cases "is_digit c")
    case True
    with Cons unspaced_tl obtain ds f x where "s = ds @ f @ x" "digits ds" "frac_part f" "exp_part x" by auto
    with True show ?thesis by (intro exI [of _ "c # ds"] exI [of _ f] exI [of _ x]) simp
  next
    case False
    with Cons.prems(1) have "jrun (Int0, []) (c # s) = Some st" by simp
    from run_after_int [OF this Cons.prems(2,3)] show ?thesis
      by (metis append_Nil digits_simps(1))
  qed
qed

text \<open>A number literal: sign, integer part, fraction, exponent.\<close>

definition json_number :: "bytes \<Rightarrow> bytes \<Rightarrow> bytes \<Rightarrow> bytes \<Rightarrow> bool" where
  "json_number sg ip fp x \<longleftrightarrow>
     sg \<in> {'''', ''-''} \<and> int_part ip \<and> frac_part fp \<and> exp_part x"

lemma run_unsigned:
  assumes s: "s = c # r" "is_digit c"
    and run: "jrun (if c = CHR ''0'' then Int0 else Int1, []) r = Some st" "jended st" "unspaced s"
  shows "\<exists>ip fp x. s = ip @ fp @ x \<and> int_part ip \<and> frac_part fp \<and> exp_part x"
proof (cases "c = CHR ''0''")
  case True
  with run(1) have "jrun (Int0, []) r = Some st" by simp
  from run_after_int [OF this run(2)] run(3) s unspaced_tl
  obtain f x where "r = f @ x" "frac_part f" "exp_part x" by blast
  with s True show ?thesis
    by (intro exI [of _ "''0''"] exI [of _ f] exI [of _ x]) (simp add: int_part_def)
next
  case False
  with run(1) have "jrun (Int1, []) r = Some st" by simp
  from run_int1 [OF this run(2)] run(3) s unspaced_tl
  obtain ds f x where "r = ds @ f @ x" "digits ds" "frac_part f" "exp_part x" by blast
  with s False show ?thesis
    by (intro exI [of _ "c # ds"] exI [of _ f] exI [of _ x]) (simp add: int_part_def)
qed

lemma trim_json_hd: "s \<noteq> [] \<Longrightarrow> \<not> jspace (hd s) \<Longrightarrow> \<not> jspace (last s) \<Longrightarrow> trim_json s = s"
  unfolding trim_json_def
  by (subst dropWhile_hd [of s], assumption+, subst dropWhile_hd [of "rev s"]) (simp_all add: hd_rev)

lemma number_decompose:
  assumes valid: "json_valid s" and kind: "json_kind_of s = JNumber" and sp: "s \<noteq> []" "\<not> jspace (hd s)" "\<not> jspace (last s)"
  shows "\<exists>sg ip fp x. s = sg @ ip @ fp @ x \<and> json_number sg ip fp x"
proof -
  obtain c r where s: "s = c # r" using sp(1) by (cases s) auto
  from valid s obtain st1 st where run: "begin_value [] c = Some st1" "jrun st1 r = Some st" "jended st"
    by (auto simp: json_valid_def split: option.splits)
  from kind trim_json_hd [OF sp] s have c: "c \<noteq> CHR ''{''" "c \<noteq> CHR ''[''" "c \<noteq> CHR 0x22" "c \<noteq> CHR ''n''"
    "c \<noteq> CHR ''t''" "c \<noteq> CHR ''f''" by (auto simp: json_kind_of_def split: if_splits)
  from sp have un: "unspaced s" by (simp add: unspaced_def)
  show ?thesis
  proof (cases "c = CHR ''-''")
    case True
    with run(1) have "st1 = (Neg, [])" by (simp add: begin_value_def jspace_def)
    with run(2,3) obtain d q where r: "r = d # q" by (cases r) (auto simp: jended_def is_digit_def)
    with run(2) \<open>st1 = (Neg, [])\<close> have d: "is_digit d" "jrun (if d = CHR ''0'' then Int0 else Int1, []) q = Some st"
      by (auto simp: is_digit_def split: if_splits)
    from un s have "unspaced r" using unspaced_tl by blast
    from run_unsigned [OF r d run(3) this] obtain ip fp x
      where "r = ip @ fp @ x" "int_part ip" "frac_part fp" "exp_part x" by blast
    with s True show ?thesis
      by (intro exI [of _ "''-''"] exI [of _ ip] exI [of _ fp] exI [of _ x]) (simp add: json_number_def)
  next
    case False
    from begins_number [OF run(1) _ c False] sp(2) s
    have d: "is_digit c" "st1 = (if c = CHR ''0'' then Int0 else Int1, [])" by simp_all
    from run_unsigned [OF s d(1) run(2) [unfolded d(2)] run(3) un] show ?thesis
      by (fastforce simp: json_number_def)
  qed
qed

subsection \<open>From the grammar to the scanner\<close>

lemma run_digits:
  assumes "m = Int1 \<or> m = Frac \<or> m = ExpDig" "digits ds"
  shows "jrun (m, stk) (ds @ s) = jrun (m, stk) s"
  using assms(2)
proof (induction ds)
  case (Cons c ds)
  with assms(1) show ?case by (elim disjE) simp_all
qed simp

lemma run_int_part:
  assumes "int_part ip"
  obtains m where "m \<in> {Int0, Int1}" "\<And>s. jrun (BeginValue, stk) (ip @ s) = jrun (m, stk) s"
    "\<And>s. jrun (Neg, stk) (ip @ s) = jrun (m, stk) s"
proof (cases "ip = ''0''")
  case True
  then show ?thesis by (intro that [of Int0]) (simp_all add: begin_value_def jspace_def)
next
  case False
  with assms obtain c ds where ip: "ip = c # ds" "is_digit c" "digits ds" "c \<noteq> CHR ''0''"
    by (cases ip) (auto simp: int_part_def)
  then have "begin_value stk c = Some (Int1, stk)" by (simp add: digit_begins)
  with ip show ?thesis by (intro that [of Int1]) (simp_all add: run_digits)
qed

lemma run_frac_part:
  assumes "frac_part fp" "m \<in> {Int0, Int1}"
  shows "\<exists>m'. m' \<in> {m, Frac} \<and> (\<forall>s. jrun (m, stk) (fp @ s) = jrun (m', stk) s)"
proof (cases "fp = []")
  case False
  with assms(1) obtain d ds where fp: "fp = CHR ''.'' # d # ds" "is_digit d" "digits ds"
    by (cases fp; cases "tl fp") (auto simp: frac_part_def)
  with assms(2) show ?thesis
    by (intro exI [of _ Frac]) (auto simp: run_digits is_digit_def)
qed auto

lemma int_part_ends: "int_part ip \<Longrightarrow> ip \<noteq> [] \<and> is_digit (hd ip) \<and> is_digit (last ip)"
  by (auto simp: int_part_def digits_def list_all_iff is_digit_def)

lemma frac_part_end: "frac_part fp \<Longrightarrow> fp \<noteq> [] \<Longrightarrow> is_digit (last fp)"
  by (cases fp) (auto simp: frac_part_def digits_def list_all_iff)

lemma kind_number:
  assumes "trim_json s = c # r" "c = CHR ''-'' \<or> is_digit c"
  shows "json_kind_of s = JNumber"
proof -
  have "c \<noteq> d" if "\<not> is_digit d" "d \<noteq> CHR ''-''" for d using that assms(2) by auto
  then have "c \<noteq> CHR ''{''" "c \<noteq> CHR ''[''" "c \<noteq> CHR 0x22" "c \<noteq> CHR ''t''" "c \<noteq> CHR ''f''" "c \<noteq> CHR ''n''"
    by (simp_all add: is_digit_def)
  with assms(1) show ?thesis by (simp add: json_kind_of_def)
qed

lemma plain_number_valid:
  assumes "sg \<in> {'''', ''-''}" "int_part ip" "frac_part fp"
  shows "json_valid (sg @ ip @ fp)" "json_kind_of (sg @ ip @ fp) = JNumber"
proof -
  from assms(2) obtain m where m: "m \<in> {Int0, Int1}" "\<And>s. jrun jstart (ip @ s) = jrun (m, []) s"
    "\<And>s. jrun (Neg, []) (ip @ s) = jrun (m, []) s" by (rule run_int_part) blast
  from run_frac_part [OF assms(3) m(1)] obtain m' where m': "m' \<in> {m, Frac}" "jrun (m, []) fp = Some (m', [])"
    by (metis append_Nil2 jrun.simps(1))
  have "jrun jstart (sg @ ip @ fp) = Some (m', [])"
    using assms(1)
  proof
    assume "sg = ''''"
    with m(2) m'(2) show ?thesis by simp
  next
    assume "sg \<in> {''-''}"
    moreover have "begin_value [] (CHR ''-'') = Some (Neg, [])" by (simp add: begin_value_def jspace_def)
    ultimately show ?thesis using m(3) m'(2) by simp
  qed
  moreover have "jended (m', [])"
    using m(1) m'(1) by (auto simp: jended_def is_digit_def jspace_def)
  ultimately show "json_valid (sg @ ip @ fp)" by (simp add: json_valid_def)
  have ends: "is_digit (hd (ip @ fp))" "is_digit (last (ip @ fp))" "ip @ fp \<noteq> []"
    using int_part_ends [OF assms(2)] frac_part_end [OF assms(3)] by (auto simp: last_append)
  have "\<not> jspace (hd (sg @ ip @ fp))"
    using assms(1) ends(1) digit_chars(1) by (auto simp: jspace_def)
  then have t: "trim_json (sg @ ip @ fp) = sg @ ip @ fp"
    using ends(2,3) digit_chars(1) by (intro trim_json_hd) auto
  obtain c r where cr: "sg @ ip @ fp = c # r" "c = CHR ''-'' \<or> is_digit c"
    using assms(1) ends(1,3) by (cases "ip @ fp") auto
  with t show "json_kind_of (sg @ ip @ fp) = JNumber" by (intro kind_number [of _ c r]) simp_all
qed

section \<open>The number a literal stands for\<close>

definition exponent_of :: "bytes \<Rightarrow> int" where
  "exponent_of s =
     (case s of
        [] \<Rightarrow> 0
      | c # r \<Rightarrow>
          if c = CHR ''-'' then - int (digits_val r)
          else if c = CHR ''+'' then int (digits_val r) else int (digits_val s))"

definition magnitude_of :: "bytes \<Rightarrow> rat" where
  "magnitude_of u =
     (let m = takeWhile (\<lambda>c. \<not> is_exp_char c) u;
          x = tl (dropWhile (\<lambda>c. \<not> is_exp_char c) u);
          ip = takeWhile (\<lambda>c. c \<noteq> CHR ''.'') m;
          ds = tl (dropWhile (\<lambda>c. c \<noteq> CHR ''.'') m)
      in of_nat (digits_val (ip @ ds)) * 10 powi (exponent_of x - int (length ds)))"

definition number_of_literal :: "bytes \<Rightarrow> rat" where
  "number_of_literal s =
     (if has_prefix s ''-'' then - magnitude_of (drop 1 s) else magnitude_of s)"

text \<open>Leading and trailing zeros.\<close>

lemma digits_val_zero_Cons [simp]: "digits_val (CHR ''0'' # s) = digits_val s"
  by (simp add: digits_val_def digit_val_def)

lemma digits_val_zeros [simp]: "digits_val (replicate n (CHR ''0'') @ s) = digits_val s"
  by (induction n) simp_all

lemma foldl_digits: "foldl (\<lambda>v c. 10 * v + digit_val c) a s = a * 10 ^ length s + digits_val s"
proof (induction s rule: rev_induct)
  case Nil
  then show ?case by (simp add: digits_val_def)
next
  case (snoc c s)
  then show ?case by (simp add: algebra_simps)
qed

lemma digits_val_append: "digits_val (s @ t) = digits_val s * 10 ^ length t + digits_val t"
  using foldl_digits [of "digits_val s" t] by (simp add: digits_val_def)

lemma digits_val_replicate_zero [simp]: "digits_val (replicate n (CHR ''0'')) = 0"
  using digits_val_zeros [of n "[]"] by (simp add: digits_val_def)

lemma digits_val_trim [simp]: "digits_val (dropWhile (\<lambda>c. c = CHR ''0'') s @ t) = digits_val (s @ t)"
  by (induction s) auto

text \<open>The magnitude of a literal given by its parts.\<close>

lemma digits_no_dot: "digits s \<Longrightarrow> CHR ''.'' \<notin> set s"
  by (auto simp: digits_def list_all_iff is_digit_def)

lemma digits_no_exp: "digits s \<Longrightarrow> \<forall>c \<in> set s. \<not> is_exp_char c"
  by (auto simp: digits_def list_all_iff digit_chars)

lemma int_part_digits: "int_part s \<Longrightarrow> digits s"
  by (auto simp: int_part_def is_digit_def)

lemma frac_part_cases:
  assumes "frac_part fp"
  obtains "fp = []" | ds where "fp = CHR ''.'' # ds" "ds \<noteq> []" "digits ds"
  using assms by (cases fp) (auto simp: frac_part_def)

lemma split_mantissa:
  assumes "digits ip" "frac_part fp"
  shows "takeWhile (\<lambda>c. c \<noteq> CHR ''.'') (ip @ fp) = ip" "dropWhile (\<lambda>c. c \<noteq> CHR ''.'') (ip @ fp) = fp"
proof -
  have "\<forall>c \<in> set ip. c \<noteq> CHR ''.''" using digits_no_dot [OF assms(1)] by blast
  note all = takeWhile_all [OF this, of fp] dropWhile_all [OF this, of fp]
  from assms(2) have "takeWhile (\<lambda>c. c \<noteq> CHR ''.'') fp = [] \<and> dropWhile (\<lambda>c. c \<noteq> CHR ''.'') fp = fp"
    by (rule frac_part_cases) simp_all
  with all show "takeWhile (\<lambda>c. c \<noteq> CHR ''.'') (ip @ fp) = ip"
    "dropWhile (\<lambda>c. c \<noteq> CHR ''.'') (ip @ fp) = fp" by simp_all
qed

lemma split_exp:
  assumes "digits ip" "frac_part fp" "exp_part x"
  shows "takeWhile (\<lambda>c. \<not> is_exp_char c) (ip @ fp @ x) = ip @ fp"
    "dropWhile (\<lambda>c. \<not> is_exp_char c) (ip @ fp @ x) = x"
proof -
  from assms(2) have "\<forall>c \<in> set fp. \<not> is_exp_char c"
  proof (rule frac_part_cases)
    fix ds assume "fp = CHR ''.'' # ds" "digits ds"
    then show ?thesis using digits_no_exp [of ds] by (simp add: is_exp_char_def)
  qed simp
  with digits_no_exp [OF assms(1)] have "\<forall>c \<in> set (ip @ fp). \<not> is_exp_char c" by auto
  note all = takeWhile_all [OF this, of x] dropWhile_all [OF this, of x]
  have "takeWhile (\<lambda>c. \<not> is_exp_char c) x = [] \<and> dropWhile (\<lambda>c. \<not> is_exp_char c) x = x"
    using assms(3) by (cases x) (simp_all add: exp_part_def)
  with all show "takeWhile (\<lambda>c. \<not> is_exp_char c) (ip @ fp @ x) = ip @ fp"
    "dropWhile (\<lambda>c. \<not> is_exp_char c) (ip @ fp @ x) = x" by simp_all
qed

lemma magnitude_parts:
  assumes "digits ip" "frac_part fp" "exp_part x"
  shows "magnitude_of (ip @ fp @ x) =
    of_nat (digits_val (ip @ tl fp)) * 10 powi (exponent_of (tl x) - int (length (tl fp)))"
  using split_exp [OF assms] split_mantissa [OF assms(1,2)] by (simp add: magnitude_of_def Let_def)

section \<open>The expansion\<close>

text \<open>A plain number: integer part and fraction, no exponent.\<close>

definition plain_value :: "bytes \<Rightarrow> bytes \<Rightarrow> rat" where
  "plain_value ip ds = of_nat (digits_val (ip @ ds)) * 10 powi (- int (length ds))"

lemma trimmed_int_part:
  assumes "digits s"
  shows "int_part (if dropWhile (\<lambda>c. c = CHR ''0'') s = [] then ''0'' else dropWhile (\<lambda>c. c = CHR ''0'') s)"
proof -
  have "digits (dropWhile (\<lambda>c. c = CHR ''0'') s)"
    using assms by (auto simp: digits_def list_all_iff dest: set_dropWhileD)
  then show ?thesis
    using hd_dropWhile [of "\<lambda>c. c = CHR ''0''" s] by (auto simp: int_part_def)
qed

lemma cut_no_sep:
  assumes "c \<notin> set s"
  shows "cut c s = (s, [], False)"
proof -
  have "dropWhile (\<lambda>d. d \<noteq> c) s = []" using assms by (auto simp: dropWhile_eq_Nil_conv)
  then show ?thesis unfolding cut_def by (simp only: list.case)
qed

lemma trim_plain:
  assumes "digits s" "frac_part fp"
  obtains ip where "trim_leading_zeros (s @ fp) = ip @ fp" "int_part ip" "plain_value ip (tl fp) = plain_value s (tl fp)"
proof -
  let ?t = "dropWhile (\<lambda>c. c = CHR ''0'') s"
  let ?ip = "if ?t = [] then ''0'' else ?t"
  have "trim_leading_zeros (s @ fp) = ?ip @ fp"
    using assms(2)
  proof (rule frac_part_cases)
    assume "fp = []"
    with digits_no_dot [OF assms(1)] show ?thesis
      by (simp add: trim_leading_zeros_def cut_no_sep trim_left_char_def)
  next
    fix ds assume "fp = CHR ''.'' # ds"
    with cut_append [OF digits_no_dot [OF assms(1)], of ds] show ?thesis
      by (simp add: trim_leading_zeros_def trim_left_char_def Let_def)
  qed
  moreover have "digits_val (?ip @ tl fp) = digits_val (s @ tl fp)"
    using digits_val_trim [of s "tl fp"]
    by (cases "?t = []") (simp_all only: simp_thms if_True if_False append.simps digits_val_zero_Cons)
  ultimately show ?thesis
    using that [of ?ip] trimmed_int_part [OF assms(1)] by (simp only: plain_value_def)
qed

lemma place_point_parts:
  assumes "digits d" "d \<noteq> []"
  obtains s fp where "place_point d p = s @ fp" "digits s" "frac_part fp"
    "plain_value s (tl fp) = of_nat (digits_val d) * 10 powi (p - int (length d))"
proof -
  have zeros: "digits (replicate n (CHR ''0''))" for n by (induction n) (simp_all add: is_digit_def)
  consider (small) "p \<le> 0" | (large) "0 < p" "int (length d) \<le> p" | (inside) "0 < p" "p < int (length d)"
    by linarith
  then show ?thesis
  proof cases
    case small
    let ?ds = "replicate (nat (- p)) (CHR ''0'') @ d"
    have "place_point d p = ''0'' @ CHR ''.'' # ?ds" using small by (simp add: place_point_def)
    moreover have "digits ''0''" by (simp add: is_digit_def)
    moreover have "frac_part (CHR ''.'' # ?ds)" using assms zeros by (simp add: frac_part_def)
    moreover have "plain_value ''0'' ?ds = of_nat (digits_val d) * 10 powi (p - int (length d))"
      using small by (simp add: plain_value_def)
    ultimately show ?thesis using that [of "''0''" "CHR ''.'' # ?ds"] by simp
  next
    case large
    let ?n = "nat (p - int (length d))"
    have "place_point d p = (d @ replicate ?n (CHR ''0'')) @ []" using large by (simp add: place_point_def)
    moreover have "plain_value (d @ replicate ?n (CHR ''0'')) [] =
        of_nat (digits_val d) * 10 powi (p - int (length d))"
      using large by (simp add: plain_value_def digits_val_append power_int_def)
    ultimately show ?thesis
      using that [of "d @ replicate ?n (CHR ''0'')" "[]"] assms zeros by (simp add: frac_part_def)
  next
    case inside
    let ?fp = "CHR ''.'' # drop (nat p) d"
    have "place_point d p = take (nat p) d @ ?fp" using inside by (simp add: place_point_def)
    moreover have "digits (take (nat p) d)" "digits (drop (nat p) d)"
      using assms(1) by (auto simp: digits_def list_all_iff dest: in_set_takeD in_set_dropD)
    moreover from this(2) have "frac_part ?fp" using inside by (simp add: frac_part_def)
    moreover have "plain_value (take (nat p) d) (drop (nat p) d) =
        of_nat (digits_val d) * 10 powi (p - int (length d))"
      using inside by (simp add: plain_value_def of_nat_diff)
    ultimately show ?thesis using that [of "take (nat p) d" ?fp] by simp
  qed
qed

text \<open>The exponent \<^verbatim>\<open>Atoi\<close> reads.\<close>

lemma exp_digits_value:
  assumes "exp_digits s" "parse_int 64 s = Some e"
  shows "e = exponent_of s"
proof -
  from assms(1) obtain sg ds where s: "s = sg @ ds" "sg \<in> {'''', ''+'', ''-''}" "ds \<noteq> []" "digits ds"
    unfolding exp_digits_def by blast
  from s(3,4) obtain c r where ds: "ds = c # r" "is_digit c" by (cases ds) auto
  note c = digit_chars(4,5) [OF ds(2)]
  from assms(2) s(1,2) ds(1) c show ?thesis
    by (auto simp: parse_int_def exponent_of_def parse_uint_def Let_def split: if_splits)
qed

lemma split_exponent_parts:
  assumes "digits ip" "frac_part fp" "exp_part x" "split_exponent (ip @ fp @ x) = Some (m, e)"
  shows "m = ip @ fp \<and> e = exponent_of (tl x)"
proof (cases x)
  case Nil
  then have "split_exponent (ip @ fp @ x) = Some (ip @ fp, 0)"
    unfolding split_exponent_def split_exp [OF assms(1-3)] by simp
  with assms(4) Nil show ?thesis by (simp add: exponent_of_def)
next
  case (Cons c r)
  with assms(3) have "exp_digits r" by (simp add: exp_part_def)
  with assms(4) Cons exp_digits_value show ?thesis
    using split_exp [OF assms(1-3)] by (auto simp: split_exponent_def split: option.splits if_splits)
qed

lemma drop_point_parts:
  assumes "digits ip" "frac_part fp"
  shows "drop_point (ip @ fp) e = (ip @ tl fp, int (length ip) + e)"
  using assms(2)
proof (rule frac_part_cases)
  assume "fp = []"
  with cut_no_sep [OF digits_no_dot [OF assms(1)]] show ?thesis by (simp add: drop_point_def)
next
  fix ds assume "fp = CHR ''.'' # ds"
  with cut_append [OF digits_no_dot [OF assms(1)], of ds] show ?thesis by (simp add: drop_point_def)
qed

text \<open>A text without space at its ends that \<^verbatim>\<open>TrimSpace\<close> leaves.\<close>

lemma drop_spaces_fixed: "drop_spaces f s \<noteq> [] \<Longrightarrow> f (drop_spaces f s) = 0"
  by (induction f s rule: drop_spaces.induct) (metis drop_spaces.simps neq0_conv)

lemma space_len_hd: "space_len s = 0 \<Longrightarrow> s \<noteq> [] \<Longrightarrow> \<not> jspace (hd s)"
  by (cases s) (auto simp: space_len_def jspace_def ascii_space_def split: if_splits)

lemma space_len_rev_hd: "space_len_rev s = 0 \<Longrightarrow> s \<noteq> [] \<Longrightarrow> \<not> jspace (hd s)"
  by (cases s) (auto simp: space_len_rev_def jspace_def ascii_space_def split: if_splits)

lemma drop_spaces_suffix: "\<exists>p. s = p @ drop_spaces f s"
proof (induction f s rule: drop_spaces.induct)
  case (1 f s)
  show ?case
  proof (cases "s \<noteq> [] \<and> 0 < f s")
    case True
    with 1 obtain p where "drop (f s) s = p @ drop_spaces f (drop (f s) s)" by blast
    moreover from True have "drop_spaces f s = drop_spaces f (drop (f s) s)" by (subst drop_spaces.simps) simp
    ultimately have "s = (take (f s) s @ p) @ drop_spaces f s" by (metis append.assoc append_take_drop_id)
    then show ?thesis ..
  next
    case False
    then show ?thesis by (intro exI [of _ "[]"]) (subst drop_spaces.simps, auto)
  qed
qed

lemma trim_space_ends:
  assumes "trim_space s \<noteq> []"
  shows "\<not> jspace (hd (trim_space s))" "\<not> jspace (last (trim_space s))"
proof -
  let ?a = "drop_spaces space_len s" let ?b = "drop_spaces space_len_rev (rev ?a)"
  have t: "trim_space s = rev ?b" by (simp add: trim_space_def)
  with assms have b: "?b \<noteq> []" by simp
  from drop_spaces_fixed [OF b] b have "\<not> jspace (hd ?b)" by (rule space_len_rev_hd)
  with t b show "\<not> jspace (last (trim_space s))" by (simp add: last_rev)
  obtain p where p: "rev ?a = p @ ?b" using drop_spaces_suffix by blast
  then have a: "?a = rev ?b @ rev p" by (metis rev_append rev_rev_ident)
  with b have "?a \<noteq> []" by auto
  with drop_spaces_fixed have "\<not> jspace (hd ?a)" using space_len_hd by blast
  with a t b show "\<not> jspace (hd (trim_space s))" by (metis hd_append rev_is_Nil_conv)
qed

lemma number_literal_parts:
  assumes "number_literal raw = Some s"
  shows "s = trim_space raw \<and> (\<exists>sg ip fp x. s = sg @ ip @ fp @ x \<and> json_number sg ip fp x)"
  using assms number_decompose [of "trim_space raw"] trim_space_ends [of raw]
  by (auto simp: number_literal_def Let_def split: if_splits)

text \<open>The whole expansion of a literal.\<close>

lemma number_starts:
  assumes "int_part ip"
  shows "\<not> has_prefix (ip @ s) ''-''"
  using int_part_ends [OF assms] digit_chars(4) by (cases ip) auto

lemma expand_decimal_parts:
  assumes "expand_decimal raw = Some out"
  shows "\<exists>sg ip fp. out = sg @ ip @ fp \<and> sg \<in> {'''', ''-''} \<and> int_part ip \<and> frac_part fp \<and>
    number_of_literal (trim_space raw) = (if sg = '''' then 1 else -1) * plain_value ip (tl fp)"
proof -
  from assms obtain d where d: "parse_decimal raw = Some d" "out = decimal_string d"
    by (auto simp: expand_decimal_def)
  then obtain s where s: "number_literal raw = Some s" by (auto simp: parse_decimal_def split: option.splits)
  from number_literal_parts [OF this] obtain sg ip fp x where
    parts: "s = trim_space raw" "s = sg @ ip @ fp @ x" and "json_number sg ip fp x" by blast
  then have g: "sg \<in> {'''', ''-''}" "int_part ip" "frac_part fp" "exp_part x" by (simp_all add: json_number_def)
  note ip = int_part_digits [OF g(2)]
  have sign: "split_sign s = (sg = ''-'', ip @ fp @ x)"
    using g(1) parts(2) number_starts [OF g(2)] by (auto simp: split_sign_def)
  with d(1) s obtain m e where me: "split_exponent (ip @ fp @ x) = Some (m, e)"
    by (auto simp: parse_decimal_def split: option.splits)
  from split_exponent_parts [OF ip g(3,4) me] have m: "m = ip @ fp" "e = exponent_of (tl x)" by simp_all
  with d(1) s sign me drop_point_parts [OF ip g(3)]
  have dec: "dec_negative d = (sg = ''-'')" "dec_digits d = ip @ tl fp" "dec_point d = int (length ip) + e"
    by (auto simp: parse_decimal_def split: if_splits)
  have "digits (tl fp)" using g(3) by (rule frac_part_cases) simp_all
  with ip int_part_ends [OF g(2)] have "digits (dec_digits d)" "dec_digits d \<noteq> []" by (simp_all add: dec(2))
  then obtain s2 fp2 where p: "place_point (dec_digits d) (dec_point d) = s2 @ fp2" "digits s2" "frac_part fp2"
    "plain_value s2 (tl fp2) = of_nat (digits_val (dec_digits d)) * 10 powi (dec_point d - int (length (dec_digits d)))"
    by (rule place_point_parts)
  from p(2,3) obtain ip3 where t: "trim_leading_zeros (s2 @ fp2) = ip3 @ fp2" "int_part ip3"
    "plain_value ip3 (tl fp2) = plain_value s2 (tl fp2)" by (rule trim_plain)
  have "magnitude_of (ip @ fp @ x) = plain_value ip3 (tl fp2)"
    using magnitude_parts [OF ip g(3,4)] t(3) p(4) m(2) by (simp add: dec)
  then have "number_of_literal s = (if sg = '''' then 1 else -1) * plain_value ip3 (tl fp2)"
    using g(1) parts(2) number_starts [OF g(2)] by (auto simp: number_of_literal_def)
  moreover have "out = sg @ ip3 @ fp2"
    using g(1) d(2) p(1) t(1) by (auto simp: decimal_string_def dec(1))
  ultimately show ?thesis using g(1) t(2) p(3) parts(1) by blast
qed

lemma number_of_plain:
  assumes "sg \<in> {'''', ''-''}" "int_part ip" "frac_part fp"
  shows "number_of_literal (sg @ ip @ fp) = (if sg = '''' then 1 else -1) * plain_value ip (tl fp)"
proof -
  have "exp_part []" by (simp add: exp_part_def)
  from magnitude_parts [OF int_part_digits [OF assms(2)] assms(3) this]
  have "magnitude_of (ip @ fp) = plain_value ip (tl fp)" by (simp add: plain_value_def exponent_of_def)
  with assms(1) number_starts [OF assms(2)] show ?thesis by (auto simp: number_of_literal_def)
qed

lemma no_exponent_parts:
  assumes "sg \<in> {'''', ''-''}" "int_part ip" "frac_part fp" "c \<in> set (sg @ ip @ fp)"
  shows "\<not> is_exp_char c"
proof -
  have "\<not> is_exp_char (CHR ''-'')" "\<not> is_exp_char (CHR ''.'')" by (simp_all add: is_exp_char_def)
  moreover have "\<forall>c \<in> set ip. \<not> is_exp_char c" using digits_no_exp int_part_digits assms(2) by blast
  moreover have "\<forall>c \<in> set (tl fp). \<not> is_exp_char c"
    using assms(3) digits_no_exp by (cases fp) (auto simp: frac_part_def)
  ultimately show ?thesis using assms(1,3,4) by (cases fp) (auto simp: frac_part_def)
qed

lemma float_literal_SomeD:
  "float_literal raw field name bits = Inr out \<Longrightarrow>
   expand_decimal raw = Some out \<and> (\<exists>s. number_literal raw = Some s \<and> float_fits bits s)"
  by (auto simp: float_literal_def split: option.splits if_splits)

text \<open>
  C30. A float that is converted keeps its exact value: the result is a JSON number without exponent,
  and it stands for the same rational number as the literal that was read.
\<close>

theorem floats_keep_their_value:
  assumes "float_literal raw field name bits = Inr out"
  shows "json_valid out \<and> json_kind_of out = JNumber \<and> list_all (\<lambda>c. \<not> is_exp_char c) out \<and>
    number_of_literal out = number_of_literal (trim_space raw)"
proof -
  from float_literal_SomeD [OF assms] expand_decimal_parts obtain sg ip fp where
    p: "out = sg @ ip @ fp" "sg \<in> {'''', ''-''}" "int_part ip" "frac_part fp"
    and v: "number_of_literal (trim_space raw) = (if sg = '''' then 1 else -1) * plain_value ip (tl fp)"
    by blast
  from v number_of_plain [OF p(2-4)] have "number_of_literal out = number_of_literal (trim_space raw)"
    by (simp only: p(1))
  with plain_number_valid [OF p(2-4)] no_exponent_parts [OF p(2-4)] show ?thesis
    by (simp only: p(1) list_all_iff) blast
qed

lemma floats_keep_their_value_witness:
  "json_valid ''-0.0025'' \<and> number_of_literal ''-0.0025'' = number_of_literal ''-2.5E-3''"
proof -
  have t: "trim_space ''-2.5E-3'' = ''-2.5E-3''" by code_simp
  have "number_literal ''-2.5E-3'' = Some ''-2.5E-3''" by code_simp
  moreover have "number_parts ''-2.5E-3'' = (25, -4)" by code_simp
  then have "float_fits 64 ''-2.5E-3''" by (simp add: float_fits_def float_limit_def)
  moreover have "expand_decimal ''-2.5E-3'' = Some ''-0.0025''" by code_simp
  ultimately have "float_literal ''-2.5E-3'' ''price'' ''float8'' 64 = Inr ''-0.0025''"
    by (simp add: float_literal_def)
  from floats_keep_their_value [OF this] show ?thesis unfolding t by blast
qed

end
