(* ===== verification/Calendar.thy ===== *)
theory Calendar
  imports Payload
begin

text \<open>
  The calendar of the conversion: \<open>civil_date\<close> gives a date of the Gregorian calendar, and its day
  number is the day it came from; the text written for an instant reads back as that instant.
\<close>

section \<open>Dates\<close>

lemma month_day_correct:
  assumes "0 \<le> d" "d < sum_list ns"
  shows "\<exists>k. k < length ns \<and> month_day ns m d = (m + int k, d - sum_list (take k ns) + 1) \<and>
    0 \<le> d - sum_list (take k ns) \<and> d - sum_list (take k ns) < ns ! k"
  using assms
proof (induction ns arbitrary: m d)
  case (Cons n ns)
  show ?case
  proof (cases "d < n")
    case True
    with Cons.prems show ?thesis by (intro exI [of _ 0]) simp
  next
    case False
    with Cons.prems Cons.IH [of "d - n" "m + 1"] obtain k where "k < length ns"
      "month_day ns (m + 1) (d - n) = (m + 1 + int k, d - n - sum_list (take k ns) + 1)"
      "0 \<le> d - n - sum_list (take k ns)" "d - n - sum_list (take k ns) < ns ! k" by auto
    with False show ?thesis by (intro exI [of _ "Suc k"]) auto
  qed
qed simp

lemma sum_month_lengths: "sum_list (month_lengths l) = (if l then 366 else 365)"
  by (simp add: month_lengths_def)

text \<open>The year of a day, as four counts of cycles, is leap when it has a 366th day.\<close>

lemma cycle_years:
  fixes a b c e :: int
  assumes "0 \<le> b" "b \<le> 3" "0 \<le> c" "c \<le> 24" "0 \<le> e" "e \<le> 3"
  shows "(400 * a + 100 * b + 4 * c + e) div 4 = 100 * a + 25 * b + c"
    "(400 * a + 100 * b + 4 * c + e) div 100 = 4 * a + b"
    "(400 * a + 100 * b + 4 * c + e) div 400 = a"
proof -
  show "(400 * a + 100 * b + 4 * c + e) div 4 = 100 * a + 25 * b + c"
    by (rule int_div_pos_eq [where r = e]) (use assms in simp_all)
  show "(400 * a + 100 * b + 4 * c + e) div 100 = 4 * a + b"
    by (rule int_div_pos_eq [where r = "4 * c + e"]) (use assms in simp_all)
  show "(400 * a + 100 * b + 4 * c + e) div 400 = a"
    by (rule int_div_pos_eq [where r = "100 * b + 4 * c + e"]) (use assms in simp_all)
qed

lemma cycle_leap:
  fixes a b c e :: int
  assumes "0 \<le> b" "b \<le> 3" "0 \<le> c" "c \<le> 24" "e = 3" "c < 24 \<or> b = 3"
  shows "leap (1 + 400 * a + 100 * b + 4 * c + e)"
proof -
  let ?y = "1 + 400 * a + 100 * b + 4 * c + e"
  have "?y mod 4 = 0"
    by (rule int_mod_pos_eq [where q = "100 * a + 25 * b + c + 1"]) (use assms in simp_all)
  moreover have "?y mod 100 = 4 * c + 4" if "c < 24"
    by (rule int_mod_pos_eq [where q = "4 * a + b"]) (use assms that in simp_all)
  moreover have "?y mod 400 = 0" if "c = 24" "b = 3"
    by (rule int_mod_pos_eq [where q = "a + 1"]) (use assms that in simp_all)
  ultimately show ?thesis using assms unfolding leap_def by (cases "c = 24") auto
qed

lemma cycles4_range:
  fixes len d :: int
  assumes "0 < len" "0 \<le> d" "d \<le> 4 * len"
  defines "q \<equiv> min 3 (d div len)"
  shows "0 \<le> q \<and> q \<le> 3 \<and> 0 \<le> d - len * q \<and>
    (d - len * q < len \<or> q = 3 \<and> d = 4 * len \<and> d - len * q = len)"
proof (cases "d div len \<le> 3")
  case True
  then have "d - len * q = d mod len" by (simp add: q_def minus_mult_div_eq_mod)
  with True assms(1,2) show ?thesis by (simp add: q_def pos_imp_zdiv_nonneg_iff)
next
  case False
  then have "4 * len \<le> d div len * len" using assms(1) by simp
  also have "\<dots> \<le> d" using assms(1) div_mult_mod_eq [of d len] pos_mod_sign [of len d] by linarith
  finally have "d = 4 * len" using assms(3) by simp
  moreover have "q = 3" using False by (simp add: q_def)
  ultimately show ?thesis using assms(1) by simp
qed

text \<open>The counts of cycles of a day, and the day of the year that is left.\<close>

lemma cycles_of_day:
  fixes days :: int
  obtains a b c e yday where
    "cycles 146097 (days + 719162) = (a, days + 719162 - 146097 * a)"
    "cycles4 36524 (days + 719162 - 146097 * a) = (b, days + 719162 - 146097 * a - 36524 * b)"
    "cycles 1461 (days + 719162 - 146097 * a - 36524 * b) =
       (c, days + 719162 - 146097 * a - 36524 * b - 1461 * c)"
    "cycles4 365 (days + 719162 - 146097 * a - 36524 * b - 1461 * c) = (e, yday)"
    "days + 719162 = 146097 * a + 36524 * b + 1461 * c + 365 * e + yday"
    "0 \<le> b" "b \<le> 3" "0 \<le> c" "c \<le> 24" "0 \<le> e" "e \<le> 3" "0 \<le> yday"
    "yday < 365 \<or> yday = 365 \<and> e = 3 \<and> (c < 24 \<or> b = 3)"
proof -
  define a where "a = (days + 719162) div 146097"
  define d1 where "d1 = days + 719162 - 146097 * a"
  define b where "b = min 3 (d1 div 36524)"
  define d2 where "d2 = d1 - 36524 * b"
  define c where "c = d2 div 1461"
  define d3 where "d3 = d2 - 1461 * c"
  define e where "e = min 3 (d3 div 365)"
  define yday where "yday = d3 - 365 * e"
  have m1: "(days + 719162) mod 146097 = d1" and m3: "d2 mod 1461 = d3"
    by (simp_all add: d1_def a_def d3_def c_def minus_mult_div_eq_mod)
  then have d1: "0 \<le> d1" "d1 < 146097" and d3: "0 \<le> d3" "d3 < 1461"
    using pos_mod_sign [of 146097 "days + 719162"] pos_mod_bound [of 146097 "days + 719162"]
      pos_mod_sign [of 1461 d2] pos_mod_bound [of 1461 d2] by simp_all
  have b: "0 \<le> b" "b \<le> 3" "0 \<le> d2" "d2 < 36524 \<or> d2 = 36524 \<and> b = 3"
    using cycles4_range [of 36524 d1] d1 by (auto simp: b_def d2_def)
  have e: "0 \<le> e" "e \<le> 3" "0 \<le> yday" "yday < 365 \<or> yday = 365 \<and> e = 3 \<and> d3 = 1460"
    using cycles4_range [of 365 d3] d3 by (auto simp: e_def yday_def)
  have eq2: "d2 = 1461 * c + d3" by (simp add: d3_def)
  with b(3,4) d3 have c: "0 \<le> c" "c \<le> 24" "c = 24 \<longrightarrow> d3 < 1460 \<or> b = 3" by linarith+
  show ?thesis
  proof (rule that [of a b c e yday])
    show "yday < 365 \<or> yday = 365 \<and> e = 3 \<and> (c < 24 \<or> b = 3)" using e(4) c(2,3) by linarith
    show "days + 719162 = 146097 * a + 36524 * b + 1461 * c + 365 * e + yday"
      by (simp add: d1_def d2_def d3_def yday_def)
  qed (use b c e d1 m1 m3 in \<open>simp_all add: cycles_def cycles4_def a_def [symmetric] d1_def [symmetric]
      b_def [symmetric] d2_def [symmetric] c_def [symmetric] d3_def [symmetric] e_def [symmetric] yday_def\<close>)
qed

lemma civil_date_correct:
  assumes "civil_date days = (y, m, d)"
  shows "1 \<le> m \<and> m \<le> 12 \<and> 1 \<le> d \<and> d \<le> days_in y m \<and> day_number y m d = days"
proof -
  obtain a b c e yday where run:
    "cycles 146097 (days + 719162) = (a, days + 719162 - 146097 * a)"
    "cycles4 36524 (days + 719162 - 146097 * a) = (b, days + 719162 - 146097 * a - 36524 * b)"
    "cycles 1461 (days + 719162 - 146097 * a - 36524 * b) =
       (c, days + 719162 - 146097 * a - 36524 * b - 1461 * c)"
    "cycles4 365 (days + 719162 - 146097 * a - 36524 * b - 1461 * c) = (e, yday)"
    and eq: "days + 719162 = 146097 * a + 36524 * b + 1461 * c + 365 * e + yday"
    and bounds: "0 \<le> b" "b \<le> 3" "0 \<le> c" "c \<le> 24" "0 \<le> e" "e \<le> 3"
    and day: "0 \<le> yday" "yday < 365 \<or> yday = 365 \<and> e = 3 \<and> (c < 24 \<or> b = 3)"
    by (rule cycles_of_day)
  let ?y = "1 + 400 * a + 100 * b + 4 * c + e"
  have date: "y = ?y" "month_day (month_lengths (leap ?y)) 1 yday = (m, d)"
    using assms unfolding civil_date_def run prod.case Let_def by auto
  have "yday < sum_list (month_lengths (leap ?y))"
    using day cycle_leap [OF bounds(1-4), of e] by (auto simp: sum_month_lengths)
  from month_day_correct [OF day(1) this, of 1] date obtain k where
    k: "k < length (month_lengths (leap y))" "m = 1 + int k"
      "d = yday - sum_list (take k (month_lengths (leap y))) + 1"
      "0 \<le> yday - sum_list (take k (month_lengths (leap y)))"
      "yday - sum_list (take k (month_lengths (leap y))) < month_lengths (leap y) ! k" by auto
  have "y - 1 = 400 * a + 100 * b + 4 * c + e" using date(1) by simp
  with cycle_years [OF bounds] have "day_number y m d = days"
    using eq k(2,3) by (simp add: day_number_def)
  moreover have "k < 12" using k(1) by (simp add: month_lengths_def)
  ultimately show ?thesis using k by (simp add: days_in_def)
qed

section \<open>Reading a timestamp\<close>

text \<open>
  A reader of the text PostgreSQL writes for a timestamp, for stating that the text written is right:
  a year of at least four digits with an optional sign, a date of the calendar, a time of day and a
  fraction of at most nine digits without trailing zero.
\<close>

definition read_unsigned :: "int parser" where
  "read_unsigned s =
     (if length (takeWhile is_digit s) < 4 then None
      else Some (int (digits_val (takeWhile is_digit s)), dropWhile is_digit s))"

definition read_year :: "int parser" where
  "read_year s =
     (if has_prefix s ''-'' then map_option (map_prod uminus id) (read_unsigned (drop 1 s))
      else read_unsigned s)"

definition read_date :: "(int \<times> int \<times> int) parser" where
  "read_date s =
     Option.bind (read_year s) (\<lambda>(y, s1).
     Option.bind (expect (CHR ''-'') s1) (\<lambda>(_, s2).
     Option.bind (get_num True s2) (\<lambda>(m, s3).
     Option.bind (expect (CHR ''-'') s3) (\<lambda>(_, s4).
     Option.bind (get_num True s4) (\<lambda>(d, s5).
     if 1 \<le> m \<and> m \<le> 12 \<and> 1 \<le> d \<and> d \<le> days_in y m then Some ((y, m, d), s5) else None)))))"

definition read_clock :: "int parser" where
  "read_clock s =
     Option.bind (get_num True s) (\<lambda>(hh, s1).
     Option.bind (expect (CHR '':'') s1) (\<lambda>(_, s2).
     Option.bind (get_num True s2) (\<lambda>(mm, s3).
     Option.bind (expect (CHR '':'') s3) (\<lambda>(_, s4).
     Option.bind (get_num True s4) (\<lambda>(ss, s5).
     if hh < 24 \<and> mm < 60 \<and> ss < 60 then Some (hh * 3600 + mm * 60 + ss, s5) else None)))))"

definition read_timestamp :: "bytes \<Rightarrow> instant option" where
  "read_timestamp s =
     Option.bind (read_date s) (\<lambda>((y, m, d), s1).
     Option.bind (expect (CHR '' '') s1) (\<lambda>(_, s2).
     Option.bind (read_clock s2) (\<lambda>(clock, s3).
     Option.bind (get_fraction s3) (\<lambda>(nano, s4).
     if s4 = [] \<or> s4 = ''+00''
     then Some \<lparr>ins_second = day_number y m d * 86400 + clock, ins_nano = nano\<rparr> else None))))"

lemma digits_nat_str [simp]: "list_all is_digit (nat_str n)"
  by (rule nat_str_digits)

lemma nat_str_small: "n < 10 \<Longrightarrow> nat_str n = [digit n]"
  by (subst nat_str.simps) simp

lemma nat_str_two: "10 \<le> n \<Longrightarrow> n < 100 \<Longrightarrow> nat_str n = [digit (n div 10), digit (n mod 10)]"
  by (subst nat_str.simps) (simp add: nat_str_small)

lemma digit_zero: "digit 0 = CHR ''0''"
  by (rule byte_inject [THEN iffD1]) (simp add: digit_def)

lemma pad_two:
  assumes "0 \<le> i" "i < 100"
  shows "pad_int 2 i = [digit (nat i div 10), digit (nat i mod 10)]"
proof (cases "nat i < 10")
  case True
  with assms show ?thesis by (simp add: pad_int_def nat_str_small digit_zero)
next
  case False
  with assms have "nat_str (nat i) = [digit (nat i div 10), digit (nat i mod 10)]"
    by (intro nat_str_two) simp_all
  with assms show ?thesis by (simp add: pad_int_def)
qed

lemma digits_val_two [simp]: "a < 10 \<Longrightarrow> b < 10 \<Longrightarrow> digits_val [digit a, digit b] = 10 * a + b"
  by (simp add: digits_val_def)

text \<open>Two digits read back, and what follows them.\<close>

lemma get_num_pad:
  assumes "0 \<le> i" "i < 100"
  obtains a b where "pad_int 2 i = [a, b]" "\<And>fixed s. get_num fixed (a # b # s) = Some (i, s)"
proof -
  have "10 * (nat i div 10) + nat i mod 10 = nat i" by presburger
  with assms show ?thesis
    by (intro that [OF pad_two [OF assms]]) (simp add: get_num_def)
qed

lemma expect_self [simp]: "expect c (c # s) = Some ((), s)"
  by (simp add: expect_def)

lemma clock_sum: "60 * q + s = i \<Longrightarrow> 60 * h + m = q \<Longrightarrow> h * 3600 + m * 60 + s = (i :: int)"
  by simp

lemma read_clock_fields:
  assumes "0 \<le> hh" "hh < 24" "0 \<le> mm" "mm < 60" "0 \<le> ss" "ss < 60"
  shows "read_clock (pad_int 2 hh @ '':'' @ pad_int 2 mm @ '':'' @ pad_int 2 ss @ s) =
    Some (hh * 3600 + mm * 60 + ss, s)"
proof -
  obtain a a' where h: "pad_int 2 hh = [a, a']" "\<And>fixed s. get_num fixed (a # a' # s) = Some (hh, s)"
    by (rule get_num_pad [of hh]) (use assms in simp_all)
  obtain c c' where m: "pad_int 2 mm = [c, c']" "\<And>fixed s. get_num fixed (c # c' # s) = Some (mm, s)"
    by (rule get_num_pad [of mm]) (use assms in simp_all)
  obtain e e' where s: "pad_int 2 ss = [e, e']" "\<And>fixed s. get_num fixed (e # e' # s) = Some (ss, s)"
    by (rule get_num_pad [of ss]) (use assms in simp_all)
  from assms h m s show ?thesis by (simp add: read_clock_def)
qed

lemma read_clock_text:
  assumes "0 \<le> i" "i < 86400"
  shows "read_clock (clock_text i @ s) = Some (i, s)"
proof -
  have "i div 3600 = i div 60 div 60" using zdiv_zmult2_eq [of 60 i 60] by simp
  with clock_sum [OF mult_div_mod_eq [of 60 i] mult_div_mod_eq [of 60 "i div 60"]]
  have "i div 3600 * 3600 + i div 60 mod 60 * 60 + i mod 60 = i" by (simp only:)
  moreover have "read_clock (clock_text i @ s) = Some (i div 3600 * 3600 + i div 60 mod 60 * 60 + i mod 60, s)"
    unfolding clock_text_def append.assoc
    by (rule read_clock_fields)
       (use assms zdiv_mono1 [of i 86399 3600] in \<open>simp_all add: pos_imp_zdiv_nonneg_iff\<close>)
  ultimately show ?thesis by (simp only:)
qed

lemma pad_int_sign:
  "pad_int n i = (if i < 0 then ''-'' else '''') @ pad_int n \<bar>i\<bar>"
  by (simp add: pad_int_def Let_def)

lemma pad_int_digits: "0 \<le> i \<Longrightarrow> list_all is_digit (pad_int n i)"
  by (simp add: pad_int_def Let_def list_all_iff is_digit_def)
     (use nat_str_digits [of "nat i"] in \<open>auto simp: list_all_iff is_digit_def\<close>)

lemma digits_val_replicate [simp]: "digits_val (replicate n (CHR ''0'') @ s) = digits_val s"
  by (induction n) (simp_all add: digits_val_def digit_val_def)

lemma pad_int_value: "0 \<le> i \<Longrightarrow> digits_val (pad_int n i) = nat i"
  by (simp add: pad_int_def Let_def)

lemma pad_int_length: "n \<le> length (pad_int n i)"
  by (simp add: pad_int_def Let_def)

lemma takeWhile_digits:
  assumes "list_all is_digit ds" "\<not> is_digit c"
  shows "takeWhile is_digit (ds @ c # s) = ds" "dropWhile is_digit (ds @ c # s) = c # s"
  using assms by (simp_all add: takeWhile_all dropWhile_all list_all_iff)

lemma read_unsigned_text:
  assumes "0 \<le> y" "\<not> is_digit c"
  shows "read_unsigned (pad_int 4 y @ c # s) = Some (y, c # s)"
  using takeWhile_digits [OF pad_int_digits [OF assms(1)] assms(2)] pad_int_length [of 4 y]
    pad_int_value [OF assms(1)] assms(1)
  by (simp add: read_unsigned_def)

lemma read_year_text:
  assumes "\<not> is_digit c"
  shows "read_year (pad_int 4 y @ c # s) = Some (y, c # s)"
proof (cases "y < 0")
  case True
  then have "pad_int 4 y @ c # s = CHR ''-'' # pad_int 4 \<bar>y\<bar> @ c # s" by (subst pad_int_sign) simp
  with True show ?thesis using read_unsigned_text [OF _ assms, of "\<bar>y\<bar>" s] by (simp add: read_year_def)
next
  case False
  then have "list_all is_digit (pad_int 4 y)" "4 \<le> length (pad_int 4 y)"
    by (simp_all add: pad_int_digits pad_int_length)
  then obtain d r where "pad_int 4 y = d # r" "is_digit d" by (cases "pad_int 4 y") auto
  then have "\<not> has_prefix (pad_int 4 y @ c # s) ''-''" by (auto simp: is_digit_def)
  with False show ?thesis using read_unsigned_text [OF _ assms, of y s] by (simp add: read_year_def)
qed

lemma read_date_text:
  assumes "1 \<le> m" "m \<le> 12" "1 \<le> d" "d \<le> days_in y m"
  shows "read_date (date_text (y, m, d) @ s) = Some ((y, m, d), s)"
proof -
  have "days_in y m \<le> 31"
  proof -
    have "nat (m - 1) < length (month_lengths (leap y))" using assms(1,2) by (simp add: month_lengths_def)
    then have "days_in y m \<in> set (month_lengths (leap y))" unfolding days_in_def by (rule nth_mem)
    then show ?thesis by (auto simp: month_lengths_def split: if_splits)
  qed
  with assms have r: "0 \<le> m" "m < 100" "0 \<le> d" "d < 100" by simp_all
  obtain a a' where m: "pad_int 2 m = [a, a']" "\<And>fixed s. get_num fixed (a # a' # s) = Some (m, s)"
    by (rule get_num_pad [of m]) (use r in simp_all)
  obtain e e' where d: "pad_int 2 d = [e, e']" "\<And>fixed s. get_num fixed (e # e' # s) = Some (d, s)"
    by (rule get_num_pad [of d]) (use r in simp_all)
  have "date_text (y, m, d) @ s = pad_int 4 y @ CHR ''-'' # a # a' # CHR ''-'' # e # e' # s"
    by (simp add: date_text_def m(1) d(1))
  moreover have "\<not> is_digit (CHR ''-'')" by (simp add: is_digit_def)
  ultimately show ?thesis using assms m(2) d(2) by (simp add: read_date_def read_year_text)
qed

section \<open>Fractions and whole timestamps\<close>

lemma trim_right_zeros:
  obtains k where "s = trim_right_char (CHR ''0'') s @ replicate k (CHR ''0'')"
proof -
  have "\<exists>k. s = trim_right_char (CHR ''0'') s @ replicate k (CHR ''0'')"
  proof (induction s rule: rev_induct)
    case (snoc c s)
    show ?case
    proof (cases "c = CHR ''0''")
      case True
      from snoc obtain k where "s = trim_right_char (CHR ''0'') s @ replicate k (CHR ''0'')" ..
      then have "s @ [c] = trim_right_char (CHR ''0'') s @ replicate (Suc k) (CHR ''0'')"
        using True by (metis append.assoc replicate_Suc replicate_append_same)
      moreover have "trim_right_char (CHR ''0'') (s @ [c]) = trim_right_char (CHR ''0'') s"
        using True by (simp add: trim_right_char_def)
      ultimately show ?thesis by (intro exI [of _ "Suc k"]) (simp only:)
    next
      case False
      then show ?thesis by (intro exI [of _ 0]) (simp add: trim_right_char_def)
    qed
  qed (simp add: trim_right_char_def)
  then show ?thesis using that by blast
qed

lemma digits_val_append_zeros: "digits_val (s @ replicate k (CHR ''0'')) = digits_val s * 10 ^ k"
proof (induction k)
  case (Suc k)
  have "s @ replicate (Suc k) (CHR ''0'') = (s @ replicate k (CHR ''0'')) @ ''0''"
    by (simp add: replicate_append_same)
  also have "digits_val \<dots> = 10 * digits_val (s @ replicate k (CHR ''0''))"
    by (simp only: digits_val_snoc) (simp add: digit_val_def)
  finally show ?case using Suc by simp
qed simp

lemma pad_nine:
  assumes "0 \<le> i" "i < 1000000000"
  shows "length (pad_int 9 i) = 9"
proof -
  have "length (nat_str (nat i)) \<le> 9" using assms by (intro length_nat_str) simp_all
  with assms show ?thesis by (simp add: pad_int_def Let_def)
qed

definition fraction_text :: "int \<Rightarrow> bytes" where
  "fraction_text nano =
     (let fraction = trim_right_char (CHR ''0'') (pad_int 9 nano)
      in if fraction \<noteq> [] then ''.'' @ fraction else '''')"

lemma get_fraction_text:
  assumes "0 \<le> nano" "nano < 1000000000" and rest: "rest \<in> {'''', ''+00''}"
  shows "get_fraction (fraction_text nano @ rest) = Some (nano, rest)"
proof -
  let ?f = "trim_right_char (CHR ''0'') (pad_int 9 nano)"
  obtain k where k: "pad_int 9 nano = ?f @ replicate k (CHR ''0'')" by (rule trim_right_zeros)
  then have len: "length ?f + k = 9" using pad_nine [OF assms(1,2)] by (metis length_append length_replicate)
  have "digits_val ?f * 10 ^ k = nat nano"
    using pad_int_value [OF assms(1), of 9] digits_val_append_zeros [of ?f k] k by simp
  moreover have k9: "k = 9 - length ?f" using len by simp
  ultimately have val: "int (digits_val ?f * 10 ^ (9 - length ?f)) = nano"
    using assms(1) by simp
  have "list_all is_digit (?f @ replicate k (CHR ''0''))" using pad_int_digits [OF assms(1), of 9] k by simp
  then have digits: "list_all is_digit ?f" by simp
  show ?thesis
  proof (cases ?f)
    case Nil
    with val rest show ?thesis
      by (auto simp: fraction_text_def get_fraction_def digits_val_def)
  next
    case (Cons d r)
    have "\<not> is_digit (CHR ''+'')" by (simp add: is_digit_def)
    then have "takeWhile is_digit (?f @ rest) = ?f \<and> dropWhile is_digit (?f @ rest) = rest"
      using rest takeWhile_digits [OF digits, of "CHR ''+''" "''00''"] digits
      by (auto simp: list_all_iff)
    moreover have "take 9 ?f = ?f" using len by simp
    moreover have "is_digit d" using digits Cons by simp
    ultimately show ?thesis using val by (simp add: fraction_text_def get_fraction_def Cons)
  qed
qed

lemma format_parts:
  "format_timestamp value zone =
     date_text (civil_date (ins_second value div 86400)) @ CHR '' '' # clock_text (ins_second value mod 86400) @
     fraction_text (ins_nano value) @ (if zone then ''+00'' else '''')"
  by (simp add: format_timestamp_def fraction_text_def Let_def)

lemma read_format_timestamp:
  assumes "0 \<le> ins_nano value" "ins_nano value < 1000000000"
  shows "read_timestamp (format_timestamp value zone) = Some value"
proof -
  obtain y m d where date: "civil_date (ins_second value div 86400) = (y, m, d)" by (rule prod_cases3)
  let ?zone = "if zone then ''+00'' else ''''"
  note civil = civil_date_correct [OF date]
  have "read_clock (clock_text (ins_second value mod 86400) @ fraction_text (ins_nano value) @ ?zone) =
      Some (ins_second value mod 86400, fraction_text (ins_nano value) @ ?zone)"
    by (rule read_clock_text) simp_all
  moreover have "get_fraction (fraction_text (ins_nano value) @ ?zone) = Some (ins_nano value, ?zone)"
    by (rule get_fraction_text) (use assms in simp_all)
  moreover have "\<And>s. read_date (date_text (y, m, d) @ s) = Some ((y, m, d), s)"
    using civil by (intro read_date_text) simp_all
  moreover have "day_number y m d * 86400 + ins_second value mod 86400 = ins_second value"
    using civil by simp
  ultimately show ?thesis
    unfolding format_parts date read_timestamp_def by simp
qed

section \<open>Plain texts as JSON strings\<close>

definition plain_char :: "char \<Rightarrow> bool" where
  "plain_char c \<longleftrightarrow> 32 \<le> byte c \<and> byte c < 127 \<and> byte c \<noteq> 34 \<and> byte c \<noteq> 92"

lemma plain_run: "list_all plain_char s \<Longrightarrow> jrun (InString, stk) (s @ t) = jrun (InString, stk) t"
  by (induction s) (auto simp: plain_char_def)

lemma plain_unquote: "list_all plain_char s \<Longrightarrow> unquote_body s = s"
  by (induction s) (auto simp: unquote_body.simps plain_char_def)

lemma plain_quote:
  assumes "list_all plain_char s"
  shows "quote s = CHR 0x22 # s @ [CHR 0x22]"
proof -
  have "quote_char c = [c]" if "plain_char c" for c using that by (simp add: plain_char_def quote_char_def)
  with assms have "concat (map quote_char s) = s" by (induction s) auto
  then show ?thesis by (simp add: quote_def)
qed

lemma json_string_quote:
  assumes "list_all plain_char s"
  shows "json_valid (quote s)" "json_kind_of (quote s) = JString" "json_string (quote s) = Some s"
proof -
  have t: "trim_json (quote s) = quote s"
    unfolding trim_json_def plain_quote [OF assms]
    by (subst dropWhile_hd; simp add: jspace_def)+
  show k: "json_kind_of (quote s) = JString"
    using t by (simp add: json_kind_of_def plain_quote [OF assms])
  show v: "json_valid (quote s)"
    using plain_run [OF assms, of "[]" "[CHR 0x22]"]
    by (simp add: plain_quote [OF assms] json_valid_def begin_value_def jspace_def jended_def)
  show "json_string (quote s) = Some s"
    using k v t plain_unquote [OF assms] plain_quote [OF assms]
    by (simp add: json_string_def json_string_ptr_def unquote_def)
qed

lemma digit_plain: "is_digit c \<Longrightarrow> plain_char c"
  by (auto simp: is_digit_def plain_char_def)

lemma pad_int_plain: "list_all plain_char (pad_int n i)"
proof (cases "i < 0")
  case True
  then show ?thesis using pad_int_digits [of "\<bar>i\<bar>" n] digit_plain
    by (subst pad_int_sign) (auto simp: list_all_iff plain_char_def)
next
  case False
  then show ?thesis using pad_int_digits [of i n] digit_plain by (auto simp: list_all_iff)
qed

lemma plain_trim: "list_all plain_char s \<Longrightarrow> list_all plain_char (trim_right_char c s)"
  by (auto simp: trim_right_char_def list_all_iff dest: set_dropWhileD)

lemma format_plain: "list_all plain_char (format_timestamp value zone)"
proof -
  have "list_all plain_char '''' \<and> list_all plain_char ''-'' \<and> list_all plain_char '' '' \<and>
      list_all plain_char '':'' \<and> list_all plain_char ''.'' \<and> list_all plain_char ''+00''"
    by (simp add: plain_char_def)
  then show ?thesis
    by (cases "civil_date (ins_second value div 86400)")
       (simp add: format_timestamp_def Let_def date_text_def clock_text_def pad_int_plain plain_trim)
qed

section \<open>The instant of a column\<close>

lemma digits_val_bound: "list_all is_digit s \<Longrightarrow> digits_val s < 10 ^ length s"
proof (induction s rule: rev_induct)
  case (snoc c s)
  then have "digits_val s + 1 \<le> 10 ^ length s" "digit_val c < 10"
    by (auto simp: is_digit_def digit_val_def)
  then show ?case by simp
qed (simp add: digits_val_def)

lemma get_fraction_range:
  assumes "get_fraction s = Some (nano, rest)"
  shows "0 \<le> nano \<and> nano < 1000000000"
proof -
  have "int (digits_val t * 10 ^ (9 - length t)) < 1000000000"
    if "list_all is_digit t" "length t \<le> 9" for t
  proof -
    have "digits_val t * 10 ^ (9 - length t) < 10 ^ length t * 10 ^ (9 - length t)"
      using digits_val_bound [OF that(1)] by simp
    also have "\<dots> = 10 ^ 9" using that(2) by (simp flip: power_add)
    finally have "digits_val t * 10 ^ (9 - length t) < 1000000000" by simp
    then show ?thesis by (metis of_nat_less_iff of_nat_numeral)
  qed
  moreover have "list_all is_digit (take 9 (takeWhile is_digit u))" for u
    by (auto simp: list_all_iff dest: in_set_takeD set_takeWhileD)
  ultimately have "int (digits_val (take 9 (takeWhile is_digit u)) *
      10 ^ (9 - length (take 9 (takeWhile is_digit u)))) < 1000000000" for u by force
  with assms show ?thesis
    by (auto simp only: get_fraction_def Let_def split: list.splits if_splits)
qed

lemma parse_rfc3339_nano:
  assumes "parse_rfc3339 s = Some value"
  shows "0 \<le> ins_nano value \<and> ins_nano value < 1000000000"
proof -
  from assms obtain s' rest where "get_fraction s' = Some (ins_nano value, rest)"
    by (auto simp: parse_rfc3339_def bind_eq_Some_conv split: if_splits)
  then show ?thesis by (rule get_fraction_range)
qed

lemma unix_micro_nano: "0 \<le> ins_nano (unix_micro i)" "ins_nano (unix_micro i) < 1000000000"
  using pos_mod_bound [of 1000000 i] by (simp_all add: unix_micro_def)

text \<open>The instant a change event carries for a timestamp column.\<close>

definition event_instant :: "pgtype \<Rightarrow> bytes \<Rightarrow> instant option" where
  "event_instant typ raw =
     (if typ = ''timestamp'' then map_option unix_micro (parse_int 64 (trim_space raw))
      else Option.bind (json_string raw) parse_rfc3339)"

lemma timestamp_micros_SomeD:
  "timestamp_from_micros raw field = Inr out \<Longrightarrow>
   \<exists>i. parse_int 64 (trim_space raw) = Some i \<and> out = quote (format_timestamp (unix_micro i) False)"
  by (auto simp: timestamp_from_micros_def split: option.splits)

lemma timestamp_rfc3339_SomeD:
  "timestamp_from_rfc3339 raw field = Inr out \<Longrightarrow>
   \<exists>v t. json_string raw = Some v \<and> parse_rfc3339 v = Some t \<and> out = quote (format_timestamp t True)"
  by (auto simp: timestamp_from_rfc3339_def decode_string_def split: option.splits)

lemma read_back:
  assumes "0 \<le> ins_nano t" "ins_nano t < 1000000000"
  shows "Option.bind (json_string (quote (format_timestamp t zone))) read_timestamp = Some t"
  using json_string_quote(3) [OF format_plain] read_format_timestamp [OF assms] by simp

text \<open>
  C31. A timestamp keeps its instant: the text written for a \<^verbatim>\<open>timestamp\<close> or \<^verbatim>\<open>timestamptz\<close> column is a
  date of the calendar and a time of day that read back as exactly the instant the event carried, for
  every 64-bit count of microseconds and every accepted RFC 3339 text.
\<close>

theorem timestamps_keep_their_instant:
  assumes "convert_value typ raw field = Inr out" and "\<not> raw_null raw"
    and "typ = ''timestamp'' \<or> typ = ''timestamptz''"
  shows "event_instant typ raw \<noteq> None \<and>
    Option.bind (json_string out) read_timestamp = event_instant typ raw"
  using assms(3)
proof
  assume "typ = ''timestamp''"
  with assms(1,2) have "timestamp_from_micros raw field = Inr out" by (simp add: convert_value_def)
  from timestamp_micros_SomeD [OF this] \<open>typ = ''timestamp''\<close> read_back [OF unix_micro_nano] show ?thesis
    by (auto simp: event_instant_def)
next
  assume "typ = ''timestamptz''"
  with assms(1,2) have "timestamp_from_rfc3339 raw field = Inr out" by (simp add: convert_value_def)
  from timestamp_rfc3339_SomeD [OF this] \<open>typ = ''timestamptz''\<close> parse_rfc3339_nano read_back show ?thesis
    by (fastforce simp: event_instant_def)
qed

lemma timestamps_keep_their_instant_witness:
  "Option.bind (json_string (quote ''2024-01-01 21:34:05.123456+00'')) read_timestamp =
   event_instant ''timestamptz'' (quote ''2024-01-02T03:04:05.123456+05:30'')"
proof -
  have "convert_value ''timestamptz'' (quote ''2024-01-02T03:04:05.123456+05:30'') ''at'' =
      Inr (quote ''2024-01-01 21:34:05.123456+00'')" by code_simp
  moreover have "\<not> raw_null (quote ''2024-01-02T03:04:05.123456+05:30'')" by code_simp
  ultimately show ?thesis
    by (rule timestamps_keep_their_instant [THEN conjunct2]) simp
qed

end
