(* ===== verification/Conversion.thy ===== *)
theory Conversion
  imports PayloadLaws Calendar
begin

text \<open>
  The types of converted values: whatever the column, the result is one JSON value of the kind that
  belongs to the column's PostgreSQL type, or null.
\<close>

section \<open>Space around a JSON value\<close>

lemma jspace_blank: "jspace c \<Longrightarrow> space_len (c # s) = 1 \<and> space_len_rev (c # s) = 1"
  by (auto simp: jspace_def space_len_def space_len_rev_def ascii_space_def)

lemma drop_jspaces:
  assumes "\<And>c r. jspace c \<Longrightarrow> f (c # r) = 1"
  shows "list_all jspace sp \<Longrightarrow> drop_spaces f (sp @ s) = drop_spaces f s"
proof (induction sp)
  case (Cons c sp)
  with assms have "drop_spaces f ((c # sp) @ s) = drop_spaces f (sp @ s)"
    by (subst drop_spaces.simps) simp
  with Cons show ?case by simp
qed simp

lemma begin_value_plain: "begin_value stk c = Some st \<Longrightarrow> \<not> jspace c \<Longrightarrow> \<not> is_blank_ascii c"
  by (auto simp: begin_value_def is_blank_ascii_def ascii_space_def jspace_def is_digit_def split: if_splits)

text \<open>The first character of a value is the same for every way to trim the space before it.\<close>

lemma json_first:
  assumes "json_valid raw"
  obtains sp c r st where "raw = sp @ c # r" "list_all jspace sp" "\<not> jspace c" "begin_value [] c = Some st"
    "jrun st r \<noteq> None" "\<exists>u. trim_json raw = c # u" "trim_space raw = [] \<or> hd (trim_space raw) = c"
proof -
  let ?sp = "takeWhile jspace raw" and ?s = "dropWhile jspace raw"
  have sp: "list_all jspace ?sp" by (auto simp: list_all_iff dest: set_takeWhileD)
  have run_sp: "jrun jstart (sp @ s) = jrun jstart s" if "list_all jspace sp" for sp s
    using that by (induction sp) (simp_all add: begin_value_def)
  have raw: "raw = ?sp @ ?s" by simp
  have ended: "\<not> jended jstart" by (simp add: jended_def begin_value_def jspace_def)
  have "?s \<noteq> []"
  proof
    assume "?s = []"
    with raw have "?sp = raw" by (metis append_Nil2)
    with run_sp [OF sp, of "[]"] have "jrun jstart raw = Some jstart" by (metis append_Nil2 jrun.simps(1))
    with assms ended show False by (simp add: json_valid_def)
  qed
  then obtain c r where s: "?s = c # r" by (cases ?s) auto
  then have c: "\<not> jspace c" by (metis hd_dropWhile list.distinct(1) list.sel(1))
  have "jrun jstart raw = jrun jstart (c # r)" using run_sp [OF sp, of ?s] raw s by metis
  with assms obtain st where st: "begin_value [] c = Some st" "jrun st r \<noteq> None"
    by (auto simp: json_valid_def split: option.splits)
  have "\<exists>u. trim_json raw = c # u"
  proof -
    have "trim_json raw = rev (dropWhile jspace (rev r @ [c]))" by (simp add: trim_json_def s)
    moreover have "dropWhile jspace (rev r @ [c]) = dropWhile jspace (rev r) @ [c]"
      using c by (cases "\<forall>x \<in> set (rev r). jspace x") (auto simp: dropWhile_append)
    ultimately show ?thesis by simp
  qed
  moreover have "trim_space raw = [] \<or> hd (trim_space raw) = c"
  proof -
    have "drop_spaces space_len raw = drop_spaces space_len ?s"
      using drop_jspaces [of space_len, OF _ sp] jspace_blank raw by metis
    also have "\<dots> = c # r"
      using space_len_plain [of ?s] begin_value_plain [OF st(1) c] s by (simp add: drop_spaces_id)
    finally have "trim_space raw = rev (drop_spaces space_len_rev (rev (c # r)))" by (simp add: trim_space_def)
    moreover obtain p where "rev (c # r) = p @ drop_spaces space_len_rev (rev (c # r))"
      using drop_spaces_suffix by blast
    ultimately have "c # r = trim_space raw @ rev p" by (metis rev_append rev_rev_ident)
    then show ?thesis by (cases "trim_space raw") auto
  qed
  ultimately show ?thesis using that raw sp s c st by metis
qed

section \<open>Null\<close>

lemma run_literal: "jrun (Lit ds, stk) r = Some st \<Longrightarrow> ds \<noteq> [] \<Longrightarrow> jended st \<Longrightarrow>
  \<exists>u. r = ds @ u \<and> jrun (EndValue, stk) u = Some st"
proof (induction ds arbitrary: r)
  case (Cons d ds)
  show ?case
  proof (cases r)
    case Nil
    with Cons.prems show ?thesis by (auto simp: jended_def split: option.splits if_splits)
  next
    case (Cons c s)
    with Cons.prems have "c = d" "jrun (if ds = [] then EndValue else Lit ds, stk) s = Some st"
      by (auto split: if_splits)
    with Cons Cons.IH [of s] Cons.prems(3) show ?thesis by (cases "ds = []") auto
  qed
qed simp

lemma run_end_value_spaces: "jrun (EndValue, []) u = Some st \<Longrightarrow> list_all jspace u"
  by (cases u) (auto split: if_splits dest: end_top_spaces)

lemma null_is_null:
  assumes "json_valid raw" "json_kind_of raw = JNull"
  shows "raw_null raw"
proof -
  obtain sp c r st u where raw: "raw = sp @ c # r" "list_all jspace sp" "\<not> jspace c"
    "begin_value [] c = Some st" and u: "trim_json raw = c # u"
    using assms(1) by (rule json_first) blast
  from assms(2) u have c: "c = CHR ''n''" by (auto simp: json_kind_of_def split: if_splits)
  then have "st = (Lit ''ull'', [])" using raw(4) by (simp add: begin_value_def jspace_def is_digit_def)
  moreover have "jrun jstart (sp @ c # r) = jrun jstart (c # r)"
    using raw(2) by (induction sp) (simp_all add: begin_value_def)
  ultimately obtain st' where "jrun (Lit ''ull'', []) r = Some st'" "jended st'"
    using assms(1) raw(1,4) by (auto simp: json_valid_def split: option.splits)
  from run_literal [OF this(1) _ this(2)] obtain v where v: "r = ''ull'' @ v" "list_all jspace v"
    using run_end_value_spaces by blast
  have "drop_spaces space_len raw = drop_spaces space_len (''null'' @ v)"
    using drop_jspaces [of space_len, OF _ raw(2)] jspace_blank raw(1) v(1) c by simp
  also have "\<dots> = ''null'' @ v"
    by (rule drop_spaces_id, rule space_len_plain) (simp add: is_blank_ascii_def ascii_space_def)
  finally have "trim_space raw = rev (drop_spaces space_len_rev (rev v @ ''llun''))"
    by (simp add: trim_space_def)
  also have "drop_spaces space_len_rev (rev v @ ''llun'') = drop_spaces space_len_rev ''llun''"
    using v(2) jspace_blank by (intro drop_jspaces) (auto simp: list_all_iff)
  also have "\<dots> = ''llun''"
    by (rule drop_spaces_id, rule space_len_rev_plain) (simp add: is_blank_ascii_def ascii_space_def)
  finally show ?thesis by (simp add: raw_null_def)
qed

section \<open>The kind of every result\<close>

definition kind_of_type :: "pgtype \<Rightarrow> json_kind" where
  "kind_of_type typ =
     (if pg_integer typ \<or> typ = ''float4'' \<or> typ = ''float8'' then JNumber
      else if typ = ''bool'' then JBool else JString)"

lemma kind_by_first:
  assumes "json_valid raw" "trim_space raw \<noteq> []"
  shows "(hd (trim_space raw) = CHR ''-'' \<or> is_digit (hd (trim_space raw)) \<longrightarrow> json_kind_of raw = JNumber) \<and>
    (hd (trim_space raw) \<in> set ''tf'' \<longrightarrow> json_kind_of raw = JBool) \<and> hd (trim_space raw) \<noteq> CHR ''+''"
proof -
  obtain c st u where c: "begin_value [] c = Some st" "trim_json raw = c # u" "hd (trim_space raw) = c" "\<not> jspace c"
    using assms(1) by (rule json_first) (use assms(2) in blast)
  then have "c \<noteq> CHR ''+''" by (auto simp: begin_value_def jspace_def is_digit_def)
  moreover have "json_kind_of raw = JNumber" if "c = CHR ''-'' \<or> is_digit c"
    using c(2) that by (rule kind_number)
  moreover have "json_kind_of raw = JBool" if "c \<in> set ''tf''"
    using c(2) that by (auto simp: json_kind_of_def)
  ultimately show ?thesis using c(3) by blast
qed

lemma parse_int_first:
  assumes "parse_int bits s = Some i"
  shows "s \<noteq> [] \<and> (hd s = CHR ''-'' \<or> hd s = CHR ''+'' \<or> is_digit (hd s))"
  using assms by (auto simp: parse_int_def parse_uint_def Let_def split: list.splits option.splits if_splits)

lemma integer_kind:
  "json_valid raw \<Longrightarrow> integer_literal raw field name bits = Inr out \<Longrightarrow> out = raw \<and> json_kind_of raw = JNumber"
  using kind_by_first [of raw] by (auto simp: integer_literal_def split: option.splits dest!: parse_int_first)

lemma bool_kind: "json_valid raw \<Longrightarrow> bool_literal raw field = Inr out \<Longrightarrow> out = raw \<and> json_kind_of raw = JBool"
  using kind_by_first [of raw] by (auto simp: bool_literal_def Let_def split: if_splits)

lemma string_kind:
  "decode_string raw field = Inr v \<Longrightarrow> \<not> raw_null raw \<Longrightarrow> json_valid raw \<and> json_kind_of raw = JString"
  using null_is_null [of raw]
  by (auto simp: decode_string_def json_string_def json_string_ptr_def split: option.splits if_splits)

lemma timestamp_kind:
  "json_valid (quote (format_timestamp t zone)) \<and> json_kind_of (quote (format_timestamp t zone)) = JString"
  using json_string_quote [OF format_plain] by simp

lemma float_kind: "float_literal raw field name bits = Inr out \<Longrightarrow> json_valid out \<and> json_kind_of out = JNumber"
  using float_literal_SomeD expand_decimal_parts plain_number_valid by metis

lemma texts_unchanged:
  "json_text raw field = Inr out \<Longrightarrow> out = raw \<and> (\<exists>v. decode_string raw field = Inr v)"
  "base64_text raw field = Inr out \<Longrightarrow> out = raw \<and> (\<exists>v. decode_string raw field = Inr v)"
  "plain_text raw field = Inr out \<Longrightarrow> out = raw \<and> (\<exists>v. decode_string raw field = Inr v)"
  by (auto simp: json_text_def base64_text_def plain_text_def split: sum.splits if_splits)

lemma null_literal: "json_valid ''null'' \<and> json_kind_of ''null'' = JNull"
  by code_simp

text \<open>
  C32. A converted value has the type of its column: from any JSON value the conversion makes, if it
  accepts it, one valid JSON value, which is null exactly for a null column and otherwise a number for the
  integer and float types, a boolean for \<^verbatim>\<open>bool\<close> and a string for every other type.
\<close>

theorem converted_values_fit_their_type:
  assumes raw: "json_valid raw" and conv: "convert_value typ raw field = Inr out"
  shows "json_valid out \<and> json_kind_of out = (if raw_null raw then JNull else kind_of_type typ)"
proof (cases "raw_null raw")
  case True
  with conv have "out = ''null''" by (simp add: convert_value_def)
  with True null_literal show ?thesis by simp
next
  case False
  note string = string_kind [OF _ False]
  consider (int) name bits where "pg_integer typ" "integer_literal raw field name bits = Inr out"
    | (float) name bits where "typ = ''float4'' \<or> typ = ''float8''" "float_literal raw field name bits = Inr out"
    | (bool) "typ = ''bool''" "bool_literal raw field = Inr out"
    | (same) v where "typ \<in> {''json'', ''bytea'', ''text''}" "out = raw" "decode_string raw field = Inr v"
    | (time) t zone where "typ \<in> {''timestamp'', ''timestamptz''}" "out = quote (format_timestamp t zone)"
    using conv False
    by (auto simp: convert_value_def pg_integer_def split: if_splits
        dest!: timestamp_micros_SomeD timestamp_rfc3339_SomeD texts_unchanged)
  then show ?thesis
  proof cases
    case int
    with integer_kind [OF raw int(2)] raw False show ?thesis by (simp add: kind_of_type_def)
  next
    case float
    with float_kind [OF float(2)] False show ?thesis by (auto simp: kind_of_type_def)
  next
    case bool
    with bool_kind [OF raw bool(2)] raw False show ?thesis by (simp add: kind_of_type_def pg_integer_def)
  next
    case same
    with string [OF same(3)] False show ?thesis by (auto simp: kind_of_type_def pg_integer_def)
  next
    case time
    with timestamp_kind False show ?thesis by (auto simp: kind_of_type_def pg_integer_def)
  qed
qed

lemma converted_values_fit_their_type_witness:
  "json_valid '' true '' \<and> json_kind_of '' true '' = (if raw_null '' true '' then JNull else kind_of_type ''bool'')"
proof -
  have "json_valid '' true ''" "convert_value ''bool'' '' true '' ''active'' = Inr '' true ''" by code_simp+
  then show ?thesis by (rule converted_values_fit_their_type)
qed

end
