(* ===== verification/Debezium.thy ===== *)
theory Debezium
  imports Conversion Protocol "HOL-Library.AList"
begin

text \<open>
  \<^verbatim>\<open>internal/adapters/debezium/decode.go\<close>: one raw change event becomes the record that is
  delivered. A Go map of raw JSON values is an association list; \<^verbatim>\<open>json.Marshal\<close> writes it sorted
  by key.
\<close>

type_synonym raw_map = "(bytes \<times> bytes) list"

definition payload_error :: "bytes \<Rightarrow> go_error" where
  "payload_error what = Errorf (''payload: '' @ what)"

definition wrapped :: "go_error \<Rightarrow> go_error" where
  "wrapped e = (case e of Errorf what \<Rightarrow> payload_error what | _ \<Rightarrow> payload_error [])"

section \<open>Pieces of JSON\<close>

definition decode_object :: "bytes \<Rightarrow> bytes \<Rightarrow> go_error + raw_map" where
  "decode_object raw name =
     (if raw = [] then Inl (payload_error (name @ '' is empty''))
      else (case json_object raw of
              Some (Some ms) \<Rightarrow> Inr ms
            | _ \<Rightarrow> Inl (payload_error (name @ '' is not a JSON object''))))"

definition decode_text :: "bytes \<Rightarrow> bytes \<Rightarrow> go_error + bytes" where
  "decode_text raw field =
     (case json_string raw of
        None \<Rightarrow> Inl (payload_error (''field '' @ quote field @ '' is not a string''))
      | Some v \<Rightarrow> Inr v)"

definition required_string :: "raw_map \<Rightarrow> bytes \<Rightarrow> bytes \<Rightarrow> go_error + bytes" where
  "required_string object name context =
     (case member object name of
        None \<Rightarrow> Inl (payload_error (context @ '' is missing '' @ quote name))
      | Some raw \<Rightarrow> decode_text raw (context @ ''.'' @ name))"

definition map_size :: "raw_map \<Rightarrow> nat" where
  "map_size ms = length (remdups (map fst ms))"

section \<open>Checks\<close>

fun check_columns :: "bytes \<Rightarrow> column list \<Rightarrow> bytes list \<Rightarrow> bytes list \<Rightarrow> go_error + bytes list" where
  "check_columns serial [] names seen = Inr seen"
| "check_columns serial (c # cs) names seen =
     (if col_name c = [] \<or> col_name c \<in> set seen \<or> names = [] \<or> hd names \<noteq> col_name c
      then Inl (payload_error ''identity has invalid configured columns'')
      else if \<not> pg_supported (col_type c)
      then Inl (payload_error (''configured column '' @ quote (col_name c) @ '' has unsupported type''))
      else if col_name c = serial \<and> \<not> pg_integer (col_type c)
      then Inl (payload_error (''serial column '' @ quote (col_name c) @ '' has invalid type''))
      else check_columns serial cs (tl names) (col_name c # seen))"

definition validate_identity :: "source \<Rightarrow> identity \<Rightarrow> generation \<Rightarrow> go_error option" where
  "validate_identity source identity generation =
     (if \<not> generation_valid generation then Some (payload_error ''generation is invalid'')
      else if src_table source = [] \<or> idn_table identity = [] \<or> idn_table identity \<noteq> src_table source
      then Some (payload_error ''identity table does not match source table'')
      else if idn_serial identity = [] \<or> idn_partitioning identity = [] \<or>
              idn_serial identity \<noteq> src_serial source \<or>
              idn_partitioning identity \<noteq> src_partitioning source
      then Some (payload_error ''identity columns do not match source configuration'')
      else if idn_partitions identity < 1
      then Some (payload_error ''identity has invalid partition count'')
      else if src_columns source = [] \<or> length (idn_columns identity) \<noteq> length (src_columns source)
      then Some (payload_error ''identity columns do not match source configuration'')
      else (case check_columns (idn_serial identity) (idn_columns identity) (src_columns source) [] of
              Inl e \<Rightarrow> Some e
            | Inr seen \<Rightarrow>
                if idn_serial identity \<notin> set seen \<or> idn_partitioning identity \<notin> set seen \<or>
                   \<not> (idn_event_id identity = [] \<or> idn_event_id identity \<in> set seen)
                then Some (payload_error ''identity is missing a required configured column'')
                else None))"

definition validate_source :: "raw_map \<Rightarrow> source \<Rightarrow> go_error option" where
  "validate_source envelope source =
     (case member envelope ''source'' of
        None \<Rightarrow> Some (payload_error ''envelope is missing source metadata'')
      | Some raw \<Rightarrow>
          (case decode_object raw ''source metadata'' of
             Inl e \<Rightarrow> Some e
           | Inr metadata \<Rightarrow>
               (case required_string metadata ''schema'' ''source metadata'' of
                  Inl e \<Rightarrow> Some e
                | Inr schema \<Rightarrow>
                    (case required_string metadata ''table'' ''source metadata'' of
                       Inl e \<Rightarrow> Some e
                     | Inr table \<Rightarrow>
                         if schema \<noteq> ''public'' then Some (payload_error ''source schema is not public'')
                         else if table \<noteq> src_table source
                         then Some (payload_error ''source table does not match configured table'')
                         else None))))"

text \<open>The conversion of the key's value: the first column with the name of the partitioning column.\<close>

definition check_key_value :: "identity \<Rightarrow> bytes \<Rightarrow> go_error option" where
  "check_key_value identity value =
     (case find (\<lambda>c. col_name c = idn_partitioning identity) (idn_columns identity) of
        None \<Rightarrow> None
      | Some c \<Rightarrow>
          (case convert_value (col_type c) value (col_name c @ '' in Kafka key'') of
             Inl e \<Rightarrow> Some (wrapped e)
           | Inr _ \<Rightarrow> None))"

definition validate_key :: "bytes \<Rightarrow> raw_map \<Rightarrow> identity \<Rightarrow> go_error option" where
  "validate_key raw after identity =
     (case decode_object raw ''Kafka key'' of
        Inl e \<Rightarrow> Some e
      | Inr key \<Rightarrow>
          if map_size key \<noteq> 1 then Some (payload_error ''Kafka key must contain only the partition column'')
          else (case member key (idn_partitioning identity) of
             None \<Rightarrow> Some (payload_error ''Kafka key is missing the partition column'')
           | Some key_value \<Rightarrow>
               if raw_null key_value then Some (payload_error ''Kafka key is missing the partition column'')
               else (case member after (idn_partitioning identity) of
                  None \<Rightarrow> Some (payload_error ''after object has a null partition column'')
                | Some after_value \<Rightarrow>
                    if raw_null after_value
                    then Some (payload_error ''after object has a null partition column'')
                    else (case check_key_value identity key_value of
                       Some e \<Rightarrow> Some e
                     | None \<Rightarrow>
                         (case compact False key_value of
                            None \<Rightarrow> Some (payload_error ''Kafka key has malformed partition value'')
                          | Some key_compact \<Rightarrow>
                              if compact False after_value \<noteq> Some key_compact
                              then Some (payload_error ''Kafka key does not match the partition column'')
                              else None)))))"

section \<open>Columns\<close>

definition configured_value :: "raw_map \<Rightarrow> column \<Rightarrow> identity \<Rightarrow> go_error + bytes" where
  "configured_value after c identity =
     (case member after (col_name c) of
        None \<Rightarrow>
          Inl (payload_error (''after object is missing configured column '' @ quote (col_name c)))
      | Some raw \<Rightarrow>
          if raw_null raw \<and> (col_name c = idn_serial identity \<or> col_name c = idn_partitioning identity)
          then Inl (payload_error (''required column '' @ quote (col_name c) @ '' is null''))
          else (case convert_value (col_type c) raw (col_name c) of
                  Inl e \<Rightarrow> Inl (wrapped e)
                | Inr v \<Rightarrow> Inr v))"

definition event_id_from :: "bytes \<Rightarrow> bytes \<Rightarrow> go_error + bytes" where
  "event_id_from raw column =
     (if raw_null raw then Inl (payload_error (''event id column '' @ quote column @ '' is null''))
      else (case decode_text raw (''event id '' @ column) of
              Inl e \<Rightarrow> Inl e
            | Inr event_id \<Rightarrow>
                if event_id = [] then Inl (payload_error (''event id column '' @ quote column @ '' is empty''))
                else Inr event_id))"

fun configured_values :: "raw_map \<Rightarrow> identity \<Rightarrow> column list \<Rightarrow> raw_map \<Rightarrow> bytes \<Rightarrow>
    go_error + raw_map \<times> bytes" where
  "configured_values after identity [] vs event_id = Inr (vs, event_id)"
| "configured_values after identity (c # cs) vs event_id =
     (case configured_value after c identity of
        Inl e \<Rightarrow> Inl e
      | Inr converted \<Rightarrow>
          if col_name c = idn_event_id identity then
            (case event_id_from (raw_member after (col_name c)) (col_name c) of
               Inl e \<Rightarrow> Inl e
             | Inr i \<Rightarrow> configured_values after identity cs (AList.update (col_name c) converted vs) i)
          else configured_values after identity cs (AList.update (col_name c) converted vs) event_id)"

definition optional_string :: "raw_map \<Rightarrow> bytes \<Rightarrow> bytes" where
  "optional_string vs column =
     (case map_of vs column of
        None \<Rightarrow> []
      | Some raw \<Rightarrow> (case json_string raw of None \<Rightarrow> [] | Some v \<Rightarrow> v))"

section \<open>Events\<close>

definition after_object :: "raw_record \<Rightarrow> source \<Rightarrow> identity \<Rightarrow> go_error + raw_map" where
  "after_object r source identity =
     (case decode_object (rr_value r) ''envelope'' of
        Inl e \<Rightarrow> Inl e
      | Inr envelope \<Rightarrow>
          (case required_string envelope ''op'' ''envelope'' of
             Inl e \<Rightarrow> Inl e
           | Inr operation \<Rightarrow>
               if operation \<noteq> ''c'' \<and> operation \<noteq> ''r'' then Inl (payload_error ''unsupported operation'')
               else (case validate_source envelope source of
                  Some e \<Rightarrow> Inl e
                | None \<Rightarrow>
                    (case member envelope ''after'' of
                       None \<Rightarrow> Inl (payload_error ''operation has no after object'')
                     | Some after_raw \<Rightarrow>
                         if raw_null after_raw then Inl (payload_error ''operation has no after object'')
                         else (case decode_object after_raw ''after'' of
                            Inl e \<Rightarrow> Inl e
                          | Inr after \<Rightarrow>
                              (case validate_key (rr_key r) after identity of
                                 Some e \<Rightarrow> Inl e
                               | None \<Rightarrow> Inr after))))))"

text \<open>\<^verbatim>\<open>json.Marshal\<close> of a map of raw messages.\<close>

fun marshal_members :: "raw_map \<Rightarrow> bytes list option" where
  "marshal_members [] = Some []"
| "marshal_members ((k, v) # ms) =
     (case (compact True v, marshal_members ms) of
        (Some v', Some rest) \<Rightarrow> Some ((marshal_string k @ '':'' @ v') # rest)
      | _ \<Rightarrow> None)"

definition marshal_map :: "raw_map \<Rightarrow> bytes option" where
  "marshal_map ms = map_option (\<lambda>parts. ''{'' @ join '','' parts @ ''}'') (marshal_members (sort_key fst ms))"

definition decode_event :: "source \<Rightarrow> identity \<Rightarrow> generation \<Rightarrow> raw_record option \<Rightarrow>
    go_error + stream_record" where
  "decode_event source identity generation record =
     (case record of
        None \<Rightarrow> Inl (payload_error ''record is nil'')
      | Some r \<Rightarrow>
          (case validate_identity source identity generation of
             Some e \<Rightarrow> Inl e
           | None \<Rightarrow>
               (case after_object r source identity of
                  Inl e \<Rightarrow> Inl e
                | Inr after \<Rightarrow>
                    (case configured_values after identity (idn_columns identity) [] [] of
                       Inl e \<Rightarrow> Inl e
                     | Inr (vs, event_id) \<Rightarrow>
                         (case marshal_map vs of
                            None \<Rightarrow> Inl (payload_error ''marshal configured payload'')
                          | Some payload \<Rightarrow>
                              Inr \<lparr>rec_source = source, rec_payload = payload, rec_topic = rr_topic r,
                                   rec_partition = rr_partition r, rec_offset = rr_offset r,
                                   rec_event_id = event_id,
                                   rec_aggregate_id = optional_string vs ''aggregate_id'',
                                   rec_event_name = optional_string vs ''event_name'',
                                   rec_generation = generation, rec_replay = False\<rparr>)))))"

end
