(* ===== verification/DebeziumLaws.thy ===== *)
theory DebeziumLaws
  imports Debezium
begin

text \<open>
  What decoding guarantees: its errors are built from configured names alone, and a record it accepts
  holds exactly the configured columns of an insert or a snapshot read of the configured table.
\<close>

section \<open>The errors\<close>

text \<open>Every message a decoding can end with, from the configured columns.\<close>

definition object_names :: "bytes list" where
  "object_names = [''envelope'', ''source metadata'', ''after'', ''Kafka key'']"

definition required_fields :: "(bytes \<times> bytes) list" where
  "required_fields = [(''envelope'', ''op''), (''source metadata'', ''schema''), (''source metadata'', ''table'')]"

definition conversion_texts :: "bytes list" where
  "conversion_texts =
     [''a valid int2'', ''a valid int4'', ''a valid int8'', ''a valid float4'', ''a valid float8'',
      ''a valid bool'', ''valid JSON text'', ''a string'', ''valid base64'',
      ''valid timestamp microseconds'', ''valid RFC3339'']"

definition conversion_errors :: "bytes \<Rightarrow> bytes list" where
  "conversion_errors field =
     (''field '' @ quote field @ '' has unsupported type'') #
     map (\<lambda>what. ''field '' @ quote field @ '' is not '' @ what) conversion_texts"

definition fixed_errors :: "bytes list" where
  "fixed_errors =
     [''record is nil'', ''generation is invalid'', ''identity table does not match source table'',
      ''identity columns do not match source configuration'', ''identity has invalid partition count'',
      ''identity has invalid configured columns'', ''identity is missing a required configured column'',
      ''unsupported operation'', ''envelope is missing source metadata'', ''source schema is not public'',
      ''source table does not match configured table'', ''operation has no after object'',
      ''Kafka key must contain only the partition column'', ''Kafka key is missing the partition column'',
      ''after object has a null partition column'', ''Kafka key has malformed partition value'',
      ''Kafka key does not match the partition column'', ''marshal configured payload''] @
     map (\<lambda>n. n @ '' is empty'') object_names @ map (\<lambda>n. n @ '' is not a JSON object'') object_names @
     map (\<lambda>(context, n). context @ '' is missing '' @ quote n) required_fields @
     map (\<lambda>(context, n). ''field '' @ quote (context @ ''.'' @ n) @ '' is not a string'') required_fields"

definition column_errors :: "bytes \<Rightarrow> bytes list" where
  "column_errors n =
     [''configured column '' @ quote n @ '' has unsupported type'',
      ''serial column '' @ quote n @ '' has invalid type'',
      ''after object is missing configured column '' @ quote n, ''required column '' @ quote n @ '' is null'',
      ''event id column '' @ quote n @ '' is null'', ''event id column '' @ quote n @ '' is empty'',
      ''field '' @ quote (''event id '' @ n) @ '' is not a string''] @
     conversion_errors n @ conversion_errors (n @ '' in Kafka key'')"

definition event_errors :: "identity \<Rightarrow> go_error list" where
  "event_errors i =
     map payload_error (fixed_errors @ concat (map (\<lambda>c. column_errors (col_name c)) (idn_columns i)))"

definition fixed_error :: "go_error \<Rightarrow> bool" where
  "fixed_error e \<longleftrightarrow> e \<in> payload_error ` set fixed_errors"

lemma fixed_errorI: "what \<in> set fixed_errors \<Longrightarrow> fixed_error (payload_error what)"
  by (simp add: fixed_error_def)

lemma fixed_event_error: "fixed_error e \<Longrightarrow> e \<in> set (event_errors i)"
  by (auto simp: event_errors_def fixed_error_def)

lemma column_event_error:
  "c \<in> set (idn_columns i) \<Longrightarrow> e \<in> payload_error ` set (column_errors (col_name c)) \<Longrightarrow> e \<in> set (event_errors i)"
  by (auto simp: event_errors_def)

text \<open>Programs whose errors all satisfy a predicate, and the rules that follow their structure.\<close>

definition errs :: "('e \<Rightarrow> bool) \<Rightarrow> 'e + 'a \<Rightarrow> bool" where
  "errs P r \<longleftrightarrow> (\<forall>e. r = Inl e \<longrightarrow> P e)"

definition err_opt :: "('e \<Rightarrow> bool) \<Rightarrow> 'e option \<Rightarrow> bool" where
  "err_opt P r \<longleftrightarrow> (\<forall>e. r = Some e \<longrightarrow> P e)"

lemma errsD: "errs P r \<Longrightarrow> r = Inl e \<Longrightarrow> P e"
  by (simp add: errs_def)

lemma err_optD: "err_opt P r \<Longrightarrow> r = Some e \<Longrightarrow> P e"
  by (simp add: err_opt_def)

named_theorems err_rules \<open>errors of a program, by its structure\<close>

lemma errs_structure [err_rules]:
  "\<And>P e. P e \<Longrightarrow> errs P (Inl e)" "\<And>P a. errs P (Inr a)"
  "\<And>P b r s. (b \<Longrightarrow> errs P r) \<Longrightarrow> (\<not> b \<Longrightarrow> errs P s) \<Longrightarrow> errs P (if b then r else s)"
  "\<And>P x r f. (x = None \<Longrightarrow> errs P r) \<Longrightarrow> (\<And>y. x = Some y \<Longrightarrow> errs P (f y)) \<Longrightarrow>
     errs P (case x of None \<Rightarrow> r | Some y \<Rightarrow> f y)"
  "\<And>P x f g. (\<And>e. x = Inl e \<Longrightarrow> errs P (f e)) \<Longrightarrow> (\<And>y. x = Inr y \<Longrightarrow> errs P (g y)) \<Longrightarrow>
     errs P (case x of Inl e \<Rightarrow> f e | Inr y \<Rightarrow> g y)"
  "\<And>P x f. (\<And>a b. x = (a, b) \<Longrightarrow> errs P (f a b)) \<Longrightarrow> errs P (case x of (a, b) \<Rightarrow> f a b)"
  by (auto simp: errs_def split: option.splits sum.splits prod.splits)

lemma err_opt_structure [err_rules]:
  "\<And>P e. P e \<Longrightarrow> err_opt P (Some e)" "\<And>P. err_opt P None"
  "\<And>P b r s. (b \<Longrightarrow> err_opt P r) \<Longrightarrow> (\<not> b \<Longrightarrow> err_opt P s) \<Longrightarrow> err_opt P (if b then r else s)"
  "\<And>P x r f. (x = None \<Longrightarrow> err_opt P r) \<Longrightarrow> (\<And>y. x = Some y \<Longrightarrow> err_opt P (f y)) \<Longrightarrow>
     err_opt P (case x of None \<Rightarrow> r | Some y \<Rightarrow> f y)"
  "\<And>P x f g. (\<And>e. x = Inl e \<Longrightarrow> err_opt P (f e)) \<Longrightarrow> (\<And>y. x = Inr y \<Longrightarrow> err_opt P (g y)) \<Longrightarrow>
     err_opt P (case x of Inl e \<Rightarrow> f e | Inr y \<Rightarrow> g y)"
  by (auto simp: err_opt_def split: option.splits sum.splits)

lemma decode_object_errs: "n \<in> set object_names \<Longrightarrow> errs fixed_error (decode_object raw n)"
  unfolding decode_object_def
  by (intro err_rules) (auto intro!: fixed_errorI err_rules simp: fixed_errors_def split: option.splits)

lemma required_string_errs:
  assumes "(context, n) \<in> set required_fields"
  shows "errs fixed_error (required_string ms n context)"
proof -
  have "(context @ '' is missing '' @ quote n) \<in> set fixed_errors"
    "(''field '' @ quote (context @ ''.'' @ n) @ '' is not a string'') \<in> set fixed_errors"
    using assms unfolding fixed_errors_def by force+
  then show ?thesis
    unfolding required_string_def decode_text_def by (intro err_rules fixed_errorI)
qed

lemmas decode_object_error = errsD [OF decode_object_errs, rotated]
lemmas required_string_error = errsD [OF required_string_errs, rotated]

lemma invalid_error: "what \<in> set conversion_texts \<Longrightarrow> invalid field what \<in> Errorf ` set (conversion_errors field)"
  by (simp add: invalid_def conversion_errors_def)

lemma literal_errors:
  "integer_literal raw field name bits = Inl e \<Longrightarrow> e = invalid field (''a valid '' @ name)"
  "float_literal raw field name bits = Inl e \<Longrightarrow> e = invalid field (''a valid '' @ name)"
  "bool_literal raw field = Inl e \<Longrightarrow> e = invalid field ''a valid bool''"
  "json_text raw field = Inl e \<Longrightarrow> e = invalid field ''valid JSON text''"
  "plain_text raw field = Inl e \<Longrightarrow> e = invalid field ''a string''"
  "base64_text raw field = Inl e \<Longrightarrow> e = invalid field ''a string'' \<or> e = invalid field ''valid base64''"
  "timestamp_from_micros raw field = Inl e \<Longrightarrow> e = invalid field ''valid timestamp microseconds''"
  "timestamp_from_rfc3339 raw field = Inl e \<Longrightarrow>
     e = invalid field ''a string'' \<or> e = invalid field ''valid RFC3339''"
  by (auto simp: integer_literal_def float_literal_def bool_literal_def json_text_def base64_text_def
      plain_text_def timestamp_from_micros_def timestamp_from_rfc3339_def decode_string_def Let_def
      split: option.splits sum.splits if_splits)

lemma convert_value_error:
  assumes "convert_value typ raw field = Inl e"
  shows "e \<in> Errorf ` set (conversion_errors field)"
proof -
  have "e = Errorf (''field '' @ quote field @ '' has unsupported type'') \<or>
      (\<exists>what \<in> set conversion_texts. e = invalid field what)"
    using assms unfolding convert_value_def
    by (auto split: if_splits dest!: literal_errors simp: conversion_texts_def)
  then show ?thesis
  proof
    assume "e = Errorf (''field '' @ quote field @ '' has unsupported type'')"
    then show ?thesis by (simp add: conversion_errors_def)
  qed (blast intro: invalid_error)
qed

lemma validate_source_errs: "err_opt fixed_error (validate_source envelope source)"
  unfolding validate_source_def
  by (intro err_rules)
     (rule fixed_errorI, simp add: fixed_errors_def
       | erule decode_object_error, simp add: object_names_def
       | erule required_string_error, simp add: required_fields_def)+

lemma wrapped_error: "e \<in> Errorf ` S \<Longrightarrow> wrapped e \<in> payload_error ` S"
  by (auto simp: wrapped_def)

lemma wrapped_conversion:
  assumes "convert_value typ raw field = Inl e" "set (conversion_errors field) \<subseteq> S"
  shows "wrapped e \<in> payload_error ` S"
  using wrapped_error [OF convert_value_error [OF assms(1)]] assms(2) by blast

abbreviation of_event :: "identity \<Rightarrow> go_error \<Rightarrow> bool" where
  "of_event i e \<equiv> e \<in> set (event_errors i)"

abbreviation of_column :: "column \<Rightarrow> go_error \<Rightarrow> bool" where
  "of_column c e \<equiv> e \<in> payload_error ` set (column_errors (col_name c))"

lemma check_key_errs: "err_opt (of_event i) (check_key_value i v)"
  unfolding check_key_value_def
proof (intro err_rules)
  fix c e
  assume c: "find (\<lambda>c. col_name c = idn_partitioning i) (idn_columns i) = Some c"
    and e: "convert_value (col_type c) v (col_name c @ '' in Kafka key'') = Inl e"
  from c have "c \<in> set (idn_columns i)" by (auto dest: find_SomeD)
  moreover have "of_column c (wrapped e)" by (rule wrapped_conversion [OF e]) (auto simp: column_errors_def)
  ultimately show "of_event i (wrapped e)" by (rule column_event_error)
qed

lemma validate_key_errs: "err_opt (of_event i) (validate_key raw after i)"
  unfolding validate_key_def
  by (intro err_rules)
     (rule fixed_event_error, rule fixed_errorI, (simp add: fixed_errors_def; fail)
       | rule fixed_event_error, erule decode_object_error, simp add: object_names_def
       | erule err_optD [OF check_key_errs])+

lemma check_columns_errs:
  "set cs \<subseteq> set (idn_columns i) \<Longrightarrow> errs (of_event i) (check_columns serial cs ns seen)"
proof (induction serial cs ns seen rule: check_columns.induct)
  case (2 serial c cs ns seen)
  then have c: "c \<in> set (idn_columns i)" by simp
  show ?case
    unfolding check_columns.simps
    by (intro err_rules)
       (rule fixed_event_error, rule fixed_errorI, (simp add: fixed_errors_def; fail)
         | rule column_event_error [OF c], rule imageI, simp add: column_errors_def
         | rule "2.IH", assumption+, use "2.prems" in simp)+
qed (simp add: err_rules)

lemma validate_identity_errs: "err_opt (of_event i) (validate_identity s i g)"
  unfolding validate_identity_def
  by (intro err_rules)
     (rule fixed_event_error, rule fixed_errorI, (simp add: fixed_errors_def; fail)
       | erule errsD [OF check_columns_errs [OF subset_refl]])+

lemma after_object_errs: "errs (of_event i) (after_object r s i)"
  unfolding after_object_def
  by (intro err_rules)
     (rule fixed_event_error, rule fixed_errorI, (simp add: fixed_errors_def; fail)
       | rule fixed_event_error, erule decode_object_error, simp add: object_names_def
       | rule fixed_event_error, erule required_string_error, simp add: required_fields_def
       | rule fixed_event_error, erule err_optD [OF validate_source_errs]
       | erule err_optD [OF validate_key_errs])+

lemma configured_value_errs: "errs (of_column c) (configured_value after c i)"
  unfolding configured_value_def
  by (intro err_rules)
     (rule imageI, simp add: column_errors_def | erule wrapped_conversion, auto simp: column_errors_def)+

lemma event_id_errs: "errs (of_column c) (event_id_from raw (col_name c))"
  unfolding event_id_from_def decode_text_def
  by (intro err_rules)
     (rule imageI, simp add: column_errors_def | auto simp: column_errors_def split: option.splits)+

lemma configured_values_errs:
  "set cs \<subseteq> set (idn_columns i) \<Longrightarrow> errs (of_event i) (configured_values after i cs vs ei)"
proof (induction after i cs vs ei rule: configured_values.induct)
  case (2 after i c cs vs ei)
  then have c: "c \<in> set (idn_columns i)" by simp
  show ?case
    unfolding configured_values.simps
    by (intro err_rules)
       (erule column_event_error [OF c, OF errsD [OF configured_value_errs]]
         | erule column_event_error [OF c, OF errsD [OF event_id_errs]]
         | use 2 in simp)+
qed (simp add: err_rules)

text \<open>
  C33. An error of decoding never shows a value of the record: whatever the record holds, its text is one of
  a list that is made from the configured column names only.
\<close>

theorem errors_never_echo_values:
  assumes "decode_event source identity generation record = Inl e"
  shows "e \<in> set (event_errors identity)"
proof -
  have "errs (of_event identity) (decode_event source identity generation record)"
    unfolding decode_event_def
    by (intro err_rules)
       (rule fixed_event_error, rule fixed_errorI, (simp add: fixed_errors_def; fail)
         | erule err_optD [OF validate_identity_errs] | erule errsD [OF after_object_errs]
         | erule errsD [OF configured_values_errs [OF subset_refl]])+
  then show ?thesis using assms by (rule errsD)
qed

section \<open>The records\<close>

text \<open>The columns of a validated identity are the source's, each once, of supported types.\<close>

lemma check_columns_SomeD:
  "check_columns serial cs ns seen = Inr all \<Longrightarrow> length cs = length ns \<Longrightarrow>
   map col_name cs = ns \<and> distinct (map col_name cs) \<and> set (map col_name cs) \<inter> set seen = {} \<and>
   set all = set seen \<union> set (map col_name cs) \<and> (\<forall>c \<in> set cs. col_name c \<noteq> [] \<and> pg_supported (col_type c))"
proof (induction serial cs ns seen rule: check_columns.induct)
  case (2 serial c cs ns seen)
  from "2.prems" have c: "col_name c \<noteq> []" "col_name c \<notin> set seen" "ns \<noteq> []" "hd ns = col_name c"
    "pg_supported (col_type c)" "check_columns serial cs (tl ns) (col_name c # seen) = Inr all"
    by (auto split: if_splits)
  with "2.prems"(1) "2.IH" "2.prems"(2)
  have "map col_name cs = tl ns \<and> distinct (map col_name cs) \<and>
      set (map col_name cs) \<inter> set (col_name c # seen) = {} \<and>
      set all = set (col_name c # seen) \<union> set (map col_name cs) \<and>
      (\<forall>c \<in> set cs. col_name c \<noteq> [] \<and> pg_supported (col_type c))"
    by (fastforce split: if_splits)
  with c show ?case by (cases ns) auto
qed auto

lemma validate_identity_NoneD:
  assumes "validate_identity s i g = None"
  shows "map col_name (idn_columns i) = src_columns s \<and> distinct (src_columns s) \<and> src_columns s \<noteq> [] \<and>
    idn_serial i \<in> set (src_columns s) \<and> idn_partitioning i \<in> set (src_columns s) \<and>
    idn_partitioning i = src_partitioning s \<and> idn_serial i = src_serial s"
proof -
  from assms have len: "length (idn_columns i) = length (src_columns s)" "src_columns s \<noteq> []"
    and names: "idn_partitioning i = src_partitioning s \<and> idn_serial i = src_serial s"
    by (auto simp: validate_identity_def split: if_splits)
  from assms obtain seen where c: "check_columns (idn_serial i) (idn_columns i) (src_columns s) [] = Inr seen"
    "idn_serial i \<in> set seen \<and> idn_partitioning i \<in> set seen"
    by (auto simp: validate_identity_def split: if_splits sum.splits)
  from check_columns_SomeD [OF c(1) len(1)]
  have "map col_name (idn_columns i) = src_columns s" "distinct (src_columns s)" "set seen = set (src_columns s)"
    by (auto simp del: set_map)
  with c(2) len(2) names show ?thesis by blast
qed

text \<open>What one configured column contributes.\<close>

definition column_value :: "identity \<Rightarrow> raw_map \<Rightarrow> column \<Rightarrow> bytes \<Rightarrow> bool" where
  "column_value i after c v \<longleftrightarrow>
     (\<exists>raw. member after (col_name c) = Some raw \<and> convert_value (col_type c) raw (col_name c) = Inr v \<and>
        (col_name c \<in> {idn_serial i, idn_partitioning i} \<longrightarrow> \<not> raw_null raw))"

definition event_id_of :: "identity \<Rightarrow> raw_map \<Rightarrow> bytes \<Rightarrow> bool" where
  "event_id_of i after e \<longleftrightarrow>
     (\<exists>raw. member after (idn_event_id i) = Some raw \<and> \<not> raw_null raw \<and> json_string raw = Some e \<and> e \<noteq> [])"

lemma configured_value_SomeD: "configured_value after c i = Inr v \<Longrightarrow> column_value i after c v"
  by (auto simp: configured_value_def column_value_def split: option.splits if_splits sum.splits)

lemma event_id_SomeD:
  "configured_value after c i = Inr v \<Longrightarrow> col_name c = idn_event_id i \<Longrightarrow>
   event_id_from (raw_member after (col_name c)) (col_name c) = Inr e \<Longrightarrow> event_id_of i after e"
  by (auto simp: event_id_from_def decode_text_def event_id_of_def raw_member_def configured_value_def
      split: option.splits if_splits sum.splits)

lemma configured_values_SomeD:
  assumes "configured_values after i cs vs ei = Inr (vs', ei')"
    and "distinct (map col_name cs)" "set (map col_name cs) \<inter> fst ` set vs = {}"
  shows "\<exists>new. vs' = vs @ new \<and> map fst new = map col_name cs \<and> list_all2 (\<lambda>c (n, v). column_value i after c v) cs new \<and>
    (if idn_event_id i \<in> set (map col_name cs) then event_id_of i after ei' else ei' = ei)"
  using assms
proof (induction after i cs vs ei arbitrary: vs' ei' rule: configured_values.induct)
  case (2 after i c cs vs ei)
  from "2.prems"(1) obtain v where v: "configured_value after c i = Inr v"
    by (auto split: sum.splits)
  let ?vs = "AList.update (col_name c) v vs"
  have upd: "?vs = vs @ [(col_name c, v)]"
    using "2.prems"(3) by (induction vs) auto
  have rest: "distinct (map col_name cs)" "set (map col_name cs) \<inter> fst ` set ?vs = {}" "col_name c \<notin> set (map col_name cs)"
    using "2.prems"(2,3) upd by auto
  show ?case
  proof (cases "col_name c = idn_event_id i")
    case True
    with "2.prems"(1) v obtain e where e: "event_id_from (raw_member after (col_name c)) (col_name c) = Inr e"
      "configured_values after i cs ?vs e = Inr (vs', ei')" by (auto split: sum.splits)
    from "2.IH"(1) [OF v True e rest(1,2)] obtain new where
      "vs' = ?vs @ new" "map fst new = map col_name cs" "list_all2 (\<lambda>c (n, v). column_value i after c v) cs new"
      "ei' = e" using rest(3) True by auto
    with upd configured_value_SomeD [OF v] event_id_SomeD [OF v True e(1)] True show ?thesis
      by (intro exI [of _ "(col_name c, v) # new"]) auto
  next
    case False
    with "2.prems"(1) v have e: "configured_values after i cs ?vs ei = Inr (vs', ei')" by auto
    from "2.IH"(2) [OF v False e rest(1,2)] obtain new where
      "vs' = ?vs @ new" "map fst new = map col_name cs" "list_all2 (\<lambda>c (n, v). column_value i after c v) cs new"
      "if idn_event_id i \<in> set (map col_name cs) then event_id_of i after ei' else ei' = ei" by blast
    with upd configured_value_SomeD [OF v] False show ?thesis
      by (intro exI [of _ "(col_name c, v) # new"]) auto
  qed
qed auto

text \<open>The object that a list of members is written as, in the order of the keys.\<close>

lemma marshal_map_sorted:
  assumes "marshal_map vs = Some payload" "distinct (map fst vs)"
  shows "\<exists>parts. payload = ''{'' @ join '','' parts @ ''}'' \<and>
    list_all2 (\<lambda>n part. \<exists>v v'. (n, v) \<in> set vs \<and> compact True v = Some v' \<and> part = marshal_string n @ '':'' @ v')
      (sort (map fst vs)) parts"
proof -
  have parts: "marshal_members ms = Some parts \<Longrightarrow> set ms \<subseteq> set vs \<Longrightarrow>
      list_all2 (\<lambda>n part. \<exists>v v'. (n, v) \<in> set vs \<and> compact True v = Some v' \<and>
        part = marshal_string n @ '':'' @ v') (map fst ms) parts" for ms parts
    by (induction ms arbitrary: parts rule: marshal_members.induct) (auto split: option.splits)
  have "distinct (map fst (sort_key fst vs))" using assms(2) by (simp add: distinct_map)
  then have "map fst (sort_key fst vs) = sort (map fst vs)"
    using assms(2) by (intro sorted_distinct_set_unique) simp_all
  moreover obtain ps where ps: "marshal_members (sort_key fst vs) = Some ps" "payload = ''{'' @ join '','' ps @ ''}''"
    using assms(1) by (auto simp: marshal_map_def)
  moreover from ps(1) have "list_all2 (\<lambda>n part. \<exists>v v'. (n, v) \<in> set vs \<and> compact True v = Some v' \<and>
      part = marshal_string n @ '':'' @ v') (map fst (sort_key fst vs)) ps" by (rule parts) simp
  ultimately show ?thesis by auto
qed

section \<open>The events\<close>

definition event_member :: "raw_record \<Rightarrow> bytes \<Rightarrow> bytes \<Rightarrow> bool" where
  "event_member r n raw \<longleftrightarrow>
     (\<exists>envelope. json_object (rr_value r) = Some (Some envelope) \<and> member envelope n = Some raw)"

text \<open>
  An event that belongs to a source: an insert or a snapshot read whose metadata names the public schema
  and the source's table.
\<close>

definition event_of_source :: "raw_record \<Rightarrow> source \<Rightarrow> bool" where
  "event_of_source r s \<longleftrightarrow>
     (\<exists>operation. event_member r ''op'' operation \<and> json_string operation \<in> {Some ''c'', Some ''r''}) \<and>
     (\<exists>raw metadata schema table. event_member r ''source'' raw \<and> json_object raw = Some (Some metadata) \<and>
        member metadata ''schema'' = Some schema \<and> json_string schema = Some ''public'' \<and>
        member metadata ''table'' = Some table \<and> json_string table = Some (src_table s))"

text \<open>The Kafka key holds the partitioning column alone, with the value of the row.\<close>

definition key_of_row :: "raw_record \<Rightarrow> source \<Rightarrow> raw_map \<Rightarrow> bool" where
  "key_of_row r s after \<longleftrightarrow>
     (\<exists>key v w t. json_object (rr_key r) = Some (Some key) \<and> set (map fst key) = {src_partitioning s} \<and>
        member key (src_partitioning s) = Some v \<and> member after (src_partitioning s) = Some w \<and>
        compact False v = Some t \<and> compact False w = Some t)"

lemma decode_object_SomeD: "decode_object raw n = Inr ms \<Longrightarrow> json_object raw = Some (Some ms)"
  by (auto simp: decode_object_def split: if_splits option.splits)

lemma required_string_SomeD:
  "required_string ms n context = Inr v \<Longrightarrow> \<exists>raw. member ms n = Some raw \<and> json_string raw = Some v"
  by (auto simp: required_string_def decode_text_def split: option.splits)

lemma member_key: "member ms k = Some v \<Longrightarrow> k \<in> set (map fst ms)"
  by (force simp: member_def dest: map_of_SomeD)

lemma validate_key_NoneD:
  assumes "validate_key raw after i = None" "idn_partitioning i = src_partitioning s" "rr_key r = raw"
  shows "key_of_row r s after"
proof -
  from assms obtain key v w t where k: "decode_object raw ''Kafka key'' = Inr key" "map_size key = 1"
    "member key (src_partitioning s) = Some v" "member after (src_partitioning s) = Some w"
    "compact False v = Some t" "compact False w = Some t"
    by (auto simp: validate_key_def split: sum.splits option.splits if_splits)
  have "card (set (map fst key)) = 1" using k(2) by (simp only: map_size_def length_remdups_card_conv)
  with member_key [OF k(3)] have "set (map fst key) = {src_partitioning s}"
    by (metis card_1_singletonE singletonD)
  with k(3-6) decode_object_SomeD [OF k(1)] assms(3) show ?thesis by (auto simp: key_of_row_def)
qed

lemma validate_source_NoneD:
  assumes "validate_source envelope s = None"
  shows "\<exists>raw metadata schema table. member envelope ''source'' = Some raw \<and>
    json_object raw = Some (Some metadata) \<and> member metadata ''schema'' = Some schema \<and>
    json_string schema = Some ''public'' \<and> member metadata ''table'' = Some table \<and>
    json_string table = Some (src_table s)"
  using assms unfolding validate_source_def
  by (auto split: option.splits sum.splits if_splits dest!: decode_object_SomeD required_string_SomeD)

lemma after_object_SomeD:
  assumes "after_object r s i = Inr after" "idn_partitioning i = src_partitioning s"
  shows "event_of_source r s \<and> (\<exists>raw. event_member r ''after'' raw \<and> json_object raw = Some (Some after)) \<and>
    key_of_row r s after"
proof -
  from assms obtain envelope operation raw where e: "decode_object (rr_value r) ''envelope'' = Inr envelope"
    "required_string envelope ''op'' ''envelope'' = Inr operation" "operation = ''c'' \<or> operation = ''r''"
    "validate_source envelope s = None" "member envelope ''after'' = Some raw"
    "decode_object raw ''after'' = Inr after" "validate_key (rr_key r) after i = None"
    unfolding after_object_def by (auto split: sum.splits option.splits if_splits)
  from decode_object_SomeD [OF e(1)] required_string_SomeD [OF e(2)] e(3) validate_source_NoneD [OF e(4)]
  have "event_of_source r s" unfolding event_of_source_def event_member_def by fastforce
  with decode_object_SomeD [OF e(1)] decode_object_SomeD [OF e(6)] e(5)
    validate_key_NoneD [OF e(7) assms(2) refl] show ?thesis by (auto simp: event_member_def)
qed

text \<open>What decoding has read when it returns a record: the row, and the converted value of every configured column.\<close>

lemma decode_event_SomeD:
  assumes "decode_event s i g (Some r) = Inr rec"
  shows "\<exists>after vs. event_of_source r s \<and>
    (\<exists>raw. event_member r ''after'' raw \<and> json_object raw = Some (Some after)) \<and> key_of_row r s after \<and>
    map fst vs = src_columns s \<and> list_all2 (\<lambda>c (n, v). column_value i after c v) (idn_columns i) vs \<and>
    marshal_map vs = Some (rec_payload rec) \<and>
    (if idn_event_id i \<in> set (src_columns s) then event_id_of i after (rec_event_id rec)
     else rec_event_id rec = '''') \<and>
    rec_source rec = s \<and> rec_topic rec = rr_topic r \<and> rec_partition rec = rr_partition r \<and>
    rec_offset rec = rr_offset r \<and> rec_generation rec = g \<and> distinct (src_columns s) \<and> src_columns s \<noteq> []"
proof -
  from assms obtain after vs ei payload where d: "validate_identity s i g = None" "after_object r s i = Inr after"
    "configured_values after i (idn_columns i) [] [] = Inr (vs, ei)" "marshal_map vs = Some payload"
    and rec: "rec_payload rec = payload" "rec_event_id rec = ei" "rec_source rec = s" "rec_topic rec = rr_topic r"
      "rec_partition rec = rr_partition r" "rec_offset rec = rr_offset r" "rec_generation rec = g"
    by (auto simp: decode_event_def split: option.splits sum.splits)
  note id = validate_identity_NoneD [OF d(1)]
  from id have dist: "distinct (map col_name (idn_columns i))" by simp
  from configured_values_SomeD [OF d(3) dist] id
  have vs: "map fst vs = src_columns s" "list_all2 (\<lambda>c (n, v). column_value i after c v) (idn_columns i) vs"
    "if idn_event_id i \<in> set (src_columns s) then event_id_of i after ei else ei = []" by auto
  with after_object_SomeD [OF d(2)] id d(4) rec show ?thesis
    by (intro exI [of _ after] exI [of _ vs]) (simp only: refl simp_thms)
qed

text \<open>
  C34. A decoded record is one row of its source: the event is an insert or a snapshot read of the public
  table the source names, the Kafka key holds the row's partitioning value and nothing else, and the
  payload is the JSON object of exactly the configured columns in the order of their names, each the
  conversion of the row's value, with the serial and the partitioning column never null. The event id, where
  one is configured, is the row's and not empty, and the position and generation are those of the raw record.
\<close>

theorem decoded_record_is_the_row:
  assumes "decode_event s i g (Some r) = Inr rec"
  shows "\<exists>after vs. event_of_source r s \<and>
    (\<exists>raw. event_member r ''after'' raw \<and> json_object raw = Some (Some after)) \<and> key_of_row r s after \<and>
    map fst vs = src_columns s \<and> list_all2 (\<lambda>c (n, v). column_value i after c v) (idn_columns i) vs \<and>
    (\<exists>parts. rec_payload rec = ''{'' @ join '','' parts @ ''}'' \<and>
      list_all2 (\<lambda>n part. \<exists>v v'. (n, v) \<in> set vs \<and> compact True v = Some v' \<and>
        part = marshal_string n @ '':'' @ v') (sort (src_columns s)) parts) \<and>
    (if idn_event_id i \<in> set (src_columns s) then event_id_of i after (rec_event_id rec)
     else rec_event_id rec = '''') \<and>
    rec_source rec = s \<and> rec_topic rec = rr_topic r \<and> rec_partition rec = rr_partition r \<and>
    rec_offset rec = rr_offset r \<and> rec_generation rec = g"
proof -
  from decode_event_SomeD [OF assms] obtain after vs where row: "map fst vs = src_columns s"
    "marshal_map vs = Some (rec_payload rec)" "distinct (src_columns s)"
    and rest: "event_of_source r s" "\<exists>raw. event_member r ''after'' raw \<and> json_object raw = Some (Some after)"
      "key_of_row r s after" "list_all2 (\<lambda>c (n, v). column_value i after c v) (idn_columns i) vs"
      "if idn_event_id i \<in> set (src_columns s) then event_id_of i after (rec_event_id rec) else rec_event_id rec = ''''"
      "rec_source rec = s" "rec_topic rec = rr_topic r" "rec_partition rec = rr_partition r"
      "rec_offset rec = rr_offset r" "rec_generation rec = g" by blast
  from marshal_map_sorted [OF row(2)] row(1,3)
  have "\<exists>parts. rec_payload rec = ''{'' @ join '','' parts @ ''}'' \<and>
      list_all2 (\<lambda>n part. \<exists>v v'. (n, v) \<in> set vs \<and> compact True v = Some v' \<and>
        part = marshal_string n @ '':'' @ v') (sort (src_columns s)) parts" by simp
  with row(1) rest show ?thesis by (intro exI [of _ after] exI [of _ vs]) (simp only: simp_thms)
qed

section \<open>An example\<close>

definition accounts :: source where
  "accounts =
     \<lparr>src_id = ''accounts'', src_description = ''accounts'', src_table = ''accounts'',
      src_columns = [''tenant'', ''id''], src_serial = ''id'', src_partitioning = ''tenant''\<rparr>"

definition accounts_identity :: identity where
  "accounts_identity =
     \<lparr>idn_table = ''accounts'', idn_serial = ''id'', idn_partitioning = ''tenant'', idn_event_id = [],
      idn_partitions = 10,
      idn_columns = [\<lparr>col_name = ''tenant'', col_type = ''text''\<rparr>, \<lparr>col_name = ''id'', col_type = ''int8''\<rparr>]\<rparr>"

definition accounts_event :: "bytes \<Rightarrow> raw_record" where
  \<open>accounts_event operation =
     \<lparr>rr_topic = ''t'', rr_partition = 0, rr_offset = 7, rr_leader_epoch = 0,
      rr_key = ''{"tenant": "acme"}'',
      rr_value = ''{"op":'' @ operation @
        '',"source":{"schema":"public","table":"accounts"},"after":{"id":42,"tenant":"acme","x":1}}'',
      rr_historical = False\<rparr>\<close>

lemma accounts_decoded:
  \<open>decode_event accounts accounts_identity 1 (Some (accounts_event ''"c"'')) =
   Inr \<lparr>rec_source = accounts, rec_payload = ''{"id":42,"tenant":"acme"}'', rec_topic = ''t'',
        rec_partition = 0, rec_offset = 7, rec_event_id = [], rec_aggregate_id = [], rec_event_name = [],
        rec_generation = 1, rec_replay = False\<rparr>\<close>
  by code_simp

lemma decoded_record_is_the_row_witness:
  \<open>event_of_source (accounts_event ''"c"'') accounts \<and>
   (\<exists>after. key_of_row (accounts_event ''"c"'') accounts after)\<close>
  using decoded_record_is_the_row [OF accounts_decoded] by blast

lemma errors_never_echo_values_witness:
  "payload_error ''unsupported operation'' \<in> set (event_errors accounts_identity)"
proof -
  have \<open>decode_event accounts accounts_identity 1 (Some (accounts_event ''"u"'')) =
      Inl (payload_error ''unsupported operation'')\<close> by code_simp
  then show ?thesis by (rule errors_never_echo_values)
qed

end
