(* ===== verification/HttpDelivery.thy ===== *)
theory HttpDelivery
  imports Delivery Sha256
begin

text \<open>
  \<^verbatim>\<open>internal/adapters/httpdelivery/client.go\<close>: one delivery attempt over HTTP. What is not the code's is
  an operation of the world \<open>'w\<close>: the round trip to the endpoint, the lease gate, the release of a
  context. Header names are kept as the code spells them; \<^verbatim>\<open>Header.Set\<close> only changes their case.
\<close>

section \<open>Requests and responses\<close>

record http_destination =
  hd_id :: bytes
  hd_endpoint :: bytes
  hd_username :: bytes
  hd_password :: bytes

text \<open>A request with its context, of which the deadline matters here.\<close>

record request =
  rq_method :: bytes
  rq_url :: bytes
  rq_headers :: "(bytes \<times> bytes) list"
  rq_body :: bytes
  rq_deadline :: "int option"

text \<open>
  A response whose body yields some bytes and then ends or fails. \<open>rs_lease\<close> says that its body is a
  \<^verbatim>\<open>leaseBody\<close>, whose \<^verbatim>\<open>Close\<close> also releases the context of the attempt.
\<close>

record response =
  rs_status :: int
  rs_body :: bytes
  rs_body_error :: "go_error option"
  rs_lease :: bool

type_synonym 'w transport = "request \<Rightarrow> 'w \<Rightarrow> (go_error + response) \<times> 'w"

record 'w http_client =
  hc_timeout :: "duration"
  hc_do :: "'w transport"

text \<open>The parts of the world an attempt uses; \<open>he_now\<close> is the clock.\<close>

record 'w http_env =
  he_url_error :: "bytes \<Rightarrow> go_error option"
  he_default :: "'w transport"
  he_close :: "'w \<Rightarrow> 'w"
  he_release :: "'w \<Rightarrow> 'w"
  he_now :: "'w \<Rightarrow> int"

record 'w client =
  cl_http :: "'w http_client option"
  cl_destination :: http_destination

definition default_client :: "'w http_env \<Rightarrow> 'w http_client" where
  "default_client E = \<lparr>hc_timeout = 60 * second, hc_do = he_default E\<rparr>"

definition new_client :: "'w http_env \<Rightarrow> 'w http_client option \<Rightarrow> http_destination \<Rightarrow> 'w client" where
  "new_client E http destination =
     \<lparr>cl_http = Some (case http of None \<Rightarrow> default_client E | Some h \<Rightarrow> h), cl_destination = destination\<rparr>"

section \<open>Headers\<close>

definition base64_digit :: "nat \<Rightarrow> char" where
  "base64_digit d =
     (if d < 26 then chr (65 + d) else if d < 52 then chr (71 + d) else if d < 62 then chr (d - 4)
      else if d = 62 then CHR ''+'' else CHR ''/'')"

fun base64_encode :: "bytes \<Rightarrow> bytes" where
  "base64_encode [] = []"
| "base64_encode [a] =
     [base64_digit (byte a div 4), base64_digit (byte a mod 4 * 16), CHR ''='', CHR ''='']"
| "base64_encode [a, b] =
     [base64_digit (byte a div 4), base64_digit (byte a mod 4 * 16 + byte b div 16),
      base64_digit (byte b mod 16 * 4), CHR ''='']"
| "base64_encode (a # b # c # s) =
     base64_digit (byte a div 4) # base64_digit (byte a mod 4 * 16 + byte b div 16) #
     base64_digit (byte b mod 16 * 4 + byte c div 64) # base64_digit (byte c mod 64) # base64_encode s"

definition basic_auth :: "bytes \<Rightarrow> bytes \<Rightarrow> bytes" where
  "basic_auth username password = ''Basic '' @ base64_encode (username @ '':'' @ password)"

definition stable_id :: "stream_record \<Rightarrow> bytes" where
  "stable_id r =
     (if rec_event_id r \<noteq> [] then rec_event_id r
      else hex_encode (sha256
        (rec_topic r @ '':'' @ int_str (rec_partition r) @ '':'' @ int_str (rec_offset r))))"

definition bool_text :: "bool \<Rightarrow> bytes" where
  "bool_text b = (if b then ''true'' else ''false'')"

definition idempotency_key :: "http_destination \<Rightarrow> stream_record \<Rightarrow> bytes" where
  "idempotency_key d r = stable_id r @ '':'' @ hd_id d @ '':'' @ generation_string (rec_generation r)"

definition set_headers :: "http_destination \<Rightarrow> stream_record \<Rightarrow> request \<Rightarrow> request" where
  "set_headers d r req =
     req\<lparr>rq_headers :=
       [(''Authorization'', basic_auth (hd_username d) (hd_password d)),
        (''Content-Type'', ''application/json''),
        (''X-Postie-Event-ID'', stable_id r),
        (''X-Postie-Delivery-Generation'', generation_string (rec_generation r)),
        (''X-Postie-Replay'', bool_text (rec_replay r)),
        (''X-Postie-Topic'', rec_topic r),
        (''X-Postie-Partition'', int_str (rec_partition r)),
        (''X-Postie-Offset'', int_str (rec_offset r)),
        (''Idempotency-Key'', idempotency_key d r)]\<rparr>"

section \<open>The lease\<close>

record 'w lease_gate =
  lg_allowed :: "bytes \<Rightarrow> 'w \<Rightarrow> bool"
  lg_deadline :: "'w \<Rightarrow> int"

record 'w lease_transport =
  lt_gate :: "'w lease_gate option"
  lt_source :: bytes
  lt_base :: "'w transport option"

text \<open>\<^verbatim>\<open>context.WithDeadline\<close>: a deadline is never later than the one of the parent.\<close>

definition with_deadline :: "int option \<Rightarrow> int \<Rightarrow> int option" where
  "with_deadline parent d = Some (case parent of None \<Rightarrow> d | Some p \<Rightarrow> min p d)"

definition round_trip :: "'w http_env \<Rightarrow> 'w lease_transport \<Rightarrow> 'w transport" where
  "round_trip E t req w =
     (if (case lt_gate t of None \<Rightarrow> False | Some g \<Rightarrow> \<not> lg_allowed g (lt_source t) w) then (Inl Canceled, w)
      else
        let base = (case lt_base t of None \<Rightarrow> he_default E | Some b \<Rightarrow> b);
            ctx = (case lt_gate t of None \<Rightarrow> rq_deadline req
                   | Some g \<Rightarrow> with_deadline (rq_deadline req) (lg_deadline g w))
        in (case base (req\<lparr>rq_deadline := ctx\<rparr>) w of
              (Inl e, w1) \<Rightarrow> (Inl e, if lt_gate t \<noteq> None then he_release E w1 else w1)
            | (Inr res, w1) \<Rightarrow> (Inr (if lt_gate t \<noteq> None then res\<lparr>rs_lease := True\<rparr> else res), w1)))"

definition close_body :: "'w http_env \<Rightarrow> response \<Rightarrow> 'w \<Rightarrow> 'w" where
  "close_body E res w = (if rs_lease res then he_release E (he_close E w) else he_close E w)"

section \<open>One attempt\<close>

definition classify :: "int \<Rightarrow> bytes \<Rightarrow> go_error + outcome" where
  "classify status body =
     (if status < 200 \<or> 299 < status then Inl (Errorf (''destination returned HTTP '' @ int_str status))
      else (case decode_acknowledgement body of
              None \<Rightarrow> Inl (Errorf ''decode acknowledgement'')
            | Some Success \<Rightarrow> Inr Delivered
            | Some KeepGoing \<Rightarrow> Inr Skipped
            | Some Retry \<Rightarrow> Inl (Errorf ''destination requested retry'')))"

definition body_limit :: nat where
  "body_limit = 65536"

text \<open>\<^verbatim>\<open>io.ReadAll\<close> of a \<^verbatim>\<open>LimitReader\<close>: a failure beyond the limit is never met.\<close>

definition read_limited :: "nat \<Rightarrow> response \<Rightarrow> go_error + bytes" where
  "read_limited n res =
     (if n \<le> length (rs_body res) then Inr (take n (rs_body res))
      else (case rs_body_error res of Some e \<Rightarrow> Inl e | None \<Rightarrow> Inr (rs_body res)))"

definition answer :: "response \<Rightarrow> go_error + outcome" where
  "answer res =
     (case read_limited (body_limit + 1) res of
        Inl e \<Rightarrow> Inl e
      | Inr raw \<Rightarrow>
          if body_limit < length raw then Inl (Errorf ''destination response exceeds 64 KiB'')
          else classify (rs_status res) raw)"

definition new_request :: "http_destination \<Rightarrow> bytes \<Rightarrow> int option \<Rightarrow> request" where
  "new_request d body deadline =
     \<lparr>rq_method = ''POST'', rq_url = hd_endpoint d, rq_headers = [], rq_body = body, rq_deadline = deadline\<rparr>"

text \<open>A client with a timeout bounds the context of every request it does.\<close>

definition client_deadline :: "'w http_env \<Rightarrow> duration \<Rightarrow> int option \<Rightarrow> 'w \<Rightarrow> int option" where
  "client_deadline E timeout deadline w =
     (if 0 < sint timeout then with_deadline deadline (he_now E w + sint timeout) else deadline)"

definition send_record :: "'w http_env \<Rightarrow> int option \<Rightarrow> 'w client \<Rightarrow> stream_record \<Rightarrow> bytes \<Rightarrow> 'w \<Rightarrow>
    (go_error + outcome) \<times> 'w" where
  "send_record E deadline c r body w =
     (case he_url_error E (hd_endpoint (cl_destination c)) of
        Some e \<Rightarrow> (Inl e, w)
      | None \<Rightarrow>
          let req = set_headers (cl_destination c) r (new_request (cl_destination c) body deadline);
              client = (case cl_http c of None \<Rightarrow> default_client E | Some h \<Rightarrow> h)
          in (case hc_do client (req\<lparr>rq_deadline := client_deadline E (hc_timeout client) deadline w\<rparr>) w of
                (Inl e, w1) \<Rightarrow> (Inl e, w1)
              | (Inr res, w1) \<Rightarrow> (answer res, close_body E res w1)))"

end
