(* ===== verification/Ghost.thy ===== *)
theory Ghost
  imports DeliveryLaws
begin

text \<open>
  Runs beside a ghost log. A world is extended by a log that the operations write and nothing reads;
  \<open>mirrors \<pi> f' f\<close> says that the extended operation \<open>f'\<close> is \<open>f\<close> once the log is dropped by \<open>\<pi>\<close>, and the
  rules carry this from the operations to the delivery programs built from them. What is read off a log is
  therefore a fact about the run itself.
\<close>

section \<open>Extended operations\<close>

definition lift_read :: "('w \<Rightarrow> 'a) \<Rightarrow> 'w \<times> 'l \<Rightarrow> 'a" where
  "lift_read f x = f (fst x)"

definition lift_call :: "('w \<Rightarrow> 'a \<times> 'w) \<Rightarrow> 'w \<times> 'l \<Rightarrow> 'a \<times> 'w \<times> 'l" where
  "lift_call f x = (case f (fst x) of (a, w) \<Rightarrow> (a, w, snd x))"

definition lift_step :: "('w \<Rightarrow> 'w) \<Rightarrow> 'w \<times> 'l \<Rightarrow> 'w \<times> 'l" where
  "lift_step f x = (f (fst x), snd x)"

text \<open>A call whose answer is logged.\<close>

definition note_call :: "('a \<Rightarrow> 'e) \<Rightarrow> ('w \<Rightarrow> 'a \<times> 'w) \<Rightarrow> 'w \<times> 'e list \<Rightarrow> 'a \<times> 'w \<times> 'e list" where
  "note_call ev f x = (case f (fst x) of (a, w) \<Rightarrow> (a, w, snd x @ [ev a]))"

definition lift_ctx :: "'w go_context \<Rightarrow> ('w \<times> 'l) go_context" where
  "lift_ctx c = \<lparr>ctx_err = lift_read (ctx_err c), ctx_wait = (\<lambda>d. lift_call (ctx_wait c d))\<rparr>"

lemma lift_call_log: "lift_call f x = (a, y) \<Longrightarrow> snd y = snd x"
  by (auto simp: lift_call_def split: prod.splits)

lemma note_call_log: "note_call ev f x = (a, y) \<Longrightarrow> snd y = snd x @ [ev a]"
  by (auto simp: note_call_def split: prod.splits)

lemma lift_step_log [simp]: "snd (lift_step f x) = snd x"
  by (simp add: lift_step_def)

lemma lift_ctx_log: "ctx_wait (lift_ctx c) d x = (b, y) \<Longrightarrow> snd y = snd x"
  by (simp add: lift_ctx_def lift_call_log)

section \<open>Dropping the log\<close>

definition mirrors :: "('x \<Rightarrow> 'w) \<Rightarrow> ('x \<Rightarrow> 'a \<times> 'x) \<Rightarrow> ('w \<Rightarrow> 'a \<times> 'w) \<Rightarrow> bool" where
  "mirrors \<pi> f' f \<longleftrightarrow> (\<forall>x. map_prod id \<pi> (f' x) = f (\<pi> x))"

definition ctx_mirrors :: "('x \<Rightarrow> 'w) \<Rightarrow> 'x go_context \<Rightarrow> 'w go_context \<Rightarrow> bool" where
  "ctx_mirrors \<pi> c' c \<longleftrightarrow>
     (\<forall>x. ctx_err c' x = ctx_err c (\<pi> x)) \<and> (\<forall>d. mirrors \<pi> (ctx_wait c' d) (ctx_wait c d))"

named_theorems mirror_rules \<open>programs that do not read the log\<close>

lemma mirrorsI: "(\<And>x. map_prod id \<pi> (f' x) = f (\<pi> x)) \<Longrightarrow> mirrors \<pi> f' f"
  by (simp add: mirrors_def)

lemma mirrorsD: "mirrors \<pi> f' f \<Longrightarrow> f' x = (a, y) \<Longrightarrow> f (\<pi> x) = (a, \<pi> y)"
  by (metis mirrors_def map_prod_simp id_apply)

lemma mirrorsE: "mirrors \<pi> f' f \<Longrightarrow> map_prod id \<pi> (f' x) = f (\<pi> x)"
  by (simp add: mirrors_def)

lemma mirrors_after: "mirrors \<pi> f' f \<Longrightarrow> (\<And>x. \<pi> (g' x) = g (\<pi> x)) \<Longrightarrow> mirrors \<pi> (\<lambda>x. f' (g' x)) (\<lambda>w. f (g w))"
  by (simp add: mirrors_def)

lemma mirrors_lift_call [mirror_rules]: "mirrors fst (lift_call f) f"
  by (rule mirrorsI) (simp add: lift_call_def split: prod.splits)

lemma mirrors_note_call [mirror_rules]: "mirrors fst (note_call ev f) f"
  by (rule mirrorsI) (simp add: note_call_def split: prod.splits)

lemma mirrors_ctx [mirror_rules]: "ctx_mirrors fst (lift_ctx c) c"
  by (simp add: ctx_mirrors_def lift_ctx_def lift_read_def mirrors_lift_call)

lemma mirrors_retp [mirror_rules]: "mirrors \<pi> (retp a) (retp a)"
  by (simp add: mirrors_def retp_def)

lemma mirrors_liftp [mirror_rules]: "mirrors \<pi> f' f \<Longrightarrow> mirrors \<pi> (liftp f') (liftp f)"
  by (rule mirrorsI) (auto simp: liftp_def dest: mirrorsD split: prod.splits)

lemma mirrors_bindp [mirror_rules]:
  assumes "mirrors \<pi> m' m" and "\<And>a. mirrors \<pi> (k' a) (k a)"
  shows "mirrors \<pi> (bindp m' k') (bindp m k)"
proof (rule mirrorsI)
  fix x
  obtain r y where m': "m' x = (r, y)" by (rule prod.exhaust)
  from mirrorsD [OF assms(1) m'] m' assms(2) show "map_prod id \<pi> (bindp m' k' x) = bindp m k (\<pi> x)"
    by (cases r) (auto simp: bindp_def mirrors_def)
qed

lemma mirrors_sleep:
  assumes "ctx_mirrors \<pi> c' c"
  shows "mirrors \<pi> (ctx_sleep c' d) (ctx_sleep c d)"
proof (rule mirrorsI)
  fix x
  obtain b y where wait: "ctx_wait c' d x = (b, y)" by (rule prod.exhaust)
  from assms have "mirrors \<pi> (ctx_wait c' d) (ctx_wait c d)" "ctx_err c' y = ctx_err c (\<pi> y)"
    by (simp_all add: ctx_mirrors_def)
  with mirrorsD [OF this(1) wait] wait show "map_prod id \<pi> (ctx_sleep c' d x) = ctx_sleep c d (\<pi> x)"
    by (cases b) (simp_all add: ctx_sleep_def)
qed

lemma mirrors_retry_value [mirror_rules]:
  assumes ctx: "ctx_mirrors \<pi> c' c" and fn: "mirrors \<pi> fn' fn"
  shows "mirrors \<pi> (retry_value fuel c' d fn') (retry_value fuel c d fn)"
proof (induction fuel)
  case 0
  show ?case by (simp add: mirrors_def)
next
  case (Suc fuel)
  show ?case
  proof (rule mirrorsI)
    fix x
    obtain r y where call: "fn' x = (r, y)" by (rule prod.exhaust)
    obtain s z where sleep: "ctx_sleep c' d y = (s, z)" by (rule prod.exhaust)
    from ctx have err: "ctx_err c' x = ctx_err c (\<pi> x)" by (simp add: ctx_mirrors_def)
    from mirrorsD [OF fn call] mirrorsD [OF mirrors_sleep [OF ctx] sleep] Suc call sleep err
    show "map_prod id \<pi> (retry_value (Suc fuel) c' d fn' x) = retry_value (Suc fuel) c d fn (\<pi> x)"
      by (simp add: mirrors_def split: option.splits sum.splits)
  qed
qed

lemma mirrors_retry [mirror_rules]:
  assumes ctx: "ctx_mirrors \<pi> c' c" and fn: "mirrors \<pi> fn' fn"
  shows "mirrors \<pi> (retry fuel c' d fn') (retry fuel c d fn)"
proof (induction fuel)
  case 0
  show ?case by (simp add: mirrors_def)
next
  case (Suc fuel)
  show ?case
  proof (rule mirrorsI)
    fix x
    obtain r y where call: "fn' x = (r, y)" by (rule prod.exhaust)
    obtain s z where sleep: "ctx_sleep c' d y = (s, z)" by (rule prod.exhaust)
    from ctx have err: "ctx_err c' x = ctx_err c (\<pi> x)" by (simp add: ctx_mirrors_def)
    from mirrorsD [OF fn call] mirrorsD [OF mirrors_sleep [OF ctx] sleep] Suc call sleep err
    show "map_prod id \<pi> (retry (Suc fuel) c' d fn' x) = retry (Suc fuel) c d fn (\<pi> x)"
      by (simp add: mirrors_def split: option.splits)
  qed
qed

section \<open>Safety of delivery\<close>

text \<open>What every call of an attempt keeps, the attempts keep; the same for the parts of one record.\<close>

lemma safe_attempts:
  assumes send: "\<And>w res w'. P w \<Longrightarrow> pr_send p r body w = (res, w') \<Longrightarrow> P w'"
    and tell: "\<And>k e w. P w \<Longrightarrow> P (tell k e w)"
    and jitter: "\<And>n w d w'. P w \<Longrightarrow> pr_jitter p n w = (d, w') \<Longrightarrow> P w'"
    and sleep: "\<And>d w e w'. P w \<Longrightarrow> pr_sleep p d w = (e, w') \<Longrightarrow> P w'"
  shows "safe P (attempts fuel p r body tell k) (\<lambda>_. P) P"
proof -
  have "attempts fuel p r body tell k w = (res, w') \<Longrightarrow> P w \<Longrightarrow> P w'" for w res w'
  proof (induction fuel arbitrary: k w)
    case 0
    then show ?case by simp
  next
    case (Suc fuel)
    obtain a w1 where s: "pr_send p r body w = (a, w1)" by (rule prod.exhaust)
    let ?w = "tell k (result_error a) w1"
    obtain delay w2 where bk: "backoff k (pr_jitter p) ?w = (delay, w2)" by (rule prod.exhaust)
    obtain e w3 where sl: "pr_sleep p delay w2 = (e, w3)" by (rule prod.exhaust)
    from tell [OF send [OF Suc.prems(2) s]] have P1: "P ?w" .
    from bk jitter [OF P1] have "P w2" by (auto simp: backoff_def Let_def split: prod.splits)
    with sleep sl have P3: "P w3" by blast
    show ?case
    proof (cases a)
      case (Inl err)
      show ?thesis
        using Suc.IH [OF _ P3] Suc.prems(1) P3 s bk sl Inl by (cases e) (auto simp: Let_def)
    next
      case (Inr x)
      with Suc.prems(1) P1 s show ?thesis by (simp add: Let_def)
    qed
  qed
  then show ?thesis by (intro safe_runI) (auto split: option.splits)
qed

lemma safe_process:
  assumes "\<And>body. safe P (attempts fuel p r body tell 0) (\<lambda>_. P) P"
  shows "safe P (process fuel p r tell) (\<lambda>_. P) P"
  using assms by (auto simp: safe_def process_def split: option.splits)

lemma safe_complete:
  assumes look: "\<And>w a w'. P w \<Longrightarrow> act_skipped acts w = (a, w') \<Longrightarrow> P w'"
    and send: "safe P (act_send acts) (\<lambda>_. P) P"
    and audit: "\<And>w a w'. P w \<Longrightarrow> act_audit acts w = (a, w') \<Longrightarrow> P w'"
    and commit: "\<And>w a w'. P w \<Longrightarrow> act_commit acts w = (a, w') \<Longrightarrow> (case a of None \<Rightarrow> Q w' | Some _ \<Rightarrow> P w')"
    and wait: "\<And>w b w'. P w \<Longrightarrow> ctx_wait c d w = (b, w') \<Longrightarrow> P w'"
  shows "safe P (complete_record fuel c d acts) (\<lambda>r w. case r of None \<Rightarrow> Q w | Some _ \<Rightarrow> P w) P"
proof -
  have looks: "safe P (retry_value fuel c d (act_skipped acts)) (\<lambda>_. P) P"
    by (rule safe_weaken, rule safe_retry_value [where Q = "\<lambda>_. P"])
       (auto intro: look wait split: sum.splits)
  have audits: "safe P (retry fuel c d (act_audit acts)) (\<lambda>_. P) P"
    by (rule safe_weaken, rule safe_retry [where Q = P]) (auto intro: audit wait split: option.splits)
  have commits: "safe P (retry fuel c d (act_commit acts)) (\<lambda>r w. case r of None \<Rightarrow> Q w | Some _ \<Rightarrow> P w) P"
    by (rule safe_retry) (use commit wait in fastforce)+
  let ?Q = "\<lambda>r w. case r of None \<Rightarrow> Q w | Some _ \<Rightarrow> P w"
  have sends: "safe P (send_and_audit fuel c d acts) (\<lambda>_. P) P"
    unfolding send_and_audit_def
    by (rule safe_bindp [OF send]) (auto intro!: safe_retp audits split: sum.splits)
  have "safe P (bindp (send_and_audit fuel c d acts)
      (\<lambda>err. case err of Some e \<Rightarrow> retp (Some e) | None \<Rightarrow> retry fuel c d (act_commit acts))) ?Q P"
  proof (rule safe_bindp [OF sends])
    fix err
    show "safe P (case err of Some e \<Rightarrow> retp (Some e) | None \<Rightarrow> retry fuel c d (act_commit acts)) ?Q P"
      using commits by (cases err) (simp_all add: safe_retp)
  qed
  note rest = this
  show ?thesis
    unfolding complete_record_def
  proof (rule safe_bindp [OF looks])
    fix res
    show "safe P (case res of Inl e \<Rightarrow> retp (Some e)
        | Inr skipped \<Rightarrow> if skipped then retry fuel c d (act_commit acts)
            else bindp (send_and_audit fuel c d acts)
              (\<lambda>err. case err of Some e \<Rightarrow> retp (Some e) | None \<Rightarrow> retry fuel c d (act_commit acts))) ?Q P"
      using commits rest by (cases res) (simp_all add: safe_retp)
  qed
qed

section \<open>Delivery beside a log\<close>

definition processor_mirrors :: "('x \<Rightarrow> 'w) \<Rightarrow> 'x processor \<Rightarrow> 'w processor \<Rightarrow> bool" where
  "processor_mirrors \<pi> p' p \<longleftrightarrow>
     pr_destination p' = pr_destination p \<and> (\<forall>r body. mirrors \<pi> (pr_send p' r body) (pr_send p r body)) \<and>
     (\<forall>d. mirrors \<pi> (pr_sleep p' d) (pr_sleep p d)) \<and> (\<forall>n. mirrors \<pi> (pr_jitter p' n) (pr_jitter p n))"

lemma mirrors_backoff:
  assumes "\<And>n. mirrors \<pi> (jitter' n) (jitter n)"
  shows "mirrors \<pi> (backoff k jitter') (backoff k jitter)"
proof (rule mirrorsI)
  fix x
  obtain j y where j: "jitter' (half (push_bit (min k 6) second) + 1) x = (j, y)" by (rule prod.exhaust)
  from mirrorsD [OF assms j] j show "map_prod id \<pi> (backoff k jitter' x) = backoff k jitter (\<pi> x)"
    by (simp add: backoff_def Let_def)
qed

lemma mirrors_attempts:
  assumes p: "processor_mirrors \<pi> p' p" and tells: "\<And>k e x. \<pi> (tell' k e x) = tell k e (\<pi> x)"
  shows "mirrors \<pi> (attempts fuel p' r body tell' k) (attempts fuel p r body tell k)"
proof (induction fuel arbitrary: k)
  case 0
  show ?case by (simp add: mirrors_def)
next
  case (Suc fuel)
  show ?case
  proof (rule mirrorsI)
    fix x
    obtain res y where send: "pr_send p' r body x = (res, y)" by (rule prod.exhaust)
    let ?y = "tell' k (result_error res) y"
    obtain delay z where bk: "backoff k (pr_jitter p') ?y = (delay, z)" by (rule prod.exhaust)
    obtain s u where sleep: "pr_sleep p' delay z = (s, u)" by (rule prod.exhaust)
    from p have ms: "mirrors \<pi> (pr_send p' r body) (pr_send p r body)"
      "mirrors \<pi> (pr_sleep p' delay) (pr_sleep p delay)" "\<And>n. mirrors \<pi> (pr_jitter p' n) (pr_jitter p n)"
      by (simp_all add: processor_mirrors_def)
    from mirrorsD [OF ms(1) send] mirrorsD [OF mirrors_backoff bk, OF ms(3)] mirrorsD [OF ms(2) sleep]
      send bk sleep Suc [of "Suc k"] tells [of k "result_error res" y]
    show "map_prod id \<pi> (attempts (Suc fuel) p' r body tell' k x) = attempts (Suc fuel) p r body tell k (\<pi> x)"
      by (cases res; cases s) (simp_all add: mirrors_def Let_def)
  qed
qed

lemma mirrors_process [mirror_rules]:
  assumes p: "processor_mirrors \<pi> p' p" and tells: "\<And>k e x. \<pi> (tell' k e x) = tell k e (\<pi> x)"
  shows "mirrors \<pi> (process fuel p' r tell') (process fuel p r tell)"
proof -
  from p have "pr_destination p' = pr_destination p" by (simp add: processor_mirrors_def)
  moreover have "map_prod id \<pi> (attempts fuel p' r body tell' 0 x) = attempts fuel p r body tell 0 (\<pi> x)" for body x
    using mirrors_attempts [OF p, of tell' tell fuel r body 0] tells by (simp add: mirrors_def)
  ultimately show ?thesis by (intro mirrorsI) (simp add: process_def split: option.splits)
qed

definition actions_mirror :: "('x \<Rightarrow> 'w) \<Rightarrow> 'x record_actions \<Rightarrow> 'w record_actions \<Rightarrow> bool" where
  "actions_mirror \<pi> acts' acts \<longleftrightarrow>
     mirrors \<pi> (act_skipped acts') (act_skipped acts) \<and> mirrors \<pi> (act_send acts') (act_send acts) \<and>
     mirrors \<pi> (act_audit acts') (act_audit acts) \<and> mirrors \<pi> (act_commit acts') (act_commit acts)"

lemma mirrors_complete [mirror_rules]:
  assumes ctx: "ctx_mirrors \<pi> c' c" and acts: "actions_mirror \<pi> acts' acts"
  shows "mirrors \<pi> (complete_record fuel c' d acts') (complete_record fuel c d acts)"
  using acts unfolding actions_mirror_def complete_record_def send_and_audit_def
  by (intro mirrors_bindp mirrors_retry_value [OF ctx])
     (auto intro!: mirrors_retp mirrors_retry [OF ctx] mirrors_bindp split: sum.splits option.splits)

end
