(* ===== verification/HttpLaws.thy ===== *)
theory HttpLaws
  imports HttpDelivery Ghost
begin

text \<open>
  What reaches the network while a record is delivered. The round trips, with the state of the lease at
  their start and their answers, and the releases of their contexts are recorded in a ghost log beside the
  world; \<open>logged_run_is_the_run\<close> shows that the log changes nothing.
\<close>

section \<open>The log\<close>

datatype wire =
    Attempt (wi_request: request) (wi_allowed: bool) (wi_lease: int) (wi_answer: "go_error + response")
  | Release

type_synonym 'w logged = "'w \<times> wire list"

definition logged_env :: "'w http_env \<Rightarrow> 'w logged http_env" where
  "logged_env E =
     \<lparr>he_url_error = he_url_error E, he_default = (\<lambda>req. lift_call (he_default E req)),
      he_close = (\<lambda>x. (he_close E (fst x), snd x)),
      he_release = (\<lambda>x. (he_release E (fst x), snd x @ [Release])), he_now = lift_read (he_now E)\<rparr>"

definition logged_gate :: "'w lease_gate \<Rightarrow> 'w logged lease_gate" where
  "logged_gate g = \<lparr>lg_allowed = (\<lambda>i. lift_read (lg_allowed g i)), lg_deadline = lift_read (lg_deadline g)\<rparr>"

definition logged_base :: "'w lease_gate \<Rightarrow> bytes \<Rightarrow> 'w transport \<Rightarrow> 'w logged transport" where
  "logged_base g i base req x =
     (case base req (fst x) of
        (res, w) \<Rightarrow> (res, w, snd x @ [Attempt req (lg_allowed g i (fst x)) (lg_deadline g (fst x)) res]))"

text \<open>
  A client as the engine makes it, whose transport checks the lease of its source, and a processor that
  delivers through it; \<open>http_processor\<close> is the run itself and \<open>logged_processor\<close> the run with its log.
\<close>

definition leased_client :: "'w http_env \<Rightarrow> 'w lease_transport \<Rightarrow> duration \<Rightarrow> http_destination \<Rightarrow> 'w client" where
  "leased_client E t timeout d = new_client E (Some \<lparr>hc_timeout = timeout, hc_do = round_trip E t\<rparr>) d"

definition http_processor :: "'w http_env \<Rightarrow> 'w lease_transport \<Rightarrow> duration \<Rightarrow> int option \<Rightarrow> http_destination \<Rightarrow>
    destination \<Rightarrow> (duration \<Rightarrow> 'w \<Rightarrow> go_error option \<times> 'w) \<Rightarrow> (duration \<Rightarrow> 'w \<Rightarrow> duration \<times> 'w) \<Rightarrow> 'w processor" where
  "http_processor E t timeout dl dest d sleep jitter =
     \<lparr>pr_send = send_record E dl (leased_client E t timeout dest), pr_destination = d, pr_sleep = sleep,
      pr_jitter = jitter\<rparr>"

definition logged_transport :: "'w lease_gate \<Rightarrow> bytes \<Rightarrow> 'w transport \<Rightarrow> 'w logged lease_transport" where
  "logged_transport g i base =
     \<lparr>lt_gate = Some (logged_gate g), lt_source = i, lt_base = Some (logged_base g i base)\<rparr>"

definition logged_processor where
  "logged_processor E g i base timeout dl dest d sleep jitter =
     http_processor (logged_env E) (logged_transport g i base) timeout dl dest d
       (\<lambda>n. lift_call (sleep n)) (\<lambda>n. lift_call (jitter n))"

definition logged_attempt :: "(nat \<Rightarrow> go_error option \<Rightarrow> 'w \<Rightarrow> 'w) \<Rightarrow> nat \<Rightarrow> go_error option \<Rightarrow> 'w logged \<Rightarrow> 'w logged"
  where
  "logged_attempt f k e x = (f k e (fst x), snd x)"

section \<open>The log of one attempt\<close>

definition the_request :: "http_destination \<Rightarrow> stream_record \<Rightarrow> bytes \<Rightarrow> request" where
  "the_request d r body = set_headers d r (new_request d body None)"

text \<open>An attempt under the lease: allowed when it starts, and its context ends with the lease at the latest.\<close>

definition leased :: "request \<Rightarrow> wire \<Rightarrow> bool" where
  "leased req x \<longleftrightarrow>
     wi_allowed x \<and> (\<exists>d. wi_request x = req\<lparr>rq_deadline := Some d\<rparr> \<and> d \<le> wi_lease x)"

definition attempt_outcome :: "wire \<Rightarrow> go_error + outcome" where
  "attempt_outcome x = (case wi_answer x of Inl e \<Rightarrow> Inl e | Inr res \<Rightarrow> answer res)"

text \<open>What one call of the sender adds to the log: nothing, or a leased attempt and its release.\<close>

definition one_attempt :: "request \<Rightarrow> go_error + outcome \<Rightarrow> wire list \<Rightarrow> bool" where
  "one_attempt req res new \<longleftrightarrow>
     (new = [] \<and> isl res) \<or>
     (\<exists>x. new = [x, Release] \<and> x \<noteq> Release \<and> leased req x \<and> attempt_outcome x = res)"

lemma answer_lease [simp]: "answer (res\<lparr>rs_lease := b\<rparr>) = answer res"
proof -
  have "read_limited n (res\<lparr>rs_lease := b\<rparr>) = read_limited n res" for n
    by (cases "rs_body_error res") (simp_all add: read_limited_def)
  then show ?thesis by (cases "read_limited (body_limit + 1) res") (simp_all add: answer_def)
qed

lemma send_log:
  assumes "send_record (logged_env E) dl (leased_client (logged_env E) (logged_transport g i base) timeout d)
      r body (w, log) = (res, x)"
  shows "\<exists>w' new. x = (w', log @ new) \<and> one_attempt (the_request d r body) res new"
proof (cases "he_url_error E (hd_endpoint d)")
  case (Some e)
  with assms have "res = Inl e" "x = (w, log)"
    by (simp_all add: send_record_def leased_client_def new_client_def logged_env_def)
  then show ?thesis by (intro exI [of _ w] exI [of _ "[]"]) (simp add: one_attempt_def)
next
  case None
  let ?d = "case client_deadline E timeout dl w of None \<Rightarrow> lg_deadline g w | Some p \<Rightarrow> min p (lg_deadline g w)"
  let ?req = "(the_request d r body)\<lparr>rq_deadline := Some ?d\<rparr>"
  show ?thesis
  proof (cases "lg_allowed g i w")
    case False
    with assms None have "isl res" "x = (w, log)"
      by (auto simp: send_record_def leased_client_def new_client_def logged_env_def round_trip_def
          logged_transport_def logged_gate_def lift_read_def)
    then show ?thesis by (intro exI [of _ w] exI [of _ "[]"]) (simp add: one_attempt_def)
  next
    case True
    obtain a w1 where a: "base ?req w = (a, w1)" by fastforce
    let ?x = "Attempt ?req True (lg_deadline g w) a"
    have req: "(set_headers d r (new_request d body dl))\<lparr>rq_deadline := Some ?d\<rparr> = ?req"
      by (simp add: the_request_def set_headers_def new_request_def)
    have dl: "client_deadline (logged_env E) timeout dl (w, log) = client_deadline E timeout dl w"
      by (simp add: client_deadline_def logged_env_def lift_read_def)
    have "res = attempt_outcome ?x \<and> (\<exists>w'. x = (w', log @ [?x, Release]))"
      using assms None True a dl
      by (cases a)
         (auto simp: send_record_def leased_client_def new_client_def logged_env_def round_trip_def req
           logged_transport_def logged_gate_def lift_read_def logged_base_def with_deadline_def close_body_def
           attempt_outcome_def set_headers_def new_request_def the_request_def)
    moreover have "leased (the_request d r body) ?x" by (auto simp: leased_def split: option.splits)
    ultimately show ?thesis by (auto simp: one_attempt_def)
  qed
qed

section \<open>The log of a run\<close>

text \<open>The attempts of a run in their order, each released before the next.\<close>

fun attempts_of :: "wire list \<Rightarrow> wire list option" where
  "attempts_of [] = Some []"
| "attempts_of (Attempt req ok lease res # Release # xs) =
     map_option ((#) (Attempt req ok lease res)) (attempts_of xs)"
| "attempts_of _ = None"

text \<open>
  The logs of a run under way: only leased attempts without an outcome, and, once the run returns an outcome,
  a last attempt with it.
\<close>

definition fruitless :: "request \<Rightarrow> wire list \<Rightarrow> bool" where
  "fruitless req xs \<longleftrightarrow> (\<forall>x \<in> set xs. leased req x \<and> isl (attempt_outcome x))"

definition run_log :: "request \<Rightarrow> (go_error + outcome) option \<Rightarrow> wire list \<Rightarrow> bool" where
  "run_log req res log \<longleftrightarrow>
     (\<exists>xs. attempts_of log = Some xs \<and>
        (case res of
           Some (Inr o') \<Rightarrow> \<exists>ys x. xs = ys @ [x] \<and> fruitless req ys \<and> leased req x \<and> attempt_outcome x = Inr o'
         | _ \<Rightarrow> fruitless req xs))"

lemma attempts_of_append:
  "attempts_of xs = Some ys \<Longrightarrow> attempts_of (xs @ zs) = map_option ((@) ys) (attempts_of zs)"
  by (induction xs arbitrary: ys rule: attempts_of.induct; cases "attempts_of zs") auto

lemma attempts_of_one: "x \<noteq> Release \<Longrightarrow> attempts_of [x, Release] = Some [x]"
  by (cases x) simp_all

lemma run_log_start: "run_log req None []"
  by (simp add: run_log_def fruitless_def)

lemma run_log_step:
  assumes "run_log req None log" "one_attempt req res new"
  shows "run_log req (case res of Inl _ \<Rightarrow> None | Inr o' \<Rightarrow> Some (Inr o')) (log @ new)"
proof -
  from assms(1) obtain xs where xs: "attempts_of log = Some xs" "fruitless req xs"
    by (auto simp: run_log_def)
  from assms(2) consider (none) e where "new = []" "res = Inl e"
    | (one) x where "new = [x, Release]" "x \<noteq> Release" "leased req x" "attempt_outcome x = res"
    by (cases res) (auto simp: one_attempt_def)
  then show ?thesis
  proof cases
    case none
    with assms(1) show ?thesis by simp
  next
    case one
    then have "attempts_of (log @ new) = Some (xs @ [x])"
      using attempts_of_append [OF xs(1), of new] attempts_of_one by simp
    with one xs(2) show ?thesis by (cases res) (auto simp: run_log_def fruitless_def)
  qed
qed

lemma attempts_log:
  assumes "attempts fuel (logged_processor E g i base timeout dl dest d sleep jitter) r body (logged_attempt f) k x = (res, y)"
    and "run_log (the_request dest r body) None (snd x)"
  shows "run_log (the_request dest r body) res (snd y)"
  using assms
proof (induction fuel arbitrary: k x)
  case 0
  then show ?case by simp
next
  case (Suc fuel)
  let ?p = "logged_processor E g i base timeout dl dest d sleep jitter"
  obtain a x1 where send: "pr_send ?p r body x = (a, x1)" by (rule prod.exhaust)
  then obtain w' new where x1: "x1 = (w', snd x @ new)" "one_attempt (the_request dest r body) a new"
    using send_log [of E dl g i base timeout dest r body "fst x" "snd x" a x1]
    by (auto simp: logged_processor_def http_processor_def)
  note step = run_log_step [OF Suc.prems(2) x1(2)]
  let ?x2 = "logged_attempt f k (result_error a) x1"
  have x2: "snd ?x2 = snd x @ new" by (simp add: logged_attempt_def x1(1))
  show ?case
  proof (cases a)
    case (Inr out)
    with Suc.prems(1) send step x2 show ?thesis by (simp add: Let_def)
  next
    case (Inl e)
    obtain delay x3 where bk: "backoff k (pr_jitter ?p) ?x2 = (delay, x3)" by (rule prod.exhaust)
    then have x3: "snd x3 = snd ?x2"
      by (auto simp: backoff_def Let_def logged_processor_def http_processor_def dest!: lift_call_log split: prod.splits)
    obtain s x4 where sl: "pr_sleep ?p delay x3 = (s, x4)" by (rule prod.exhaust)
    then have "snd x4 = snd x3"
      by (auto simp: logged_processor_def http_processor_def dest: lift_call_log)
    with x3 x2 step Inl have log: "run_log (the_request dest r body) None (snd x4)" by simp
    show ?thesis
    proof (cases s)
      case None
      with Suc.prems(1) send Inl bk sl
      have "attempts fuel ?p r body (logged_attempt f) (Suc k) x4 = (res, y)" by (simp add: Let_def)
      then show ?thesis using log by (rule Suc.IH)
    next
      case (Some e')
      with Suc.prems(1) send Inl bk sl have "res = Some (Inl e')" "y = x4" by (simp_all add: Let_def)
      with log show ?thesis by (simp add: run_log_def)
    qed
  qed
qed

section \<open>Erasing the log\<close>

lemma round_trip_gated:
  "round_trip E \<lparr>lt_gate = Some g, lt_source = i, lt_base = Some base\<rparr> req w =
     (if \<not> lg_allowed g i w then (Inl Canceled, w)
      else case base (req\<lparr>rq_deadline := with_deadline (rq_deadline req) (lg_deadline g w)\<rparr>) w of
             (Inl e, w1) \<Rightarrow> (Inl e, he_release E w1)
           | (Inr res, w1) \<Rightarrow> (Inr (res\<lparr>rs_lease := True\<rparr>), w1))"
  by (simp add: round_trip_def Let_def
      cong del: if_weak_cong option.case_cong_weak sum.case_cong_weak prod.case_cong_weak)

lemma send_leased:
  "send_record E dl (leased_client E t timeout dest) r body w =
     (case he_url_error E (hd_endpoint dest) of
        Some e \<Rightarrow> (Inl e, w)
      | None \<Rightarrow>
          (case round_trip E t (set_headers dest r (new_request dest body dl)
                  \<lparr>rq_deadline := client_deadline E timeout dl w\<rparr>) w of
             (Inl e, w1) \<Rightarrow> (Inl e, w1)
           | (Inr res, w1) \<Rightarrow> (answer res, close_body E res w1)))"
  by (simp add: send_record_def leased_client_def new_client_def Let_def
      cong del: if_weak_cong option.case_cong_weak sum.case_cong_weak prod.case_cong_weak)

lemma round_trip_erase:
  "round_trip (logged_env E) (logged_transport g i base) req x = (res, y) \<Longrightarrow>
   round_trip E \<lparr>lt_gate = Some g, lt_source = i, lt_base = Some base\<rparr> req (fst x) = (res, fst y)"
  unfolding logged_transport_def round_trip_gated
  by (auto simp: logged_gate_def lift_read_def logged_base_def logged_env_def split: if_splits prod.splits sum.splits)

lemma logged_url [simp]: "he_url_error (logged_env E) = he_url_error E"
  by (simp add: logged_env_def)

lemma deadline_logged [simp]: "client_deadline (logged_env E) timeout dl x = client_deadline E timeout dl (fst x)"
  by (simp add: client_deadline_def logged_env_def lift_read_def)

lemma close_logged: "fst (close_body (logged_env E) res x) = close_body E res (fst x)"
  by (simp add: close_body_def logged_env_def)

lemma send_erase:
  "send_record (logged_env E) dl (leased_client (logged_env E) (logged_transport g i base) timeout dest) r body x =
   (res, y) \<Longrightarrow>
   send_record E dl (leased_client E \<lparr>lt_gate = Some g, lt_source = i, lt_base = Some base\<rparr> timeout dest) r body (fst x) =
   (res, fst y)"
  unfolding send_leased
  by (cases "round_trip (logged_env E) (logged_transport g i base) 
      (set_headers dest r (new_request dest body dl)\<lparr>rq_deadline := client_deadline E timeout dl (fst x)\<rparr>) x")
     (auto simp: close_logged
       dest!: round_trip_erase split: option.splits sum.splits)

lemma processor_erase:
  "processor_mirrors fst (logged_processor E g i base timeout dl dest d sleep jitter)
     (http_processor E \<lparr>lt_gate = Some g, lt_source = i, lt_base = Some base\<rparr> timeout dl dest d sleep jitter)"
proof -
  have "mirrors fst (send_record (logged_env E) dl (leased_client (logged_env E) (logged_transport g i base) timeout dest) r body)
      (send_record E dl (leased_client E \<lparr>lt_gate = Some g, lt_source = i, lt_base = Some base\<rparr> timeout dest) r body)"
    for r body
    using send_erase [of E dl g i base timeout dest r body] by (intro mirrorsI) (metis map_prod_simp id_apply prod.exhaust)
  then show ?thesis
    by (simp add: processor_mirrors_def logged_processor_def http_processor_def mirrors_lift_call)
qed

text \<open>The log changes neither the result of a delivery nor the world it leaves.\<close>

lemma logged_run_is_the_run:
  assumes "process fuel (logged_processor E g i base timeout dl dest d sleep jitter) r (logged_attempt f) (w, []) = (res, w', log)"
  shows "process fuel (http_processor E \<lparr>lt_gate = Some g, lt_source = i, lt_base = Some base\<rparr> timeout dl dest d
      sleep jitter) r f w = (res, w')"
  using mirrorsD [OF mirrors_process [OF processor_erase] assms, of f] by (simp add: logged_attempt_def)

section \<open>Properties\<close>

lemma process_log:
  assumes "process fuel (logged_processor E g i base timeout dl dest d sleep jitter) r (logged_attempt f) (w, []) = (res, w', log)"
    and "marshal_envelope (envelope_for r d) = Some body"
  shows "if matches_filter (dst_filter d) (rec_payload r) then run_log (the_request dest r body) res log
    else res = Some (Inr Filtered) \<and> log = []"
proof -
  have "pr_destination (logged_processor E g i base timeout dl dest d sleep jitter) = d"
    by (simp add: logged_processor_def http_processor_def)
  with assms show ?thesis
    using attempts_log [of fuel E g i base timeout dl dest d sleep jitter r body f 0 "(w, [])" res "(w', log)"]
    by (auto simp: process_def run_log_start split: if_splits)
qed

lemma run_log_leased:
  "run_log req res log \<Longrightarrow> \<exists>xs. attempts_of log = Some xs \<and> (\<forall>x \<in> set xs. leased req x)"
  by (cases res; cases "the res") (auto simp: run_log_def fruitless_def)

lemma classify_SomeD:
  "classify status body = Inr out \<Longrightarrow> 200 \<le> status \<and> status \<le> 299 \<and> out \<noteq> Filtered \<and>
   decode_acknowledgement body = Some (if out = Delivered then Success else KeepGoing)"
  by (auto simp: classify_def split: if_splits option.splits acknowledgement.splits)

lemma answer_SomeD:
  "answer a = Inr out \<Longrightarrow> 200 \<le> rs_status a \<and> rs_status a \<le> 299 \<and> rs_body_error a = None \<and>
   length (rs_body a) \<le> 65536 \<and> out \<noteq> Filtered \<and>
   decode_acknowledgement (rs_body a) = Some (if out = Delivered then Success else KeepGoing)"
  by (auto simp: answer_def read_limited_def body_limit_def dest!: classify_SomeD split: if_splits option.splits sum.splits)

text \<open>
  C35. Whatever a delivery sends, it sends under its source's lease: in every run of a processor, over all its
  attempts and at every moment, each request that reached the transport started while the gate allowed the
  source, with a context that ends no later than the lease read at that moment and is released before the
  next attempt, and all of them are the same request, with the same body and the same idempotency key.
\<close>

theorem requests_are_leased:
  assumes "process fuel (logged_processor E g i base timeout dl dest d sleep jitter) r (logged_attempt f) (w, []) = (res, w', log)"
    and "marshal_envelope (envelope_for r d) = Some body"
  shows "(\<exists>xs. attempts_of log = Some xs \<and> (\<forall>x \<in> set xs. leased (the_request dest r body) x)) \<and>
    process fuel (http_processor E \<lparr>lt_gate = Some g, lt_source = i, lt_base = Some base\<rparr> timeout dl dest d
      sleep jitter) r f w = (res, w')"
proof -
  from process_log [OF assms] have "\<exists>xs. attempts_of log = Some xs \<and> (\<forall>x \<in> set xs. leased (the_request dest r body) x)"
    by (cases "matches_filter (dst_filter d) (rec_payload r)") (auto dest: run_log_leased)
  with logged_run_is_the_run [OF assms(1)] show ?thesis by blast
qed

text \<open>
  C36. A delivery ends with the answer of the destination: \<^verbatim>\<open>Filtered\<close> exactly when the filter rejects the
  payload, and then nothing is sent; otherwise the last attempt was answered with a 2xx status and a body of at
  most 64 KiB that acknowledges success for \<^verbatim>\<open>Delivered\<close> and an explicit keep-going for \<^verbatim>\<open>Skipped\<close>, and
  every attempt before it failed.
\<close>

theorem outcome_is_the_answer:
  assumes "process fuel (logged_processor E g i base timeout dl dest d sleep jitter) r (logged_attempt f) (w, []) =
      (Some (Inr out), w', log)"
    and "marshal_envelope (envelope_for r d) = Some body"
  shows "if \<not> matches_filter (dst_filter d) (rec_payload r) then out = Filtered \<and> log = []
    else \<exists>ys x a. attempts_of log = Some (ys @ [x]) \<and> (\<forall>y \<in> set ys. isl (attempt_outcome y)) \<and>
      wi_answer x = Inr a \<and> 200 \<le> rs_status a \<and> rs_status a \<le> 299 \<and> rs_body_error a = None \<and>
      length (rs_body a) \<le> 65536 \<and> out \<noteq> Filtered \<and>
      decode_acknowledgement (rs_body a) = Some (if out = Delivered then Success else KeepGoing)"
proof (cases "matches_filter (dst_filter d) (rec_payload r)")
  case True
  with process_log [OF assms] obtain ys x where x: "attempts_of log = Some (ys @ [x])"
    "fruitless (the_request dest r body) ys" "attempt_outcome x = Inr out" by (auto simp: run_log_def)
  from x(3) obtain a where a: "wi_answer x = Inr a" "answer a = Inr out"
    by (auto simp: attempt_outcome_def split: sum.splits)
  from x(1,2) a(1) answer_SomeD [OF a(2)] True show ?thesis
    by (intro if_not_P [THEN iffD2]) (auto simp: fruitless_def)
next
  case False
  with process_log [OF assms] show ?thesis by simp
qed

section \<open>An example\<close>

text \<open>A destination that is unavailable for the number of attempts the world counts, then acknowledges.\<close>

definition recovering :: "nat transport" where
  \<open>recovering req n =
     (Inr \<lparr>rs_status = (if n = 0 then 200 else 503), rs_body = ''{"result":{"success":{}}}'',
           rs_body_error = None, rs_lease = False\<rparr>, n - 1)\<close>

definition quiet_net :: "nat http_env" where
  "quiet_net = \<lparr>he_url_error = (\<lambda>_. None), he_default = recovering, he_close = id, he_release = id, he_now = (\<lambda>_. 0)\<rparr>"

definition open_gate :: "nat lease_gate" where
  "open_gate = \<lparr>lg_allowed = (\<lambda>_ _. True), lg_deadline = (\<lambda>n. 1000 + int n)\<rparr>"

definition billing_endpoint :: http_destination where
  "billing_endpoint =
     \<lparr>hd_id = ''billing'', hd_endpoint = ''http://billing'', hd_username = ''u'', hd_password = ''p''\<rparr>"

definition identified :: stream_record where
  "identified = example_record\<lparr>rec_event_id := ''e1''\<rparr>"

abbreviation billing_run :: "nat \<Rightarrow> (go_error + outcome) option \<times> nat logged" where
  "billing_run n \<equiv>
     process 3 (logged_processor quiet_net open_gate ''users'' recovering second None billing_endpoint
         \<lparr>dst_id = ''billing'', dst_description = [], dst_filter = None\<rparr> (\<lambda>_ w. (None, w)) (\<lambda>_ w. (0, w)))
       identified (logged_attempt (\<lambda>_ _ w. w)) (n, [])"

definition billing_log :: "wire list" where
  "billing_log = snd (snd (billing_run 1))"

definition billing_body :: bytes where
  "billing_body = the (marshal_envelope (envelope_for identified
     \<lparr>dst_id = ''billing'', dst_description = [], dst_filter = None\<rparr>))"

lemma billing_body_marshalled:
  "marshal_envelope (envelope_for identified \<lparr>dst_id = ''billing'', dst_description = [], dst_filter = None\<rparr>) =
   Some billing_body"
proof -
  have "marshal_envelope (envelope_for identified
      \<lparr>dst_id = ''billing'', dst_description = [], dst_filter = None\<rparr>) \<noteq> None" by code_simp
  then show ?thesis by (simp add: billing_body_def)
qed

lemma billing_delivered: "fst (billing_run 1) = Some (Inr Delivered)"
  by code_simp

lemma billing_run_eq: "billing_run 1 = (Some (Inr Delivered), fst (snd (billing_run 1)), billing_log)"
  using billing_delivered by (metis billing_log_def prod.collapse)

lemma requests_are_leased_witness:
  "(\<exists>xs. attempts_of billing_log = Some xs \<and>
     (\<forall>x \<in> set xs. leased (the_request billing_endpoint identified billing_body) x)) \<and>
   process 3 (http_processor quiet_net \<lparr>lt_gate = Some open_gate, lt_source = ''users'', lt_base = Some recovering\<rparr>
       second None billing_endpoint \<lparr>dst_id = ''billing'', dst_description = [], dst_filter = None\<rparr>
       (\<lambda>_ w. (None, w)) (\<lambda>_ w. (0, w))) identified (\<lambda>_ _ w. w) 1 =
     (Some (Inr Delivered), fst (snd (billing_run 1)))"
  by (rule requests_are_leased [OF billing_run_eq billing_body_marshalled])

lemma outcome_is_the_answer_witness:
  "\<exists>ys x a. attempts_of billing_log = Some (ys @ [x]) \<and> wi_answer x = Inr a \<and>
     decode_acknowledgement (rs_body a) = Some Success"
proof -
  have "matches_filter (dst_filter \<lparr>dst_id = ''billing'', dst_description = [], dst_filter = None\<rparr>) (rec_payload identified)"
    by (simp add: matches_filter_def)
  with outcome_is_the_answer [OF billing_run_eq billing_body_marshalled] show ?thesis by auto
qed

end
