(* ===== verification/Consumer.thy ===== *)
theory Consumer
  imports Delivery
begin

text \<open>
  \<^verbatim>\<open>internal/adapters/kafka/consumer.go\<close>: the goroutine of one assigned partition, from its offset check to
  the last record it commits. The broker, the partition store, the dispatch gate, the worker's context and
  its ownership flag, which other goroutines change, are operations of the world; theory \<open>Ownership\<close> models
  the changes themselves.
\<close>

definition group_id :: "scope \<Rightarrow> bytes \<Rightarrow> bytes" where
  "group_id s destination =
     sc_namespace s @ ''.'' @ sc_environment s @ ''.'' @ destination @ ''.g'' @ generation_string (sc_generation s)"

section \<open>What a partition worker uses\<close>

record kafka_record =
  kr_topic :: bytes
  kr_partition :: int
  kr_offset :: int
  kr_leader_epoch :: int
  kr_key :: bytes
  kr_value :: bytes

text \<open>
  An offset the broker answered for the partition: \<open>None\<close> when the answer does not mention it, otherwise the
  error and the offset of the entry.
\<close>

type_synonym offset_entry = "(go_error option \<times> int) option"

type_synonym 'w commit_func = "raw_record \<Rightarrow> 'w \<Rightarrow> go_error option \<times> 'w"

record 'w partition_env =
  pn_ctx :: "'w go_context"
  pn_fetch_offsets :: "'w \<Rightarrow> (go_error + offset_entry) \<times> 'w"
  pn_start_offsets :: "'w \<Rightarrow> (go_error + offset_entry) \<times> 'w"
  pn_end_offsets :: "'w \<Rightarrow> (go_error + offset_entry) \<times> 'w"
  pn_started :: "'w \<Rightarrow> (go_error + bool) \<times> 'w"
  pn_mark_started :: "'w \<Rightarrow> go_error option \<times> 'w"
  pn_commit_records :: "int \<Rightarrow> int \<Rightarrow> 'w \<Rightarrow> go_error option \<times> 'w"
  pn_owned :: "'w \<Rightarrow> bool"
  pn_allowed :: "'w \<Rightarrow> bool"
  pn_block :: "bytes \<Rightarrow> 'w \<Rightarrow> 'w"
  pn_cancel :: "'w \<Rightarrow> 'w"
  pn_cancel_consumer :: "'w \<Rightarrow> 'w"
  pn_set_initialized :: "'w \<Rightarrow> 'w"
  pn_signal :: "'w \<Rightarrow> 'w"
  pn_receive :: "'w \<Rightarrow> kafka_record list option \<times> 'w"
  pn_current :: "'w \<Rightarrow> bool"
  pn_resume :: "'w \<Rightarrow> 'w"
  pn_process :: "raw_record \<Rightarrow> 'w commit_func \<Rightarrow> ('w, go_error option) prog"

section \<open>Committing\<close>

definition commit_position :: "'w partition_env \<Rightarrow> int \<Rightarrow> int \<Rightarrow> 'w \<Rightarrow> go_error option \<times> 'w" where
  "commit_position N offset epoch w =
     (if \<not> pn_owned N w \<or> ctx_err (pn_ctx N) w \<noteq> None \<or> \<not> pn_allowed N w then (Some Canceled, w)
      else pn_commit_records N offset epoch w)"

section \<open>The offset check\<close>

text \<open>The decision once every answer is in: block with a reason, commit a baseline, or go on.\<close>

definition establish_baseline :: "'w partition_env \<Rightarrow> int \<Rightarrow> int \<Rightarrow> offset_entry \<Rightarrow> bool \<Rightarrow> 'w \<Rightarrow>
    go_error option \<times> 'w" where
  "establish_baseline N lo hi committed started w =
     (if committed = None \<or> snd (the committed) < 0 then
        (if started \<or> lo \<noteq> 0
         then (Some Canceled, pn_cancel N (pn_block N ''established consumer offsets or history lost'' w))
         else commit_position N (lo - 1) (-1) w)
      else if snd (the committed) < lo \<or> snd (the committed) > hi
      then (Some Canceled, pn_cancel N (pn_block N ''committed offset is outside retained history'' w))
      else (None, w))"

definition known_offset :: "bytes \<Rightarrow> offset_entry \<Rightarrow> go_error + int" where
  "known_offset what entry =
     (case entry of
        Some (None, offset) \<Rightarrow> Inr offset
      | _ \<Rightarrow> Inl (Errorf (''partition '' @ what @ '' unavailable'')))"

definition check_offsets :: "'w partition_env \<Rightarrow> offset_entry \<Rightarrow> int \<Rightarrow> int \<Rightarrow> 'w \<Rightarrow> (go_error + int) \<times> 'w" where
  "check_offsets N committed lo hi w =
     (case committed of
        Some (Some e, _) \<Rightarrow> (Inl e, w)
      | _ \<Rightarrow>
          (case pn_started N w of
             (Inl e, w1) \<Rightarrow> (Inl e, w1)
           | (Inr started, w1) \<Rightarrow>
               (case establish_baseline N lo hi committed started w1 of
                  (Some e, w2) \<Rightarrow> (Inl e, w2)
                | (None, w2) \<Rightarrow>
                    (case pn_mark_started N w2 of
                       (Some e, w3) \<Rightarrow> (Inl e, w3)
                     | (None, w3) \<Rightarrow> (Inr hi, w3)))))"

text \<open>One round of \<^verbatim>\<open>initialize\<close>; the value is the horizon it leaves.\<close>

definition initialize_once :: "'w partition_env \<Rightarrow> 'w \<Rightarrow> (go_error + int) \<times> 'w" where
  "initialize_once N w =
     (case pn_fetch_offsets N w of
        (Inl e, w1) \<Rightarrow> (Inl e, w1)
      | (Inr committed, w1) \<Rightarrow>
          (case pn_start_offsets N w1 of
             (Inl e, w2) \<Rightarrow> (Inl e, w2)
           | (Inr starts, w2) \<Rightarrow>
               (case pn_end_offsets N w2 of
                  (Inl e, w3) \<Rightarrow> (Inl e, w3)
                | (Inr ends, w3) \<Rightarrow>
                    (case known_offset ''start'' starts of
                       Inl e \<Rightarrow> (Inl e, w3)
                     | Inr lo \<Rightarrow>
                         (case known_offset ''end'' ends of
                            Inl e \<Rightarrow> (Inl e, w3)
                          | Inr hi \<Rightarrow> check_offsets N committed lo hi w3)))))"

definition initialize :: "nat \<Rightarrow> 'w partition_env \<Rightarrow> ('w, go_error + int) prog" where
  "initialize fuel N = retry_value fuel (pn_ctx N) second (initialize_once N)"

section \<open>The worker\<close>

definition raw_of :: "int \<Rightarrow> kafka_record \<Rightarrow> raw_record" where
  "raw_of horizon k =
     \<lparr>rr_topic = kr_topic k, rr_partition = kr_partition k, rr_offset = kr_offset k,
      rr_leader_epoch = kr_leader_epoch k, rr_key = kr_key k, rr_value = kr_value k,
      rr_historical = kr_offset k < horizon\<rparr>"

definition process_record :: "'w partition_env \<Rightarrow> int \<Rightarrow> kafka_record \<Rightarrow> ('w, go_error option) prog" where
  "process_record N horizon k =
     pn_process N (raw_of horizon k) (\<lambda>position. commit_position N (rr_offset position) (rr_leader_epoch position))"

fun process_batch :: "'w partition_env \<Rightarrow> int \<Rightarrow> kafka_record list \<Rightarrow> ('w, go_error option) prog" where
  "process_batch N horizon [] = retp None"
| "process_batch N horizon (k # ks) =
     bindp (process_record N horizon k)
       (\<lambda>err. case err of Some e \<Rightarrow> retp (Some e) | None \<Rightarrow> process_batch N horizon ks)"

text \<open>The worker gives up: unless its own context has ended, the whole consumer is cancelled.\<close>

definition give_up :: "'w partition_env \<Rightarrow> ('w, unit) prog" where
  "give_up N = liftp (\<lambda>w. ((), if ctx_err (pn_ctx N) w = None then pn_cancel_consumer N w else w))"

definition resume_fetching :: "'w partition_env \<Rightarrow> ('w, unit) prog" where
  "resume_fetching N =
     liftp (\<lambda>w. ((), if pn_current N w \<and> ctx_err (pn_ctx N) w = None then pn_resume N w else w))"

fun batch_loop :: "nat \<Rightarrow> 'w partition_env \<Rightarrow> int \<Rightarrow> ('w, unit) prog" where
  "batch_loop 0 N horizon w = (None, w)"
| "batch_loop (Suc fuel) N horizon w =
     bindp (liftp (pn_receive N))
       (\<lambda>batch. case batch of
                  None \<Rightarrow> retp ()
                | Some ks \<Rightarrow>
                    bindp (process_batch N horizon ks)
                      (\<lambda>err. case err of
                               Some _ \<Rightarrow> give_up N
                             | None \<Rightarrow> bindp (resume_fetching N) (\<lambda>_. batch_loop fuel N horizon))) w"

definition worker_run :: "nat \<Rightarrow> 'w partition_env \<Rightarrow> ('w, unit) prog" where
  "worker_run fuel N =
     bindp (initialize fuel N)
       (\<lambda>res. case res of
                Inl _ \<Rightarrow> give_up N
              | Inr horizon \<Rightarrow>
                  bindp (liftp (\<lambda>w. ((), pn_signal N (pn_set_initialized N w))))
                    (\<lambda>_. batch_loop fuel N horizon))"

section \<open>The poll loop\<close>

text \<open>
  The errors of a fetch the code tells apart, one failed partition, and what the loop uses: \<open>cs_accepts\<close> says that
  the partition has a worker whose context is alive, and \<open>cs_hand\<close> gives it a batch or gives up when a context
  ends first.
\<close>

datatype fetch_error = OffsetOutOfRange | DataLoss | FetchFailed go_error

record fetch_failure =
  ff_topic :: bytes
  ff_partition :: int
  ff_err :: fetch_error

record 'w consumer_env =
  cs_ctx :: "'w go_context"
  cs_destination :: bytes
  cs_sources :: "(bytes \<times> source) list"
  cs_poll :: "'w \<Rightarrow> (fetch_failure list \<times> ((bytes \<times> int) \<times> kafka_record list) list) \<times> 'w"
  cs_block :: "bytes \<Rightarrow> bytes \<Rightarrow> 'w \<Rightarrow> 'w"
  cs_cancel :: "'w \<Rightarrow> 'w"
  cs_log :: "entry \<Rightarrow> 'w \<Rightarrow> 'w"
  cs_accepts :: "bytes \<times> int \<Rightarrow> 'w \<Rightarrow> bool"
  cs_pause :: "bytes \<times> int \<Rightarrow> 'w \<Rightarrow> 'w"
  cs_hand :: "bytes \<times> int \<Rightarrow> kafka_record list \<Rightarrow> 'w \<Rightarrow> 'w"
  cs_allow_rebalance :: "'w \<Rightarrow> 'w"
  cs_stop_workers :: "'w \<Rightarrow> 'w"
  cs_close :: "'w \<Rightarrow> 'w"
  cs_finish :: "'w \<Rightarrow> 'w"

definition history_lost :: "fetch_error \<Rightarrow> bool" where
  "history_lost e \<longleftrightarrow> e = OffsetOutOfRange \<or> e = DataLoss"

text \<open>A topic without source has the zero \<^verbatim>\<open>Source\<close>, whose identifier is empty.\<close>

definition source_id_of :: "(bytes \<times> source) list \<Rightarrow> bytes \<Rightarrow> bytes" where
  "source_id_of sources topic = (case map_of sources topic of None \<Rightarrow> [] | Some s \<Rightarrow> src_id s)"

definition fetch_entry :: "bytes \<Rightarrow> fetch_failure \<Rightarrow> entry" where
  "fetch_entry destination f =
     zero_entry\<lparr>e_level := ''warn'', e_message := ''Kafka fetch unavailable'', e_destination := destination,
       e_topic := ff_topic f, e_partition := ff_partition f, e_error := ''fetch failed''\<rparr>"

text \<open>The failures of one poll; the value says whether the loop goes on.\<close>

fun handle_failures :: "'w consumer_env \<Rightarrow> fetch_failure list \<Rightarrow> 'w \<Rightarrow> bool \<times> 'w" where
  "handle_failures C [] w = (True, w)"
| "handle_failures C (f # fs) w =
     (if ctx_err (cs_ctx C) w \<noteq> None then (False, w)
      else if history_lost (ff_err f)
      then (False, cs_cancel C (cs_block C (source_id_of (cs_sources C) (ff_topic f)) ''Kafka history boundary lost'' w))
      else handle_failures C fs (cs_log C (fetch_entry (cs_destination C) f) w))"

definition route :: "'w consumer_env \<Rightarrow> (bytes \<times> int) \<times> kafka_record list \<Rightarrow> 'w \<Rightarrow> 'w" where
  "route C batch w =
     (if snd batch = [] \<or> \<not> cs_accepts C (fst batch) w then w
      else cs_hand C (fst batch) (snd batch) (cs_pause C (fst batch) w))"

fun poll_loop :: "nat \<Rightarrow> 'w consumer_env \<Rightarrow> ('w, unit) prog" where
  "poll_loop 0 C w = (None, w)"
| "poll_loop (Suc fuel) C w =
     (if ctx_err (cs_ctx C) w \<noteq> None then (Some (), w)
      else (case cs_poll C w of
              ((failures, batches), w1) \<Rightarrow>
                (case handle_failures C failures w1 of
                   (False, w2) \<Rightarrow> (Some (), w2)
                 | (True, w2) \<Rightarrow> poll_loop fuel C (cs_allow_rebalance C (fold (route C) batches w2)))))"

definition run_consumer :: "nat \<Rightarrow> 'w consumer_env \<Rightarrow> ('w, unit) prog" where
  "run_consumer fuel C =
     bindp (poll_loop fuel C)
       (\<lambda>_. liftp (\<lambda>w. ((), cs_finish C (cs_close C (cs_stop_workers C (cs_allow_rebalance C w))))))"

end
