(* ===== verification/PartitionLaws.thy ===== *)
theory PartitionLaws
  imports Consumer Ghost
begin

text \<open>
  The goroutine of a partition together with the delivery worker it calls: records are taken strictly in
  their order, one at a time, and the committed position never passes a record that is not finished. The
  events of a run are logged beside the world (theory \<open>Ghost\<close>) and checked by a monitor.
\<close>

section \<open>The log\<close>

datatype part_event =
    Marked "go_error option"
  | Requested int int "go_error option"
  | Initialized
  | Received "kafka_record list"
  | Sent stream_record "go_error + outcome"

definition delivering :: "nat \<Rightarrow> 'w worker \<Rightarrow> 'w partition_env \<Rightarrow> 'w partition_env" where
  "delivering fuel wk N = N\<lparr>pn_process := worker_process fuel (pn_ctx N) wk\<rparr>"

definition note_receive :: "('w \<Rightarrow> kafka_record list option \<times> 'w) \<Rightarrow> 'w \<times> part_event list \<Rightarrow>
    kafka_record list option \<times> 'w \<times> part_event list" where
  "note_receive f x =
     (case f (fst x) of
        (None, w) \<Rightarrow> (None, w, snd x)
      | (Some ks, w) \<Rightarrow> (Some ks, w, snd x @ [Received ks]))"

definition traced_processor :: "'w processor \<Rightarrow> ('w \<times> part_event list) processor" where
  "traced_processor p =
     \<lparr>pr_send = (\<lambda>r body. note_call (Sent r) (pr_send p r body)), pr_destination = pr_destination p,
      pr_sleep = (\<lambda>d. lift_call (pr_sleep p d)), pr_jitter = (\<lambda>n. lift_call (pr_jitter p n))\<rparr>"

definition traced_worker :: "'w worker \<Rightarrow> ('w \<times> part_event list) worker" where
  "traced_worker wk =
     \<lparr>wk_processor = traced_processor (wk_processor wk), wk_decode = wk_decode wk,
      wk_has_skip = (\<lambda>s d r. lift_call (wk_has_skip wk s d r)),
      wk_save_skip = (\<lambda>s d r. lift_call (wk_save_skip wk s d r)),
      wk_scope = wk_scope wk, wk_destination = wk_destination wk, wk_source = wk_source wk,
      wk_gate = map_option (\<lambda>g. \<lparr>gate_allowed = (\<lambda>s. lift_read (gate_allowed g s)),
        gate_block = (\<lambda>s r. lift_step (gate_block g s r))\<rparr>) (wk_gate wk),
      wk_log = map_option (\<lambda>add e. lift_step (add e)) (wk_log wk)\<rparr>"

definition traced_partition :: "nat \<Rightarrow> 'w worker \<Rightarrow> 'w partition_env \<Rightarrow> ('w \<times> part_event list) partition_env" where
  "traced_partition fuel wk N =
     \<lparr>pn_ctx = lift_ctx (pn_ctx N), pn_fetch_offsets = lift_call (pn_fetch_offsets N),
      pn_start_offsets = lift_call (pn_start_offsets N), pn_end_offsets = lift_call (pn_end_offsets N),
      pn_started = lift_call (pn_started N), pn_mark_started = note_call Marked (pn_mark_started N),
      pn_commit_records = (\<lambda>o' e. note_call (Requested o' e) (pn_commit_records N o' e)),
      pn_owned = lift_read (pn_owned N), pn_allowed = lift_read (pn_allowed N),
      pn_block = (\<lambda>r. lift_step (pn_block N r)), pn_cancel = lift_step (pn_cancel N),
      pn_cancel_consumer = lift_step (pn_cancel_consumer N),
      pn_set_initialized = (\<lambda>x. (pn_set_initialized N (fst x), snd x @ [Initialized])),
      pn_signal = lift_step (pn_signal N), pn_receive = note_receive (pn_receive N),
      pn_current = lift_read (pn_current N), pn_resume = lift_step (pn_resume N),
      pn_process = worker_process fuel (lift_ctx (pn_ctx N)) (traced_worker wk)\<rparr>"

text \<open>The run of a partition worker, and the same run with its log.\<close>

definition partition_run :: "nat \<Rightarrow> 'w worker \<Rightarrow> 'w partition_env \<Rightarrow> ('w, unit) prog" where
  "partition_run fuel wk N = worker_run fuel (delivering fuel wk N)"

definition logged_partition_run :: "nat \<Rightarrow> 'w worker \<Rightarrow> 'w partition_env \<Rightarrow> ('w \<times> part_event list, unit) prog" where
  "logged_partition_run fuel wk N = worker_run fuel (traced_partition fuel wk N)"

section \<open>The monitor\<close>

datatype stage = Setup | Checked | Working "kafka_record list"

definition position :: "kafka_record \<Rightarrow> int \<times> int" where
  "position k = (kr_offset k, kr_leader_epoch k)"

text \<open>The record a source record was decoded from; whether it counts as history depends on the horizon.\<close>

definition decodes_to :: "(raw_record \<Rightarrow> go_error + stream_record) \<Rightarrow> kafka_record \<Rightarrow> stream_record \<Rightarrow> bool" where
  "decodes_to decode k r \<longleftrightarrow> (\<exists>b. decode ((raw_of 0 k)\<lparr>rr_historical := b\<rparr>) = Inr r)"

fun advance :: "(raw_record \<Rightarrow> go_error + stream_record) \<Rightarrow> stage \<Rightarrow> part_event \<Rightarrow> stage option" where
  "advance dec Setup (Requested o' e r) = Some Setup"
| "advance dec Setup (Marked r) = Some (if r = None then Checked else Setup)"
| "advance dec Checked Initialized = Some (Working [])"
| "advance dec (Working []) (Received ks) = Some (Working ks)"
| "advance dec (Working (k # q)) (Sent r res) = (if decodes_to dec k r then Some (Working (k # q)) else None)"
| "advance dec (Working (k # q)) (Requested o' e r) =
     (if (o', e) = position k then Some (Working (if r = None then q else k # q)) else None)"
| "advance _ _ _ = None"

fun watch :: "(raw_record \<Rightarrow> go_error + stream_record) \<Rightarrow> stage \<Rightarrow> part_event list \<Rightarrow> stage option" where
  "watch dec st [] = Some st"
| "watch dec st (e # es) = (case advance dec st e of None \<Rightarrow> None | Some st' \<Rightarrow> watch dec st' es)"

lemma watch_append:
  "watch dec st (xs @ ys) = (case watch dec st xs of None \<Rightarrow> None | Some st' \<Rightarrow> watch dec st' ys)"
  by (induction dec st xs rule: watch.induct) (auto split: option.splits)

lemma watch_snoc [simp]:
  "watch dec st (xs @ [e]) = (case watch dec st xs of None \<Rightarrow> None | Some st' \<Rightarrow> advance dec st' e)"
  by (simp add: watch_append split: option.splits)

definition at :: "'w worker \<Rightarrow> stage \<Rightarrow> 'w \<times> part_event list \<Rightarrow> bool" where
  "at wk st x \<longleftrightarrow> watch (wk_decode wk) Setup (snd x) = Some st"

lemma at_log: "at wk st x \<Longrightarrow> snd y = snd x \<Longrightarrow> at wk st y"
  by (simp add: at_def)

lemma at_lift_call: "lift_call f x = (a, y) \<Longrightarrow> at wk st x \<Longrightarrow> at wk st y"
  by (simp add: at_def lift_call_log)

lemma at_lift_step [simp]: "at wk st (lift_step f x) = at wk st x"
  by (simp add: at_def)

lemma at_step: "lift_step f x = y \<Longrightarrow> at wk st x \<Longrightarrow> at wk st y"
  by auto

lemma at_wait: "ctx_wait (lift_ctx c) d x = (b, y) \<Longrightarrow> at wk st x \<Longrightarrow> at wk st y"
  by (simp add: at_def lift_ctx_log)

section \<open>One record\<close>

lemma at_send:
  assumes "at wk (Working (k # q)) x" and "decodes_to (wk_decode wk) k r"
    and "pr_send (traced_processor p) r body x = (res, y)"
  shows "at wk (Working (k # q)) y"
  using assms by (auto simp: at_def traced_processor_def dest!: note_call_log)

lemma at_log_step [simp]: "at wk st (worker_log (traced_worker wk') e x) = at wk st x"
  by (simp add: worker_log_def traced_worker_def split: option.splits)

lemma at_block_step [simp]: "at wk st (worker_block (traced_worker wk') e x) = at wk st x"
  by (simp add: worker_block_def traced_worker_def split: option.splits)

lemma traced_decode [simp]: "wk_decode (traced_worker wk) = wk_decode wk"
  by (simp add: traced_worker_def)

lemma safe_worker_send:
  assumes "decodes_to (wk_decode wk) k r"
  shows "safe (at wk (Working (k # q))) (worker_send fuel (traced_worker wk) r e)
    (\<lambda>_. at wk (Working (k # q))) (at wk (Working (k # q)))"
proof -
  let ?P = "at wk (Working (k # q))"
  have proc: "wk_processor (traced_worker wk) = traced_processor (wk_processor wk)"
    by (simp add: traced_worker_def)
  have "safe ?P (attempts fuel (traced_processor (wk_processor wk)) r body
      (\<lambda>n err. worker_log (traced_worker wk) (attempt_entry e n err)) 0) (\<lambda>_. ?P) ?P" for body
    by (rule safe_attempts)
       (auto simp: traced_processor_def dest: at_lift_call intro: at_send [OF _ assms, unfolded traced_processor_def, simplified])
  then have run: "safe ?P (process fuel (wk_processor (traced_worker wk)) r
      (\<lambda>n err. worker_log (traced_worker wk) (attempt_entry e n err))) (\<lambda>_. ?P) ?P"
    unfolding proc by (rule safe_process)
  have "safe ?P (bindp (process fuel (wk_processor (traced_worker wk)) r
        (\<lambda>n err. worker_log (traced_worker wk) (attempt_entry e n err)))
       (\<lambda>res w'. case res of
                   Inr outcome \<Rightarrow> (Some res, worker_log (traced_worker wk) (outcome_entry e outcome) w')
                 | Inl _ \<Rightarrow> (Some res, w'))) (\<lambda>_. ?P) ?P"
    by (rule safe_bindp [OF run]) (auto simp: safe_def split: sum.splits)
  then show ?thesis
    unfolding worker_send_def by (rule safe_after) simp
qed

lemma safe_worker_process:
  assumes commit: "\<And>x a y. at wk (Working (k # q)) x \<Longrightarrow> commit (raw_of h k) x = (a, y) \<Longrightarrow>
      (case a of None \<Rightarrow> at wk (Working q) y | Some _ \<Rightarrow> at wk (Working (k # q)) y)"
  shows "safe (at wk (Working (k # q))) (worker_process fuel (lift_ctx c) (traced_worker wk) (raw_of h k) commit)
    (\<lambda>r. case r of None \<Rightarrow> at wk (Working q) | Some _ \<Rightarrow> at wk (Working (k # q))) (at wk (Working (k # q)))"
proof -
  let ?P = "at wk (Working (k # q))"
  have main: "safe ?P (complete_record fuel (lift_ctx c) store_retry_delay
      (worker_actions fuel (lift_ctx c) (traced_worker wk) (raw_of h k) r commit))
      (\<lambda>r w. case r of None \<Rightarrow> at wk (Working q) w | Some _ \<Rightarrow> ?P w) ?P"
    if "wk_decode wk (raw_of h k) = Inr r" for r
  proof (rule safe_complete)
    have "raw_of h k = (raw_of 0 k)\<lparr>rr_historical := kr_offset k < h\<rparr>" by (simp add: raw_of_def)
    with that have "decodes_to (wk_decode wk) k r" by (metis decodes_to_def)
    then show "safe ?P (act_send (worker_actions fuel (lift_ctx c) (traced_worker wk) (raw_of h k) r commit)) (\<lambda>_. ?P) ?P"
      by (simp add: worker_actions_def safe_worker_send)
  next
    fix x a y
    assume P: "?P x" and run: "act_commit (worker_actions fuel (lift_ctx c) (traced_worker wk) (raw_of h k) r commit) x = (a, y)"
    obtain b z where c: "commit (raw_of h k) x = (b, z)" by (rule prod.exhaust)
    from run c commit [OF P c] show "case a of None \<Rightarrow> at wk (Working q) y | Some _ \<Rightarrow> ?P y"
      by (cases b) (auto simp: worker_actions_def worker_commit_def split: if_splits)
  qed (auto simp: worker_actions_def traced_worker_def dest: at_lift_call at_wait split: if_splits)
  show ?thesis
    unfolding safe_def
  proof (intro allI impI)
    fix x
    assume P: "?P x"
    show "case worker_process fuel (lift_ctx c) (traced_worker wk) (raw_of h k) commit x of
        (None, y) \<Rightarrow> ?P y
      | (Some r, y) \<Rightarrow> (case r of None \<Rightarrow> at wk (Working q) | Some _ \<Rightarrow> ?P) y"
    proof (cases "worker_allowed (traced_worker wk) x")
      case True
      show ?thesis
      proof (cases "wk_decode wk (raw_of h k)")
        case (Inr r)
        with True P main [OF Inr, unfolded safe_def, rule_format, OF P] show ?thesis
          by (auto simp: worker_process_def split: prod.splits option.splits)
      qed (use True P in \<open>simp add: worker_process_def\<close>)
    qed (use P in \<open>simp add: worker_process_def\<close>)
  qed
qed

section \<open>The whole run\<close>

definition accepted :: "'w worker \<Rightarrow> 'w \<times> part_event list \<Rightarrow> bool" where
  "accepted wk x \<longleftrightarrow> (\<exists>st. at wk st x)"

lemma acceptedI: "at wk st x \<Longrightarrow> accepted wk x"
  by (auto simp: accepted_def)

lemma at_commit:
  assumes "at wk (Working (k # q)) x"
    and "commit_position (traced_partition fuel wk N) (kr_offset k) (kr_leader_epoch k) x = (a, y)"
  shows "case a of None \<Rightarrow> at wk (Working q) y | Some _ \<Rightarrow> at wk (Working (k # q)) y"
  using assms
  by (auto simp: commit_position_def traced_partition_def at_def position_def dest!: note_call_log
      split: if_splits option.splits)

lemma safe_process_record:
  "safe (at wk (Working (k # q))) (process_record (traced_partition fuel wk N) h k)
    (\<lambda>r. case r of None \<Rightarrow> at wk (Working q) | Some _ \<Rightarrow> at wk (Working (k # q))) (at wk (Working (k # q)))"
proof -
  have "pn_process (traced_partition fuel wk N) = worker_process fuel (lift_ctx (pn_ctx N)) (traced_worker wk)"
    by (simp add: traced_partition_def)
  then show ?thesis
    unfolding process_record_def by (simp only:) (rule safe_worker_process, auto simp: raw_of_def dest: at_commit)
qed

lemma safe_process_batch:
  "safe (at wk (Working ks)) (process_batch (traced_partition fuel wk N) h ks)
    (\<lambda>r. case r of None \<Rightarrow> at wk (Working []) | Some _ \<Rightarrow> accepted wk) (accepted wk)"
proof (induction ks)
  case Nil
  show ?case by (auto intro: safe_retp)
next
  case (Cons k ks)
  have step: "safe (at wk (Working (k # ks))) (process_record (traced_partition fuel wk N) h k)
    (\<lambda>r. case r of None \<Rightarrow> at wk (Working ks) | Some _ \<Rightarrow> at wk (Working (k # ks))) (accepted wk)"
    by (rule safe_weaken [OF safe_process_record]) (auto dest: acceptedI)
  show ?case
    unfolding process_batch.simps
  proof (rule safe_bindp [OF step])
    fix err
    show "safe (case err of None \<Rightarrow> at wk (Working ks) | Some _ \<Rightarrow> at wk (Working (k # ks)))
      (case err of Some e \<Rightarrow> retp (Some e) | None \<Rightarrow> process_batch (traced_partition fuel wk N) h ks)
      (\<lambda>r. case r of None \<Rightarrow> at wk (Working []) | Some _ \<Rightarrow> accepted wk) (accepted wk)"
      using Cons.IH by (cases err) (auto intro!: safe_retp dest: acceptedI)
  qed
qed

lemma at_give_up [simp]:
  "safe (accepted wk) (give_up (traced_partition fuel wk N)) (\<lambda>_. accepted wk) (accepted wk)"
  unfolding give_up_def
  by (rule safe_liftp) (auto simp: accepted_def traced_partition_def dest!: at_step split: if_splits)

lemma safe_batch_loop:
  "safe (at wk (Working [])) (batch_loop fuel (traced_partition n wk N) h) (\<lambda>_. accepted wk) (accepted wk)"
proof (induction fuel)
  case 0
  show ?case by (auto simp: safe_def dest: acceptedI)
next
  case (Suc fuel)
  let ?N = "traced_partition n wk N"
  have receive: "safe (at wk (Working [])) (liftp (pn_receive ?N))
      (\<lambda>b. case b of None \<Rightarrow> accepted wk | Some ks \<Rightarrow> at wk (Working ks)) (accepted wk)"
    by (rule safe_liftp)
       (auto simp: traced_partition_def note_receive_def at_def accepted_def split: prod.splits option.splits)
  have resume: "safe (at wk (Working [])) (resume_fetching ?N) (\<lambda>_. at wk (Working [])) (accepted wk)"
    unfolding resume_fetching_def by (rule safe_liftp) (auto simp: traced_partition_def dest: at_step split: if_splits)
  have after: "safe (case err of None \<Rightarrow> at wk (Working []) | Some _ \<Rightarrow> accepted wk)
      (case err of Some _ \<Rightarrow> give_up ?N | None \<Rightarrow> bindp (resume_fetching ?N) (\<lambda>_. batch_loop fuel ?N h))
      (\<lambda>_. accepted wk) (accepted wk)" for err :: "go_error option"
    using Suc by (cases err) (auto intro: safe_bindp [OF resume])
  have body: "safe (case b of None \<Rightarrow> accepted wk | Some ks \<Rightarrow> at wk (Working ks))
      (case b of None \<Rightarrow> retp ()
       | Some ks \<Rightarrow> bindp (process_batch ?N h ks)
           (\<lambda>err. case err of Some _ \<Rightarrow> give_up ?N
                   | None \<Rightarrow> bindp (resume_fetching ?N) (\<lambda>_. batch_loop fuel ?N h)))
      (\<lambda>_. accepted wk) (accepted wk)" for b
    by (cases b) (auto intro!: safe_retp safe_bindp [OF safe_process_batch after])
  have "safe (at wk (Working [])) (bindp (liftp (pn_receive ?N))
      (\<lambda>b. case b of None \<Rightarrow> retp ()
           | Some ks \<Rightarrow> bindp (process_batch ?N h ks)
               (\<lambda>err. case err of Some _ \<Rightarrow> give_up ?N
                       | None \<Rightarrow> bindp (resume_fetching ?N) (\<lambda>_. batch_loop fuel ?N h))))
      (\<lambda>_. accepted wk) (accepted wk)"
    by (rule safe_bindp [OF receive body])
  then show ?case by (simp add: safe_def)
qed

lemma at_initialize_once:
  assumes "at wk Setup x" and "initialize_once (traced_partition fuel wk N) x = (res, y)"
  shows "case res of Inr _ \<Rightarrow> at wk Checked y | Inl _ \<Rightarrow> at wk Setup y"
  using assms
  by (auto simp: initialize_once_def check_offsets_def establish_baseline_def commit_position_def
      traced_partition_def at_def watch_append dest!: note_call_log lift_call_log
      split: prod.splits sum.splits option.splits if_splits)

lemma safe_initialize:
  "safe (at wk Setup) (initialize n (traced_partition fuel wk N))
    (\<lambda>res. case res of Inr _ \<Rightarrow> at wk Checked | Inl _ \<Rightarrow> accepted wk) (accepted wk)"
proof -
  have "pn_ctx (traced_partition fuel wk N) = lift_ctx (pn_ctx N)" by (simp add: traced_partition_def)
  then have "safe (at wk Setup) (initialize n (traced_partition fuel wk N))
      (\<lambda>res x. case res of Inr _ \<Rightarrow> at wk Checked x | Inl _ \<Rightarrow> at wk Setup x) (at wk Setup)"
    unfolding initialize_def
    by (simp only:) (rule safe_retry_value, auto dest: at_initialize_once at_wait)
  then show ?thesis by (rule safe_weaken) (auto dest: acceptedI split: sum.splits)
qed

lemma safe_worker_run:
  "safe (at wk Setup) (logged_partition_run fuel wk N) (\<lambda>_. accepted wk) (accepted wk)"
proof -
  let ?N = "traced_partition fuel wk N"
  have signal: "safe (at wk Checked) (liftp (\<lambda>w. ((), pn_signal ?N (pn_set_initialized ?N w))))
      (\<lambda>_. at wk (Working [])) (accepted wk)"
    by (rule safe_liftp) (auto simp: traced_partition_def at_def lift_step_def)
  have "safe (case res of Inr _ \<Rightarrow> at wk Checked | Inl _ \<Rightarrow> accepted wk)
      (case res of Inl _ \<Rightarrow> give_up ?N
       | Inr horizon \<Rightarrow> bindp (liftp (\<lambda>w. ((), pn_signal ?N (pn_set_initialized ?N w))))
                          (\<lambda>_. batch_loop fuel ?N horizon))
      (\<lambda>_. accepted wk) (accepted wk)" for res :: "go_error + int"
    by (cases res) (auto intro!: safe_bindp [OF signal] safe_batch_loop)
  then show ?thesis
    unfolding logged_partition_run_def worker_run_def by (rule safe_bindp [OF safe_initialize])
qed

lemma logged_run_accepted:
  assumes "logged_partition_run fuel wk N (w, []) = (res, w', t)"
  shows "\<exists>st. watch (wk_decode wk) Setup t = Some st"
proof -
  have "at wk Setup (w, [])" by (simp add: at_def)
  with safe_worker_run [of wk fuel N] assms have "accepted wk (w', t)"
    by (cases res) (auto dest: safeD_Some safeD_None)
  then show ?thesis by (simp add: accepted_def at_def)
qed

section \<open>What a log says\<close>

fun batch_of :: "part_event \<Rightarrow> kafka_record list" where
  "batch_of (Received ks) = ks"
| "batch_of _ = []"

fun success_of :: "part_event \<Rightarrow> (int \<times> int) list" where
  "success_of (Requested o' e None) = [(o', e)]"
| "success_of _ = []"

text \<open>The records received so far, and the positions whose commit succeeded since the offset check.\<close>

definition received :: "part_event list \<Rightarrow> kafka_record list" where
  "received t = concat (map batch_of t)"

definition committed :: "part_event list \<Rightarrow> (int \<times> int) list" where
  "committed t = concat (map success_of (dropWhile (\<lambda>e. e \<noteq> Initialized) t))"

lemma received_snoc [simp]: "received (t @ [e]) = received t @ batch_of e"
  by (simp add: received_def)

lemma committed_snoc [simp]:
  "committed (t @ [e]) = (if Initialized \<in> set t then committed t @ success_of e else [])"
proof (cases "Initialized \<in> set t")
  case True
  then show ?thesis by (auto simp: committed_def dropWhile_append)
next
  case False
  then have "dropWhile (\<lambda>e. e \<noteq> Initialized) t = []" by (auto simp: dropWhile_eq_Nil_conv)
  with False show ?thesis by (simp add: committed_def dropWhile_append)
qed

fun ledger :: "stage \<Rightarrow> part_event list \<Rightarrow> bool" where
  "ledger Setup t \<longleftrightarrow> Initialized \<notin> set t \<and> received t = []"
| "ledger Checked t \<longleftrightarrow> Initialized \<notin> set t \<and> received t = [] \<and> Marked None \<in> set t"
| "ledger (Working q) t \<longleftrightarrow> Initialized \<in> set t \<and> Marked None \<in> set t \<and>
     (\<exists>ks. received t = ks @ q \<and> committed t = map position ks)"

lemma ledger_step: "ledger st t \<Longrightarrow> advance dec st e = Some st' \<Longrightarrow> ledger st' (t @ [e])"
proof (induction dec st e rule: advance.induct)
  case (6 dec k q o' e r)
  from 6 obtain ks where "received t = ks @ k # q" "committed t = map position ks" by auto
  with 6 show ?case
    by (cases r) (auto intro: exI [of _ "ks @ [k]"] split: if_splits)
qed (auto split: if_splits)

lemma watch_ledger: "watch dec Setup t = Some st \<Longrightarrow> ledger st t"
proof (induction t arbitrary: st rule: rev_induct)
  case Nil
  then show ?case by (auto simp: received_def)
next
  case (snoc e t)
  then obtain st1 where "watch dec Setup t = Some st1" "advance dec st1 e = Some st"
    by (auto split: option.splits)
  with snoc.IH ledger_step show ?case by blast
qed

lemma watch_split:
  assumes "watch dec st (t1 @ e # t2) = Some st'"
  obtains st1 st2 where "watch dec st t1 = Some st1" "advance dec st1 e = Some st2"
  using assms by (auto simp: watch_append split: option.splits)

lemma accepted_sent:
  assumes "watch dec Setup (t1 @ Sent r x # t2) = Some st"
  obtains ks k q where "received t1 = ks @ k # q" "committed t1 = map position ks" "decodes_to dec k r"
proof -
  from assms obtain st1 st2 where st: "watch dec Setup t1 = Some st1" "advance dec st1 (Sent r x) = Some st2"
    by (rule watch_split)
  then obtain k q where "st1 = Working (k # q)" "decodes_to dec k r"
    by (cases "(dec, st1, Sent r x)" rule: advance.cases) (auto split: if_splits)
  with watch_ledger [OF st(1)] that show thesis by auto
qed

lemma accepted_request:
  assumes "watch dec Setup (t1 @ Requested o' e x # t2) = Some st" and "Initialized \<in> set t1"
  obtains ks k q where "received t1 = ks @ k # q" "committed t1 = map position ks" "(o', e) = position k"
proof -
  from assms(1) obtain st1 st2 where st: "watch dec Setup t1 = Some st1" "advance dec st1 (Requested o' e x) = Some st2"
    by (rule watch_split)
  note ledger = watch_ledger [OF st(1)]
  from st(2) assms(2) ledger obtain k q where "st1 = Working (k # q)" "(o', e) = position k"
    by (cases "(dec, st1, Requested o' e x)" rule: advance.cases) (auto split: if_splits)
  with ledger that show thesis by auto
qed

lemma accepted_received:
  assumes "watch dec Setup (t1 @ Received ks # t2) = Some st"
  shows "committed t1 = map position (received t1) \<and> Marked None \<in> set t1"
proof -
  from assms obtain st1 st2 where st: "watch dec Setup t1 = Some st1" "advance dec st1 (Received ks) = Some st2"
    by (rule watch_split)
  then have "st1 = Working []"
    by (cases "(dec, st1, Received ks)" rule: advance.cases) (auto split: if_splits)
  with watch_ledger [OF st(1)] show ?thesis by auto
qed

section \<open>Erasing the log\<close>

lemma mirrors_commit_position:
  "mirrors fst (commit_position (traced_partition fuel wk N) o' e) (commit_position (delivering fuel wk N) o' e)"
  by (rule mirrorsI)
     (auto simp: commit_position_def traced_partition_def delivering_def lift_read_def lift_ctx_def note_call_def
       split: prod.splits)

lemma mirrors_establish:
  "mirrors fst (establish_baseline (traced_partition fuel wk N) lo hi c s)
     (establish_baseline (delivering fuel wk N) lo hi c s)"
proof (rule mirrorsI)
  fix x
  have "map_prod id fst (commit_position (traced_partition fuel wk N) o' e x) =
      commit_position (delivering fuel wk N) o' e (fst x)" for o' e
    by (rule mirrorsE [OF mirrors_commit_position])
  moreover have "pn_cancel (traced_partition fuel wk N) = lift_step (pn_cancel N)"
    "pn_block (traced_partition fuel wk N) r = lift_step (pn_block N r)"
    "pn_cancel (delivering fuel wk N) = pn_cancel N" "pn_block (delivering fuel wk N) r = pn_block N r" for r
    by (simp_all add: traced_partition_def delivering_def)
  ultimately show "map_prod id fst (establish_baseline (traced_partition fuel wk N) lo hi c s x) =
      establish_baseline (delivering fuel wk N) lo hi c s (fst x)"
    by (simp add: establish_baseline_def lift_step_def)
qed

lemma mirrors_check_offsets:
  "mirrors fst (check_offsets (traced_partition fuel wk N) c lo hi) (check_offsets (delivering fuel wk N) c lo hi)"
proof (rule mirrorsI)
  fix x
  obtain s x1 where s: "pn_started (traced_partition fuel wk N) x = (s, x1)" by (rule prod.exhaust)
  then have s': "pn_started (delivering fuel wk N) (fst x) = (s, fst x1)"
    by (auto simp: traced_partition_def delivering_def dest: mirrorsD [OF mirrors_lift_call])
  have "map_prod id fst (case establish_baseline (traced_partition fuel wk N) lo hi c b x1 of
        (Some e, w2) \<Rightarrow> (Inl e, w2)
      | (None, w2) \<Rightarrow> (case pn_mark_started (traced_partition fuel wk N) w2 of
            (Some e, w3) \<Rightarrow> (Inl e, w3) | (None, w3) \<Rightarrow> (Inr hi, w3))) =
      (case establish_baseline (delivering fuel wk N) lo hi c b (fst x1) of
        (Some e, w2) \<Rightarrow> (Inl e, w2)
      | (None, w2) \<Rightarrow> (case pn_mark_started (delivering fuel wk N) w2 of
            (Some e, w3) \<Rightarrow> (Inl e, w3) | (None, w3) \<Rightarrow> (Inr hi, w3)))" for b
  proof -
    obtain r x2 where r: "establish_baseline (traced_partition fuel wk N) lo hi c b x1 = (r, x2)" by (rule prod.exhaust)
    with mirrorsD [OF mirrors_establish r] show ?thesis
      by (auto simp: traced_partition_def delivering_def note_call_def split: option.splits prod.splits)
  qed
  with s s' show "map_prod id fst (check_offsets (traced_partition fuel wk N) c lo hi x) =
      check_offsets (delivering fuel wk N) c lo hi (fst x)"
    by (auto simp: check_offsets_def split: option.splits sum.splits)
qed

lemma mirrors_initialize_once:
  "mirrors fst (initialize_once (traced_partition fuel wk N)) (initialize_once (delivering fuel wk N))"
proof (rule mirrorsI)
  fix x
  have "map_prod id fst (check_offsets (traced_partition fuel wk N) c lo hi x1) =
      check_offsets (delivering fuel wk N) c lo hi (fst x1)" for c lo hi x1
    by (rule mirrorsE [OF mirrors_check_offsets])
  note check = this
  obtain a x1 where a: "pn_fetch_offsets (traced_partition fuel wk N) x = (a, x1)" by (rule prod.exhaust)
  obtain b x2 where b: "pn_start_offsets (traced_partition fuel wk N) x1 = (b, x2)" by (rule prod.exhaust)
  obtain c x3 where c: "pn_end_offsets (traced_partition fuel wk N) x2 = (c, x3)" by (rule prod.exhaust)
  from a b c have "pn_fetch_offsets (delivering fuel wk N) (fst x) = (a, fst x1)"
    "pn_start_offsets (delivering fuel wk N) (fst x1) = (b, fst x2)"
    "pn_end_offsets (delivering fuel wk N) (fst x2) = (c, fst x3)"
    by (auto simp: traced_partition_def delivering_def dest: mirrorsD [OF mirrors_lift_call])
  with a b c check show "map_prod id fst (initialize_once (traced_partition fuel wk N) x) =
      initialize_once (delivering fuel wk N) (fst x)"
    by (simp add: initialize_once_def split: sum.splits)
qed

lemma processor_traced: "processor_mirrors fst (traced_processor p) p"
  by (simp add: processor_mirrors_def traced_processor_def mirrors_note_call mirrors_lift_call)

lemma log_traced: "fst (worker_log (traced_worker wk) e x) = worker_log wk e (fst x)"
  by (simp add: worker_log_def traced_worker_def lift_step_def split: option.splits)

lemma block_traced: "fst (worker_block (traced_worker wk) e x) = worker_block wk e (fst x)"
  by (simp add: worker_block_def traced_worker_def lift_step_def split: option.splits)

lemma allowed_traced: "worker_allowed (traced_worker wk) x = worker_allowed wk (fst x)"
  by (simp add: worker_allowed_def traced_worker_def lift_read_def split: option.splits)

lemma mirrors_worker_send: "mirrors fst (worker_send fuel (traced_worker wk) r e) (worker_send fuel wk r e)"
proof -
  have "mirrors fst
     (bindp (process fuel (traced_processor (wk_processor wk)) r
         (\<lambda>n err. worker_log (traced_worker wk) (attempt_entry e n err)))
       (\<lambda>res w'. case res of
                   Inr outcome \<Rightarrow> (Some res, worker_log (traced_worker wk) (outcome_entry e outcome) w')
                 | Inl _ \<Rightarrow> (Some res, w')))
     (bindp (process fuel (wk_processor wk) r (\<lambda>n err. worker_log wk (attempt_entry e n err)))
       (\<lambda>res w'. case res of
                   Inr outcome \<Rightarrow> (Some res, worker_log wk (outcome_entry e outcome) w')
                 | Inl _ \<Rightarrow> (Some res, w')))"
    by (intro mirrors_bindp mirrors_process processor_traced)
       (auto simp: log_traced mirrors_def split: sum.splits)
  moreover have "wk_processor (traced_worker wk) = traced_processor (wk_processor wk)"
    by (simp add: traced_worker_def)
  ultimately show ?thesis
    unfolding worker_send_def
    by (intro mirrors_after [where g' = "worker_log (traced_worker wk) (started_entry e)" and
          g = "worker_log wk (started_entry e)"]) (simp_all add: log_traced)
qed

lemma mirrors_worker_process:
  assumes commit: "mirrors fst (commit' raw) (commit raw)"
  shows "mirrors fst (worker_process fuel (lift_ctx c) (traced_worker wk) raw commit')
    (worker_process fuel c wk raw commit)"
proof -
  let ?e = "\<lambda>r. entry_for r (wk_destination wk)"
  have "mirrors fst (worker_commit (lift_ctx c) (traced_worker wk) raw e commit')
      (worker_commit c wk raw e commit)" for e
  proof (rule mirrorsI)
    fix x
    obtain a y where a: "commit' raw x = (a, y)" by (rule prod.exhaust)
    from mirrorsD [OF commit a] a
    show "map_prod id fst (worker_commit (lift_ctx c) (traced_worker wk) raw e commit' x) =
        worker_commit c wk raw e commit (fst x)"
      by (cases a) (simp_all add: worker_commit_def log_traced lift_ctx_def lift_read_def)
  qed
  moreover have "wk_scope (traced_worker wk) = wk_scope wk" "wk_destination (traced_worker wk) = wk_destination wk"
    "wk_has_skip (traced_worker wk) s d r = lift_call (wk_has_skip wk s d r)"
    "wk_save_skip (traced_worker wk) s d r = lift_call (wk_save_skip wk s d r)" for s d r
    by (simp_all add: traced_worker_def)
  moreover have "mirrors fst (\<lambda>w. (Inr False, w)) (\<lambda>w. (Inr False, w))" by (simp add: mirrors_def)
  ultimately have "actions_mirror fst (worker_actions fuel (lift_ctx c) (traced_worker wk) raw r commit')
      (worker_actions fuel c wk raw r commit)" for r
    by (cases "rr_historical raw")
       (simp_all add: actions_mirror_def worker_actions_def mirrors_worker_send mirrors_lift_call)
  then have "map_prod id fst (complete_record fuel (lift_ctx c) d
        (worker_actions fuel (lift_ctx c) (traced_worker wk) raw r commit') x) =
      complete_record fuel c d (worker_actions fuel c wk raw r commit) (fst x)" for d r x
    by (intro mirrorsE mirrors_complete mirrors_ctx)
  then show ?thesis
    by (intro mirrorsI) (simp add: worker_process_def allowed_traced block_traced split: sum.splits)
qed

lemma mirrors_process_record:
  "mirrors fst (process_record (traced_partition fuel wk N) h k) (process_record (delivering fuel wk N) h k)"
proof -
  have "pn_process (traced_partition fuel wk N) = worker_process fuel (lift_ctx (pn_ctx N)) (traced_worker wk)"
    "pn_process (delivering fuel wk N) = worker_process fuel (pn_ctx N) wk"
    by (simp_all add: traced_partition_def delivering_def)
  then show ?thesis
    unfolding process_record_def by (simp only:) (intro mirrors_worker_process mirrors_commit_position)
qed

lemma mirrors_process_batch:
  "mirrors fst (process_batch (traced_partition fuel wk N) h ks) (process_batch (delivering fuel wk N) h ks)"
  by (induction ks) (auto intro!: mirrors_retp mirrors_bindp mirrors_process_record split: option.splits)

lemma mirrors_give_up:
  "mirrors fst (give_up (traced_partition fuel wk N)) (give_up (delivering fuel wk N))"
  unfolding give_up_def
  by (intro mirrors_liftp mirrorsI)
     (simp add: traced_partition_def delivering_def lift_ctx_def lift_read_def lift_step_def)

lemma mirrors_batch_loop:
  "mirrors fst (batch_loop n (traced_partition fuel wk N) h) (batch_loop n (delivering fuel wk N) h)"
proof (induction n)
  case 0
  show ?case by (simp add: mirrors_def)
next
  case (Suc n)
  have "mirrors fst (pn_receive (traced_partition fuel wk N)) (pn_receive (delivering fuel wk N))"
    by (rule mirrorsI)
       (auto simp: traced_partition_def delivering_def note_receive_def split: prod.splits option.splits)
  moreover have "mirrors fst (resume_fetching (traced_partition fuel wk N)) (resume_fetching (delivering fuel wk N))"
    unfolding resume_fetching_def
    by (intro mirrors_liftp mirrorsI)
       (simp add: traced_partition_def delivering_def lift_ctx_def lift_read_def lift_step_def)
  ultimately have "mirrors fst
      (bindp (liftp (pn_receive (traced_partition fuel wk N)))
        (\<lambda>b. case b of None \<Rightarrow> retp ()
             | Some ks \<Rightarrow> bindp (process_batch (traced_partition fuel wk N) h ks)
                 (\<lambda>err. case err of Some _ \<Rightarrow> give_up (traced_partition fuel wk N)
                         | None \<Rightarrow> bindp (resume_fetching (traced_partition fuel wk N))
                             (\<lambda>_. batch_loop n (traced_partition fuel wk N) h))))
      (bindp (liftp (pn_receive (delivering fuel wk N)))
        (\<lambda>b. case b of None \<Rightarrow> retp ()
             | Some ks \<Rightarrow> bindp (process_batch (delivering fuel wk N) h ks)
                 (\<lambda>err. case err of Some _ \<Rightarrow> give_up (delivering fuel wk N)
                         | None \<Rightarrow> bindp (resume_fetching (delivering fuel wk N))
                             (\<lambda>_. batch_loop n (delivering fuel wk N) h))))"
    by (auto intro!: mirrors_bindp mirrors_liftp mirrors_retp mirrors_process_batch mirrors_give_up Suc
        split: option.splits)
  then show ?case by (simp add: mirrors_def)
qed

lemma mirrors_initialize:
  "mirrors fst (initialize n (traced_partition fuel wk N)) (initialize n (delivering fuel wk N))"
proof -
  have "pn_ctx (traced_partition fuel wk N) = lift_ctx (pn_ctx N)" "pn_ctx (delivering fuel wk N) = pn_ctx N"
    by (simp_all add: traced_partition_def delivering_def)
  then show ?thesis
    unfolding initialize_def by (simp only:) (intro mirrors_retry_value mirrors_ctx mirrors_initialize_once)
qed

lemma mirrors_run: "mirrors fst (logged_partition_run fuel wk N) (partition_run fuel wk N)"
proof -
  have "mirrors fst
      (\<lambda>w. ((), pn_signal (traced_partition fuel wk N) (pn_set_initialized (traced_partition fuel wk N) w)))
      (\<lambda>w. ((), pn_signal (delivering fuel wk N) (pn_set_initialized (delivering fuel wk N) w)))"
    by (rule mirrorsI) (simp add: traced_partition_def delivering_def lift_step_def)
  then show ?thesis
    unfolding logged_partition_run_def partition_run_def worker_run_def
    by (auto intro!: mirrors_bindp mirrors_initialize mirrors_liftp mirrors_give_up mirrors_batch_loop split: sum.splits)
qed

section \<open>Properties\<close>

text \<open>A partition with two records, and a worker that delivers each at once.\<close>

definition two_records :: "kafka_record list" where
  "two_records =
     [\<lparr>kr_topic = ''t'', kr_partition = 0, kr_offset = 0, kr_leader_epoch = 3, kr_key = [], kr_value = []\<rparr>,
      \<lparr>kr_topic = ''t'', kr_partition = 0, kr_offset = 1, kr_leader_epoch = 3, kr_key = [], kr_value = []\<rparr>]"

definition small_partition :: "nat partition_env" where
  "small_partition =
     \<lparr>pn_ctx = endless, pn_fetch_offsets = (\<lambda>w. (Inr None, w)), pn_start_offsets = (\<lambda>w. (Inr (Some (None, 0)), w)),
      pn_end_offsets = (\<lambda>w. (Inr (Some (None, 2)), w)), pn_started = (\<lambda>w. (Inr False, w)),
      pn_mark_started = (\<lambda>w. (None, w)), pn_commit_records = (\<lambda>_ _ w. (None, w)), pn_owned = (\<lambda>_. True),
      pn_allowed = (\<lambda>_. True), pn_block = (\<lambda>_ w. w), pn_cancel = id, pn_cancel_consumer = id,
      pn_set_initialized = id, pn_signal = id,
      pn_receive = (\<lambda>n. (if n = 0 then None else Some two_records, n - 1)), pn_current = (\<lambda>_. True), pn_resume = id,
      pn_process = (\<lambda>_ _ w. (Some None, w))\<rparr>"

definition delivering_worker :: "nat worker" where
  "delivering_worker =
     \<lparr>wk_processor = \<lparr>pr_send = (\<lambda>_ _ w. (Inr Delivered, w)),
        pr_destination = \<lparr>dst_id = ''billing'', dst_description = [], dst_filter = None\<rparr>,
        pr_sleep = (\<lambda>_ w. (None, w)), pr_jitter = (\<lambda>_ w. (0, w))\<rparr>,
      wk_decode = (\<lambda>raw. Inr (example_record\<lparr>rec_offset := rr_offset raw\<rparr>)), wk_has_skip = (\<lambda>_ _ _ w. (Inr False, w)),
      wk_save_skip = (\<lambda>_ _ _ w. (None, w)),
      wk_scope = \<lparr>sc_namespace = ''acme'', sc_environment = ''prod'', sc_generation = 1\<rparr>,
      wk_destination = ''billing'', wk_source = ''users'', wk_gate = None, wk_log = None\<rparr>"

text \<open>
  C37. A partition is consumed strictly in order, whatever broker, store, destination and rebalances do, in a
  finished run and at every moment of one under way: a request is made only for the first record that is not
  committed yet, when all records received before it have been committed; a commit names the position of that
  record; and a batch is taken only when every record of the earlier ones is committed and the partition has
  been marked as started. The run with its log is the run of the worker.
\<close>

theorem partition_in_order:
  assumes "logged_partition_run fuel wk N (w, []) = (res, w', t)"
  shows "partition_run fuel wk N w = (res, w') \<and>
    (\<forall>t1 r x t2. t = t1 @ Sent r x # t2 \<longrightarrow>
       (\<exists>ks k q. received t1 = ks @ k # q \<and> committed t1 = map position ks \<and> decodes_to (wk_decode wk) k r)) \<and>
    (\<forall>t1 o' e x t2. t = t1 @ Requested o' e x # t2 \<longrightarrow> Initialized \<in> set t1 \<longrightarrow>
       (\<exists>ks k q. received t1 = ks @ k # q \<and> committed t1 = map position ks \<and> (o', e) = position k)) \<and>
    (\<forall>t1 ks t2. t = t1 @ Received ks # t2 \<longrightarrow> committed t1 = map position (received t1) \<and> Marked None \<in> set t1)"
proof (intro conjI allI impI)
  show "partition_run fuel wk N w = (res, w')" using mirrorsD [OF mirrors_run assms] by simp
next
  fix t1 r x t2
  assume "t = t1 @ Sent r x # t2"
  with logged_run_accepted [OF assms] show "\<exists>ks k q. received t1 = ks @ k # q \<and> committed t1 = map position ks \<and> decodes_to (wk_decode wk) k r"
    by (metis accepted_sent)
next
  fix t1 o' e x t2
  assume "t = t1 @ Requested o' e x # t2" "Initialized \<in> set t1"
  with logged_run_accepted [OF assms] show "\<exists>ks k q. received t1 = ks @ k # q \<and> committed t1 = map position ks \<and> (o', e) = position k"
    by (metis accepted_request)
next
  fix t1 ks t2
  assume t: "t = t1 @ Received ks # t2"
  with logged_run_accepted [OF assms] show "committed t1 = map position (received t1)"
    using accepted_received by blast
  from t logged_run_accepted [OF assms] show "Marked None \<in> set t1"
    using accepted_received by blast
qed

definition small_log :: "part_event list" where
  "small_log = snd (snd (logged_partition_run 5 delivering_worker small_partition (1, [])))"

lemma small_run:
  "logged_partition_run 5 delivering_worker small_partition (1, []) = (Some (), 0, small_log)"
proof -
  have "fst (logged_partition_run 5 delivering_worker small_partition (1, [])) = Some ()" by code_simp
  moreover have "fst (snd (logged_partition_run 5 delivering_worker small_partition (1, []))) = 0" by code_simp
  ultimately show ?thesis unfolding small_log_def by (metis prod.collapse)
qed

text \<open>The second record is requested when the first is committed.\<close>

lemma partition_in_order_witness:
  "partition_run 5 delivering_worker small_partition 1 = (Some (), 0) \<and>
   (\<exists>r ks k q. small_log ! 6 = Sent r (Inr Delivered) \<and> received (take 6 small_log) = ks @ k # q \<and>
      committed (take 6 small_log) = map position ks \<and> decodes_to (wk_decode delivering_worker) k r) \<and>
   committed (take 6 small_log) = [(0, 3)] \<and> committed small_log = [(0, 3), (1, 3)]"
proof -
  have len: "6 < length small_log" by code_simp
  have sent: "small_log ! 6 = Sent (example_record\<lparr>rec_offset := 1\<rparr>) (Inr Delivered)" by code_simp
  have "committed (take 6 small_log) = [(0, 3)]" "committed small_log = [(0, 3), (1, 3)]" by code_simp+
  moreover have "small_log = take 6 small_log @ Sent (example_record\<lparr>rec_offset := 1\<rparr>) (Inr Delivered) # drop (Suc 6) small_log"
    using id_take_nth_drop [OF len] sent by simp
  with partition_in_order [OF small_run] have "\<exists>ks k q. received (take 6 small_log) = ks @ k # q \<and>
      committed (take 6 small_log) = map position ks \<and>
      decodes_to (wk_decode delivering_worker) k (example_record\<lparr>rec_offset := 1\<rparr>)" by blast
  moreover have "partition_run 5 delivering_worker small_partition 1 = (Some (), 0)"
    using partition_in_order [OF small_run] by blast
  ultimately show ?thesis using sent by blast
qed

section \<open>The offset check\<close>

lemma retry_value_result:
  "retry_value fuel c delay fn w = (Some (Inr a), w') \<Longrightarrow> \<exists>w0. fn w0 = (Inr a, w')"
  by (auto dest: retry_value_end)

lemma known_offset_Inr [simp]: "known_offset what entry = Inr o' \<longleftrightarrow> entry = Some (None, o')"
  by (auto simp: known_offset_def split: option.splits)

lemma known_offset_Some [simp]: "known_offset what (Some (None, o')) = Inr o'"
  by (simp add: known_offset_def)

text \<open>The answers one round of the check has read when it decides.\<close>

definition answers :: "'w partition_env \<Rightarrow> 'w \<Rightarrow> offset_entry \<Rightarrow> int \<Rightarrow> int \<Rightarrow> bool \<Rightarrow> 'w \<Rightarrow> bool" where
  "answers N w c lo hi s w4 \<longleftrightarrow>
     (\<exists>w1 w2 w3. pn_fetch_offsets N w = (Inr c, w1) \<and> pn_start_offsets N w1 = (Inr (Some (None, lo)), w2) \<and>
        pn_end_offsets N w2 = (Inr (Some (None, hi)), w3) \<and> pn_started N w3 = (Inr s, w4))"

definition uncommitted_entry :: "offset_entry \<Rightarrow> bool" where
  "uncommitted_entry c \<longleftrightarrow> c = None \<or> (\<exists>at < 0. c = Some (None, at))"

text \<open>
  C38. A partition is consumed only from a position its history still holds: when the offset check succeeds, the
  last answers of broker and store were either a committed offset between the first and the last retained
  offset, or no committed offset for a partition never started before whose history is complete, and then the
  baseline before its first record has just been committed; and in both cases marking the partition as started
  was the last thing done. The horizon is the end offset of that answer.
\<close>

theorem starts_from_known_history:
  assumes "initialize fuel N w = (Some (Inr h), w')"
  shows "\<exists>w0 c lo s w4 w5. answers N w0 c lo h s w4 \<and> pn_mark_started N w5 = (None, w') \<and>
    ((\<exists>at. c = Some (None, at) \<and> 0 \<le> at \<and> lo \<le> at \<and> at \<le> h \<and> w5 = w4) \<or>
     (uncommitted_entry c \<and> \<not> s \<and> lo = 0 \<and> commit_position N (-1) (-1) w4 = (None, w5)))"
proof -
  from assms retry_value_result obtain w0 where once: "initialize_once N w0 = (Inr h, w')"
    unfolding initialize_def by metis
  then obtain c lo w1 w2 w3 where ans: "pn_fetch_offsets N w0 = (Inr c, w1)"
    "pn_start_offsets N w1 = (Inr (Some (None, lo)), w2)" "pn_end_offsets N w2 = (Inr (Some (None, h)), w3)"
    and check: "check_offsets N c lo h w3 = (Inr h, w')"
    by (auto simp: initialize_once_def check_offsets_def split: prod.splits sum.splits option.splits)
  from check obtain s w4 w5 where s: "pn_started N w3 = (Inr s, w4)"
    and base: "establish_baseline N lo h c s w4 = (None, w5)" and mark: "pn_mark_started N w5 = (None, w')"
    and c: "\<forall>e at. c \<noteq> Some (Some e, at)"
    by (auto simp: check_offsets_def split: prod.splits sum.splits option.splits)
  from ans s have "answers N w0 c lo h s w4" by (auto simp: answers_def)
  moreover from base c have "(\<exists>at. c = Some (None, at) \<and> 0 \<le> at \<and> lo \<le> at \<and> at \<le> h \<and> w5 = w4) \<or>
     (uncommitted_entry c \<and> \<not> s \<and> lo = 0 \<and> commit_position N (-1) (-1) w4 = (None, w5))"
    by (cases c; cases "fst (the c)") (auto simp: establish_baseline_def uncommitted_entry_def split: if_splits)
  ultimately show ?thesis using mark by blast
qed

lemma starts_from_known_history_witness:
  "\<exists>w0 c lo s w4 w5. answers small_partition w0 c lo 2 s w4 \<and> pn_mark_started small_partition w5 = (None, 1) \<and>
    ((\<exists>at. c = Some (None, at) \<and> 0 \<le> at \<and> lo \<le> at \<and> at \<le> 2 \<and> w5 = w4) \<or>
     (uncommitted_entry c \<and> \<not> s \<and> lo = 0 \<and> commit_position small_partition (-1) (-1) w4 = (None, w5)))"
  by (rule starts_from_known_history [of 1 _ 1]) code_simp

text \<open>
  C39. Lost history closes the partition instead of skipping records: when the answers show that a partition
  started before, or one whose first records are gone, has no committed offset, or that the committed offset
  lies outside the retained range, the worker blocks its source, cancels itself, and ends. It neither commits
  nor marks anything, takes no record, and leaves the consumer running for the other partitions.
\<close>

theorem lost_history_stops_partition:
  assumes "answers N w c lo hi s w4"
    and lost: "uncommitted_entry c \<and> (s \<or> lo \<noteq> 0) \<and> reason = ''established consumer offsets or history lost'' \<or>
      (\<exists>at. c = Some (None, at) \<and> 0 \<le> at \<and> (at < lo \<or> hi < at)) \<and> reason = ''committed offset is outside retained history''"
    and alive: "ctx_err (pn_ctx N) w = None"
    and cancelled: "\<forall>v. ctx_err (pn_ctx N) (pn_cancel N v) \<noteq> None"
    and ended: "\<forall>d v. ctx_err (pn_ctx N) v \<noteq> None \<longrightarrow> ctx_err (pn_ctx N) (snd (ctx_wait (pn_ctx N) d v)) \<noteq> None"
  shows "worker_run (Suc (Suc fuel)) N w =
    (Some (), snd (ctx_wait (pn_ctx N) second (pn_cancel N (pn_block N reason w4))))"
proof -
  let ?v = "pn_cancel N (pn_block N reason w4)"
  have "establish_baseline N lo hi c s w4 = (Some Canceled, ?v)"
    using lost by (auto simp: establish_baseline_def uncommitted_entry_def)
  moreover have "\<forall>e at. c \<noteq> Some (Some e, at)" using lost by (auto simp: uncommitted_entry_def)
  ultimately have once: "initialize_once N w = (Inl Canceled, ?v)"
    using assms(1) by (auto simp: answers_def initialize_once_def check_offsets_def split: option.splits)
  obtain b u where wait: "ctx_wait (pn_ctx N) second ?v = (b, u)" by (rule prod.exhaust)
  from cancelled ended obtain e where e: "ctx_err (pn_ctx N) u = Some e"
    by (metis wait snd_conv not_None_eq)
  have "initialize (Suc (Suc fuel)) N w = (Some (Inl e), u)"
    using alive once wait e by (cases b) (simp_all add: initialize_def ctx_sleep_def)
  with wait e show ?thesis by (simp add: worker_run_def bindp_def give_up_def liftp_def)
qed

text \<open>A partition whose retention has passed the committed offset 3; the world says whether it was cancelled.\<close>

definition expired_partition :: "(nat \<times> bool) partition_env" where
  "expired_partition =
     \<lparr>pn_ctx = \<lparr>ctx_err = (\<lambda>(n, b). if b then Some Canceled else None), ctx_wait = (\<lambda>_ w. (True, w))\<rparr>,
      pn_fetch_offsets = (\<lambda>w. (Inr (Some (None, 3)), w)), pn_start_offsets = (\<lambda>w. (Inr (Some (None, 10)), w)),
      pn_end_offsets = (\<lambda>w. (Inr (Some (None, 20)), w)), pn_started = (\<lambda>w. (Inr True, w)),
      pn_mark_started = (\<lambda>w. (None, w)), pn_commit_records = (\<lambda>_ _ w. (None, w)), pn_owned = (\<lambda>_. True),
      pn_allowed = (\<lambda>_. True), pn_block = (\<lambda>_ (n, b). (Suc n, b)), pn_cancel = (\<lambda>(n, b). (n, True)),
      pn_cancel_consumer = id, pn_set_initialized = id, pn_signal = id, pn_receive = (\<lambda>w. (None, w)),
      pn_current = (\<lambda>_. True), pn_resume = id, pn_process = (\<lambda>_ _ w. (Some None, w))\<rparr>"

lemma lost_history_stops_partition_witness:
  "worker_run 2 expired_partition (0, False) = (Some (), 1, True)"
proof -
  have "worker_run (Suc (Suc 0)) expired_partition (0, False) =
    (Some (), snd (ctx_wait (pn_ctx expired_partition) second (pn_cancel expired_partition
      (pn_block expired_partition ''committed offset is outside retained history'' (0, False)))))"
    by (rule lost_history_stops_partition [where c = "Some (None, 3)" and lo = 10 and hi = 20 and s = True])
       (auto simp: answers_def expired_partition_def)
  then show ?thesis by (simp add: expired_partition_def numeral_2_eq_2)
qed

end
