(* ===== verification/Ownership.thy ===== *)
theory Ownership
  imports Prelude "HOL-Library.Multiset"
begin

text \<open>
  Who may commit for a partition: the workers of one consumer under assignments, revocations and shutdown
  (\<^verbatim>\<open>internal/adapters/kafka/consumer.go\<close>). The operations below are the sections the code runs under
  \<^verbatim>\<open>c.mu\<close> or \<^verbatim>\<open>w.mu\<close>; \<open>consumer_step\<close> interleaves the goroutines at these sections. The rebalance
  callbacks come one at a time, as the client library calls them; the last \<^verbatim>\<open>stopWorkers(nil)\<close> of \<^verbatim>\<open>Run\<close>
  is another goroutine. Log entries and resumed fetches leave this state alone.
\<close>

section \<open>Workers and their consumer\<close>

type_synonym partition_key = "bytes \<times> int"

text \<open>
  \<open>pw_committing\<close> says that the worker is inside \<^verbatim>\<open>commit\<close>, holding \<^verbatim>\<open>w.mu\<close> and past its guard;
  \<open>pw_done\<close> that its goroutine has ended.
\<close>

record partition_worker =
  pw_key :: partition_key
  pw_cancelled :: bool
  pw_owned :: bool
  pw_initialized :: bool
  pw_committing :: bool
  pw_done :: bool

text \<open>
  The workers ever started, by number, and the map of the assigned partitions; \<open>cn_callback\<close> and \<open>cn_final\<close>
  are the workers the callback under way, and the end of \<^verbatim>\<open>Run\<close>, still wait for.
\<close>

record consumer =
  cn_assigned :: bool
  cn_cancelled :: bool
  cn_started :: "partition_worker list"
  cn_workers :: "(partition_key \<times> nat) list"
  cn_callback :: "nat list"
  cn_final :: "nat list"

definition new_consumer :: consumer where
  "new_consumer =
     \<lparr>cn_assigned = False, cn_cancelled = False, cn_started = [], cn_workers = [], cn_callback = [], cn_final = []\<rparr>"

definition new_worker :: "partition_key \<Rightarrow> partition_worker" where
  "new_worker key =
     \<lparr>pw_key = key, pw_cancelled = False, pw_owned = True, pw_initialized = False, pw_committing = False,
      pw_done = False\<rparr>"

definition update_worker :: "nat \<Rightarrow> (partition_worker \<Rightarrow> partition_worker) \<Rightarrow> consumer \<Rightarrow> consumer" where
  "update_worker i f c = c\<lparr>cn_started := (cn_started c)[i := f (cn_started c ! i)]\<rparr>"

text \<open>The context of a worker ends with its own cancellation or that of the consumer.\<close>

definition worker_ended :: "consumer \<Rightarrow> nat \<Rightarrow> bool" where
  "worker_ended c i \<longleftrightarrow> cn_cancelled c \<or> pw_cancelled (cn_started c ! i)"

definition ready :: "consumer \<Rightarrow> bool" where
  "ready c \<longleftrightarrow> cn_assigned c \<and> (\<forall>(_, i) \<in> set (cn_workers c). pw_initialized (cn_started c ! i))"

section \<open>Callbacks\<close>

definition assign_one :: "partition_key \<Rightarrow> consumer \<Rightarrow> consumer" where
  "assign_one key c =
     (if key \<in> fst ` set (cn_workers c) then c
      else c\<lparr>cn_started := cn_started c @ [new_worker key],
             cn_workers := (key, length (cn_started c)) # cn_workers c\<rparr>)"

definition on_assigned :: "partition_key list \<Rightarrow> consumer \<Rightarrow> consumer" where
  "on_assigned keys c = fold assign_one keys (c\<lparr>cn_assigned := True\<rparr>)"

text \<open>
  The first half of \<^verbatim>\<open>stopWorkers\<close>, under \<^verbatim>\<open>c.mu\<close>: the workers of the partitions (all of them without
  a list) are cancelled and leave the map; they are the ones to fence and wait for.
\<close>

definition removed :: "partition_key list option \<Rightarrow> partition_key \<Rightarrow> bool" where
  "removed parts key = (case parts of None \<Rightarrow> True | Some ks \<Rightarrow> key \<in> set ks)"

definition cancel_workers :: "partition_key list option \<Rightarrow> consumer \<Rightarrow> nat list \<times> consumer" where
  "cancel_workers parts c =
     (let stop = map snd (filter (\<lambda>(key, _). removed parts key) (cn_workers c))
      in (stop, (fold (\<lambda>i. update_worker i (\<lambda>w. w\<lparr>pw_cancelled := True\<rparr>)) stop c)
            \<lparr>cn_workers := filter (\<lambda>(key, _). \<not> removed parts key) (cn_workers c)\<rparr>))"

definition on_revoked :: "partition_key list \<Rightarrow> consumer \<Rightarrow> consumer" where
  "on_revoked parts c = (case cancel_workers (Some parts) c of (stop, c') \<Rightarrow> c'\<lparr>cn_callback := stop\<rparr>)"

definition lose_assignment :: "consumer \<Rightarrow> consumer" where
  "lose_assignment c = c\<lparr>cn_assigned := False\<rparr>"

definition on_lost :: "partition_key list \<Rightarrow> consumer \<Rightarrow> consumer" where
  "on_lost parts c = on_revoked parts (lose_assignment c)"

definition stop_all_workers :: "consumer \<Rightarrow> consumer" where
  "stop_all_workers c = (case cancel_workers None c of (stop, c') \<Rightarrow> c'\<lparr>cn_final := stop\<rparr>)"

section \<open>Commits and the end of a worker\<close>

definition fence :: "nat \<Rightarrow> consumer \<Rightarrow> consumer" where
  "fence i = update_worker i (\<lambda>w. w\<lparr>pw_owned := False\<rparr>)"

text \<open>The guard of \<^verbatim>\<open>commit\<close>; the dispatch gate can only refuse more.\<close>

definition may_commit :: "consumer \<Rightarrow> nat \<Rightarrow> bool" where
  "may_commit c i \<longleftrightarrow> pw_owned (cn_started c ! i) \<and> \<not> worker_ended c i"

definition begin_commit :: "nat \<Rightarrow> consumer \<Rightarrow> consumer" where
  "begin_commit i = update_worker i (\<lambda>w. w\<lparr>pw_committing := True\<rparr>)"

definition end_commit :: "nat \<Rightarrow> consumer \<Rightarrow> consumer" where
  "end_commit i = update_worker i (\<lambda>w. w\<lparr>pw_committing := False\<rparr>)"

definition set_initialized :: "nat \<Rightarrow> consumer \<Rightarrow> consumer" where
  "set_initialized i = update_worker i (\<lambda>w. w\<lparr>pw_initialized := True\<rparr>)"

definition cancel_worker :: "nat \<Rightarrow> consumer \<Rightarrow> consumer" where
  "cancel_worker i = update_worker i (\<lambda>w. w\<lparr>pw_cancelled := True\<rparr>)"

definition end_worker :: "nat \<Rightarrow> consumer \<Rightarrow> consumer" where
  "end_worker i = update_worker i (\<lambda>w. w\<lparr>pw_done := True\<rparr>)"

definition cancel_consumer :: "consumer \<Rightarrow> consumer" where
  "cancel_consumer c = c\<lparr>cn_cancelled := True\<rparr>"

text \<open>A worker that runs, outside \<^verbatim>\<open>commit\<close>: the moments at which its goroutine can take a lock.\<close>

definition idle :: "consumer \<Rightarrow> nat \<Rightarrow> bool" where
  "idle c i \<longleftrightarrow> i < length (cn_started c) \<and> \<not> pw_committing (cn_started c ! i) \<and> \<not> pw_done (cn_started c ! i)"

text \<open>
  A callback fences the workers it stops one after the other, each once \<^verbatim>\<open>w.mu\<close> is free, and waits for each;
  a new callback starts when the one before has returned. The workers are stopped for good only after the
  consumer was cancelled, which is how the loop of \<^verbatim>\<open>Run\<close> ends. \<^verbatim>\<open>onLost\<close> is the two steps of \<open>on_lost\<close>, and
  \<open>reorder\<close> says that a Go map has no order.
\<close>

inductive consumer_step :: "consumer \<Rightarrow> consumer \<Rightarrow> bool" where
  assign: "cn_callback c = [] \<Longrightarrow> consumer_step c (on_assigned keys c)"
| revoke: "cn_callback c = [] \<Longrightarrow> consumer_step c (on_revoked keys c)"
| lose: "cn_callback c = [] \<Longrightarrow> consumer_step c (lose_assignment c)"
| reorder: "mset ws = mset (cn_workers c) \<Longrightarrow> consumer_step c (c\<lparr>cn_workers := ws\<rparr>)"
| fence_callback: "cn_callback c = i # is \<Longrightarrow> \<not> pw_committing (cn_started c ! i) \<Longrightarrow> consumer_step c (fence i c)"
| join_callback: "cn_callback c = i # is \<Longrightarrow> \<not> pw_owned (cn_started c ! i) \<Longrightarrow> pw_done (cn_started c ! i) \<Longrightarrow>
    consumer_step c (c\<lparr>cn_callback := is\<rparr>)"
| stop: "cn_cancelled c \<Longrightarrow> cn_final c = [] \<Longrightarrow> consumer_step c (stop_all_workers c)"
| fence_final: "cn_final c = i # is \<Longrightarrow> \<not> pw_committing (cn_started c ! i) \<Longrightarrow> consumer_step c (fence i c)"
| join_final: "cn_final c = i # is \<Longrightarrow> \<not> pw_owned (cn_started c ! i) \<Longrightarrow> pw_done (cn_started c ! i) \<Longrightarrow>
    consumer_step c (c\<lparr>cn_final := is\<rparr>)"
| initialized: "idle c i \<Longrightarrow> consumer_step c (set_initialized i c)"
| lost_history: "idle c i \<Longrightarrow> consumer_step c (cancel_worker i c)"
| commit: "idle c i \<Longrightarrow> may_commit c i \<Longrightarrow> consumer_step c (begin_commit i c)"
| committed: "i < length (cn_started c) \<Longrightarrow> consumer_step c (end_commit i c)"
| finish: "idle c i \<Longrightarrow> consumer_step c (end_worker i c)"
| cancel: "consumer_step c (cancel_consumer c)"

section \<open>The invariant\<close>

abbreviation worker_at :: "consumer \<Rightarrow> nat \<Rightarrow> partition_worker" where
  "worker_at c i \<equiv> cn_started c ! i"

definition committing :: "consumer \<Rightarrow> nat \<Rightarrow> bool" where
  "committing c i \<longleftrightarrow> i < length (cn_started c) \<and> pw_committing (worker_at c i)"

abbreviation in_map :: "consumer \<Rightarrow> nat \<Rightarrow> bool" where
  "in_map c i \<equiv> i \<in> snd ` set (cn_workers c)"

definition map_ok :: "consumer \<Rightarrow> bool" where
  "map_ok c \<longleftrightarrow> distinct (map fst (cn_workers c)) \<and>
     (\<forall>(k, i) \<in> set (cn_workers c). i < length (cn_started c) \<and> pw_key (worker_at c i) = k) \<and>
     (\<forall>i \<in> set (cn_callback c) \<union> set (cn_final c). i < length (cn_started c))"

definition fenced :: "consumer \<Rightarrow> bool" where
  "fenced c \<longleftrightarrow>
     (\<forall>i < length (cn_started c). \<not> in_map c i \<longrightarrow> pw_cancelled (worker_at c i)) \<and>
     (\<forall>i. committing c i \<longrightarrow>
        pw_owned (worker_at c i) \<and> (in_map c i \<or> i \<in> set (cn_callback c) \<or> i \<in> set (cn_final c))) \<and>
     (\<forall>i \<in> set (cn_callback c). pw_key (worker_at c i) \<notin> fst ` set (cn_workers c)) \<and>
     (cn_final c \<noteq> [] \<longrightarrow> cn_cancelled c)"

definition single :: "consumer \<Rightarrow> bool" where
  "single c \<longleftrightarrow>
     (\<forall>i j. committing c i \<longrightarrow> committing c j \<longrightarrow> pw_key (worker_at c i) = pw_key (worker_at c j) \<longrightarrow> i = j)"

definition consumer_ok :: "consumer \<Rightarrow> bool" where
  "consumer_ok c \<longleftrightarrow> map_ok c \<and> fenced c \<and> single c"

lemmas consumer_ok_defs = consumer_ok_def map_ok_def fenced_def single_def

lemma new_consumer_ok: "consumer_ok new_consumer"
  by (simp add: consumer_ok_defs committing_def new_consumer_def)

lemma update_worker_simps [simp]:
  "cn_workers (update_worker i f c) = cn_workers c" "cn_callback (update_worker i f c) = cn_callback c"
  "cn_final (update_worker i f c) = cn_final c" "cn_cancelled (update_worker i f c) = cn_cancelled c"
  "length (cn_started (update_worker i f c)) = length (cn_started c)"
  by (simp_all add: update_worker_def)

lemma worker_at_update:
  "worker_at (update_worker i f c) j = (if j = i \<and> i < length (cn_started c) then f (worker_at c i) else worker_at c j)"
  by (cases "i < length (cn_started c)") (auto simp: update_worker_def nth_list_update list_update_beyond)

lemma committing_update:
  "committing (update_worker i f c) j \<longleftrightarrow>
     (if j = i \<and> i < length (cn_started c) then pw_committing (f (worker_at c i)) else committing c j)"
  by (auto simp: committing_def worker_at_update)

text \<open>A change of the workers that begins no commit and takes back no cancellation.\<close>

lemma flags_ok:
  assumes ok: "consumer_ok c" and len: "length (cn_started c') = length (cn_started c)"
    and same: "cn_workers c' = cn_workers c" "cn_callback c' = cn_callback c" "cn_final c' = cn_final c"
      "cn_cancelled c \<Longrightarrow> cn_cancelled c'"
    and key: "\<And>j. pw_key (worker_at c' j) = pw_key (worker_at c j)"
    and canc: "\<And>j. pw_cancelled (worker_at c j) \<Longrightarrow> pw_cancelled (worker_at c' j)"
    and comm: "\<And>j. committing c' j \<Longrightarrow> committing c j \<and> pw_owned (worker_at c' j)"
  shows "consumer_ok c'"
proof -
  have "map_ok c'" using ok len by (simp add: consumer_ok_def map_ok_def same key)
  moreover have "fenced c'"
    unfolding fenced_def same(1-3) key len
    using ok [unfolded consumer_ok_def fenced_def] canc comm same(4) by blast
  moreover have "single c'"
    unfolding single_def key using ok [unfolded consumer_ok_def single_def] comm by blast
  ultimately show ?thesis by (simp add: consumer_ok_def)
qed

lemma update_ok:
  assumes ok: "consumer_ok c" and key: "\<And>w. pw_key (f w) = pw_key w"
    and canc: "\<And>w. pw_cancelled w \<Longrightarrow> pw_cancelled (f w)"
    and comm: "pw_committing (f (worker_at c i)) \<Longrightarrow> pw_committing (worker_at c i) \<and>
      (pw_owned (worker_at c i) \<longrightarrow> pw_owned (f (worker_at c i)))"
  shows "consumer_ok (update_worker i f c)"
proof (rule flags_ok [OF ok])
  fix j
  assume j: "committing (update_worker i f c) j"
  have own: "committing c j \<Longrightarrow> pw_owned (worker_at c j)" using ok by (simp add: consumer_ok_def fenced_def)
  show "committing c j \<and> pw_owned (worker_at (update_worker i f c) j)"
  proof (cases "j = i \<and> i < length (cn_started c)")
    case True
    with j comm own show ?thesis by (simp add: committing_update worker_at_update) (simp add: committing_def)
  next
    case False
    with j have "committing c j" by (simp only: committing_update if_False)
    with own False show ?thesis by (simp only: worker_at_update if_False)
  qed
qed (auto simp: worker_at_update key canc)

lemma idle_flags_ok:
  assumes "consumer_ok c"
  shows "consumer_ok (set_initialized i c)" "consumer_ok (cancel_worker i c)" "consumer_ok (end_worker i c)"
    "consumer_ok (end_commit i c)"
  unfolding set_initialized_def cancel_worker_def end_worker_def end_commit_def
  by (rule update_ok [OF assms]; simp)+

lemma fence_ok: "consumer_ok c \<Longrightarrow> \<not> pw_committing (worker_at c i) \<Longrightarrow> consumer_ok (fence i c)"
  unfolding fence_def by (rule update_ok) simp_all

lemma cancel_consumer_ok:
  assumes "consumer_ok c"
  shows "consumer_ok (cancel_consumer c)"
proof -
  have "committing c j \<longrightarrow> pw_owned (worker_at c j)" for j using assms by (simp add: consumer_ok_def fenced_def)
  then show ?thesis
    by (intro flags_ok [OF assms]) (simp_all add: cancel_consumer_def committing_def)
qed

lemma begin_commit_ok:
  assumes ok: "consumer_ok c" and idle: "idle c i" and may: "may_commit c i"
  shows "consumer_ok (begin_commit i c)"
proof -
  let ?c = "begin_commit i c"
  have less: "i < length (cn_started c)" using idle by (simp add: idle_def)
  have live: "\<not> cn_cancelled c" "\<not> pw_cancelled (worker_at c i)" "pw_owned (worker_at c i)"
    using may by (auto simp: may_commit_def worker_ended_def)
  from ok less live have here: "in_map c i" by (auto simp: consumer_ok_def fenced_def)
  from ok live have final: "cn_final c = []" by (auto simp: consumer_ok_def fenced_def)
  have at: "worker_at ?c j = (if j = i then (worker_at c i)\<lparr>pw_committing := True\<rparr> else worker_at c j)" for j
    using less by (simp add: begin_commit_def worker_at_update)
  have comm: "committing ?c j \<longleftrightarrow> j = i \<or> committing c j" for j
    using less by (simp add: begin_commit_def committing_update)
  have same: "cn_workers ?c = cn_workers c" "cn_callback ?c = cn_callback c" "cn_final ?c = cn_final c"
    "cn_cancelled ?c = cn_cancelled c" "length (cn_started ?c) = length (cn_started c)"
    by (simp_all add: begin_commit_def)
  have keyed: "(pw_key (worker_at c j), j) \<in> set (cn_workers c)" if "in_map c j" for j
    using that ok by (auto simp: consumer_ok_def map_ok_def)
  have dist: "distinct (map fst (cn_workers c))" using ok by (simp add: consumer_ok_def map_ok_def)
  have alone: "j = i" if j: "committing c j" and key: "pw_key (worker_at c j) = pw_key (worker_at c i)" for j
  proof -
    from ok j final consider "in_map c j" | "j \<in> set (cn_callback c)" by (auto simp: consumer_ok_def fenced_def)
    then show ?thesis
    proof cases
      case 1
      from keyed [OF 1] keyed [OF here] key dist show ?thesis by (metis eq_key_imp_eq_value)
    next
      case 2
      with ok have "pw_key (worker_at c j) \<notin> fst ` set (cn_workers c)" by (simp add: consumer_ok_def fenced_def)
      with keyed [OF here] key show ?thesis by (metis fst_conv image_eqI)
    qed
  qed
  have keys: "pw_key (worker_at ?c j) = pw_key (worker_at c j)"
    "pw_cancelled (worker_at ?c j) = pw_cancelled (worker_at c j)"
    "pw_owned (worker_at ?c j) = pw_owned (worker_at c j)" for j
    by (simp_all add: at)
  have "map_ok ?c" using ok by (simp add: consumer_ok_def map_ok_def same keys)
  moreover have "fenced ?c"
    unfolding fenced_def same comm keys
    using ok [unfolded consumer_ok_def fenced_def] here live by blast
  moreover have "single ?c"
    unfolding single_def comm keys
    using ok [unfolded consumer_ok_def single_def] alone by metis
  ultimately show ?thesis by (simp add: consumer_ok_def)
qed

section \<open>Callbacks keep it\<close>

lemma assign_one_ok:
  assumes ok: "consumer_ok c" and none: "cn_callback c = []"
  shows "consumer_ok (assign_one key c) \<and> cn_callback (assign_one key c) = []"
proof (cases "key \<in> fst ` set (cn_workers c)")
  case True
  with assms show ?thesis by (simp add: assign_one_def)
next
  case False
  let ?c = "assign_one key c" and ?n = "length (cn_started c)"
  have c': "?c = c\<lparr>cn_started := cn_started c @ [new_worker key], cn_workers := (key, ?n) # cn_workers c\<rparr>"
    using False by (simp add: assign_one_def)
  have at: "worker_at ?c j = (if j = ?n then new_worker key else worker_at c j)" if "j \<le> ?n" for j
    using that by (auto simp: c' nth_append)
  have comm: "committing ?c j \<longleftrightarrow> committing c j" for j
    by (cases "j < ?n") (auto simp: committing_def c' nth_append new_worker_def)
  have sub: "committing c j \<Longrightarrow> j < ?n" for j by (simp add: committing_def)
  have below: "i < ?n" "pw_key (worker_at c i) = k" if "(k, i) \<in> set (cn_workers c)" for k i
    using that ok by (auto simp: consumer_ok_def map_ok_def)
  have "map_ok ?c"
    using ok False below none
    by (auto simp: consumer_ok_def map_ok_def c' nth_append new_worker_def image_iff less_SucI dest: less_imp_neq)
  moreover have "fenced ?c"
  proof -
    have "pw_cancelled (worker_at ?c i)" if "i < Suc ?n" "\<not> in_map ?c i" for i
      using that ok at [of i] by (auto simp: consumer_ok_def fenced_def c' less_Suc_eq)
    moreover have "pw_owned (worker_at ?c i) \<and> (in_map ?c i \<or> i \<in> set (cn_callback ?c) \<or> i \<in> set (cn_final ?c))"
      if "committing c i" for i
      using that ok at [of i] sub [OF that] by (auto simp: consumer_ok_def fenced_def c')
    ultimately show ?thesis
      using ok none by (simp add: fenced_def comm consumer_ok_def) (simp add: c')
  qed
  moreover have "single ?c"
    unfolding single_def comm
    using ok [unfolded consumer_ok_def single_def] at sub by (metis less_imp_le_nat less_not_refl)
  ultimately show ?thesis using none by (simp add: consumer_ok_def) (simp add: c')
qed

lemma on_assigned_ok:
  assumes "consumer_ok c" "cn_callback c = []"
  shows "consumer_ok (on_assigned keys c)"
proof -
  have "consumer_ok (fold assign_one keys c) \<and> cn_callback (fold assign_one keys c) = []"
    if "consumer_ok c" "cn_callback c = []" for c
    using that by (induction keys arbitrary: c) (simp_all add: assign_one_ok)
  moreover have "consumer_ok (c\<lparr>cn_assigned := True\<rparr>)"
    using assms(1) by (simp add: consumer_ok_defs committing_def)
  ultimately show ?thesis using assms(2) by (simp add: on_assigned_def)
qed

definition cancel_all :: "nat list \<Rightarrow> consumer \<Rightarrow> consumer" where
  "cancel_all = fold cancel_worker"

lemma cancel_workers_eq:
  "cancel_workers parts c =
     (map snd (filter (\<lambda>(key, _). removed parts key) (cn_workers c)),
      (cancel_all (map snd (filter (\<lambda>(key, _). removed parts key) (cn_workers c))) c)
        \<lparr>cn_workers := filter (\<lambda>(key, _). \<not> removed parts key) (cn_workers c)\<rparr>)"
  by (simp add: cancel_workers_def Let_def cancel_all_def cancel_worker_def [abs_def])

lemma cancel_all_simps [simp]:
  "cn_workers (cancel_all is c) = cn_workers c" "cn_callback (cancel_all is c) = cn_callback c"
  "cn_final (cancel_all is c) = cn_final c" "cn_cancelled (cancel_all is c) = cn_cancelled c"
  "length (cn_started (cancel_all is c)) = length (cn_started c)"
  by (induction "is" arbitrary: c) (simp_all add: cancel_all_def cancel_worker_def)

lemma cancel_all_worker:
  "i < length (cn_started c) \<Longrightarrow>
   worker_at (cancel_all is c) i =
     (if i \<in> set is then (worker_at c i)\<lparr>pw_cancelled := True\<rparr> else worker_at c i)"
  by (induction "is" arbitrary: c) (auto simp: cancel_all_def cancel_worker_def worker_at_update)

lemma cancel_all_committing [simp]: "committing (cancel_all is c) i \<longleftrightarrow> committing c i"
  by (cases "i < length (cn_started c)") (auto simp: committing_def cancel_all_worker)

text \<open>Taking workers out of the map, once they are cancelled and waited for.\<close>

definition removing :: "(bytes \<times> int) list option \<Rightarrow> nat list \<Rightarrow> consumer \<Rightarrow> consumer \<Rightarrow> bool" where
  "removing parts stop c c' \<longleftrightarrow>
     stop = map snd (filter (\<lambda>(key, _). removed parts key) (cn_workers c)) \<and>
     cn_started c' = cn_started (cancel_all stop c) \<and> cn_cancelled c' = cn_cancelled c \<and>
     cn_workers c' = filter (\<lambda>(key, _). \<not> removed parts key) (cn_workers c) \<and>
     (cn_callback c = [] \<and> cn_callback c' = stop \<and> cn_final c' = cn_final c \<or>
      cn_final c = [] \<and> cn_final c' = stop \<and> cn_callback c' = cn_callback c \<and> cn_cancelled c)"

lemma removing_workers:
  assumes "removing parts stop c c'"
  shows "i \<in> set stop \<longleftrightarrow> (\<exists>k. (k, i) \<in> set (cn_workers c) \<and> removed parts k)"
    and "(k, i) \<in> set (cn_workers c') \<longleftrightarrow> (k, i) \<in> set (cn_workers c) \<and> \<not> removed parts k"
    and "length (cn_started c') = length (cn_started c)"
    and "i < length (cn_started c) \<Longrightarrow>
      worker_at c' i = (if i \<in> set stop then (worker_at c i)\<lparr>pw_cancelled := True\<rparr> else worker_at c i)"
    and "committing c' i \<longleftrightarrow> committing c i"
    and "cn_cancelled c' = cn_cancelled c"
proof -
  note r = assms [unfolded removing_def]
  show "i \<in> set stop \<longleftrightarrow> (\<exists>k. (k, i) \<in> set (cn_workers c) \<and> removed parts k)" using r by force
  show "(k, i) \<in> set (cn_workers c') \<longleftrightarrow> (k, i) \<in> set (cn_workers c) \<and> \<not> removed parts k" using r by simp
  show "length (cn_started c') = length (cn_started c)" using r by simp
  show "i < length (cn_started c) \<Longrightarrow>
      worker_at c' i = (if i \<in> set stop then (worker_at c i)\<lparr>pw_cancelled := True\<rparr> else worker_at c i)"
    using r cancel_all_worker [of i c stop] by simp
  show "committing c' i \<longleftrightarrow> committing c i"
    using r cancel_all_committing [of stop c i] by (simp add: committing_def)
  show "cn_cancelled c' = cn_cancelled c" using r by simp
qed

lemma removing_waiting:
  assumes "removing parts stop c c'" and "consumer_ok c" and "i \<in> set (cn_callback c') \<or> i \<in> set (cn_final c')"
  shows "i < length (cn_started c)"
proof -
  have "j < length (cn_started c)" if "j \<in> set stop" for j
    using that removing_workers(1) [OF assms(1)] assms(2) by (auto simp: consumer_ok_def map_ok_def)
  moreover have "j \<in> set (cn_callback c) \<Longrightarrow> j < length (cn_started c)" "j \<in> set (cn_final c) \<Longrightarrow> j < length (cn_started c)" for j
    using assms(2) by (simp_all add: consumer_ok_def map_ok_def)
  moreover have "set (cn_callback c') \<union> set (cn_final c') \<subseteq> set stop \<union> set (cn_callback c) \<union> set (cn_final c)"
    using assms(1) unfolding removing_def by auto
  ultimately show ?thesis using assms(3) by blast
qed

lemma removing_map_ok:
  assumes r: "removing parts stop c c'" and ok: "consumer_ok c"
  shows "map_ok c'"
proof -
  have "distinct (map fst (cn_workers c))" using ok by (simp add: consumer_ok_def map_ok_def)
  then have "distinct (map fst (cn_workers c'))"
    using r unfolding removing_def by (simp add: distinct_map_filter)
  moreover have "i < length (cn_started c') \<and> pw_key (worker_at c' i) = k" if "(k, i) \<in> set (cn_workers c')" for k i
  proof -
    from that have "(k, i) \<in> set (cn_workers c)" by (simp add: removing_workers(2) [OF r])
    with ok have "i < length (cn_started c)" "pw_key (worker_at c i) = k" by (auto simp: consumer_ok_def map_ok_def)
    then show ?thesis by (simp add: removing_workers(3,4) [OF r])
  qed
  ultimately show ?thesis
    using removing_waiting [OF r ok] unfolding map_ok_def removing_workers(3) [OF r] by blast
qed

lemma removing_mapped:
  assumes "removing parts stop c c'" and "in_map c i"
  shows "in_map c' i \<or> i \<in> set stop"
proof -
  from assms(2) obtain k where k: "(k, i) \<in> set (cn_workers c)" by auto
  show ?thesis
  proof (cases "removed parts k")
    case True
    with k show ?thesis using removing_workers(1) [OF assms(1)] by blast
  next
    case False
    with k have "(k, i) \<in> set (cn_workers c')" by (simp add: removing_workers(2) [OF assms(1)])
    then show ?thesis by (metis image_eqI snd_conv)
  qed
qed

lemma removing_apart:
  assumes r: "removing parts stop c c'" and ok: "consumer_ok c" and i: "i \<in> set (cn_callback c')"
  shows "pw_key (worker_at c' i) \<notin> fst ` set (cn_workers c')"
proof -
  have key: "pw_key (worker_at c' i) = pw_key (worker_at c i)"
    using removing_waiting [OF r ok disjI1 [OF i]] by (simp add: removing_workers(4) [OF r])
  show ?thesis
  proof (cases "i \<in> set stop")
    case True
    then obtain k where k: "(k, i) \<in> set (cn_workers c)" "removed parts k" using removing_workers(1) [OF r] by blast
    with ok have "pw_key (worker_at c i) = k" by (auto simp: consumer_ok_def map_ok_def)
    with k(2) key show ?thesis by (auto simp: removing_workers(2) [OF r])
  next
    case False
    with i r have "i \<in> set (cn_callback c)" unfolding removing_def by auto
    with ok have "pw_key (worker_at c i) \<notin> fst ` set (cn_workers c)" by (simp add: consumer_ok_def fenced_def)
    with key show ?thesis by (auto simp: removing_workers(2) [OF r] image_iff)
  qed
qed

lemma removing_fenced:
  assumes r: "removing parts stop c c'" and ok: "consumer_ok c"
  shows "fenced c'"
  unfolding fenced_def
proof (intro conjI allI impI ballI)
  fix i
  assume i: "i < length (cn_started c')" "\<not> in_map c' i"
  then have less: "i < length (cn_started c)" by (simp add: removing_workers(3) [OF r])
  with ok have "\<not> in_map c i \<Longrightarrow> pw_cancelled (worker_at c i)" by (simp add: consumer_ok_def fenced_def)
  with removing_workers(4) [OF r less] removing_mapped [OF r, of i] i(2)
  show "pw_cancelled (worker_at c' i)" by (cases "i \<in> set stop") auto
next
  fix i
  assume "committing c' i"
  then have ci: "committing c i" by (simp only: removing_workers(5) [OF r])
  then have less: "i < length (cn_started c)" by (simp add: committing_def)
  from ok ci have comm: "pw_owned (worker_at c i)" "in_map c i \<or> i \<in> set (cn_callback c) \<or> i \<in> set (cn_final c)"
    by (simp_all add: consumer_ok_def fenced_def)
  from comm(1) removing_workers(4) [OF r less] show "pw_owned (worker_at c' i)" by simp
  have "cn_callback c = [] \<and> cn_callback c' = stop \<and> cn_final c' = cn_final c \<or>
      cn_final c = [] \<and> cn_final c' = stop \<and> cn_callback c' = cn_callback c"
    using r unfolding removing_def by blast
  with comm(2) removing_mapped [OF r, of i]
  show "in_map c' i \<or> i \<in> set (cn_callback c') \<or> i \<in> set (cn_final c')" by auto
next
  fix i
  assume "i \<in> set (cn_callback c')"
  then show "pw_key (worker_at c' i) \<notin> fst ` set (cn_workers c')" by (rule removing_apart [OF r ok])
next
  assume "cn_final c' \<noteq> []"
  moreover from ok have "cn_final c \<noteq> [] \<Longrightarrow> cn_cancelled c" by (simp add: consumer_ok_def fenced_def)
  ultimately show "cn_cancelled c'"
    using r unfolding removing_def by auto
qed

lemma remove_ok:
  assumes r: "removing parts stop c c'" and ok: "consumer_ok c"
  shows "consumer_ok c'"
proof -
  have key: "pw_key (worker_at c' i) = pw_key (worker_at c i)" if "committing c i" for i
    using that by (simp add: committing_def removing_workers(4) [OF r])
  have "single c'"
    unfolding single_def removing_workers(5) [OF r]
    using key ok [unfolded consumer_ok_def single_def] by simp
  with removing_map_ok [OF r ok] removing_fenced [OF r ok] show ?thesis by (simp add: consumer_ok_def)
qed

lemma on_revoked_ok:
  assumes "consumer_ok c" "cn_callback c = []"
  shows "consumer_ok (on_revoked parts c)"
proof (rule remove_ok [OF _ assms(1)])
  show "removing (Some parts) (map snd (filter (\<lambda>(key, _). removed (Some parts) key) (cn_workers c))) c (on_revoked parts c)"
    by (simp add: removing_def on_revoked_def cancel_workers_eq assms(2))
qed

lemma stop_all_workers_ok:
  assumes "consumer_ok c" "cn_final c = []" "cn_cancelled c"
  shows "consumer_ok (stop_all_workers c)"
proof (rule remove_ok [OF _ assms(1)])
  show "removing None (map snd (filter (\<lambda>(key, _). removed None key) (cn_workers c))) c (stop_all_workers c)"
    by (simp add: removing_def stop_all_workers_def cancel_workers_eq assms(2,3))
qed

lemma lose_assignment_ok: "consumer_ok c \<Longrightarrow> consumer_ok (lose_assignment c)"
  by (simp add: consumer_ok_defs committing_def lose_assignment_def)

text \<open>A worker waited for is done with committing once it is fenced.\<close>

lemma shrink_ok:
  assumes ok: "consumer_ok c" and same: "cn_started c' = cn_started c" "cn_workers c' = cn_workers c"
      "cn_cancelled c' = cn_cancelled c"
    and sub: "set (cn_callback c') \<subseteq> set (cn_callback c)" "set (cn_final c') \<subseteq> set (cn_final c)"
    and gone: "\<And>j. committing c j \<Longrightarrow> j \<in> set (cn_callback c) \<Longrightarrow> j \<in> set (cn_callback c')"
      "\<And>j. committing c j \<Longrightarrow> j \<in> set (cn_final c) \<Longrightarrow> j \<in> set (cn_final c')"
  shows "consumer_ok c'"
proof -
  have comm: "committing c' j \<longleftrightarrow> committing c j" for j by (simp add: committing_def same)
  have "map_ok c'" using ok [unfolded consumer_ok_def map_ok_def] sub unfolding map_ok_def same by blast
  moreover have "fenced c'"
    unfolding fenced_def same comm
  proof (intro conjI)
    show "cn_final c' \<noteq> [] \<longrightarrow> cn_cancelled c"
      using ok [unfolded consumer_ok_def fenced_def] sub(2) by (cases "cn_final c") auto
  qed (use ok [unfolded consumer_ok_def fenced_def] sub(1) gone in blast)+
  moreover have "single c'" using ok unfolding consumer_ok_def single_def comm same by blast
  ultimately show ?thesis by (simp add: consumer_ok_def)
qed

lemma join_ok:
  assumes ok: "consumer_ok c" and fenced: "\<not> pw_owned (worker_at c i)"
  shows "cn_callback c = i # is \<Longrightarrow> consumer_ok (c\<lparr>cn_callback := is\<rparr>)"
    and "cn_final c = i # is \<Longrightarrow> consumer_ok (c\<lparr>cn_final := is\<rparr>)"
proof -
  have "\<not> committing c i" using ok fenced by (auto simp: consumer_ok_def fenced_def)
  then show "cn_callback c = i # is \<Longrightarrow> consumer_ok (c\<lparr>cn_callback := is\<rparr>)"
    and "cn_final c = i # is \<Longrightarrow> consumer_ok (c\<lparr>cn_final := is\<rparr>)"
    by (auto intro!: shrink_ok [OF ok])
qed

lemma reorder_ok:
  assumes "consumer_ok c" "mset ws = mset (cn_workers c)"
  shows "consumer_ok (c\<lparr>cn_workers := ws\<rparr>)"
proof -
  have set: "set ws = set (cn_workers c)" using assms(2) by (metis set_mset_mset)
  moreover have "distinct (map fst ws) \<longleftrightarrow> distinct (map fst (cn_workers c))"
    using assms(2) by (metis mset_map mset_eq_imp_distinct_iff)
  moreover have "committing (c\<lparr>cn_workers := ws\<rparr>) j \<longleftrightarrow> committing c j" for j by (simp add: committing_def)
  ultimately show ?thesis using assms(1) by (simp add: consumer_ok_def map_ok_def fenced_def single_def)
qed

lemma step_ok: "consumer_step c c' \<Longrightarrow> consumer_ok c \<Longrightarrow> consumer_ok c'"
proof (induction rule: consumer_step.induct)
  case (join_callback c i "is")
  then show ?case using join_ok(1) by blast
next
  case (join_final c i "is")
  then show ?case using join_ok(2) by blast
qed (simp_all add: on_assigned_ok on_revoked_ok lose_assignment_ok reorder_ok fence_ok stop_all_workers_ok
  idle_flags_ok begin_commit_ok cancel_consumer_ok)

lemma reachable_ok: "consumer_step\<^sup>*\<^sup>* new_consumer c \<Longrightarrow> consumer_ok c"
  by (induction rule: rtranclp_induct) (auto intro: new_consumer_ok step_ok)

section \<open>Properties\<close>

text \<open>
  C40. A partition has at most one committer, under every interleaving of workers, assignments, revocations,
  losses and the end of \<^verbatim>\<open>Run\<close>: two workers inside \<^verbatim>\<open>commit\<close> at the same time serve different
  partitions. Whoever is inside still owns its partition and is assigned or being waited for, so once a
  rebalance callback has returned no commit for the partitions it took is under way; and a worker that has left
  the map can never pass the guard of \<^verbatim>\<open>commit\<close> again.
\<close>

theorem one_committer_per_partition:
  assumes "consumer_step\<^sup>*\<^sup>* new_consumer c"
  shows "(\<forall>i j. committing c i \<longrightarrow> committing c j \<longrightarrow> pw_key (cn_started c ! i) = pw_key (cn_started c ! j) \<longrightarrow> i = j) \<and>
    (\<forall>i. committing c i \<longrightarrow> pw_owned (cn_started c ! i) \<and>
       (i \<in> snd ` set (cn_workers c) \<or> i \<in> set (cn_callback c) \<or> i \<in> set (cn_final c))) \<and>
    (\<forall>i < length (cn_started c). may_commit c i \<longrightarrow> (pw_key (cn_started c ! i), i) \<in> set (cn_workers c))"
proof -
  from reachable_ok [OF assms] have ok: "map_ok c" "fenced c" "single c" by (simp_all add: consumer_ok_def)
  have "(pw_key (cn_started c ! i), i) \<in> set (cn_workers c)" if "i < length (cn_started c)" "may_commit c i" for i
  proof -
    from that ok(2) have "in_map c i" by (auto simp: fenced_def may_commit_def worker_ended_def)
    with ok(1) show ?thesis by (auto simp: map_ok_def)
  qed
  with ok(2,3) show ?thesis by (simp add: fenced_def single_def)
qed

text \<open>A worker commits while its partition is taken away: the callback waits for it.\<close>

definition busy_consumer :: consumer where
  "busy_consumer = on_revoked [(''t'', 0)] (begin_commit 0 (on_assigned [(''t'', 0), (''t'', 1)] new_consumer))"

lemma busy_reached: "consumer_step\<^sup>*\<^sup>* new_consumer busy_consumer"
proof -
  let ?a = "on_assigned [(''t'', 0), (''t'', 1)] new_consumer"
  have "consumer_step new_consumer ?a" by (rule consumer_step.assign) (simp add: new_consumer_def)
  moreover have "consumer_step ?a (begin_commit 0 ?a)" by (rule consumer_step.commit) code_simp+
  moreover have "consumer_step (begin_commit 0 ?a) busy_consumer"
    unfolding busy_consumer_def by (rule consumer_step.revoke) code_simp
  ultimately show ?thesis by (meson rtranclp.rtrancl_into_rtrancl rtranclp.rtrancl_refl)
qed

lemma one_committer_per_partition_witness:
  "committing busy_consumer 0 \<and> pw_owned (cn_started busy_consumer ! 0) \<and>
   (0 \<in> snd ` set (cn_workers busy_consumer) \<or> 0 \<in> set (cn_callback busy_consumer) \<or> 0 \<in> set (cn_final busy_consumer))"
proof -
  have "committing busy_consumer 0" by code_simp
  with one_committer_per_partition [OF busy_reached] show ?thesis by blast
qed

end
