(* ===== verification/Admin.thy ===== *)
theory Admin
  imports Provision
begin

text \<open>
  \<^verbatim>\<open>internal/adapters/kafka/admin.go\<close>: topics as provisioning wants them. The requests to the brokers are operations
  of the world; the two broker errors the code tells apart are constructors. Opening, pinging and closing the
  client are calls of the library.
\<close>

section \<open>What the brokers answer\<close>

datatype kafka_error = UnknownTopicOrPartition | TopicAlreadyExists | KafkaError bytes

fun kafka_error_text :: "kafka_error \<Rightarrow> bytes" where
  "kafka_error_text UnknownTopicOrPartition =
     ''UNKNOWN_TOPIC_OR_PARTITION: This server does not host this topic-partition.''"
| "kafka_error_text TopicAlreadyExists = ''TOPIC_ALREADY_EXISTS: Topic with this name already exists.''"
| "kafka_error_text (KafkaError s) = s"

record partition_detail =
  pd_partition :: int
  pd_err :: "kafka_error option"
  pd_replicas :: "int list"

text \<open>\<open>td_partitions\<close> is a map from partition numbers, as an association list.\<close>

record topic_detail =
  td_topic :: bytes
  td_id :: bytes
  td_err :: "kafka_error option"
  td_partitions :: "(int \<times> partition_detail) list"

type_synonym topic_configs = "(bytes \<times> bytes option) list"

text \<open>
  \<open>ka_create\<close> answers the error of the request, or the error and identifier in the response; \<open>ka_describe\<close> the
  error of the request, of the lookup of the resource, or of the resource itself, or its settings. \<open>ka_wait\<close> waits
  half a second and gives the error of the context when that ends first.
\<close>

record 'w kafka_admin =
  ka_list :: "bytes \<Rightarrow> 'w \<Rightarrow> (kafka_error + (bytes \<times> topic_detail) list) \<times> 'w"
  ka_create :: "int \<Rightarrow> int \<Rightarrow> topic_configs \<Rightarrow> bytes \<Rightarrow> 'w \<Rightarrow> (kafka_error + kafka_error option \<times> bytes) \<times> 'w"
  ka_describe :: "bytes \<Rightarrow> 'w \<Rightarrow> (kafka_error + (bytes \<times> bytes) list) \<times> 'w"
  ka_wait :: "'w \<Rightarrow> bytes option \<times> 'w"

definition zero_id :: bytes where
  "zero_id = replicate 16 (chr 0)"

section \<open>Settings and replicas\<close>

definition topic_configs :: "int \<Rightarrow> topic_configs" where
  "topic_configs replication =
     [(''cleanup.policy'', Some ''delete''), (''retention.ms'', Some ''-1''), (''retention.bytes'', Some ''-1'')] @
     (if 3 \<le> replication then [(''min.insync.replicas'', Some ''2'')] else [])"

definition sorted_partitions :: "topic_detail \<Rightarrow> partition_detail list" where
  "sorted_partitions detail = sort_key pd_partition (map snd (td_partitions detail))"

definition partition_failure :: "bytes \<Rightarrow> partition_detail list \<Rightarrow> bytes option" where
  "partition_failure topic ps =
     (case find (\<lambda>p. pd_err p \<noteq> None) ps of
        None \<Rightarrow> None
      | Some p \<Rightarrow> Some (''capture: inspect topic '' @ quote topic @ '' partition '' @ int_str (pd_partition p) @ '': '' @
                  kafka_error_text (the (pd_err p))))"

definition validate_topic_replication :: "topic_detail \<Rightarrow> int \<Rightarrow> capture_error option" where
  "validate_topic_replication detail replication =
     (case td_err detail of
        Some e \<Rightarrow> Some (Plain (''capture: inspect topic '' @ quote (td_topic detail) @ '': '' @ kafka_error_text e))
      | None \<Rightarrow>
          (case partition_failure (td_topic detail) (sorted_partitions detail) of
             Some text \<Rightarrow> Some (Plain text)
           | None \<Rightarrow>
               (case find (\<lambda>p. int (length (pd_replicas p)) \<noteq> replication) (sorted_partitions detail) of
                  None \<Rightarrow> None
                | Some p \<Rightarrow>
                    Some (Plain (''capture: topic '' @ quote (td_topic detail) @ '' partition '' @
                      int_str (pd_partition p) @ '' has '' @ int_str (int (length (pd_replicas p))) @
                      '' replicas, want '' @ int_str replication)))))"

text \<open>
  \<^verbatim>\<open>verifyTopicConfigs\<close>: of several settings that differ the first visited is reported; a later entry of the
  answer for the same key replaces an earlier one.
\<close>

definition current_value :: "(bytes \<times> bytes) list \<Rightarrow> bytes \<Rightarrow> bytes" where
  "current_value configs key = (case map_of (rev configs) key of None \<Rightarrow> [] | Some v \<Rightarrow> v)"

definition verify_topic_configs :: "'w kafka_admin \<Rightarrow> bytes \<Rightarrow> topic_configs \<Rightarrow> 'w \<Rightarrow> capture_error option \<times> 'w" where
  "verify_topic_configs A topic want w =
     (case ka_describe A topic w of
        (Inl e, w1) \<Rightarrow>
          (Some (Plain (''capture: describe topic '' @ quote topic @ '' configs: '' @ kafka_error_text e)), w1)
      | (Inr configs, w1) \<Rightarrow>
          (case find (\<lambda>(key, value). value \<noteq> None \<and> current_value configs key \<noteq> the value) want of
             None \<Rightarrow> (None, w1)
           | Some (key, value) \<Rightarrow>
               (Some (Plain (''capture: topic '' @ quote topic @ '' config '' @ quote key @ '' is '' @
                  quote (current_value configs key) @ '', want '' @ quote (the value))), w1)))"

section \<open>Ensuring a topic\<close>

text \<open>\<^verbatim>\<open>existingTopic\<close>: the identifier, whether the topic exists, and the error.\<close>

definition existing_topic :: "'w kafka_admin \<Rightarrow> bytes \<Rightarrow> int \<Rightarrow> int \<Rightarrow> topic_configs \<Rightarrow> 'w \<Rightarrow>
    (bytes \<times> bool \<times> capture_error option) \<times> 'w" where
  "existing_topic A topic partitions replication want w =
     (case ka_list A topic w of
        (Inl e, w1) \<Rightarrow>
          ((zero_id, False, Some (Plain (''capture: list topic '' @ quote topic @ '': '' @ kafka_error_text e))), w1)
      | (Inr listed, w1) \<Rightarrow>
          (case map_of listed topic of
             None \<Rightarrow> ((zero_id, False, None), w1)
           | Some detail \<Rightarrow>
               if td_err detail \<noteq> None then ((zero_id, False, None), w1)
               else if int (length (td_partitions detail)) \<noteq> partitions
               then ((zero_id, True, Some (Plain (''capture: topic '' @ quote topic @ '' already exists with '' @
                       int_str (int (length (td_partitions detail))) @ '' partitions, want '' @ int_str partitions))), w1)
               else (case validate_topic_replication detail replication of
                       Some e \<Rightarrow> ((zero_id, True, Some e), w1)
                     | None \<Rightarrow>
                         (case verify_topic_configs A topic want w1 of
                            (Some e, w2) \<Rightarrow> ((zero_id, True, Some e), w2)
                          | (None, w2) \<Rightarrow> ((td_id detail, True, None), w2)))))"

definition found :: "bytes \<times> bool \<times> capture_error option \<Rightarrow> (capture_error + bytes) option" where
  "found r =
     (case r of
        (_, _, Some e) \<Rightarrow> Some (Inl e)
      | (i, True, None) \<Rightarrow> Some (Inr i)
      | (_, False, None) \<Rightarrow> None)"

fun await_topic :: "nat \<Rightarrow> 'w kafka_admin \<Rightarrow> bytes \<Rightarrow> int \<Rightarrow> int \<Rightarrow> topic_configs \<Rightarrow> ('w, capture_error + bytes) prog" where
  "await_topic 0 A topic partitions replication want w = (None, w)"
| "await_topic (Suc fuel) A topic partitions replication want w =
     (case existing_topic A topic partitions replication want w of
        (r, w1) \<Rightarrow>
          (case found r of
             Some res \<Rightarrow> (Some res, w1)
           | None \<Rightarrow>
               (case ka_wait A w1 of
                  (Some e, w2) \<Rightarrow>
                    (Some (Inl (Plain (''capture: topic '' @ quote topic @ '' exists but never appeared in metadata: '' @ e))), w2)
                | (None, w2) \<Rightarrow> await_topic fuel A topic partitions replication want w2)))"

definition ensure_topic :: "nat \<Rightarrow> 'w kafka_admin \<Rightarrow> names \<Rightarrow> int \<Rightarrow> int \<Rightarrow> ('w, capture_error + bytes) prog" where
  "ensure_topic fuel A n partitions replication w =
     (let want = topic_configs replication; topic = nm_topic n in
      case existing_topic A topic partitions replication want w of
        (r, w1) \<Rightarrow>
          (case found r of
             Some res \<Rightarrow> (Some res, w1)
           | None \<Rightarrow>
               (case ka_create A partitions replication want topic w1 of
                  (res, w2) \<Rightarrow>
                    (case (case res of Inl e \<Rightarrow> Inl e | Inr (Some e, _) \<Rightarrow> Inl e | Inr (None, i) \<Rightarrow> Inr i) of
                       Inr i \<Rightarrow> (Some (Inr i), w2)
                     | Inl e \<Rightarrow>
                         if e \<noteq> TopicAlreadyExists
                         then (Some (Inl (Plain (''capture: create topic '' @ quote topic @ '': '' @ kafka_error_text e))), w2)
                         else await_topic fuel A topic partitions replication want w2))))"

section \<open>The facts of a topic\<close>

definition admin_topic :: "'w kafka_admin \<Rightarrow> bytes \<Rightarrow> 'w \<Rightarrow> (capture_error + topic_facts) \<times> 'w" where
  "admin_topic A name w =
     (case ka_list A name w of
        (Inl e, w1) \<Rightarrow> (Inl (Plain (''capture: list topic '' @ quote name @ '': '' @ kafka_error_text e)), w1)
      | (Inr listed, w1) \<Rightarrow>
          (case map_of listed name of
             None \<Rightarrow> (Inr \<lparr>tp_exists = False, tp_id = zero_id, tp_partitions = 0, tp_replicas = []\<rparr>, w1)
           | Some detail \<Rightarrow>
               (case td_err detail of
                  Some e \<Rightarrow>
                    if e = UnknownTopicOrPartition
                    then (Inr \<lparr>tp_exists = False, tp_id = zero_id, tp_partitions = 0, tp_replicas = []\<rparr>, w1)
                    else (Inl (TopicMetadata False
                           (''capture: inspect topic '' @ quote name @ '': '' @ kafka_error_text e)), w1)
                | None \<Rightarrow>
                    (case partition_failure name (sorted_partitions detail) of
                       Some text \<Rightarrow> (Inl (TopicMetadata True text), w1)
                     | None \<Rightarrow>
                         (Inr \<lparr>tp_exists = True, tp_id = td_id detail,
                               tp_partitions = int (length (td_partitions detail)),
                               tp_replicas = map (\<lambda>(k, p). (k, int (length (pd_replicas p)))) (td_partitions detail)\<rparr>,
                          w1)))))"

end
