(* ===== verification/AdminLaws.thy ===== *)
theory AdminLaws
  imports Admin
begin

text \<open>
  What provisioning gets from the Kafka adapter: a topic it is given is the topic it asked for, and the check made
  when a topic is adopted is the check every later inspection makes.
\<close>

section \<open>A topic as wanted\<close>

definition matching_detail :: "topic_detail \<Rightarrow> int \<Rightarrow> int \<Rightarrow> bool" where
  "matching_detail detail partitions replication \<longleftrightarrow>
     td_err detail = None \<and> int (length (td_partitions detail)) = partitions \<and>
     (\<forall>(k, p) \<in> set (td_partitions detail). pd_err p = None \<and> int (length (pd_replicas p)) = replication)"

definition matching_configs :: "(bytes \<times> bytes) list \<Rightarrow> int \<Rightarrow> bool" where
  "matching_configs configs replication \<longleftrightarrow>
     current_value configs ''cleanup.policy'' = ''delete'' \<and>
     current_value configs ''retention.ms'' = ''-1'' \<and> current_value configs ''retention.bytes'' = ''-1'' \<and>
     (3 \<le> replication \<longrightarrow> current_value configs ''min.insync.replicas'' = ''2'')"

lemma set_sorted_partitions [simp]: "set (sorted_partitions detail) = snd ` set (td_partitions detail)"
  by (simp add: sorted_partitions_def)

lemma partition_failure_None: "partition_failure topic ps = None \<longleftrightarrow> (\<forall>p \<in> set ps. pd_err p = None)"
  by (auto simp: partition_failure_def find_None_iff split: option.splits dest!: find_SomeD)

lemma replication_None:
  "validate_topic_replication detail replication = None \<longleftrightarrow>
     td_err detail = None \<and>
     (\<forall>(k, p) \<in> set (td_partitions detail). pd_err p = None \<and> int (length (pd_replicas p)) = replication)"
proof -
  let ?all = "\<lambda>P. \<forall>p \<in> set (sorted_partitions detail). P p"
  have fail: "partition_failure (td_topic detail) (sorted_partitions detail) = None \<longleftrightarrow> ?all (\<lambda>p. pd_err p = None)"
    by (rule partition_failure_None)
  have count: "find (\<lambda>p. int (length (pd_replicas p)) \<noteq> replication) (sorted_partitions detail) = None \<longleftrightarrow>
      ?all (\<lambda>p. int (length (pd_replicas p)) = replication)"
    by (simp add: find_None_iff)
  have "validate_topic_replication detail replication = None \<longleftrightarrow> td_err detail = None \<and>
      partition_failure (td_topic detail) (sorted_partitions detail) = None \<and>
      find (\<lambda>p. int (length (pd_replicas p)) \<noteq> replication) (sorted_partitions detail) = None"
    by (simp add: validate_topic_replication_def split: option.splits)
  then show ?thesis
    unfolding fail count by (simp add: case_prod_beta) blast
qed

lemma verify_None:
  "verify_topic_configs A topic (topic_configs replication) w = (None, w') \<longleftrightarrow>
     (\<exists>configs. ka_describe A topic w = (Inr configs, w') \<and> matching_configs configs replication)"
  by (auto simp: verify_topic_configs_def topic_configs_def matching_configs_def split: prod.splits sum.splits if_splits)

text \<open>The lookup that found a topic saw it with the wanted shape.\<close>

lemma existing_topic_found:
  assumes "existing_topic A topic partitions replication (topic_configs replication) w = ((i, True, None), w')"
  obtains listed detail w1 configs where "ka_list A topic w = (Inr listed, w1)" "map_of listed topic = Some detail"
    "matching_detail detail partitions replication" "td_id detail = i"
    "ka_describe A topic w1 = (Inr configs, w')" "matching_configs configs replication"
proof -
  from assms obtain listed detail w1 where
    *: "ka_list A topic w = (Inr listed, w1)" "map_of listed topic = Some detail" "td_err detail = None"
      "int (length (td_partitions detail)) = partitions" "validate_topic_replication detail replication = None"
      "verify_topic_configs A topic (topic_configs replication) w1 = (None, w')" "td_id detail = i"
    by (auto simp: existing_topic_def split: prod.splits sum.splits option.splits if_splits)
  moreover from this obtain configs where "ka_describe A topic w1 = (Inr configs, w')" "matching_configs configs replication"
    by (auto simp: verify_None)
  ultimately show thesis
    using that by (auto simp: replication_None matching_detail_def)
qed

lemma found_Inr: "found r = Some (Inr i) \<longleftrightarrow> r = (i, True, None)"
  by (cases r) (auto simp: found_def split: option.splits bool.splits)

definition adopted :: "'w kafka_admin \<Rightarrow> bytes \<Rightarrow> int \<Rightarrow> int \<Rightarrow> bytes \<Rightarrow> 'w \<Rightarrow> bool" where
  "adopted A topic partitions replication i w' \<longleftrightarrow>
     (\<exists>w1 w2 listed detail configs. ka_list A topic w1 = (Inr listed, w2) \<and> map_of listed topic = Some detail \<and>
        matching_detail detail partitions replication \<and> td_id detail = i \<and>
        ka_describe A topic w2 = (Inr configs, w') \<and> matching_configs configs replication)"

lemma found_adopted:
  assumes "existing_topic A topic partitions replication (topic_configs replication) w = (r, w')" "found r = Some (Inr i)"
  shows "adopted A topic partitions replication i w'"
proof -
  from assms obtain listed detail w1 configs where
    "ka_list A topic w = (Inr listed, w1)" "map_of listed topic = Some detail"
    "matching_detail detail partitions replication" "td_id detail = i"
    "ka_describe A topic w1 = (Inr configs, w')" "matching_configs configs replication"
    by (auto simp: found_Inr elim!: existing_topic_found)
  then show ?thesis unfolding adopted_def by blast
qed

lemma await_topic_adopted:
  "await_topic fuel A topic partitions replication (topic_configs replication) w = (Some (Inr i), w') \<Longrightarrow>
     adopted A topic partitions replication i w'"
proof (induction fuel arbitrary: w)
  case (Suc fuel)
  obtain r w1 where e: "existing_topic A topic partitions replication (topic_configs replication) w = (r, w1)"
    by (rule prod.exhaust)
  show ?case
  proof (cases "found r")
    case None
    with Suc e show ?thesis by (auto split: prod.splits option.splits)
  next
    case (Some res)
    with Suc.prems e have "res = Inr i" "w1 = w'" by auto
    with Some e show ?thesis by (auto intro: found_adopted)
  qed
qed simp

text \<open>
  C13. A topic EnsureTopic returns is the one that was asked for: either the last call created it, under the wanted
  name, with the wanted partitions, replication and settings, or the last two calls saw a topic of that name without
  any metadata error, with exactly the wanted number of partitions, every one with the wanted number of replicas, and
  with the wanted retention settings. A topic of another shape is never adopted, also when another process creates it
  at the same moment.
\<close>

theorem ensured_topic_is_the_wanted_one:
  assumes "ensure_topic fuel A n partitions replication w = (Some (Inr i), w')"
  shows "(\<exists>w1. ka_create A partitions replication (topic_configs replication) (nm_topic n) w1 = (Inr (None, i), w')) \<or>
         (\<exists>w1 w2 listed detail configs. ka_list A (nm_topic n) w1 = (Inr listed, w2) \<and>
            map_of listed (nm_topic n) = Some detail \<and> matching_detail detail partitions replication \<and> td_id detail = i \<and>
            ka_describe A (nm_topic n) w2 = (Inr configs, w') \<and> matching_configs configs replication)"
proof -
  obtain r w1 where e: "existing_topic A (nm_topic n) partitions replication (topic_configs replication) w = (r, w1)"
    by (rule prod.exhaust)
  obtain res w2 where c: "ka_create A partitions replication (topic_configs replication) (nm_topic n) w1 = (res, w2)"
    by (rule prod.exhaust)
  show ?thesis
  proof (cases "found r")
    case (Some x)
    with assms e have "x = Inr i" "w1 = w'" by (auto simp: ensure_topic_def Let_def)
    with Some e have "adopted A (nm_topic n) partitions replication i w'" by (auto intro: found_adopted)
    then show ?thesis unfolding adopted_def by (rule disjI2)
  next
    case None
    with assms e c show ?thesis
      by (auto simp: ensure_topic_def Let_def adopted_def split: sum.splits option.splits if_splits prod.splits
          dest!: await_topic_adopted)
  qed
qed

section \<open>The check of later inspections\<close>

lemma insort_key_map: "insort_key f (g x) (map g xs) = map g (insort_key (f \<circ> g) x xs)"
  by (induction xs) auto

lemma sort_key_map: "sort_key f (map g xs) = map g (sort_key (f \<circ> g) xs)"
  by (induction xs) (simp_all add: insort_key_map comp_def)

lemma find_map: "find P (map g xs) = map_option g (find (P \<circ> g) xs)"
  by (induction xs) auto

text \<open>
  Inspection and adoption agree on a topic. Where the broker lists a topic under its name, with its partitions
  under their numbers and no metadata error, Topic reports its identifier, its number of partitions and its replica
  counts, and the replica check of provisioning on those facts gives exactly the verdict and the message of the check
  EnsureTopic makes on the broker's answer.
\<close>

lemma inspection_agrees:
  assumes "ka_list A name w = (Inr listed, w')" "map_of listed name = Some detail" "td_topic detail = name"
    "td_err detail = None" "\<forall>(k, p) \<in> set (td_partitions detail). pd_partition p = k \<and> pd_err p = None"
  shows "\<exists>facts. admin_topic A name w = (Inr facts, w') \<and> tp_exists facts \<and> tp_id facts = td_id detail \<and>
           tp_partitions facts = int (length (td_partitions detail)) \<and>
           validate_replication name facts replication = validate_topic_replication detail replication"
proof -
  let ?g = "\<lambda>p. (pd_partition p, int (length (pd_replicas p)))"
  have rows: "map (\<lambda>(k, p). (k, int (length (pd_replicas p)))) (td_partitions detail) = map ?g (map snd (td_partitions detail))"
    using assms(5) by auto
  have fail: "partition_failure name (sorted_partitions detail) = None"
    using assms(5) by (auto simp: partition_failure_None)
  have sorted: "sort_key fst (map ?g (map snd (td_partitions detail))) = map ?g (sorted_partitions detail)"
    unfolding sort_key_map [of fst ?g] by (simp add: sorted_partitions_def comp_def)
  have same: "validate_replication name \<lparr>tp_exists = True, tp_id = td_id detail, tp_partitions = n,
      tp_replicas = map ?g (map snd (td_partitions detail))\<rparr> replication = validate_topic_replication detail replication" for n
    using assms(3,4) fail
    by (simp only: validate_replication_def validate_topic_replication_def topic_facts.simps sorted find_map)
       (auto simp: comp_def split: option.splits)
  show ?thesis
    using assms fail same by (simp add: admin_topic_def rows del: map_map)
qed


section \<open>The interface of provisioning\<close>

text \<open>
  What provisioning relies on: \<open>shown w t i p r\<close> says that at \<open>w\<close> a lookup of the topic \<open>t\<close> would show the
  identifier \<open>i\<close>, \<open>p\<close> partitions and \<open>r\<close> replicas of each.
\<close>

locale topic_inspection =
  fixes inspect :: "bytes \<Rightarrow> 'w \<Rightarrow> (capture_error + topic_facts) \<times> 'w"
    and shown :: "'w \<Rightarrow> bytes \<Rightarrow> bytes \<Rightarrow> int \<Rightarrow> int \<Rightarrow> bool"
  assumes shown_inspected: "shown w t i p r \<Longrightarrow> \<exists>facts w'. inspect t w = (Inr facts, w') \<and> tp_exists facts \<and>
    tp_id facts = i \<and> tp_partitions facts = p \<and> validate_replication t facts r = None"
begin

lemma shown_intact:
  assumes "cap_topic C = inspect" "shown w (nm_topic n) (reg_topic_id reg) (idn_partitions (reg_identity reg)) (cap_replication C)"
  shows "fst (inspect_topic C n reg w) = None"
  using shown_inspected [OF assms(2)] assms(1) by (auto simp: inspect_topic_def)

lemma shown_valid:
  assumes "cap_topic C = inspect" "shown w (nm_topic n) (reg_topic_id reg) (idn_partitions identity) (cap_replication C)"
  shows "fst (validate_topic C src identity n reg w) = None"
  using shown_inspected [OF assms(2)] assms(1) by (auto simp: validate_topic_def)

end

definition listed_topic :: "'w kafka_admin \<Rightarrow> 'w \<Rightarrow> bytes \<Rightarrow> bytes \<Rightarrow> int \<Rightarrow> int \<Rightarrow> bool" where
  "listed_topic A w t i p r \<longleftrightarrow>
     (\<exists>listed w' detail. ka_list A t w = (Inr listed, w') \<and> map_of listed t = Some detail \<and> td_topic detail = t \<and>
        matching_detail detail p r \<and> td_id detail = i \<and> (\<forall>(k, d) \<in> set (td_partitions detail). pd_partition d = k))"

interpretation admin: topic_inspection "admin_topic A" "listed_topic A" for A
proof
  fix w t i p r
  assume "listed_topic A w t i p r"
  then obtain listed w' detail where *: "ka_list A t w = (Inr listed, w')" "map_of listed t = Some detail"
      "td_topic detail = t" "matching_detail detail p r" "td_id detail = i"
      "\<forall>(k, d) \<in> set (td_partitions detail). pd_partition d = k"
    unfolding listed_topic_def by blast
  have err: "td_err detail = None" and parts: "\<forall>(k, d) \<in> set (td_partitions detail). pd_partition d = k \<and> pd_err d = None"
    using *(4,6) by (auto simp: matching_detail_def)
  from inspection_agrees [OF *(1-3) err parts, of r] *(4,5)
  show "\<exists>facts w'. admin_topic A t w = (Inr facts, w') \<and> tp_exists facts \<and> tp_id facts = i \<and> tp_partitions facts = p \<and>
      validate_replication t facts r = None"
    by (auto simp: matching_detail_def replication_None)
qed

section \<open>Witnesses\<close>

text \<open>
  A broker on which another process creates the topic between the lookup and the creation: the first listing shows
  nothing, the creation fails, and every later listing shows the topic. The world counts the calls.
\<close>

definition example_detail :: topic_detail where
  "example_detail = \<lparr>td_topic = ''t'', td_id = replicate 16 CHR ''i'', td_err = None,
     td_partitions = map (\<lambda>k. (k, \<lparr>pd_partition = k, pd_err = None, pd_replicas = [0, 1, 2]\<rparr>)) [1, 0]\<rparr>"

definition racing_admin :: "nat kafka_admin" where
  "racing_admin = \<lparr>ka_list = (\<lambda>name w. (Inr (if w = 0 then [] else [(''t'', example_detail)]), Suc w)),
     ka_create = (\<lambda>partitions replication configs name w. (Inl TopicAlreadyExists, Suc w)),
     ka_describe = (\<lambda>name w. (Inr [(''cleanup.policy'', ''delete''), (''retention.ms'', ''-1''),
        (''retention.bytes'', ''-1''), (''min.insync.replicas'', ''2'')], Suc w)),
     ka_wait = (\<lambda>w. (None, Suc w))\<rparr>"

definition example_names :: names where
  "example_names = \<lparr>nm_topic_prefix = ''p'', nm_topic = ''t'', nm_connector = ''c'', nm_slot = ''s'', nm_publication = ''b''\<rparr>"

lemma racing_run: "ensure_topic 1 racing_admin example_names 2 3 0 = (Some (Inr (replicate 16 CHR ''i'')), 4)"
  by code_simp

lemma ensured_topic_is_the_wanted_one_witness:
  "\<exists>i. ensure_topic 1 racing_admin example_names 2 3 0 = (Some (Inr i), 4) \<and>
     ((\<exists>w1. ka_create racing_admin 2 3 (topic_configs 3) ''t'' w1 = (Inr (None, i), 4)) \<or>
      (\<exists>w1 w2 listed detail configs. ka_list racing_admin ''t'' w1 = (Inr listed, w2) \<and>
         map_of listed ''t'' = Some detail \<and> matching_detail detail 2 3 \<and> td_id detail = i \<and>
         ka_describe racing_admin ''t'' w2 = (Inr configs, 4) \<and> matching_configs configs 3))"
  using racing_run ensured_topic_is_the_wanted_one [OF racing_run] by (simp add: example_names_def)

lemma racing_topic_inspected: "fst (admin_topic racing_admin ''t'' 7) \<noteq> Inl e"
proof -
  have "listed_topic racing_admin 7 ''t'' (td_id example_detail) 2 3"
    by (simp add: listed_topic_def racing_admin_def example_detail_def matching_detail_def)
  from admin.shown_inspected [OF this] show ?thesis by auto
qed

end
