(* ===== verification/Connector.thy ===== *)
theory Connector
  imports Provision HttpDelivery Debezium
begin

text \<open>
  \<^verbatim>\<open>internal/adapters/debezium/connector.go\<close>: the configuration of a capture connector, and its status as
  Kafka Connect reports it. Requests go through an HTTP transport of the world, with the requests and responses of
  \<open>HttpDelivery\<close>; a Go map is an association list.
\<close>

section \<open>The configuration\<close>

record connection =
  cx_host :: bytes
  cx_port :: int
  cx_username :: bytes
  cx_password :: bytes
  cx_database :: bytes

definition zero_connection :: connection where
  "zero_connection = \<lparr>cx_host = [], cx_port = 0, cx_username = [], cx_password = [], cx_database = []\<rparr>"

record 'w connect_client =
  cc_url :: bytes
  cc_http :: "'w http_client option"
  cc_connections :: "(bytes \<times> connection) list"

definition quote_ident :: "bytes \<Rightarrow> bytes" where
  "quote_ident name =
     [CHR 0x22] @ concat (map (\<lambda>c. if c = CHR 0x22 then [CHR 0x22, CHR 0x22] else [c]) name) @ [CHR 0x22]"

text \<open>\<^verbatim>\<open>regexp.QuoteMeta\<close>.\<close>

definition regexp_special :: "char \<Rightarrow> bool" where
  "regexp_special c \<longleftrightarrow> c = CHR 0x5C \<or> c \<in> set ''.+*?()|[]{}^$''"

definition quote_meta :: "bytes \<Rightarrow> bytes" where
  "quote_meta s = concat (map (\<lambda>c. if regexp_special c then [CHR 0x5C, c] else [c]) s)"

fun publication_mode_string :: "publication_mode \<Rightarrow> bytes" where
  "publication_mode_string PublicationManaged = ''filtered''"
| "publication_mode_string PublicationExternal = ''disabled''"

definition include_list :: "source \<Rightarrow> identity \<Rightarrow> bytes" where
  "include_list src identity =
     join '','' (map (\<lambda>c. quote_meta (''public.'' @ src_table src @ ''.'' @ col_name c)) (idn_columns identity))"

definition snapshot_select :: "source \<Rightarrow> identity \<Rightarrow> bytes" where
  "snapshot_select src identity =
     ''SELECT '' @ join '', '' (map (\<lambda>c. quote_ident (col_name c)) (idn_columns identity)) @
     '' FROM public.'' @ quote_ident (src_table src) @ '' ORDER BY '' @ quote_ident (src_serial src) @ '' ASC''"

type_synonym connector_settings = "(bytes \<times> bytes) list"

definition connector_config :: "source \<Rightarrow> connection \<Rightarrow> identity \<Rightarrow> names \<Rightarrow> publication_mode \<Rightarrow> connector_settings" where
  "connector_config src connection identity n publication =
     [(''connector.class'', ''io.debezium.connector.postgresql.PostgresConnector''),
      (''plugin.name'', ''pgoutput''),
      (''database.hostname'', cx_host connection),
      (''database.port'', int_str (cx_port connection)),
      (''database.user'', cx_username connection),
      (''database.password'', cx_password connection),
      (''database.dbname'', cx_database connection),
      (''topic.prefix'', nm_topic_prefix n),
      (''table.include.list'', ''public.'' @ src_table src),
      (''column.include.list'', include_list src identity),
      (''message.key.columns'', ''public.'' @ src_table src @ '':'' @ src_partitioning src),
      (''slot.name'', nm_slot n),
      (''publication.name'', nm_publication n),
      (''publication.autocreate.mode'', publication_mode_string publication),
      (''snapshot.mode'', ''initial''),
      (''snapshot.select.statement.overrides'', ''public.'' @ src_table src),
      (''snapshot.select.statement.overrides.public.'' @ src_table src, snapshot_select src identity),
      (''skipped.operations'', ''none''),
      (''tombstones.on.delete'', ''false''),
      (''binary.handling.mode'', ''base64''), (''decimal.handling.mode'', ''string''),
      (''time.precision.mode'', ''adaptive_time_microseconds''),
      (''heartbeat.interval.ms'', ''10000''),
      (''topic.creation.default.replication.factor'', ''-1''),
      (''topic.creation.default.partitions'', ''1''),
      (''key.converter'', ''org.apache.kafka.connect.json.JsonConverter''), (''key.converter.schemas.enable'', ''false''),
      (''value.converter'', ''org.apache.kafka.connect.json.JsonConverter''), (''value.converter.schemas.enable'', ''false''),
      (''producer.override.acks'', ''all'')]"

section \<open>Requests to Kafka Connect\<close>

definition connector_url :: "bytes \<Rightarrow> bytes \<Rightarrow> bytes \<Rightarrow> bytes" where
  "connector_url connect_url connector resource =
     trim_right_char CHR ''/'' connect_url @ ''/connectors/'' @ connector @ ''/'' @ resource"

text \<open>\<^verbatim>\<open>do\<close>; without a client the default one, which sets no limit on the time.\<close>

definition send_request :: "'w http_env \<Rightarrow> 'w http_client option \<Rightarrow> 'w transport" where
  "send_request E client req w =
     (case client of
        None \<Rightarrow> he_default E req w
      | Some h \<Rightarrow> hc_do h (req\<lparr>rq_deadline := client_deadline E (hc_timeout h) (rq_deadline req) w\<rparr>) w)"

definition error_body :: "response \<Rightarrow> bytes" where
  "error_body res = take 65536 (rs_body res)"

text \<open>\<^verbatim>\<open>json.Marshal\<close> of a map of strings, which it writes sorted by key.\<close>

definition marshal_settings :: "connector_settings \<Rightarrow> bytes" where
  "marshal_settings cfg =
     ''{'' @ join '','' (map (\<lambda>(k, v). marshal_string k @ '':'' @ marshal_string v) (sort_key fst cfg)) @ ''}''"

definition ensure_connector :: "'w http_env \<Rightarrow> int option \<Rightarrow> 'w http_client option \<Rightarrow> bytes \<Rightarrow> names \<Rightarrow> connector_settings \<Rightarrow>
    'w \<Rightarrow> capture_error option \<times> 'w" where
  "ensure_connector E deadline client connect_url n cfg w =
     (let url = connector_url connect_url (nm_connector n) ''config'';
          req = \<lparr>rq_method = ''PUT'', rq_url = url, rq_headers = [(''Content-Type'', ''application/json'')],
                 rq_body = marshal_settings cfg, rq_deadline = deadline\<rparr>
      in case he_url_error E url of
           Some e \<Rightarrow>
             (Some (Plain (''capture: build connector request for '' @ quote (nm_connector n) @ '': '' @ error_text e)), w)
         | None \<Rightarrow>
             (case send_request E client req w of
                (Inl e, w1) \<Rightarrow>
                  (Some (Plain (''capture: put connector config for '' @ quote (nm_connector n) @ '': '' @ error_text e)), w1)
              | (Inr res, w1) \<Rightarrow>
                  if rs_status res = 200 \<or> rs_status res = 201 then (None, close_body E res w1)
                  else (Some (Plain (''capture: connect returned '' @ int_str (rs_status res) @ '' for connector '' @
                          quote (nm_connector n) @ '': '' @ error_body res)), close_body E res w1)))"

definition client_ensure_connector :: "'w http_env \<Rightarrow> int option \<Rightarrow> 'w connect_client \<Rightarrow> source \<Rightarrow> identity \<Rightarrow> names \<Rightarrow>
    publication_mode \<Rightarrow> 'w \<Rightarrow> capture_error option \<times> 'w" where
  "client_ensure_connector E deadline c src identity n publication =
     (let connection = (case map_of (cc_connections c) (src_id src) of None \<Rightarrow> zero_connection | Some x \<Rightarrow> x)
      in ensure_connector E deadline (cc_http c) (cc_url c) n (connector_config src connection identity n publication))"

section \<open>The status\<close>

text \<open>The connector, or a task of it, as \<^verbatim>\<open>connectStatus\<close> has them.\<close>

record part_status =
  ps_state :: bytes
  ps_trace :: bytes

definition zero_part :: part_status where
  "zero_part = \<lparr>ps_state = [], ps_trace = []\<rparr>"

text \<open>
  \<open>raw_spare\<close> are the elements that the array behind the slice keeps beyond its length: decoding a second array into
  the slice starts from them.
\<close>

record raw_status =
  raw_connector :: part_status
  raw_tasks :: "part_status list"
  raw_spare :: "part_status list"

definition zero_status :: raw_status where
  "zero_status = \<lparr>raw_connector = zero_part, raw_tasks = [], raw_spare = []\<rparr>"

definition connector_state_of :: "bytes \<Rightarrow> connector_state" where
  "connector_state_of s =
     (if s = ''RUNNING'' then StateRunning else if s = ''FAILED'' then StateFailed
      else if s = ''PAUSED'' then StatePaused else if s = ''UNASSIGNED'' then StateUnassigned
      else if s = ''RESTARTING'' then StateRestarting else StateOther s)"

text \<open>The loop of \<^verbatim>\<open>statusFrom\<close>: whether something failed, and the first trace.\<close>

fun task_failures :: "part_status list \<Rightarrow> bool \<Rightarrow> bytes \<Rightarrow> bool \<times> bytes" where
  "task_failures [] failed trace = (failed, trace)"
| "task_failures (task # tasks) failed trace =
     (if connector_state_of (ps_state task) = StateFailed
      then task_failures tasks True (if trace = [] then ps_trace task else trace)
      else task_failures tasks failed trace)"

definition status_from :: "raw_status \<Rightarrow> connector_status" where
  "status_from raw =
     (case task_failures (raw_tasks raw) (connector_state_of (ps_state (raw_connector raw)) = StateFailed)
             (ps_trace (raw_connector raw)) of
        (failed, trace) \<Rightarrow>
          \<lparr>cs_connector = connector_state_of (ps_state (raw_connector raw)),
           cs_tasks = map (\<lambda>t. connector_state_of (ps_state t)) (raw_tasks raw), cs_failed = failed, cs_trace = trace\<rparr>)"

section \<open>Decoding the status\<close>

text \<open>A \<^verbatim>\<open>string\<close> field: every matching member sets it, and \<^verbatim>\<open>null\<close> leaves it alone.\<close>

fun text_field :: "bytes \<Rightarrow> (bytes \<times> bytes) list \<Rightarrow> bytes \<Rightarrow> bytes option" where
  "text_field name [] v = Some v"
| "text_field name ((k, raw) # ms) v =
     (if field_matches name k then
        (case json_string_ptr raw of
           None \<Rightarrow> None
         | Some None \<Rightarrow> text_field name ms v
         | Some (Some v') \<Rightarrow> text_field name ms v')
      else text_field name ms v)"

definition part_value :: "bytes \<Rightarrow> part_status \<Rightarrow> part_status option" where
  "part_value raw p =
     (case json_object raw of
        None \<Rightarrow> None
      | Some None \<Rightarrow> Some p
      | Some (Some ms) \<Rightarrow>
          (case (text_field ''state'' ms (ps_state p), text_field ''trace'' ms (ps_trace p)) of
             (Some s, Some t) \<Rightarrow> Some \<lparr>ps_state = s, ps_trace = t\<rparr>
           | _ \<Rightarrow> None))"

text \<open>The elements of an array, as raw bytes.\<close>

fun split_array :: "scan \<Rightarrow> bytes \<Rightarrow> bytes \<Rightarrow> bytes list" where
  "split_array st cur [] = []"
| "split_array st cur (c # s) =
     (case jstep st c of
        None \<Rightarrow> []
      | Some st' \<Rightarrow>
          if snd st = [] then split_array st' [] s
          else if snd st = [PArrVal] \<and> fst st' = BeginValue \<and> c = CHR '','' then cur # split_array st' [] s
          else if snd st = [PArrVal] \<and> snd st' = [] then (if trim_json cur = [] then [] else [cur])
          else split_array st' (cur @ [c]) s)"

definition json_elements :: "bytes \<Rightarrow> bytes list" where
  "json_elements s = map trim_json (split_array jstart [] s)"

fun task_values :: "part_status list \<Rightarrow> bytes list \<Rightarrow> part_status list option" where
  "task_values old [] = Some []"
| "task_values old (raw # raws) =
     (case part_value raw (case old of [] \<Rightarrow> zero_part | p # _ \<Rightarrow> p) of
        None \<Rightarrow> None
      | Some p \<Rightarrow> map_option ((#) p) (task_values (tl old) raws))"

definition tasks_value :: "bytes \<Rightarrow> raw_status \<Rightarrow> raw_status option" where
  "tasks_value raw st =
     (if json_kind_of raw = JNull then Some (st\<lparr>raw_tasks := [], raw_spare := []\<rparr>)
      else if json_kind_of raw = JArray then
        (let old = raw_tasks st @ raw_spare st in
         case task_values old (json_elements raw) of
           None \<Rightarrow> None
         | Some [] \<Rightarrow> Some (st\<lparr>raw_tasks := [], raw_spare := []\<rparr>)
         | Some vs \<Rightarrow> Some (st\<lparr>raw_tasks := vs, raw_spare := drop (length vs) old\<rparr>))
      else None)"

fun status_fields :: "(bytes \<times> bytes) list \<Rightarrow> raw_status \<Rightarrow> raw_status option" where
  "status_fields [] st = Some st"
| "status_fields ((k, raw) # ms) st =
     (if field_matches ''connector'' k then
        (case part_value raw (raw_connector st) of
           None \<Rightarrow> None
         | Some p \<Rightarrow> status_fields ms (st\<lparr>raw_connector := p\<rparr>))
      else if field_matches ''tasks'' k then
        (case tasks_value raw st of None \<Rightarrow> None | Some st' \<Rightarrow> status_fields ms st')
      else status_fields ms st)"

text \<open>
  The first value of a stream, as a \<^verbatim>\<open>json.Decoder\<close> reads it: an object or array ends at its closing
  bracket, any other value before the byte after it or at the end of a stream that did not fail.
\<close>

fun first_value :: "bool \<Rightarrow> scan \<Rightarrow> bytes \<Rightarrow> bytes \<Rightarrow> bytes option" where
  "first_value failed st cur [] = (if \<not> failed \<and> jended st then Some cur else None)"
| "first_value failed st cur (c # s) =
     (case jstep st c of
        None \<Rightarrow> if jended st then Some cur else None
      | Some st' \<Rightarrow> if fst st' = EndTop then Some (cur @ [c]) else first_value failed st' (cur @ [c]) s)"

definition decode_status :: "response \<Rightarrow> raw_status option" where
  "decode_status res =
     (case first_value (rs_body_error res \<noteq> None) jstart [] (rs_body res) of
        None \<Rightarrow> None
      | Some value \<Rightarrow>
          (case json_object value of
             None \<Rightarrow> None
           | Some None \<Rightarrow> Some zero_status
           | Some (Some ms) \<Rightarrow> status_fields ms zero_status))"

definition connector_status_of :: "'w http_env \<Rightarrow> int option \<Rightarrow> 'w http_client option \<Rightarrow> bytes \<Rightarrow> bytes \<Rightarrow> 'w \<Rightarrow>
    (capture_error + connector_status) \<times> 'w" where
  "connector_status_of E deadline client connect_url name w =
     (let url = connector_url connect_url name ''status'';
          req = \<lparr>rq_method = ''GET'', rq_url = url, rq_headers = [], rq_body = [], rq_deadline = deadline\<rparr>
      in case he_url_error E url of
           Some e \<Rightarrow> (Inl (Plain (''capture: build status request for '' @ quote name @ '': '' @ error_text e)), w)
         | None \<Rightarrow>
             (case send_request E client req w of
                (Inl e, w1) \<Rightarrow>
                  (Inl (Plain (''capture: get connector status for '' @ quote name @ '': '' @ error_text e)), w1)
              | (Inr res, w1) \<Rightarrow>
                  ((if rs_status res = 404 then Inl ConnectorMissing
                    else if rs_status res \<noteq> 200 then
                      Inl (Plain (''capture: connect returned '' @ int_str (rs_status res) @ '' for connector '' @
                        quote name @ '' status: '' @ error_body res))
                    else (case decode_status res of
                            None \<Rightarrow> Inl (Plain (''capture: decode connector status for '' @ quote name @ '': invalid status''))
                          | Some raw \<Rightarrow> Inr (status_from raw))),
                   close_body E res w1)))"

definition client_connector_status :: "'w http_env \<Rightarrow> int option \<Rightarrow> 'w connect_client \<Rightarrow> bytes \<Rightarrow> 'w \<Rightarrow>
    (capture_error + connector_status) \<times> 'w" where
  "client_connector_status E deadline c name = connector_status_of E deadline (cc_http c) (cc_url c) name"

end
