(* ===== verification/ConnectorLaws.thy ===== *)
theory ConnectorLaws
  imports Connector ProvisionLaws
begin

text \<open>
  No column or table name can change the query a connector runs for its snapshot, and the health of a connector is
  what Kafka Connect answered.
\<close>

section \<open>Reading a quoted identifier\<close>

text \<open>The lexical rule of PostgreSQL: a quoted identifier ends at a quote that is not doubled.\<close>

fun ident_body :: "bytes \<Rightarrow> (bytes \<times> bytes) option" where
  "ident_body [] = None"
| "ident_body [c] = (if c = CHR 0x22 then Some ([], []) else None)"
| "ident_body (c # d # s) =
     (if c \<noteq> CHR 0x22 then map_option (\<lambda>(name, rest). (c # name, rest)) (ident_body (d # s))
      else if d = CHR 0x22 then map_option (\<lambda>(name, rest). (c # name, rest)) (ident_body s)
      else Some ([], d # s))"

definition read_ident :: "bytes \<Rightarrow> (bytes \<times> bytes) option" where
  "read_ident s = (case s of c # r \<Rightarrow> if c = CHR 0x22 then ident_body r else None | [] \<Rightarrow> None)"

lemma ident_body_shorter: "ident_body s = Some (name, rest) \<Longrightarrow> length rest < length s"
  by (induction s arbitrary: name rest rule: ident_body.induct) (fastforce split: if_splits)+

lemma read_ident_shorter: "read_ident s = Some (name, rest) \<Longrightarrow> length rest < length s"
  by (auto simp: read_ident_def split: list.splits if_splits dest: ident_body_shorter)

function read_idents :: "bytes \<Rightarrow> (bytes list \<times> bytes) option" where
  "read_idents s =
     (case read_ident s of
        None \<Rightarrow> None
      | Some (name, rest) \<Rightarrow>
          if has_prefix rest '', ''
          then map_option (\<lambda>(names, r). (name # names, r)) (read_idents (drop 2 rest))
          else Some ([name], rest))"
  by pat_completeness auto
termination by (relation "measure length") (auto dest!: read_ident_shorter)

declare read_idents.simps [simp del]

definition expect :: "bytes \<Rightarrow> bytes \<Rightarrow> bytes option" where
  "expect p s = (if has_prefix s p then Some (drop (length p) s) else None)"

definition read_select :: "bytes \<Rightarrow> (bytes list \<times> bytes \<times> bytes) option" where
  "read_select s =
     (case Option.bind (expect ''SELECT '' s) read_idents of
        None \<Rightarrow> None
      | Some (columns, r1) \<Rightarrow>
          (case Option.bind (expect '' FROM public.'' r1) read_ident of
             None \<Rightarrow> None
           | Some (table, r2) \<Rightarrow>
               (case Option.bind (expect '' ORDER BY '' r2) read_ident of
                  None \<Rightarrow> None
                | Some (serial, r3) \<Rightarrow> if r3 = '' ASC'' then Some (columns, table, serial) else None)))"

definition doubled :: "bytes \<Rightarrow> bytes" where
  "doubled name = concat (map (\<lambda>c. if c = CHR 0x22 then [CHR 0x22, CHR 0x22] else [c]) name)"

lemma quote_ident_doubled: "quote_ident name = CHR 0x22 # doubled name @ [CHR 0x22]"
  by (simp add: quote_ident_def doubled_def)

lemma ident_body_doubled:
  "rest = [] \<or> hd rest \<noteq> CHR 0x22 \<Longrightarrow> ident_body (doubled name @ CHR 0x22 # rest) = Some (name, rest)"
proof (induction name)
  case Nil
  then show ?case by (cases rest) (auto simp: doubled_def)
next
  case (Cons c name)
  then have *: "ident_body (doubled name @ CHR 0x22 # rest) = Some (name, rest)" by blast
  show ?case
  proof (cases "c = CHR 0x22")
    case True
    with * show ?thesis by (simp add: doubled_def)
  next
    case False
    obtain d r where "doubled name @ CHR 0x22 # rest = d # r" by (cases "doubled name") auto
    with False * show ?thesis by (simp add: doubled_def)
  qed
qed

lemma read_quote_ident:
  "rest = [] \<or> hd rest \<noteq> CHR 0x22 \<Longrightarrow> read_ident (quote_ident name @ rest) = Some (name, rest)"
  by (simp add: quote_ident_doubled read_ident_def ident_body_doubled)

lemma read_idents_join:
  assumes "names \<noteq> []" "rest \<noteq> []" "hd rest = CHR '' ''"
  shows "read_idents (join '', '' (map quote_ident names) @ rest) = Some (names, rest)"
  using assms(1)
proof (induction names rule: list_nonempty_induct)
  case (single name)
  have "\<not> has_prefix rest '', ''" using assms(2,3) by (cases rest) auto
  with assms show ?case by (simp add: read_idents.simps [of "quote_ident name @ rest"] read_quote_ident)
next
  case (cons name names)
  obtain n ns where names: "names = n # ns" using cons(1) by (cases names) auto
  let ?tail = "join '', '' (map quote_ident names) @ rest"
  have "join '', '' (map quote_ident (name # names)) @ rest = quote_ident name @ '', '' @ ?tail"
    by (simp add: names)
  moreover have "read_ident (quote_ident name @ '', '' @ ?tail) = Some (name, '', '' @ ?tail)"
    by (rule read_quote_ident) simp
  ultimately show ?case
    using cons.IH by (simp add: read_idents.simps [of "quote_ident name @ _"])
qed

lemma expect_append [simp]: "expect p (p @ s) = Some s"
  by (simp add: expect_def)

text \<open>
  C14. The snapshot query reads back. Whatever bytes the names of the columns, the table and the serial column hold,
  quotes and SQL included, the statement is one SELECT of exactly the columns of the identity, in their order, from
  exactly the configured table of the public schema, ordered by exactly the configured serial column: a name cannot
  end its quotation and add to the query.
\<close>

theorem snapshot_select_reads_back:
  assumes "idn_columns identity \<noteq> []"
  shows "read_select (snapshot_select src identity) =
           Some (map col_name (idn_columns identity), src_table src, src_serial src)"
proof -
  let ?names = "map col_name (idn_columns identity)"
  let ?order = "'' ORDER BY '' @ quote_ident (src_serial src) @ '' ASC''"
  let ?from = "'' FROM public.'' @ quote_ident (src_table src) @ ?order"
  have "snapshot_select src identity = ''SELECT '' @ join '', '' (map quote_ident ?names) @ ?from"
    by (simp add: snapshot_select_def comp_def)
  then have "expect ''SELECT '' (snapshot_select src identity) = Some (join '', '' (map quote_ident ?names) @ ?from)"
    by (simp only: expect_append)
  moreover have "read_idents (join '', '' (map quote_ident ?names) @ ?from) = Some (?names, ?from)"
    by (rule read_idents_join) (use assms in simp_all)
  moreover have "expect '' FROM public.'' ?from = Some (quote_ident (src_table src) @ ?order)"
    by (rule expect_append)
  moreover have "read_ident (quote_ident (src_table src) @ ?order) = Some (src_table src, ?order)"
    by (rule read_quote_ident) simp
  moreover have "expect '' ORDER BY '' ?order = Some (quote_ident (src_serial src) @ '' ASC'')"
    by (rule expect_append)
  moreover have "read_ident (quote_ident (src_serial src) @ '' ASC'') = Some (src_serial src, '' ASC'')"
    by (rule read_quote_ident) simp
  ultimately show ?thesis
    by (simp only: read_select_def Option.bind.simps option.case prod.case refl if_True)
qed

text \<open>
  The list of columns to capture is separated by commas, which \<^verbatim>\<open>regexp.QuoteMeta\<close> leaves alone: one column whose name
  holds a comma is listed exactly as two columns are.
\<close>

lemma comma_splits_include_list:
  assumes "src_table src = ''t''"
  shows "include_list src (zero_identity\<lparr>idn_columns := [\<lparr>col_name = ''x,public.t.y'', col_type = ''text''\<rparr>]\<rparr>) =
         include_list src (zero_identity\<lparr>idn_columns :=
           [\<lparr>col_name = ''x'', col_type = ''text''\<rparr>, \<lparr>col_name = ''y'', col_type = ''text''\<rparr>]\<rparr>)"
  using assms by (simp add: include_list_def quote_meta_def regexp_special_def)

section \<open>The status\<close>

lemma task_failures_fst:
  "fst (task_failures tasks failed trace) \<longleftrightarrow> failed \<or> (\<exists>t \<in> set tasks. connector_state_of (ps_state t) = StateFailed)"
  by (induction tasks failed trace rule: task_failures.induct) auto

lemma connector_state_running [simp]: "connector_state_of s = StateRunning \<longleftrightarrow> s = ''RUNNING''"
  by (auto simp: connector_state_of_def)

lemma connector_state_failed [simp]: "connector_state_of s = StateFailed \<longleftrightarrow> s = ''FAILED''"
  by (auto simp: connector_state_of_def)

lemma inspect_connector_status:
  "cap_connector C (nm_connector n) w = (Inr st, w1) \<Longrightarrow>
     fst (inspect_connector C n w) =
       (if cs_failed st \<or> cs_connector st \<noteq> StateRunning \<or> cs_tasks st = []
        then unavailable ''capture connector unavailable''
        else if \<not> tasks_running (cs_tasks st) then unavailable ''capture task unavailable'' else None)"
  by (simp add: inspect_connector_def)

lemma status_from_fields [simp]:
  "cs_connector (status_from raw) = connector_state_of (ps_state (raw_connector raw))"
  "cs_tasks (status_from raw) = map (\<lambda>t. connector_state_of (ps_state t)) (raw_tasks raw)"
  "cs_failed (status_from raw) \<longleftrightarrow> ps_state (raw_connector raw) = ''FAILED'' \<or>
     (\<exists>t \<in> set (raw_tasks raw). ps_state t = ''FAILED'')"
  using task_failures_fst [of "raw_tasks raw" "connector_state_of (ps_state (raw_connector raw)) = StateFailed"
      "ps_trace (raw_connector raw)"]
  by (auto simp: status_from_def case_prod_beta)

definition status_request :: "'w connect_client \<Rightarrow> bytes \<Rightarrow> int option \<Rightarrow> request" where
  "status_request c name deadline =
     \<lparr>rq_method = ''GET'', rq_url = connector_url (cc_url c) name ''status'', rq_headers = [], rq_body = [],
      rq_deadline = deadline\<rparr>"

definition status_answer :: "'w http_env \<Rightarrow> int option \<Rightarrow> 'w connect_client \<Rightarrow> bytes \<Rightarrow> 'w \<Rightarrow> response option" where
  "status_answer E deadline c name w =
     (if he_url_error E (connector_url (cc_url c) name ''status'') \<noteq> None then None
      else (case fst (send_request E (cc_http c) (status_request c name deadline) w) of
              Inl _ \<Rightarrow> None | Inr res \<Rightarrow> Some res))"

lemma connector_status_answer:
  "fst (client_connector_status E deadline c name w) = Inl ConnectorMissing \<longleftrightarrow>
     (\<exists>res. status_answer E deadline c name w = Some res \<and> rs_status res = 404)"
  "fst (client_connector_status E deadline c name w) = Inr st \<longleftrightarrow>
     (\<exists>res raw. status_answer E deadline c name w = Some res \<and> rs_status res = 200 \<and>
        decode_status res = Some raw \<and> st = status_from raw)"
  "fst (client_connector_status E deadline c name w) = Inl e \<Longrightarrow> is_connector_missing e \<Longrightarrow> e = ConnectorMissing"
  by (auto simp: client_connector_status_def connector_status_of_def status_answer_def status_request_def Let_def
      split: option.splits prod.splits sum.splits if_splits)

text \<open>Inspection of a status this client decoded.\<close>

lemma inspect_decoded:
  assumes "cap_connector C (nm_connector n) w = (Inr (status_from raw), w1)"
  shows "fst (inspect_connector C n w) = None \<longleftrightarrow>
      ps_state (raw_connector raw) = ''RUNNING'' \<and> raw_tasks raw \<noteq> [] \<and> (\<forall>t \<in> set (raw_tasks raw). ps_state t = ''RUNNING'')"
    and "fst (inspect_connector C n w) \<in> {None, unavailable ''capture connector unavailable'',
      unavailable ''capture task unavailable''}"
proof -
  have "tasks_running (cs_tasks (status_from raw)) \<longleftrightarrow> (\<forall>t \<in> set (raw_tasks raw). ps_state t = ''RUNNING'')"
    by (simp add: tasks_running_def list_ex_iff comp_def)
  moreover have "cs_failed (status_from raw) \<longrightarrow> ps_state (raw_connector raw) \<noteq> ''RUNNING'' \<or>
      \<not> (\<forall>t \<in> set (raw_tasks raw). ps_state t = ''RUNNING'')"
    by simp force
  ultimately show "fst (inspect_connector C n w) = None \<longleftrightarrow>
      ps_state (raw_connector raw) = ''RUNNING'' \<and> raw_tasks raw \<noteq> [] \<and> (\<forall>t \<in> set (raw_tasks raw). ps_state t = ''RUNNING'')"
    and "fst (inspect_connector C n w) \<in> {None, unavailable ''capture connector unavailable'',
      unavailable ''capture task unavailable''}"
    by (auto simp: inspect_connector_status [OF assms] unavailable_def)
qed

text \<open>
  C16. The health of a connector is what Kafka Connect answered. Inspection through this client blocks a source for a
  missing connector exactly when Connect answered the request for its status with 404, and finds nothing wrong exactly
  when Connect answered 200 with a status whose connector is RUNNING and which has at least one task, all of them
  RUNNING. Every failure to ask, every other answer and every body that cannot be decoded leaves the source merely
  unavailable.
\<close>

theorem connector_health_is_the_answer:
  assumes "cap_connector C = client_connector_status E deadline c"
  shows "(fst (inspect_connector C n w) = blocked ''established connector missing'' \<longleftrightarrow>
           (\<exists>res. status_answer E deadline c (nm_connector n) w = Some res \<and> rs_status res = 404)) \<and>
         (fst (inspect_connector C n w) = None \<longleftrightarrow>
           (\<exists>res raw. status_answer E deadline c (nm_connector n) w = Some res \<and> rs_status res = 200 \<and>
              decode_status res = Some raw \<and> ps_state (raw_connector raw) = ''RUNNING'' \<and> raw_tasks raw \<noteq> [] \<and>
              (\<forall>t \<in> set (raw_tasks raw). ps_state t = ''RUNNING''))) \<and>
         fst (inspect_connector C n w) \<in> {None, blocked ''established connector missing'',
           unavailable ''capture connector unavailable'', unavailable ''capture task unavailable''}"
proof -
  let ?answer = "status_answer E deadline c (nm_connector n) w"
  obtain r w1 where r: "client_connector_status E deadline c (nm_connector n) w = (r, w1)"
    by (rule prod.exhaust)
  have missing: "r = Inl ConnectorMissing \<longleftrightarrow> (\<exists>res. ?answer = Some res \<and> rs_status res = 404)"
    and ok: "\<And>st. r = Inr st \<longleftrightarrow> (\<exists>res raw. ?answer = Some res \<and> rs_status res = 200 \<and>
        decode_status res = Some raw \<and> st = status_from raw)"
    and other: "\<And>e. r = Inl e \<Longrightarrow> is_connector_missing e \<Longrightarrow> e = ConnectorMissing"
    using connector_status_answer [of E deadline c "nm_connector n" w] r by simp_all
  show ?thesis
  proof (cases r)
    case (Inl e)
    have "is_connector_missing e \<longleftrightarrow> r = Inl ConnectorMissing" using other [OF Inl] Inl by auto
    moreover have "\<not> (\<exists>res raw. ?answer = Some res \<and> rs_status res = 200 \<and> decode_status res = Some raw)"
      using ok Inl by blast
    moreover have "fst (inspect_connector C n w) =
        (if is_connector_missing e then blocked ''established connector missing''
         else unavailable ''capture connector unavailable'')"
      using r Inl assms by (simp add: inspect_connector_def)
    ultimately show ?thesis
      using missing by (simp add: blocked_def unavailable_def)
  next
    case (Inr st)
    then obtain res raw where *: "?answer = Some res" "rs_status res = 200" "decode_status res = Some raw"
        "st = status_from raw"
      using ok by blast
    have call: "cap_connector C (nm_connector n) w = (Inr (status_from raw), w1)" using r Inr * assms by simp
    note verdict = inspect_decoded(1) [OF call] and rest = inspect_decoded(2) [OF call]
    have "fst (inspect_connector C n w) \<noteq> blocked ''established connector missing''"
      using rest by (auto simp: blocked_def unavailable_def)
    moreover have "\<not> (\<exists>res. ?answer = Some res \<and> rs_status res = 404)"
      using missing Inr by simp
    ultimately show ?thesis
      using verdict rest * by simp
  qed
qed

section \<open>Witnesses\<close>

text \<open>Names that try to end their quotation, and a Connect with one running task.\<close>

definition hostile_identity :: identity where
  "hostile_identity = zero_identity\<lparr>idn_columns :=
     [\<lparr>col_name = ''a'' @ [CHR 0x22] @ '' FROM x; --'', col_type = ''text''\<rparr>,
      \<lparr>col_name = [CHR 0x22, CHR 0x22] @ '', b'', col_type = ''int4''\<rparr>]\<rparr>"

definition hostile_source :: source where
  "hostile_source = \<lparr>src_id = ''s'', src_description = [], src_table = ''t'' @ [CHR 0x22] @ '';'', src_columns = [],
     src_serial = [CHR 0x22], src_partitioning = ''p''\<rparr>"

lemma snapshot_select_reads_back_witness:
  "read_select (snapshot_select hostile_source hostile_identity) =
     Some ([''a'' @ [CHR 0x22] @ '' FROM x; --'', [CHR 0x22, CHR 0x22] @ '', b''], ''t'' @ [CHR 0x22] @ '';'', [CHR 0x22])"
  using snapshot_select_reads_back [of hostile_identity hostile_source]
  by (simp add: hostile_identity_def hostile_source_def)

definition status_body :: bytes where
  \<open>status_body = ''{"name":"c","connector":{"state":"RUNNING","worker_id":"w:1"},"tasks":[{"id":0,"state":"RUNNING"}]} x''\<close>

definition running_connect :: "nat http_env" where
  "running_connect = \<lparr>he_url_error = (\<lambda>url. None),
     he_default = (\<lambda>req w. (Inr \<lparr>rs_status = (if w = 0 then 200 else 404), rs_body = status_body,
       rs_body_error = None, rs_lease = False\<rparr>, Suc w)),
     he_close = id, he_release = id, he_now = (\<lambda>_. 0)\<rparr>"

definition example_connect :: "nat connect_client" where
  "example_connect = \<lparr>cc_url = ''http://connect:8083/'', cc_http = None, cc_connections = []\<rparr>"

lemma status_body_decoded:
  "status_answer running_connect None example_connect ''c'' 0 =
     Some \<lparr>rs_status = 200, rs_body = status_body, rs_body_error = None, rs_lease = False\<rparr>"
  "decode_status \<lparr>rs_status = 200, rs_body = status_body, rs_body_error = None, rs_lease = False\<rparr> =
     Some \<lparr>raw_connector = \<lparr>ps_state = ''RUNNING'', ps_trace = []\<rparr>,
       raw_tasks = [\<lparr>ps_state = ''RUNNING'', ps_trace = []\<rparr>], raw_spare = []\<rparr>"
  by code_simp+

lemma connector_health_is_the_answer_witness:
  "\<exists>(C :: nat capture) n. nm_connector n = ''c'' \<and>
     fst (inspect_connector C n 0) = None \<and> fst (inspect_connector C n 1) = blocked ''established connector missing''"
proof -
  let ?C = "(up_capture None WALReserved)\<lparr>cap_connector := client_connector_status running_connect None example_connect\<rparr>"
  let ?n = "zero_names\<lparr>nm_connector := ''c''\<rparr>"
  have law: "cap_connector ?C = client_connector_status running_connect None example_connect" by simp
  have "fst (inspect_connector ?C ?n 0) = None"
    using connector_health_is_the_answer [OF law, of ?n 0] status_body_decoded by simp
  moreover have "fst (inspect_connector ?C ?n 1) = blocked ''established connector missing''"
    using connector_health_is_the_answer [OF law, of ?n 1]
    by (simp add: status_answer_def running_connect_def example_connect_def send_request_def)
  ultimately show ?thesis by (intro exI [of _ ?C] exI [of _ ?n]) simp
qed

end
