(* ===== verification/SourcePg.thy ===== *)
theory SourcePg
  imports Connector
begin

text \<open>
  \<^verbatim>\<open>internal/adapters/sourcepg/sourcepg.go\<close>: the inspection of a source database. Its queries read the
  system catalog, which is data here: every query sees some catalog, or fails. The credentials reach the driver in a
  URL, as \<^verbatim>\<open>net/url\<close> writes it.
\<close>

section \<open>The connection string\<close>

text \<open>\<^verbatim>\<open>shouldEscape\<close> of \<^verbatim>\<open>net/url\<close> for user and password, host, and path.\<close>

datatype url_part = UserPart | HostPart | PathPart

definition url_unreserved :: "char \<Rightarrow> bool" where
  "url_unreserved c \<longleftrightarrow> between 97 122 (byte c) \<or> between 65 90 (byte c) \<or> is_digit c \<or> c \<in> set ''-_.~''"

definition url_allowed :: "url_part \<Rightarrow> char \<Rightarrow> bool" where
  "url_allowed part c \<longleftrightarrow>
     url_unreserved c \<or>
     (case part of
        UserPart \<Rightarrow> c \<in> set ''$&+,;=''
      | HostPart \<Rightarrow> c \<in> set ''!$&()*+,;=:[]<>'' \<or> c = CHR 0x27 \<or> c = CHR 0x22
      | PathPart \<Rightarrow> c \<in> set ''$&+,/:;=@'')"

definition upper_hex :: "nat \<Rightarrow> char" where
  "upper_hex d = (if d < 10 then chr (48 + d) else chr (55 + d))"

definition url_escape :: "url_part \<Rightarrow> bytes \<Rightarrow> bytes" where
  "url_escape part s =
     concat (map (\<lambda>c. if url_allowed part c then [c]
                       else [CHR ''%'', upper_hex (byte c div 16), upper_hex (byte c mod 16)]) s)"

definition conn_string :: "connection \<Rightarrow> bytes" where
  "conn_string c =
     ''postgres://'' @ url_escape UserPart (cx_username c) @ '':'' @ url_escape UserPart (cx_password c) @ ''@'' @
     url_escape HostPart (cx_host c @ '':'' @ int_str (cx_port c)) @ url_escape PathPart (''/'' @ cx_database c)"

section \<open>Clients\<close>

text \<open>A client has a pool on a connection string, or the reason why it has none.\<close>

record source_client =
  sp_source :: source
  sp_pool :: "bytes option"
  sp_error :: bytes

text \<open>\<open>pd_parse\<close> and \<open>pd_open\<close> are the errors of the driver for a connection string.\<close>

record pg_driver =
  pd_parse :: "bytes \<Rightarrow> bytes option"
  pd_open :: "bytes \<Rightarrow> bytes option"

definition open_source :: "pg_driver \<Rightarrow> source \<Rightarrow> connection \<Rightarrow> source_client" where
  "open_source D src connection =
     (let url = conn_string connection in
      case pd_parse D url of
        Some e \<Rightarrow> \<lparr>sp_source = src, sp_pool = None, sp_error = ''capture: configure pool for '' @ src_id src @ '': '' @ e\<rparr>
      | None \<Rightarrow>
          (case pd_open D url of
             Some e \<Rightarrow> \<lparr>sp_source = src, sp_pool = None, sp_error = ''capture: open pool for '' @ src_id src @ '': '' @ e\<rparr>
           | None \<Rightarrow> \<lparr>sp_source = src, sp_pool = Some url, sp_error = []\<rparr>))"

section \<open>The catalog\<close>

text \<open>Rows of \<^verbatim>\<open>pg_class\<close>, \<^verbatim>\<open>pg_attribute\<close> and \<^verbatim>\<open>pg_index\<close>, with the names of their namespace and type.\<close>

record class_row =
  pc_oid :: nat
  pc_namespace :: bytes
  pc_name :: bytes
  pc_kind :: char

record attribute_row =
  pa_class :: nat
  pa_name :: bytes
  pa_type :: bytes
  pa_not_null :: bool
  pa_number :: int
  pa_dropped :: bool

record index_row =
  px_class :: nat
  px_key :: "int list"
  px_unique :: bool
  px_primary :: bool

record catalog =
  ct_classes :: "class_row list"
  ct_attributes :: "attribute_row list"
  ct_indexes :: "index_row list"
  ct_slots :: "(bytes \<times> bytes option) list"

text \<open>One query through the pool: its error, or the catalog it saw.\<close>

type_synonym 'w catalog_query = "bytes \<Rightarrow> 'w \<Rightarrow> (bytes + catalog) \<times> 'w"

definition public_class :: "bytes \<Rightarrow> class_row \<Rightarrow> bool" where
  "public_class table c \<longleftrightarrow> pc_namespace c = ''public'' \<and> pc_name c = table"

definition table_exists :: "catalog \<Rightarrow> bytes \<Rightarrow> bool" where
  "table_exists cat table \<longleftrightarrow>
     list_ex (\<lambda>c. public_class table c \<and> (pc_kind c = CHR ''r'' \<or> pc_kind c = CHR ''p'')) (ct_classes cat)"

definition column_rows :: "catalog \<Rightarrow> bytes \<Rightarrow> (bytes \<times> column_facts) list" where
  "column_rows cat table =
     [(pa_name a, \<lparr>cf_type = pa_type a, cf_not_null = pa_not_null a\<rparr>).
        a \<leftarrow> ct_attributes cat, c \<leftarrow> ct_classes cat,
        pc_oid c = pa_class a \<and> public_class table c \<and> 0 < pa_number a \<and> \<not> pa_dropped a]"

definition serial_unique_index :: "catalog \<Rightarrow> bytes \<Rightarrow> bytes \<Rightarrow> bool" where
  "serial_unique_index cat table serial \<longleftrightarrow>
     list_ex (\<lambda>i. list_ex (\<lambda>c. list_ex (\<lambda>a.
         pc_oid c = px_class i \<and> pa_class a = pc_oid c \<and> pa_number a \<in> set (px_key i) \<and>
         public_class table c \<and> pa_name a = serial \<and> (px_unique i \<or> px_primary i) \<and> length (px_key i) = 1)
       (ct_attributes cat)) (ct_classes cat)) (ct_indexes cat)"

text \<open>
  \<^verbatim>\<open>InspectTable\<close>. The rows make a map, in which a later row replaces an earlier one of the same name.
\<close>

definition inspect_table :: "'w catalog_query \<Rightarrow> source_client \<Rightarrow> 'w \<Rightarrow> (capture_error + table_facts) \<times> 'w" where
  "inspect_table query c w =
     (let table = src_table (sp_source c); serial = src_serial (sp_source c) in
      case sp_pool c of
        None \<Rightarrow> (Inl (Plain (sp_error c)), w)
      | Some pool \<Rightarrow>
          (case query pool w of
             (Inl e, w1) \<Rightarrow> (Inl (Plain (''capture: check table public.'' @ table @ '' exists: '' @ e)), w1)
           | (Inr cat1, w1) \<Rightarrow>
               if \<not> table_exists cat1 table
               then (Inr \<lparr>tf_exists = False, tf_columns = [], tf_serial_unique = False\<rparr>, w1)
               else (case query pool w1 of
                       (Inl e, w2) \<Rightarrow> (Inl (Plain (''capture: read columns of public.'' @ table @ '': '' @ e)), w2)
                     | (Inr cat2, w2) \<Rightarrow>
                         (case query pool w2 of
                            (Inl e, w3) \<Rightarrow>
                              (Inl (Plain (''capture: check unique index on serialColumn '' @ quote serial @ '': '' @ e)), w3)
                          | (Inr cat3, w3) \<Rightarrow>
                              (Inr \<lparr>tf_exists = True, tf_columns = rev (column_rows cat2 table),
                                    tf_serial_unique = serial_unique_index cat3 table serial\<rparr>, w3)))))"

definition wal_status_of :: "bytes \<Rightarrow> wal_status" where
  "wal_status_of s =
     (if s = ''reserved'' then WALReserved else if s = ''extended'' then WALExtended
      else if s = ''unreserved'' then WALUnreserved else if s = ''lost'' then WALLost else WALOther s)"

definition slot_health :: "'w catalog_query \<Rightarrow> source_client \<Rightarrow> bytes \<Rightarrow> 'w \<Rightarrow> (capture_error + slot_status) \<times> 'w" where
  "slot_health query c sl w =
     (case sp_pool c of
        None \<Rightarrow> (Inl (Plain (sp_error c)), w)
      | Some pool \<Rightarrow>
          (case query pool w of
             (Inl e, w1) \<Rightarrow> (Inl (Plain (''capture: query pg_replication_slots for '' @ quote sl @ '': '' @ e)), w1)
           | (Inr cat, w1) \<Rightarrow>
               (case map_of (ct_slots cat) sl of
                  None \<Rightarrow> (Inr \<lparr>sl_exists = False, sl_wal = WALOther []\<rparr>, w1)
                | Some None \<Rightarrow> (Inr \<lparr>sl_exists = True, sl_wal = WALOther []\<rparr>, w1)
                | Some (Some s) \<Rightarrow> (Inr \<lparr>sl_exists = True, sl_wal = wal_status_of s\<rparr>, w1))))"

end
