(* ===== verification/SourceLaws.thy ===== *)
theory SourceLaws
  imports SourcePg ConnectorLaws
begin

text \<open>The credentials of a source survive the URL they are handed to the driver in.\<close>

section \<open>Escaping\<close>

fun url_unescape :: "bytes \<Rightarrow> bytes" where
  "url_unescape (p # a # b # s) =
     (if p = CHR ''%'' then chr (hexval a * 16 + hexval b) # url_unescape s else p # url_unescape (a # b # s))"
| "url_unescape (c # s) = c # url_unescape s"
| "url_unescape [] = []"

lemma upper_hex_byte: "d < 16 \<Longrightarrow> byte (upper_hex d) = (if d < 10 then 48 + d else 55 + d)"
  by (simp add: upper_hex_def)

lemma byte_nibble: "byte c div 16 < 16"
  using byte_less [of c] by linarith

lemma byte_nibble_le: "byte c div 16 \<le> 15"
  using byte_nibble [of c] by linarith

lemma hexval_upper_hex: "d < 16 \<Longrightarrow> hexval (upper_hex d) = d"
  by (simp add: hexval_def upper_hex_byte)

lemma percent_escaped: "\<not> url_allowed part CHR ''%''"
  by (cases part) (simp_all add: url_allowed_def url_unreserved_def between_def is_digit_def)

lemma url_unescape_plain: "c \<noteq> CHR ''%'' \<Longrightarrow> url_unescape (c # s) = c # url_unescape s"
  by (cases "(c # s)" rule: url_unescape.cases) simp_all

lemma url_unescape_escape [simp]: "url_unescape (url_escape part s) = s"
proof (induction s)
  case (Cons c s)
  show ?case
  proof (cases "url_allowed part c")
    case True
    then have "c \<noteq> CHR ''%''" using percent_escaped by metis
    with True Cons show ?thesis by (simp add: url_escape_def url_unescape_plain)
  next
    case False
    have "byte c div 16 * 16 + byte c mod 16 = byte c" "byte c mod 16 < 16"
      by simp_all
    with False Cons byte_nibble [of c] show ?thesis
      by (simp add: url_escape_def hexval_upper_hex)
  qed
qed (simp add: url_escape_def)

lemma escaped_chars: "c \<in> set (url_escape part s) \<Longrightarrow> url_allowed part c \<or> c = CHR ''%'' \<or> between 48 57 (byte c) \<or> between 65 70 (byte c)"
  using byte_nibble byte_nibble_le by (auto simp: url_escape_def between_def upper_hex_byte split: if_splits)

lemma escaped_no:
  "CHR ''/'' \<notin> set (url_escape UserPart s)" "CHR ''@'' \<notin> set (url_escape UserPart s)"
  "CHR '':'' \<notin> set (url_escape UserPart s)"
  "CHR ''/'' \<notin> set (url_escape HostPart s)" "CHR ''@'' \<notin> set (url_escape HostPart s)"
  by (auto dest!: escaped_chars simp: url_allowed_def url_unreserved_def between_def is_digit_def)

section \<open>Reading the URL back\<close>

definition split_last :: "char \<Rightarrow> bytes \<Rightarrow> bytes \<times> bytes" where
  "split_last c s = (rev (tl (dropWhile (\<lambda>d. d \<noteq> c) (rev s))), rev (takeWhile (\<lambda>d. d \<noteq> c) (rev s)))"

lemma split_last_append:
  assumes "c \<notin> set b"
  shows "split_last c (a @ c # b) = (a, b)"
proof -
  have "\<forall>x \<in> set (rev b). x \<noteq> c" using assms by auto
  then show ?thesis
    by (simp add: split_last_def takeWhile_all dropWhile_all)
qed

text \<open>User, password, host, port and database of a URL: the parts as RFC 3986 separates them, unescaped.\<close>

definition read_conn_string :: "bytes \<Rightarrow> (bytes \<times> bytes \<times> bytes \<times> bytes \<times> bytes) option" where
  "read_conn_string s =
     (case expect ''postgres://'' s of
        None \<Rightarrow> None
      | Some r \<Rightarrow>
          let authority = takeWhile (\<lambda>c. c \<noteq> CHR ''/'') r;
              path = dropWhile (\<lambda>c. c \<noteq> CHR ''/'') r;
              (userinfo, hostport) = split_last CHR ''@'' authority;
              (user, password, _) = cut CHR '':'' userinfo;
              (host, port) = split_last CHR '':'' (url_unescape hostport)
          in Some (url_unescape user, url_unescape password, host, port, drop 1 (url_unescape path)))"

lemma colon_not_in_int_str: "CHR '':'' \<notin> set (int_str i)"
  by (simp add: int_str_def nat_str_no_char is_digit_def)

text \<open>
  C15. The connection string loses nothing. Whatever bytes the user name, the password, the host and the database name
  hold, the URL handed to the driver separates into exactly these parts again, and the port: no credential can move
  into another part of the URL, or name another host or database.
\<close>

theorem conn_string_reads_back:
  "read_conn_string (conn_string c) =
     Some (cx_username c, cx_password c, cx_host c, int_str (cx_port c), cx_database c)"
proof -
  let ?user = "url_escape UserPart (cx_username c) @ CHR '':'' # url_escape UserPart (cx_password c)"
  let ?host = "url_escape HostPart (cx_host c @ CHR '':'' # int_str (cx_port c))"
  let ?path = "url_escape PathPart (CHR ''/'' # cx_database c)"
  have path: "?path = CHR ''/'' # url_escape PathPart (cx_database c)"
    by (simp add: url_escape_def url_allowed_def)
  have *: "expect ''postgres://'' (conn_string c) = Some ((?user @ CHR ''@'' # ?host) @ ?path)"
    unfolding expect_append [symmetric, of "(?user @ CHR ''@'' # ?host) @ ?path" "''postgres://''"]
    by (simp add: conn_string_def)
  have "\<forall>x \<in> set (?user @ CHR ''@'' # ?host). x \<noteq> CHR ''/''"
    using escaped_no by auto
  then have auth: "takeWhile (\<lambda>x. x \<noteq> CHR ''/'') ((?user @ CHR ''@'' # ?host) @ ?path) = ?user @ CHR ''@'' # ?host"
      "dropWhile (\<lambda>x. x \<noteq> CHR ''/'') ((?user @ CHR ''@'' # ?host) @ ?path) = ?path"
    by (simp_all only: takeWhile_all dropWhile_all path) simp_all
  have user: "split_last CHR ''@'' (?user @ CHR ''@'' # ?host) = (?user, ?host)"
    by (rule split_last_append) (rule escaped_no)
  have parts: "cut CHR '':'' ?user = (url_escape UserPart (cx_username c), url_escape UserPart (cx_password c), True)"
    by (rule cut_append) (rule escaped_no)
  have host: "split_last CHR '':'' (cx_host c @ CHR '':'' # int_str (cx_port c)) = (cx_host c, int_str (cx_port c))"
    by (rule split_last_append) (rule colon_not_in_int_str)
  show ?thesis
    by (simp only: read_conn_string_def * option.case Let_def auth user parts prod.case url_unescape_escape host) simp
qed

end
