(* ===== verification/Operator.thy ===== *)
theory Operator
  imports Control
begin

text \<open>
  \<^verbatim>\<open>internal/adapters/operator/server.go\<close>: the operator API. A reply is its status and the value sent as JSON;
  the JSON encoder is not modelled. Routing is that of \<^verbatim>\<open>http.ServeMux\<close>: the escaped path is cleaned, a path that
  is not clean is redirected, and the longest pattern that matches serves the request.
\<close>

section \<open>Requests and replies\<close>

record http_request =
  hq_method :: bytes
  hq_escaped :: bytes
  hq_path :: bytes
  hq_authorization :: bytes
  hq_after :: bytes

datatype reply_body =
    Empty
  | Message bytes
  | StatusBody engine_status
  | ViewsBody "subscription_view list"
  | ViewBody subscription_view
  | FailureBody bytes subscription_view
  | PageBody page

record reply =
  rp_status :: int
  rp_body :: reply_body

record 'w backend =
  bk_status :: "'w \<Rightarrow> engine_status"
  bk_subscriptions :: "'w \<Rightarrow> subscription_view list"
  bk_change :: "bytes \<Rightarrow> bytes \<Rightarrow> ('w, subscription_view \<times> go_error option) prog"
  bk_logs :: "bytes \<Rightarrow> ('w, page \<times> bool) prog"

text \<open>\<open>sv_redirect\<close> is the status with which the router redirects, which depends on the Go release.\<close>

record 'w server =
  sv_redirect :: int
  sv_token :: bytes
  sv_backend :: "'w backend"

type_synonym 'w handler = "http_request \<Rightarrow> ('w, reply) prog"

section \<open>Paths\<close>

text \<open>
  \<^verbatim>\<open>path.Clean\<close> of a rooted path, segment by segment: empty segments and \<^verbatim>\<open>.\<close> vanish, \<^verbatim>\<open>..\<close> takes the last
  one back. \<^verbatim>\<open>cleanPath\<close> keeps a trailing slash.
\<close>

fun clean_segments :: "bytes list \<Rightarrow> bytes list \<Rightarrow> bytes list" where
  "clean_segments [] out = rev out"
| "clean_segments (s # ss) out =
     (if s = [] \<or> s = ''.'' then clean_segments ss out
      else if s = ''..'' then clean_segments ss (tl out)
      else clean_segments ss (s # out))"

definition clean_path :: "bytes \<Rightarrow> bytes" where
  "clean_path p =
     (if p = [] then ''/''
      else
        let q = (if hd p = CHR ''/'' then p else CHR ''/'' # p);
            np = CHR ''/'' # join ''/'' (clean_segments (split_on (CHR ''/'') q) [])
        in if last q = CHR ''/'' \<and> np \<noteq> ''/'' then np @ ''/'' else np)"

definition subscriptions_prefix :: bytes where
  "subscriptions_prefix = ''/v1/subscriptions/''"

text \<open>\<^verbatim>\<open>subscriptionAction\<close>: the subscription and the state asked for.\<close>

definition subscription_action :: "bytes \<Rightarrow> (bytes \<times> bytes) option" where
  "subscription_action path =
     (case split_on (CHR ''/'') (trim_prefix path subscriptions_prefix) of
        [i, action] \<Rightarrow>
          if action = ''pause'' then Some (i, state_paused)
          else if action = ''resume'' then Some (i, state_running) else None
      | _ \<Rightarrow> None)"

section \<open>Handlers\<close>

definition answer_with :: "int \<Rightarrow> reply_body \<Rightarrow> ('w, reply) prog" where
  "answer_with code body = retp \<lparr>rp_status = code, rp_body = body\<rparr>"

definition not_found :: "('w, reply) prog" where
  "not_found = answer_with 404 (Message ''404 page not found'')"

definition authorized :: "bytes \<Rightarrow> bytes \<Rightarrow> bool" where
  "authorized token header \<longleftrightarrow> token \<noteq> [] \<and> trim_prefix header ''Bearer '' = token"

definition auth :: "'w server \<Rightarrow> 'w handler \<Rightarrow> 'w handler" where
  "auth S next r =
     (if \<not> authorized (sv_token S) (hq_authorization r) then answer_with 401 (Message ''unauthorized'') else next r)"

definition live :: "'w handler" where
  "live r = answer_with 200 Empty"

definition ready_probe :: "'w server \<Rightarrow> 'w handler" where
  "ready_probe S r w =
     (if es_status (bk_status (sv_backend S) w) \<noteq> status_ready then answer_with 503 Empty w else answer_with 200 Empty w)"

definition status_handler :: "'w server \<Rightarrow> 'w handler" where
  "status_handler S r w = answer_with 200 (StatusBody (bk_status (sv_backend S) w)) w"

definition subscriptions_handler :: "'w server \<Rightarrow> 'w handler" where
  "subscriptions_handler S r w = answer_with 200 (ViewsBody (bk_subscriptions (sv_backend S) w)) w"

definition logs_handler :: "'w server \<Rightarrow> 'w handler" where
  "logs_handler S r =
     bindp (bk_logs (sv_backend S) (hq_after r))
       (\<lambda>(page, bad). if bad then answer_with 400 (Message ''invalid log cursor'') else answer_with 200 (PageBody page))"

definition change_failure_status :: "go_error \<Rightarrow> int" where
  "change_failure_status e = (if e = DeadlineExceeded \<or> e = Canceled then 504 else 503)"

definition subscription_handler :: "'w server \<Rightarrow> 'w handler" where
  "subscription_handler S r =
     (case subscription_action (hq_path r) of
        None \<Rightarrow> not_found
      | Some (i, state) \<Rightarrow>
          if hq_method r \<noteq> ''POST'' then not_found
          else bindp (bk_change (sv_backend S) i state)
            (\<lambda>(item, err). case err of
               None \<Rightarrow> answer_with 200 (ViewBody item)
             | Some e \<Rightarrow>
                 if e = NotFound then not_found
                 else answer_with (change_failure_status e) (FailureBody ''control operation incomplete'' item)))"

definition route_request :: "'w server \<Rightarrow> bytes \<Rightarrow> 'w handler option" where
  "route_request S path =
     (if path = ''/health/live'' then Some live
      else if path = ''/health/ready'' then Some (ready_probe S)
      else if path = ''/v1/status'' then Some (auth S (status_handler S))
      else if path = ''/v1/subscriptions'' then Some (auth S (subscriptions_handler S))
      else if has_prefix path subscriptions_prefix then Some (auth S (subscription_handler S))
      else if path = ''/v1/logs'' then Some (auth S (logs_handler S))
      else None)"

definition serve :: "'w server \<Rightarrow> 'w handler" where
  "serve S r =
     (let path = (if hq_method r = ''CONNECT'' then hq_escaped r else clean_path (hq_escaped r))
      in if path \<noteq> hq_escaped r then answer_with (sv_redirect S) (Message path)
         else (case route_request S path of None \<Rightarrow> not_found | Some h \<Rightarrow> h r))"

section \<open>The engine behind it\<close>

definition service_backend :: "nat \<Rightarrow> ('c, 'w) env \<Rightarrow> ('w \<Rightarrow> log) \<Rightarrow> ('c service \<times> 'w) backend" where
  "service_backend fuel E log_of =
     \<lparr>bk_status = (\<lambda>x. status_of (fst x)), bk_subscriptions = (\<lambda>x. subscriptions_of (fst x)),
      bk_change = (\<lambda>i state. run_state (change_state fuel E i state)),
      bk_logs = (\<lambda>cursor x. (read_log cursor (log_of (snd x)), x))\<rparr>"

definition new_server :: "int \<Rightarrow> bytes \<Rightarrow> 'w backend \<Rightarrow> 'w server" where
  "new_server redirect token backend = \<lparr>sv_redirect = redirect, sv_token = token, sv_backend = backend\<rparr>"

end
