(* ===== verification/OperatorLaws.thy ===== *)
theory OperatorLaws
  imports Operator Convergence
begin

text \<open>
  What a request can do: without the token nothing, with it a read or one change; and a change answered with 200
  has converged (theory \<open>Convergence\<close>).
\<close>

section \<open>Requests without the token\<close>

lemma auth_refused:
  assumes "\<not> authorized (sv_token S) (hq_authorization r)"
  shows "auth S h r = answer_with 401 (Message ''unauthorized'')"
  using assms by (simp add: auth_def)

text \<open>The reply to a request that is not authorized, outside the probes.\<close>

definition refusal :: "int \<Rightarrow> http_request \<Rightarrow> reply" where
  "refusal redirect r =
     (let path = (if hq_method r = ''CONNECT'' then hq_escaped r else clean_path (hq_escaped r))
      in if path \<noteq> hq_escaped r then \<lparr>rp_status = redirect, rp_body = Message path\<rparr>
         else if path = ''/v1/status'' \<or> path = ''/v1/logs'' \<or> path = ''/v1/subscriptions'' \<or>
                 has_prefix path subscriptions_prefix
         then \<lparr>rp_status = 401, rp_body = Message ''unauthorized''\<rparr>
         else \<lparr>rp_status = 404, rp_body = Message ''404 page not found''\<rparr>)"

lemma serve_refused:
  assumes "\<not> authorized token (hq_authorization r)" and "hq_escaped r \<noteq> ''/health/live''" "hq_escaped r \<noteq> ''/health/ready''"
  shows "serve (new_server redirect token B) r w = (Some (refusal redirect r), w)"
  using assms
  by (auto simp: serve_def route_request_def auth_def new_server_def refusal_def answer_with_def retp_def not_found_def
      Let_def)

section \<open>Changes\<close>

text \<open>Only the handler of one subscription answers with the view of a subscription.\<close>

lemma served_view:
  assumes run: "serve S r w = (Some \<lparr>rp_status = code, rp_body = ViewBody v\<rparr>, w')"
  shows "authorized (sv_token S) (hq_authorization r) \<and> has_prefix (hq_escaped r) subscriptions_prefix \<and>
    subscription_handler S r w = (Some \<lparr>rp_status = code, rp_body = ViewBody v\<rparr>, w')"
proof -
  have other: "\<not> (\<exists>code v w'. logs_handler S r w = (Some \<lparr>rp_status = code, rp_body = ViewBody v\<rparr>, w'))"
    by (auto simp: logs_handler_def answer_with_def retp_def bindp_eq_Some split: prod.splits if_splits)
  from run other show ?thesis
    by (auto simp: serve_def route_request_def auth_def live_def ready_probe_def status_handler_def
        subscriptions_handler_def not_found_def answer_with_def retp_def Let_def split: if_splits)
qed

lemma subscription_view:
  assumes "subscription_handler S r w = (Some \<lparr>rp_status = code, rp_body = ViewBody v\<rparr>, w')"
  shows "\<exists>i state. hq_method r = ''POST'' \<and> subscription_action (hq_path r) = Some (i, state) \<and>
    bk_change (sv_backend S) i state w = (Some (v, None), w')"
  using assms
  by (auto simp: subscription_handler_def not_found_def answer_with_def retp_def bindp_eq_Some
      split: option.splits if_splits prod.splits) (metis not_Some_eq)

section \<open>Properties\<close>

text \<open>
  C10. Without the token the API gives nothing away and changes nothing: whatever engine is behind it, a request
  outside the two probes whose header is neither the token nor \<^verbatim>\<open>Bearer\<close> and the token gets the same reply (401,
  404 or a redirect of its own path), and the engine is left as it was. An empty token authorizes nobody.
\<close>

theorem api_requires_token:
  assumes "token = [] \<or> hq_authorization r \<notin> {token, ''Bearer '' @ token}"
    and "hq_escaped r \<noteq> ''/health/live''" and "hq_escaped r \<noteq> ''/health/ready''"
  shows "\<exists>a. (\<forall>(B :: 'w backend) w. serve (new_server redirect token B) r w = (Some a, w)) \<and>
    rp_status a \<in> {401, 404, redirect} \<and> rp_body a \<in> Message ` UNIV"
proof -
  have "\<not> authorized token (hq_authorization r)"
    using assms(1) has_prefixD [of "hq_authorization r" "''Bearer ''"]
    by (auto simp: authorized_def trim_prefix_def split: if_splits)
  from serve_refused [OF this assms(2,3)] show ?thesis
    by (intro exI [of _ "refusal redirect r"]) (auto simp: refusal_def Let_def)
qed

definition guessed_pause :: http_request where
  "guessed_pause =
     \<lparr>hq_method = ''POST'', hq_escaped = ''/v1/subscriptions/billing/pause'', hq_path = ''/v1/subscriptions/billing/pause'',
      hq_authorization = ''Bearer guess'', hq_after = []\<rparr>"

lemma api_requires_token_witness:
  "\<exists>a. serve (new_server 301 ''secret'' (service_backend 1 (calm_env state_paused) (\<lambda>_. new_log ''b'' True))) guessed_pause
      (billing_service, ()) = (Some a, billing_service, ()) \<and> rp_status a \<in> {401, 404, 301}"
  using api_requires_token [of "''secret''" guessed_pause 301] by (fastforce simp: guessed_pause_def)

text \<open>
  C11. A change acknowledged with 200 and the view of the subscription has converged: it was a \<^verbatim>\<open>POST\<close> with the token
  to the pause or resume path of the subscription; between the store as the request found it and the store as it left it the
  decision was written by \<^verbatim>\<open>SetDesired\<close> under some revision; and in the store of the moment of the answer every worker
  with a live lease, and there is one, has recorded reaching that state for that revision or a later one.
\<close>

theorem acknowledged_change_converged:
  fixes E :: "('c, pg \<times> 'x) env"
  assumes between: "\<forall>w s. store_step\<^sup>*\<^sup>* (fst w) (fst (snd (env_between E w))) \<and>
      svc_scope (fst (env_between E w) s) = svc_scope s"
    and poll: "\<forall>w. store_step\<^sup>*\<^sup>* (fst w) (fst (snd (env_poll E w))) \<and>
      (fst (env_poll E w) \<or> fst (env_err E (snd (env_poll E w))) \<noteq> None)"
    and run: "serve (new_server redirect token (service_backend fuel (with_store E) log_of)) r (s, w) =
      (Some \<lparr>rp_status = code, rp_body = ViewBody v\<rparr>, x')"
  shows "\<exists>i state. token \<noteq> [] \<and> hq_authorization r \<in> {token, ''Bearer '' @ token} \<and> hq_method r = ''POST'' \<and>
    subscription_action (hq_path r) = Some (i, state) \<and> vw_state v = state \<and> vw_desired v = state \<and>
    decided_and_observed (svc_scope s) i state (fst w) (fst (snd x'))"
proof -
  from served_view [OF run] have auth: "authorized token (hq_authorization r)"
    and view: "subscription_handler (new_server redirect token (service_backend fuel (with_store E) log_of)) r (s, w) =
      (Some \<lparr>rp_status = code, rp_body = ViewBody v\<rparr>, x')" by (simp_all add: new_server_def)
  from subscription_view [OF view] obtain i state where req: "hq_method r = ''POST''"
    "subscription_action (hq_path r) = Some (i, state)"
    and change: "run_state (change_state fuel (with_store E) i state) (s, w) = (Some (v, None), x')"
    by (auto simp: new_server_def service_backend_def)
  from auth have "token \<noteq> []" "hq_authorization r \<in> {token, ''Bearer '' @ token}"
    using has_prefixD [of "hq_authorization r" "''Bearer ''"]
    by (auto simp: authorized_def trim_prefix_def split: if_splits)
  with req change_state_converges [OF between poll change] show ?thesis by blast
qed

definition authorized_pause :: http_request where
  "authorized_pause = guessed_pause\<lparr>hq_authorization := ''Bearer secret''\<rparr>"

abbreviation paused_server :: "(nat service \<times> pg \<times> unit) server" where
  "paused_server \<equiv> new_server 301 ''secret'' (service_backend 1 (with_store store_calm) (\<lambda>_. new_log ''b'' True))"

lemma acknowledged_change_converged_witness:
  "\<exists>i state. subscription_action (hq_path authorized_pause) = Some (i, state) \<and> state = state_paused \<and>
    decided_and_observed (svc_scope paused_service) i state observed_pg
      (fst (snd (snd (serve paused_server authorized_pause (paused_service, (observed_pg, ()))))))"
proof -
  have "fst (serve paused_server authorized_pause (paused_service, (observed_pg, ()))) =
      Some \<lparr>rp_status = 200, rp_body = ViewBody paused_view\<rparr>"
    by code_simp
  then have run: "serve paused_server authorized_pause (paused_service, (observed_pg, ())) =
      (Some \<lparr>rp_status = 200, rp_body = ViewBody paused_view\<rparr>,
       snd (serve paused_server authorized_pause (paused_service, (observed_pg, ()))))"
    by (simp add: prod_eq_iff)
  have "vw_state paused_view = state_paused" by (simp add: paused_view_def)
  moreover have "env_between store_calm w = (id, w)" "env_poll store_calm w = (True, w)" for w by (simp_all add: store_calm_def)
  ultimately show ?thesis using acknowledged_change_converged [OF _ _ run] by auto
qed

end
