(* ===== verification/Config.thy ===== *)
theory Config
  imports Delivery
begin

text \<open>
  \<^verbatim>\<open>internal/config\<close>: the configuration types (\<^verbatim>\<open>config.go\<close>), their validation (\<^verbatim>\<open>validate.go\<close>), and loading
  with the expansion of \<^verbatim>\<open>${NAME}\<close> references (\<^verbatim>\<open>load.go\<close>). Reading files, the YAML parser and its decoder
  are parameters; the tree the parser gives is a \<open>yaml\<close>.
\<close>

section \<open>Types\<close>

record source_config =
  so_id :: bytes
  so_description :: bytes
  so_type :: bytes
  so_host :: bytes
  so_port :: int
  so_username :: bytes
  so_password :: bytes
  so_database :: bytes
  so_table :: bytes
  so_columns :: "bytes list"
  so_serial :: bytes
  so_partitioning :: bytes

definition source_postgres :: bytes where
  "source_postgres = ''postgres''"

record filter_config =
  fi_column :: bytes
  fi_values :: "bytes list"

record destination_config =
  de_id :: bytes
  de_description :: bytes
  de_type :: bytes
  de_endpoint :: bytes
  de_username :: bytes
  de_password :: bytes
  de_sources :: "bytes list"
  de_filter :: "filter_config option"

definition destination_http_push :: bytes where
  "destination_http_push = ''http-push''"

record application =
  ap_sources :: "source_config list"
  ap_destinations :: "destination_config list"

text \<open>Durations are in nanoseconds; \<open>en_sources\<close> gives the publication of the sources with a policy.\<close>

record engine_config =
  en_version :: int
  en_namespace :: bytes
  en_environment :: bytes
  en_application_config :: bytes
  en_brokers :: "bytes list"
  en_partitions :: int
  en_replication :: int
  en_connect_url :: bytes
  en_listen :: bytes
  en_token_file :: bytes
  en_database_url :: bytes
  en_request_timeout :: int
  en_drain_timeout :: int
  en_sources :: "(bytes \<times> bytes) list"

section \<open>Validation\<close>

definition validate_source :: "source_config \<Rightarrow> go_error option" where
  "validate_source s =
     (let what = ''source '' @ quote (so_id s) @ '': '' in
      if so_type s \<noteq> source_postgres
      then Some (Errorf (what @ ''unsupported type '' @ quote (so_type s) @ ''; v1 supports postgres''))
      else if so_host s = [] \<or> so_port s < 1 \<or> so_username s = [] \<or> so_database s = [] \<or> so_table s = []
      then Some (Errorf (what @ ''incomplete PostgreSQL connection''))
      else if so_serial s = [] \<or> so_partitioning s = [] \<or>
              so_serial s \<notin> set (so_columns s) \<or> so_partitioning s \<notin> set (so_columns s)
      then Some (Errorf (what @ ''columns must include serialColumn and partitioningColumn''))
      else None)"

text \<open>The loops carry the identifiers seen so far.\<close>

fun validate_sources :: "source_config list \<Rightarrow> bytes list \<Rightarrow> go_error + bytes list" where
  "validate_sources [] seen =
     (if seen = [] then Inl (Errorf ''at least one source is required'') else Inr seen)"
| "validate_sources (s # ss) seen =
     (if so_id s = [] \<or> so_description s = [] then Inl (Errorf ''source id and description are required'')
      else if so_id s \<in> set seen then Inl (Errorf (''duplicate source id '' @ quote (so_id s)))
      else (case validate_source s of
              Some e \<Rightarrow> Inl e
            | None \<Rightarrow> validate_sources ss (so_id s # seen)))"

definition validate_destination :: "destination_config \<Rightarrow> bytes list \<Rightarrow> go_error option" where
  "validate_destination d sources =
     (let what = ''destination '' @ quote (de_id d) @ '': '' in
      if de_type d \<noteq> destination_http_push
      then Some (Errorf (what @ ''unsupported type '' @ quote (de_type d) @ ''; v1 supports http-push''))
      else if de_endpoint d = [] \<or> de_username d = [] \<or> de_sources d = []
      then Some (Errorf (what @ ''incomplete HTTP push configuration''))
      else (case find (\<lambda>i. i \<notin> set sources) (de_sources d) of
              Some i \<Rightarrow> Some (Errorf (what @ ''unknown source '' @ quote i))
            | None \<Rightarrow>
                (case de_filter d of
                   Some f \<Rightarrow>
                     if fi_column f = [] \<or> fi_values f = []
                     then Some (Errorf (what @ ''filter column and values are required'')) else None
                 | None \<Rightarrow> None)))"

fun validate_destinations :: "destination_config list \<Rightarrow> bytes list \<Rightarrow> bytes list \<Rightarrow> go_error option" where
  "validate_destinations [] sources seen = None"
| "validate_destinations (d # ds) sources seen =
     (if de_id d = [] \<or> de_description d = [] then Some (Errorf ''destination id and description are required'')
      else if de_id d \<in> set seen then Some (Errorf (''duplicate destination id '' @ quote (de_id d)))
      else (case validate_destination d sources of
              Some e \<Rightarrow> Some e
            | None \<Rightarrow> validate_destinations ds sources (de_id d # seen)))"

definition validate_application :: "application \<Rightarrow> go_error option" where
  "validate_application a =
     (case validate_sources (ap_sources a) [] of
        Inl e \<Rightarrow> Some e
      | Inr sources \<Rightarrow> validate_destinations (ap_destinations a) sources [])"

definition default_to :: "int \<Rightarrow> int \<Rightarrow> int" where
  "default_to d x = (if x = 0 then d else x)"

definition apply_defaults :: "engine_config \<Rightarrow> engine_config" where
  "apply_defaults c =
     c\<lparr>en_partitions := default_to 10 (en_partitions c), en_replication := default_to 1 (en_replication c),
       en_request_timeout := default_to (60 * 1000000000) (en_request_timeout c),
       en_drain_timeout := default_to (30 * 1000000000) (en_drain_timeout c)\<rparr>"

definition check_engine :: "engine_config \<Rightarrow> go_error option" where
  "check_engine c =
     (if en_version c \<noteq> 1 then Some (Errorf ''engine config version must be 1'')
      else if en_namespace c = [] \<or> en_environment c = [] then Some (Errorf ''namespace and environment are required'')
      else if en_brokers c = [] then Some (Errorf ''at least one Kafka broker is required'')
      else if en_partitions c < 1 then Some (Errorf ''kafka partitions must be positive'')
      else if en_replication c < 1 then Some (Errorf ''kafka replication_factor must be positive'')
      else if en_environment c = ''production'' \<and> en_replication c \<noteq> 3
      then Some (Errorf ''kafka replication_factor must be 3 in production'')
      else if en_connect_url c = [] \<or> en_listen c = [] then Some (Errorf ''connect.url and operator.listen are required'')
      else if en_database_url c = [] then Some (Errorf ''control.database_url is required'')
      else None)"

definition validate_engine :: "engine_config \<Rightarrow> engine_config \<times> go_error option" where
  "validate_engine c = (let c' = apply_defaults c in (c', check_engine c'))"

section \<open>References to the environment\<close>

definition name_start :: "char \<Rightarrow> bool" where
  "name_start c \<longleftrightarrow> (65 \<le> byte c \<and> byte c \<le> 90) \<or> (97 \<le> byte c \<and> byte c \<le> 122) \<or> byte c = 95"

definition name_char :: "char \<Rightarrow> bool" where
  "name_char c \<longleftrightarrow> name_start c \<or> (48 \<le> byte c \<and> byte c \<le> 57)"

text \<open>The name when the text starts with a reference \<^verbatim>\<open>${NAME}\<close>, the pattern \<^verbatim>\<open>environmentVariable\<close>.\<close>

definition reference_at :: "bytes \<Rightarrow> bytes option" where
  "reference_at s =
     (if has_prefix s ''${'' then
        let name = takeWhile name_char (drop 2 s);
            rest = dropWhile name_char (drop 2 s)
        in if name \<noteq> [] \<and> name_start (hd name) \<and> rest \<noteq> [] \<and> hd rest = CHR ''}'' then Some name else None
      else None)"

datatype piece = Literal char | Reference bytes

text \<open>The leftmost references, which do not overlap, and the characters between them.\<close>

function pieces :: "bytes \<Rightarrow> piece list" where
  "pieces [] = []"
| "pieces (c # s) =
     (case reference_at (c # s) of
        Some name \<Rightarrow> Reference name # pieces (drop (length name + 3) (c # s))
      | None \<Rightarrow> Literal c # pieces s)"
  by pat_completeness auto
termination by (relation "measure length") auto

fun reference_names :: "piece list \<Rightarrow> bytes list" where
  "reference_names [] = []"
| "reference_names (Reference name # ps) = name # reference_names ps"
| "reference_names (Literal c # ps) = reference_names ps"

definition missing_variables :: "(bytes \<Rightarrow> bytes option) \<Rightarrow> bytes \<Rightarrow> bytes list" where
  "missing_variables lookup s = remdups_adj (sort (filter (\<lambda>n. lookup n = None) (reference_names (pieces s))))"

definition missing_error :: "bytes list \<Rightarrow> go_error" where
  "missing_error names =
     (if length names = 1 then Errorf (''environment variable '' @ hd names @ '' is not set'')
      else Errorf (''environment variables '' @ join '', '' names @ '' are not set''))"

fun piece_value :: "(bytes \<Rightarrow> bytes option) \<Rightarrow> piece \<Rightarrow> bytes" where
  "piece_value lookup (Literal c) = [c]"
| "piece_value lookup (Reference name) = (case lookup name of None \<Rightarrow> [] | Some v \<Rightarrow> v)"

definition expand_environment :: "(bytes \<Rightarrow> bytes option) \<Rightarrow> bytes \<Rightarrow> go_error + bytes" where
  "expand_environment lookup s =
     (let missing = missing_variables lookup s
      in if missing \<noteq> [] then Inl (missing_error missing)
         else Inr (concat (map (piece_value lookup) (pieces s))))"

section \<open>The tree\<close>

text \<open>A scalar has the short tag the parser resolved for it. A mapping lists keys and values in turn.\<close>

datatype yaml =
    YDocument "yaml list"
  | YSequence "yaml list"
  | YMapping "yaml list"
  | YScalar bytes bytes
  | YAlias bytes

fun string_scalars :: "yaml \<Rightarrow> bytes list" and scalars_all :: "yaml list \<Rightarrow> bytes list" and
  scalars_values :: "yaml list \<Rightarrow> bytes list" where
  "string_scalars (YMapping ns) = scalars_values ns"
| "string_scalars (YDocument ns) = scalars_all ns"
| "string_scalars (YSequence ns) = scalars_all ns"
| "string_scalars (YScalar tag v) = (if tag = ''!!str'' then [v] else [])"
| "string_scalars (YAlias a) = []"
| "scalars_all [] = []"
| "scalars_all (n # ns) = string_scalars n @ scalars_all ns"
| "scalars_values (k # v # ns) = string_scalars v @ scalars_values ns"
| "scalars_values [k] = []"
| "scalars_values [] = []"

text \<open>Writing new values into the string scalars, in the order they were collected.\<close>

fun put_scalars :: "yaml \<Rightarrow> bytes list \<Rightarrow> yaml \<times> bytes list" and
  put_all :: "yaml list \<Rightarrow> bytes list \<Rightarrow> yaml list \<times> bytes list" and
  put_values :: "yaml list \<Rightarrow> bytes list \<Rightarrow> yaml list \<times> bytes list" where
  "put_scalars (YMapping ns) vs = (case put_values ns vs of (ns', vs') \<Rightarrow> (YMapping ns', vs'))"
| "put_scalars (YDocument ns) vs = (case put_all ns vs of (ns', vs') \<Rightarrow> (YDocument ns', vs'))"
| "put_scalars (YSequence ns) vs = (case put_all ns vs of (ns', vs') \<Rightarrow> (YSequence ns', vs'))"
| "put_scalars (YScalar tag v) vs =
     (if tag = ''!!str'' then (case vs of [] \<Rightarrow> (YScalar tag v, []) | x # vs' \<Rightarrow> (YScalar tag x, vs'))
      else (YScalar tag v, vs))"
| "put_scalars (YAlias a) vs = (YAlias a, vs)"
| "put_all [] vs = ([], vs)"
| "put_all (n # ns) vs =
     (case put_scalars n vs of (n', vs') \<Rightarrow> (case put_all ns vs' of (ns', vs'') \<Rightarrow> (n' # ns', vs'')))"
| "put_values (k # v # ns) vs =
     (case put_scalars v vs of (v', vs') \<Rightarrow> (case put_values ns vs' of (ns', vs'') \<Rightarrow> (k # v' # ns', vs'')))"
| "put_values [k] vs = ([k], vs)"
| "put_values [] vs = ([], vs)"

fun expand_each :: "(bytes \<Rightarrow> bytes option) \<Rightarrow> bytes list \<Rightarrow> go_error + bytes list" where
  "expand_each lookup [] = Inr []"
| "expand_each lookup (v # vs) =
     (case expand_environment lookup v of
        Inl e \<Rightarrow> Inl e
      | Inr v' \<Rightarrow> (case expand_each lookup vs of Inl e \<Rightarrow> Inl e | Inr vs' \<Rightarrow> Inr (v' # vs')))"

definition expand_scalars :: "(bytes \<Rightarrow> bytes option) \<Rightarrow> bytes list \<Rightarrow> go_error + bytes list" where
  "expand_scalars lookup vs =
     (case expand_environment lookup (join [CHR 0x0A] vs) of
        Inl e \<Rightarrow> Inl e
      | Inr _ \<Rightarrow> expand_each lookup vs)"

section \<open>Loading\<close>

record config_world =
  cw_read :: "bytes \<Rightarrow> go_error + bytes"
  cw_parse :: "bytes \<Rightarrow> go_error + yaml"
  cw_lookup :: "bytes \<Rightarrow> bytes option"
  cw_engine :: "yaml \<Rightarrow> go_error + engine_config"
  cw_application :: "yaml \<Rightarrow> go_error + application"

definition load_tree :: "config_world \<Rightarrow> bytes \<Rightarrow> go_error + yaml" where
  "load_tree W path =
     (case cw_read W path of
        Inl e \<Rightarrow> Inl e
      | Inr b \<Rightarrow>
          (case cw_parse W b of
             Inl e \<Rightarrow> Inl e
           | Inr document \<Rightarrow>
               (case expand_scalars (cw_lookup W) (string_scalars document) of
                  Inl e \<Rightarrow> Inl (Errorf (path @ '': '' @ error_text e))
                | Inr vs \<Rightarrow> Inr (fst (put_scalars document vs)))))"

definition load_application :: "config_world \<Rightarrow> bytes \<Rightarrow> go_error + application" where
  "load_application W path =
     (case load_tree W path of
        Inl e \<Rightarrow> Inl e
      | Inr document \<Rightarrow>
          (case cw_application W document of
             Inl e \<Rightarrow> Inl e
           | Inr a \<Rightarrow> (case validate_application a of Some e \<Rightarrow> Inl e | None \<Rightarrow> Inr a)))"

definition load_engine :: "config_world \<Rightarrow> bytes \<Rightarrow> go_error + engine_config" where
  "load_engine W path =
     (case load_tree W path of
        Inl e \<Rightarrow> Inl e
      | Inr document \<Rightarrow>
          (case cw_engine W document of
             Inl e \<Rightarrow> Inl e
           | Inr c \<Rightarrow> (case validate_engine c of (_, Some e) \<Rightarrow> Inl e | (c', None) \<Rightarrow> Inr c')))"

definition load_config :: "config_world \<Rightarrow> bytes \<Rightarrow> go_error + engine_config \<times> application" where
  "load_config W path =
     (case load_engine W path of
        Inl e \<Rightarrow> Inl e
      | Inr c \<Rightarrow>
          (case load_application W (en_application_config c) of
             Inl e \<Rightarrow> Inl e
           | Inr a \<Rightarrow> Inr (c, a)))"

section \<open>The operator token\<close>

definition operator_token :: "bytes \<Rightarrow> bytes \<Rightarrow> (bytes \<Rightarrow> go_error + bytes) \<Rightarrow> go_error + bytes" where
  "operator_token env file read_file =
     (case (if file \<noteq> [] then read_file file else Inr env) of
        Inl e \<Rightarrow> Inl (Errorf (''operator token file: '' @ error_text e))
      | Inr raw \<Rightarrow>
          let token = trim_space raw
          in if token = []
             then Inl (Errorf ''operator token is required: set POSTIE_OPERATOR_TOKEN or operator.token_file'')
             else Inr token)"

end
