(* ===== verification/Startup.thy ===== *)
theory Startup
  imports Config Admin SourcePg
begin

text \<open>
  \<^verbatim>\<open>internal/app/bootstrap.go\<close>: the adapters a command opens, how the configuration reaches them, and the
  \<^verbatim>\<open>provision\<close> command. What the adapters talk to (brokers, Kafka Connect, source databases, control
  store) are operations of a world.
\<close>

section \<open>From the configuration to the stream model\<close>

definition source_of :: "source_config \<Rightarrow> source" where
  "source_of input =
     \<lparr>src_id = so_id input, src_description = so_description input, src_table = so_table input,
      src_columns = so_columns input, src_serial = so_serial input, src_partitioning = so_partitioning input\<rparr>"

definition connection_of :: "source_config \<Rightarrow> connection" where
  "connection_of input =
     \<lparr>cx_host = so_host input, cx_port = so_port input, cx_username = so_username input,
      cx_password = so_password input, cx_database = so_database input\<rparr>"

definition zero_source :: source where
  "zero_source =
     \<lparr>src_id = [], src_description = [], src_table = [], src_columns = [], src_serial = [], src_partitioning = []\<rparr>"

text \<open>Reading a Go map: the zero value where there is no entry. Writing puts the entry in front.\<close>

definition read_map :: "'v \<Rightarrow> (bytes \<times> 'v) list \<Rightarrow> bytes \<Rightarrow> 'v" where
  "read_map zero m k = (case map_of m k of None \<Rightarrow> zero | Some v \<Rightarrow> v)"

section \<open>Resources\<close>

record resources =
  res_scope :: scope
  res_partitions :: int
  res_replication :: int
  res_connect_url :: bytes
  res_sources :: "(bytes \<times> source) list"
  res_pools :: "source_client list"
  res_inspectors :: "(bytes \<times> source_client) list"
  res_connections :: "(bytes \<times> connection) list"
  res_publications :: "(bytes \<times> bytes) list"

text \<open>The world: constructors of the shared adapters, and what they do once they are open.\<close>

record 'w adapters =
  ad_new_admin :: "bytes list \<Rightarrow> 'w \<Rightarrow> bytes option \<times> 'w"
  ad_close_admin :: "'w \<Rightarrow> 'w"
  ad_store_new :: "bytes \<Rightarrow> bytes option"
  ad_store_ping :: "'w \<Rightarrow> bytes option \<times> 'w"
  ad_store_schema :: "'w \<Rightarrow> bytes option \<times> 'w"
  ad_close_store :: "'w \<Rightarrow> 'w"
  ad_close_pool :: "source_client \<Rightarrow> 'w \<Rightarrow> 'w"
  ad_driver :: pg_driver
  ad_query :: "'w catalog_query"
  ad_kafka :: "'w kafka_admin"
  ad_http :: "'w http_env"
  ad_client :: "'w http_client"
  ad_deadline :: "'w \<Rightarrow> int option"
  ad_get_stream :: "scope \<Rightarrow> bytes \<Rightarrow> 'w \<Rightarrow> (capture_error + registration option) \<times> 'w"
  ad_register :: "scope \<Rightarrow> registration \<Rightarrow> 'w \<Rightarrow> capture_error option \<times> 'w"
  ad_block :: "scope \<Rightarrow> bytes \<Rightarrow> bytes \<Rightarrow> 'w \<Rightarrow> capture_error option \<times> 'w"
  ad_ensure :: "scope \<Rightarrow> bytes list \<Rightarrow> 'w \<Rightarrow> bytes option \<times> 'w"
  ad_wait :: "'w \<Rightarrow> bool \<times> 'w"
  ad_begin :: "'w \<Rightarrow> 'w"

text \<open>
  \<^verbatim>\<open>controlpg.Open\<close>: a pool on the URL, its first connection and the statements of the schema. A store that could
  not be made ready is closed again.
\<close>

definition ping_store :: "'w adapters \<Rightarrow> 'w \<Rightarrow> bytes option \<times> 'w" where
  "ping_store A w =
     (case ad_store_ping A w of
        (Some e, w1) \<Rightarrow> (Some (''control: ping store: '' @ e), w1)
      | (None, w1) \<Rightarrow> (None, w1))"

definition open_store :: "'w adapters \<Rightarrow> bytes \<Rightarrow> 'w \<Rightarrow> bytes option \<times> 'w" where
  "open_store A url w =
     (if trim_space url = [] then (Some ''control: database URL is required'', w)
      else (case ad_store_new A url of
              Some e \<Rightarrow> (Some (''control: open store: '' @ e), w)
            | None \<Rightarrow>
                (case ping_store A w of
                   (Some e, w1) \<Rightarrow> (Some e, ad_close_store A w1)
                 | (None, w1) \<Rightarrow>
                     (case ad_store_schema A w1 of
                        (Some e, w2) \<Rightarrow> (Some (''control: initialize schema: '' @ e), ad_close_store A w2)
                      | (None, w2) \<Rightarrow> (None, w2)))))"

datatype dependency = DependencyKafka | DependencyControl

datatype startup_error = StartupError bytes | InitializationError dependency bytes

fun startup_error_text :: "startup_error \<Rightarrow> bytes" where
  "startup_error_text (StartupError s) = s"
| "startup_error_text (InitializationError d s) = s"

text \<open>One round of the loop over the configured sources.\<close>

definition add_source :: "pg_driver \<Rightarrow> engine_config \<Rightarrow> source_config \<Rightarrow> resources \<Rightarrow> resources" where
  "add_source D engine input r =
     (let source = source_of input; connection = connection_of input; client = open_source D source connection in
      r\<lparr>res_sources := (src_id source, source) # res_sources r,
        res_pools := res_pools r @ [client],
        res_inspectors := (src_id source, client) # res_inspectors r,
        res_connections := (src_id source, connection) # res_connections r,
        res_publications := (src_id source, read_map [] (en_sources engine) (src_id source)) # res_publications r\<rparr>)"

definition new_resources :: "engine_config \<Rightarrow> generation \<Rightarrow> resources" where
  "new_resources engine generation =
     \<lparr>res_scope = \<lparr>sc_namespace = en_namespace engine, sc_environment = en_environment engine, sc_generation = generation\<rparr>,
      res_partitions = en_partitions engine, res_replication = en_replication engine,
      res_connect_url = en_connect_url engine, res_sources = [], res_pools = [], res_inspectors = [],
      res_connections = [], res_publications = []\<rparr>"

definition bootstrap :: "'w adapters \<Rightarrow> engine_config \<Rightarrow> application \<Rightarrow> generation \<Rightarrow> 'w \<Rightarrow>
    (startup_error + resources) \<times> 'w" where
  "bootstrap A engine application generation w =
     (if \<not> generation_valid generation then (Inl (StartupError ''generation must be positive''), w)
      else (case ad_new_admin A (en_brokers engine) w of
              (Some e, w1) \<Rightarrow> (Inl (InitializationError DependencyKafka e), w1)
            | (None, w1) \<Rightarrow>
                (case open_store A (en_database_url engine) w1 of
                   (Some e, w2) \<Rightarrow> (Inl (InitializationError DependencyControl e), ad_close_admin A w2)
                 | (None, w2) \<Rightarrow>
                     (Inr (fold (add_source (ad_driver A) engine) (ap_sources application) (new_resources engine generation)),
                      w2))))"

definition close_resources :: "'w adapters \<Rightarrow> resources \<Rightarrow> 'w \<Rightarrow> 'w" where
  "close_resources A r w = fold (ad_close_pool A) (res_pools r) (ad_close_store A (ad_close_admin A w))"

text \<open>
  The provisioning service over these adapters. Asking for a source that has no inspector would panic; see
  \<open>configured_names_resolve\<close>. \<open>fuel\<close> bounds the polls of one wait for a topic, which the time-out of the source
  ends; a wait that outlives it gives the error of the time-out.
\<close>

definition nil_dereference :: capture_error where
  "nil_dereference = Plain ''runtime error: invalid memory address or nil pointer dereference''"

definition capture_of :: "nat \<Rightarrow> 'w adapters \<Rightarrow> resources \<Rightarrow> 'w capture" where
  "capture_of fuel A r =
     (let connect = \<lparr>cc_url = res_connect_url r, cc_http = Some (ad_client A), cc_connections = res_connections r\<rparr> in
      \<lparr>cap_scope = res_scope r, cap_partitions = res_partitions r, cap_replication = res_replication r,
       cap_publications = res_publications r,
       cap_table = (\<lambda>i. case map_of (res_inspectors r) i of
                          None \<Rightarrow> Pair (Inl nil_dereference) | Some c \<Rightarrow> inspect_table (ad_query A) c),
       cap_slot = (\<lambda>i sl. case map_of (res_inspectors r) i of
                          None \<Rightarrow> Pair (Inl nil_dereference) | Some c \<Rightarrow> slot_health (ad_query A) c sl),
       cap_ensure_topic = (\<lambda>n partitions replication w.
         case ensure_topic fuel (ad_kafka A) n partitions replication w of
           (None, w') \<Rightarrow> (Inl (Plain (''capture: topic '' @ quote (nm_topic n) @
                            '' exists but never appeared in metadata: context deadline exceeded'')), w')
         | (Some res, w') \<Rightarrow> (res, w')),
       cap_topic = admin_topic (ad_kafka A),
       cap_ensure_connector = (\<lambda>src identity n publication w.
         client_ensure_connector (ad_http A) (ad_deadline A w) connect src identity n publication w),
       cap_connector = (\<lambda>name w. client_connector_status (ad_http A) (ad_deadline A w) connect name w),
       cap_get_stream = ad_get_stream A, cap_register = ad_register A, cap_block = ad_block A,
       cap_wait = ad_wait A\<rparr>)"

section \<open>The provision command\<close>

datatype line = Stdout bytes | Stderr bytes

definition report_bootstrap_failure :: "source_config list \<Rightarrow> startup_error \<Rightarrow> line list" where
  "report_bootstrap_failure sources e =
     (case e of
        InitializationError DependencyKafka s \<Rightarrow> [Stderr s]
      | _ \<Rightarrow> map (\<lambda>s. Stderr (so_id s @ '': '' @ startup_error_text e)) sources)"

definition provision_line :: "source_config \<Rightarrow> generation \<Rightarrow> capture_error + registration \<Rightarrow> line" where
  "provision_line s generation res =
     (case res of
        Inl e \<Rightarrow> Stderr (so_id s @ '': '' @ capture_error_text e)
      | Inr registered \<Rightarrow>
          let n = reg_names registered in
          Stdout (''provisioned source='' @ so_id s @ '' generation='' @ generation_string generation @
            '' topic='' @ nm_topic n @ '' connector='' @ nm_connector n @ '' slot='' @ nm_slot n @
            '' publication='' @ nm_publication n))"

fun provision_sources :: "nat \<Rightarrow> 'w adapters \<Rightarrow> resources \<Rightarrow> source_config list \<Rightarrow> generation \<Rightarrow>
    ('w, bool \<times> line list) prog" where
  "provision_sources fuel A r [] generation w = (Some (True, []), w)"
| "provision_sources fuel A r (s # ss) generation w =
     (case provision_source fuel (capture_of fuel A r) (read_map zero_source (res_sources r) (so_id s)) (ad_begin A w) of
        (None, w1) \<Rightarrow> (None, w1)
      | (Some res, w1) \<Rightarrow>
          (case provision_sources fuel A r ss generation w1 of
             (None, w2) \<Rightarrow> (None, w2)
           | (Some (ok, lines), w2) \<Rightarrow>
               (Some (ok \<and> (case res of Inl _ \<Rightarrow> False | Inr _ \<Rightarrow> True), provision_line s generation res # lines), w2)))"

definition destination_ids :: "destination_config list \<Rightarrow> bytes list" where
  "destination_ids ds = map de_id ds"

definition record_subscriptions :: "'w adapters \<Rightarrow> resources \<Rightarrow> bytes list \<Rightarrow> 'w \<Rightarrow> (int \<times> line list) \<times> 'w" where
  "record_subscriptions A r ids w =
     (case ad_ensure A (res_scope r) ids w of
        (Some e, w1) \<Rightarrow> ((1, [Stderr (''subscriptions: '' @ e)]), w1)
      | (None, w1) \<Rightarrow> ((0, []), w1))"

text \<open>The exit code and the lines printed.\<close>

definition provision :: "nat \<Rightarrow> 'w adapters \<Rightarrow> engine_config \<Rightarrow> application \<Rightarrow> generation \<Rightarrow> ('w, int \<times> line list) prog" where
  "provision fuel A engine application generation w =
     (case bootstrap A engine application generation w of
        (Inl e, w1) \<Rightarrow> (Some (1, report_bootstrap_failure (ap_sources application) e), w1)
      | (Inr r, w1) \<Rightarrow>
          (case provision_sources fuel A r (ap_sources application) generation w1 of
             (None, w2) \<Rightarrow> (None, w2)
           | (Some (ok, lines), w2) \<Rightarrow>
               if \<not> ok then (Some (1, lines), close_resources A r w2)
               else (case record_subscriptions A r (destination_ids (ap_destinations application)) w2 of
                       ((code, extra), w3) \<Rightarrow> (Some (code, lines @ extra), close_resources A r w3))))"

end
