(* ===== verification/Command.thy ===== *)
theory Command
  imports Startup
begin

text \<open>
  \<^verbatim>\<open>cmd/postie/main.go\<close>: the command line. The arguments are parsed as the package \<^verbatim>\<open>flag\<close> does, which prints
  its own messages; the lines here are those the program prints.
\<close>

section \<open>Integers of flags\<close>

text \<open>\<^verbatim>\<open>strconv.ParseInt(s, 0, 64)\<close>: a prefix selects the base, and underscores may separate digits.\<close>

definition lower_char :: "char \<Rightarrow> char" where
  "lower_char c = (if between 65 90 (byte c) then chr (byte c + 32) else c)"

definition digit_of :: "char \<Rightarrow> nat option" where
  "digit_of c =
     (if is_digit c then Some (digit_val c)
      else if between 97 122 (byte (lower_char c)) then Some (byte (lower_char c) - 87) else None)"

fun read_digits :: "nat \<Rightarrow> bytes \<Rightarrow> nat \<Rightarrow> nat option" where
  "read_digits base [] n = Some n"
| "read_digits base (c # s) n =
     (if c = CHR ''_'' then read_digits base s n
      else (case digit_of c of
              None \<Rightarrow> None
            | Some d \<Rightarrow> if base \<le> d then None else read_digits base s (n * base + d)))"

definition base_prefix :: "bytes \<Rightarrow> nat \<times> bytes" where
  "base_prefix s =
     (if s = [] \<or> hd s \<noteq> CHR ''0'' then (10, s)
      else if 3 \<le> length s \<and> lower_char (s ! 1) = CHR ''b'' then (2, drop 2 s)
      else if 3 \<le> length s \<and> lower_char (s ! 1) = CHR ''o'' then (8, drop 2 s)
      else if 3 \<le> length s \<and> lower_char (s ! 1) = CHR ''x'' then (16, drop 2 s)
      else (8, tl s))"

text \<open>An underscore follows a digit or the prefix, and a digit follows it. \<open>ok\<close>: the last character allows one.\<close>

fun underscores_ok :: "bool \<Rightarrow> bytes \<Rightarrow> bool" where
  "underscores_ok ok [] = True"
| "underscores_ok ok [c] = (c \<noteq> CHR ''_'')"
| "underscores_ok ok (c # d # s) =
     (if c = CHR ''_'' then ok \<and> d \<noteq> CHR ''_'' \<and> underscores_ok False (d # s) else underscores_ok True (d # s))"

definition underscore_start :: "bytes \<Rightarrow> bool" where
  "underscore_start s \<longleftrightarrow> 2 \<le> length s \<and> hd s = CHR ''0'' \<and> lower_char (s ! 1) \<in> set ''box''"

definition parse_uint0 :: "bytes \<Rightarrow> nat option" where
  "parse_uint0 s =
     (if s = [] then None
      else case base_prefix s of
             (base, ds) \<Rightarrow>
               (case read_digits base ds 0 of
                  None \<Rightarrow> None
                | Some n \<Rightarrow>
                    if 2 ^ 64 \<le> n then None
                    else if CHR ''_'' \<in> set ds \<and>
                       \<not> (if underscore_start s then underscores_ok True (drop 2 s) else underscores_ok False s)
                    then None else Some n))"

definition parse_int0 :: "bytes \<Rightarrow> int option" where
  "parse_int0 s =
     (if s = [] then None
      else let negative = hd s = CHR ''-'';
               ds = (if negative \<or> hd s = CHR ''+'' then tl s else s)
           in case parse_uint0 ds of
                None \<Rightarrow> None
              | Some n \<Rightarrow>
                  if negative then (if n \<le> 2 ^ 63 then Some (- int n) else None)
                  else if n < 2 ^ 63 then Some (int n) else None)"

section \<open>Flags\<close>

record flag_values =
  fl_config :: bytes
  fl_generation :: int

definition default_flags :: flag_values where
  "default_flags = \<lparr>fl_config = ''postie.yaml'', fl_generation = 1\<rparr>"

datatype flag_error = FlagHelp | FlagSyntax

definition set_flag :: "bytes \<Rightarrow> bytes \<Rightarrow> flag_values \<Rightarrow> flag_values option" where
  "set_flag name value v =
     (if name = ''config'' then Some (v\<lparr>fl_config := value\<rparr>)
      else (case parse_int0 value of None \<Rightarrow> None | Some n \<Rightarrow> Some (v\<lparr>fl_generation := n\<rparr>)))"

text \<open>\<^verbatim>\<open>FlagSet.Parse\<close> with the flags \<open>formal\<close>; what follows the flags is ignored by the program.\<close>

function parse_flags :: "bytes list \<Rightarrow> bytes list \<Rightarrow> flag_values \<Rightarrow> flag_error + flag_values" where
  "parse_flags formal [] v = Inr v"
| "parse_flags formal (s # args) v =
     (if length s < 2 \<or> hd s \<noteq> CHR ''-'' \<or> s = ''--'' then Inr v
      else
        let body = (if s ! 1 = CHR ''-'' then drop 2 s else drop 1 s) in
        if body = [] \<or> hd body = CHR ''-'' \<or> hd body = CHR ''='' then Inl FlagSyntax
        else case cut CHR ''='' body of
          (name, value, has_value) \<Rightarrow>
            if name \<notin> set formal
            then Inl (if name = ''help'' \<or> name = ''h'' then FlagHelp else FlagSyntax)
            else if has_value
            then (case set_flag name value v of None \<Rightarrow> Inl FlagSyntax | Some v' \<Rightarrow> parse_flags formal args v')
            else (case args of
                    [] \<Rightarrow> Inl FlagSyntax
                  | value' # args' \<Rightarrow>
                      (case set_flag name value' v of None \<Rightarrow> Inl FlagSyntax | Some v' \<Rightarrow> parse_flags formal args' v')))"
  by pat_completeness auto
termination by (relation "measure (\<lambda>(formal, args, v). length args)") auto

declare parse_flags.simps [simp del]

section \<open>Subcommands\<close>

definition usage :: bytes where
  "usage =
     ''usage: postie [--config POSTIE.yaml] [--generation N]'' @ [CHR 0x0A] @
     ''       postie config validate --config POSTIE.yaml'' @ [CHR 0x0A] @
     ''       postie provision --config POSTIE.yaml [--generation N]'' @ [CHR 0x0A]"

definition run_config_validate :: "config_world \<Rightarrow> bytes list \<Rightarrow> int \<times> line list" where
  "run_config_validate W args =
     (case parse_flags [''config''] args default_flags of
        Inl _ \<Rightarrow> (2, [])
      | Inr v \<Rightarrow>
          (case load_config W (fl_config v) of
             Inl e \<Rightarrow> (1, [Stderr (error_text e)])
           | Inr (engine, app) \<Rightarrow>
               (0, [Stdout (''valid: '' @ int_str (int (length (ap_sources app))) @ '' PostgreSQL sources, '' @
                      int_str (int (length (ap_destinations app))) @ '' HTTP destinations'')])))"

text \<open>\<^verbatim>\<open>provisionFlags\<close>: the lines printed, and the path and generation unless the usage is bad.\<close>

definition provision_flags :: "bytes list \<Rightarrow> (bytes \<times> generation) option \<times> line list" where
  "provision_flags args =
     (case parse_flags [''config'', ''generation''] args default_flags of
        Inl _ \<Rightarrow> (None, [])
      | Inr v \<Rightarrow>
          if \<not> generation_valid (fl_generation v) then (None, [Stderr ''generation must be 1 or greater''])
          else (Some (fl_config v, fl_generation v), []))"

definition run_provision :: "nat \<Rightarrow> config_world \<Rightarrow> 'w adapters \<Rightarrow> bytes list \<Rightarrow> ('w, int \<times> line list) prog" where
  "run_provision fuel W A args w =
     (case provision_flags args of
        (None, lines) \<Rightarrow> (Some (2, lines), w)
      | (Some (path, generation), lines) \<Rightarrow>
          (case load_config W path of
             Inl e \<Rightarrow> (Some (1, [Stderr (error_text e)]), w)
           | Inr (engine, app) \<Rightarrow> provision fuel A engine app generation w))"

definition run_command :: "nat \<Rightarrow> config_world \<Rightarrow> 'w adapters \<Rightarrow> bytes list \<Rightarrow> ('w, int \<times> line list) prog" where
  "run_command fuel W A args w =
     (case args of
        [] \<Rightarrow> (Some (2, [Stderr usage]), w)
      | cmd # rest \<Rightarrow>
          if cmd = ''config''
          then (if rest = [] \<or> hd rest \<noteq> ''validate'' then (Some (2, [Stderr usage]), w)
                else (Some (run_config_validate W (tl rest)), w))
          else if cmd = ''provision'' then run_provision fuel W A rest w
          else (Some (2, [Stderr usage]), w))"

text \<open>\<^verbatim>\<open>main\<close> and \<^verbatim>\<open>serve\<close>; \<open>engine_run\<close> is \<^verbatim>\<open>app.Run\<close> with its error. \<^verbatim>\<open>log.Fatal\<close> prints and exits with 1.\<close>

type_synonym 'w engine_run =
  "engine_config \<Rightarrow> application \<Rightarrow> bytes \<Rightarrow> generation \<Rightarrow> ('w, bytes option) prog"

definition serve_engine :: "config_world \<Rightarrow> 'w engine_run \<Rightarrow> bytes list \<Rightarrow> ('w, int \<times> line list) prog" where
  "serve_engine W engine_run args w =
     (case parse_flags [''config'', ''generation''] args default_flags of
        Inl FlagHelp \<Rightarrow> (Some (0, []), w)
      | Inl FlagSyntax \<Rightarrow> (Some (2, []), w)
      | Inr v \<Rightarrow>
          (case load_config W (fl_config v) of
             Inl e \<Rightarrow> (Some (1, [Stderr (error_text e)]), w)
           | Inr (engine, app) \<Rightarrow>
               (case operator_token (case cw_lookup W ''POSTIE_OPERATOR_TOKEN'' of None \<Rightarrow> [] | Some t \<Rightarrow> t)
                       (en_token_file engine) (cw_read W) of
                  Inl e \<Rightarrow> (Some (1, [Stderr (error_text e)]), w)
                | Inr token \<Rightarrow>
                    (case engine_run engine app token (fl_generation v) w of
                       (None, w1) \<Rightarrow> (None, w1)
                     | (Some (Some e), w1) \<Rightarrow> (Some (1, [Stderr e]), w1)
                     | (Some None, w1) \<Rightarrow> (Some (0, []), w1)))))"

definition main_command :: "nat \<Rightarrow> config_world \<Rightarrow> 'w adapters \<Rightarrow> 'w engine_run \<Rightarrow> bytes list \<Rightarrow> ('w, int \<times> line list) prog" where
  "main_command fuel W A engine_run args =
     (if args \<noteq> [] \<and> \<not> has_prefix (hd args) ''-'' then run_command fuel W A args
      else serve_engine W engine_run args)"

end
