(* ===== verification/Wiring.thy ===== *)
theory Wiring
  imports Consumer Startup Operator HttpDelivery Debezium
begin

text \<open>
  \<^verbatim>\<open>internal/app/app.go\<close>: the running engine. \<open>wiring_consumer\<close> and \<open>worker_of\<close> assemble, for one
  destination, the delivery worker of every source it subscribes to; \<open>new_app\<close> and \<open>run_app\<close> start the control
  service and end it.
\<close>

section \<open>Parts of the configuration\<close>

definition startup_error :: "startup_error \<Rightarrow> bytes" where
  "startup_error e =
     (case e of
        StartupError s \<Rightarrow> s
      | InitializationError d _ \<Rightarrow>
          if d = DependencyKafka then ''Kafka client could not be created''
          else ''control store could not be opened'')"

text \<open>A later destination of the same identifier replaces an earlier one.\<close>

definition destinations_by_id :: "destination_config list \<Rightarrow> (bytes \<times> destination_config) list" where
  "destinations_by_id ds = rev (map (\<lambda>d. (de_id d, d)) ds)"

definition control_destinations :: "destination_config list \<Rightarrow> target list" where
  "control_destinations ds = map (\<lambda>d. \<lparr>tg_id = de_id d, tg_sources = de_sources d\<rparr>) ds"

definition ordered_sources :: "source_config list \<Rightarrow> (bytes \<times> source) list \<Rightarrow> source list" where
  "ordered_sources inputs by_id = map (\<lambda>s. read_map zero_source by_id (so_id s)) inputs"

definition filter_for :: "filter_config option \<Rightarrow> Protocol.filter option" where
  "filter_for input = map_option (\<lambda>f. \<lparr>flt_column = fi_column f, flt_values = fi_values f\<rparr>) input"

definition zero_destination :: destination_config where
  "zero_destination =
     \<lparr>de_id = [], de_description = [], de_type = [], de_endpoint = [], de_username = [], de_password = [],
      de_sources = [], de_filter = None\<rparr>"

section \<open>Workers and consumers\<close>

text \<open>What control hands to a consumer, and the parts of the world its workers use.\<close>

record 'w dispatch =
  dp_allowed :: "bytes \<Rightarrow> 'w \<Rightarrow> bool"
  dp_deadline :: "'w \<Rightarrow> int"
  dp_block :: "bytes \<Rightarrow> bytes \<Rightarrow> 'w \<Rightarrow> 'w"

record 'w wiring =
  wr_engine :: engine_config
  wr_resources :: resources
  wr_destinations :: "(bytes \<times> destination_config) list"
  wr_log :: "entry \<Rightarrow> 'w \<Rightarrow> 'w"
  wr_http :: "'w http_env"
  wr_deadline :: "'w \<Rightarrow> int option"
  wr_jitter :: "duration \<Rightarrow> 'w \<Rightarrow> duration \<times> 'w"
  wr_has_skip :: "scope \<Rightarrow> bytes \<Rightarrow> stream_record \<Rightarrow> 'w \<Rightarrow> (go_error + bool) \<times> 'w"
  wr_save_skip :: "scope \<Rightarrow> bytes \<Rightarrow> stream_record \<Rightarrow> 'w \<Rightarrow> go_error option \<times> 'w"

definition gate_of_dispatch :: "'w dispatch \<Rightarrow> 'w gate" where
  "gate_of_dispatch d = \<lparr>gate_allowed = dp_allowed d, gate_block = dp_block d\<rparr>"

definition dispatch_lease :: "'w dispatch \<Rightarrow> 'w lease_gate" where
  "dispatch_lease d = \<lparr>lg_allowed = dp_allowed d, lg_deadline = dp_deadline d\<rparr>"

definition worker_of :: "'w wiring \<Rightarrow> 'w go_context \<Rightarrow> destination_config \<Rightarrow> source \<Rightarrow> registration \<Rightarrow> 'w dispatch \<Rightarrow>
    'w worker" where
  "worker_of W c input src registered d =
     (let client = new_client (wr_http W)
            (Some \<lparr>hc_timeout = word_of_int (en_request_timeout (wr_engine W)),
                   hc_do = round_trip (wr_http W)
                     \<lparr>lt_gate = Some (dispatch_lease d), lt_source = src_id src, lt_base = None\<rparr>\<rparr>)
            \<lparr>hd_id = de_id input, hd_endpoint = de_endpoint input, hd_username = de_username input,
             hd_password = de_password input\<rparr>;
          destination = \<lparr>dst_id = de_id input, dst_description = de_description input,
                         dst_filter = filter_for (de_filter input)\<rparr>
      in \<lparr>wk_processor = new_processor destination (\<lambda>r body w. send_record (wr_http W) (wr_deadline W w) client r body w) c
                           (wr_jitter W),
          wk_decode = (\<lambda>raw. decode_event src (reg_identity registered) (sc_generation (res_scope (wr_resources W))) (Some raw)),
          wk_has_skip = wr_has_skip W, wk_save_skip = wr_save_skip W, wk_scope = res_scope (wr_resources W),
          wk_destination = de_id input, wk_source = src_id src, wk_gate = Some (gate_of_dispatch d),
          wk_log = Some (wr_log W)\<rparr>)"

text \<open>The maps \<^verbatim>\<open>topics\<close> and \<^verbatim>\<open>workers\<close> after the loop over the sources of the destination.\<close>

fun wire_sources :: "'w wiring \<Rightarrow> 'w go_context \<Rightarrow> destination_config \<Rightarrow> (bytes \<times> registration) list \<Rightarrow> 'w dispatch \<Rightarrow>
    bytes list \<Rightarrow> (bytes \<times> source) list \<Rightarrow> (bytes \<times> 'w worker) list \<Rightarrow>
    (bytes \<times> source) list \<times> (bytes \<times> 'w worker) list" where
  "wire_sources W c input registered d [] topics workers = (topics, workers)"
| "wire_sources W c input registered d (i # is) topics workers =
     (let src = read_map zero_source (res_sources (wr_resources W)) i;
          registration = read_map zero_registration registered i;
          topic = nm_topic (reg_names registration)
      in wire_sources W c input registered d is ((topic, src) # topics)
           ((topic, worker_of W c input src registration d) # workers))"

record 'w consumer_options =
  co_brokers :: "bytes list"
  co_scope :: scope
  co_destination :: bytes
  co_sources :: "(bytes \<times> source) list"
  co_process :: "nat \<Rightarrow> raw_record \<Rightarrow> (raw_record \<Rightarrow> 'w \<Rightarrow> go_error option \<times> 'w) \<Rightarrow> ('w, go_error option) prog"

text \<open>A record of a topic without a worker would be a nil dereference, which gives no result.\<close>

definition wiring_consumer :: "'w wiring \<Rightarrow> 'w go_context \<Rightarrow> target \<Rightarrow> (bytes \<times> registration) list \<Rightarrow> 'w dispatch \<Rightarrow>
    'w consumer_options" where
  "wiring_consumer W c destination registered d =
     (let input = read_map zero_destination (wr_destinations W) (tg_id destination) in
      case wire_sources W c input registered d (tg_sources destination) [] [] of
        (topics, workers) \<Rightarrow>
          \<lparr>co_brokers = en_brokers (wr_engine W), co_scope = res_scope (wr_resources W),
           co_destination = tg_id destination, co_sources = topics,
           co_process = (\<lambda>fuel raw commit.
             case map_of workers (rr_topic raw) of
               None \<Rightarrow> (\<lambda>w. (None, w))
             | Some wk \<Rightarrow> worker_process fuel c wk raw commit)\<rparr>)"

text \<open>What \<^verbatim>\<open>kafka.NewConsumer\<close> tells the client library: the brokers, the group and the topics, sorted.\<close>

record kafka_settings =
  ks_brokers :: "bytes list"
  ks_group :: bytes
  ks_topics :: "bytes list"

definition consumer_settings :: "'w consumer_options \<Rightarrow> kafka_settings" where
  "consumer_settings options =
     \<lparr>ks_brokers = co_brokers options, ks_group = group_id (co_scope options) (co_destination options),
      ks_topics = sort (remdups (map fst (co_sources options)))\<rparr>"

section \<open>Starting and ending\<close>

record 'c app =
  app_service :: "'c service"
  app_resources :: resources

text \<open>
  \<^verbatim>\<open>New\<close>. \<open>env\<close> is the environment of the control service, given the resources: its store, and monitor and
  consumers as \<open>capture_of\<close> and \<open>wiring_consumer\<close> build them. \<open>worker\<close> is the random name control draws.
\<close>

definition new_app :: "'w adapters \<Rightarrow> (resources \<Rightarrow> ('c, 'w) env) \<Rightarrow> engine_config \<Rightarrow> application \<Rightarrow> generation \<Rightarrow>
    bytes \<Rightarrow> 'w \<Rightarrow> (bytes + 'c app) \<times> 'w" where
  "new_app A env engine application generation worker w =
     (case bootstrap A engine application generation w of
        (Inl e, w1) \<Rightarrow> (Inl (startup_error e), w1)
      | (Inr r, w1) \<Rightarrow>
          (case new_service (env r) (res_scope r) (ordered_sources (ap_sources application) (res_sources r))
                  (control_destinations (ap_destinations application)) worker w1 of
             (Inl e, w2) \<Rightarrow> (Inl (error_text e), close_resources A r w2)
           | (Inr s, w2) \<Rightarrow> (Inr \<lparr>app_service = s, app_resources = r\<rparr>, w2)))"

text \<open>What ends the wait of \<^verbatim>\<open>Run\<close>: its context, or the server with an error.\<close>

datatype server_end = ContextDone | ServerClosed | ServerFailed bytes

text \<open>
  \<^verbatim>\<open>Run\<close>. \<open>rw_serve\<close> listens on an address and serves requests with a handler until the context or the server
  ends. The control loop runs beside it: what handlers and workers do to the service is part of the schedule of
  \<open>env\<close>, so the loop is run from its start with the end of the wait already known. \<open>rw_shutdown\<close> drains the server
  within a time-out. \<open>rw_log\<close> is the activity log, and \<open>polls\<close> bounds the polls of one change.
\<close>

record ('c, 'w) run_world =
  rw_redirect :: int
  rw_log :: "'w \<Rightarrow> log"
  rw_serve :: "bytes \<Rightarrow> ('c service \<times> 'w) handler \<Rightarrow> 'w \<Rightarrow> server_end \<times> 'w"
  rw_shutdown :: "int \<Rightarrow> 'w \<Rightarrow> 'w"

definition operator_handler :: "nat \<Rightarrow> ('c, 'w) run_world \<Rightarrow> ('c, 'w) env \<Rightarrow> bytes \<Rightarrow> ('c service \<times> 'w) handler" where
  "operator_handler polls R E token = serve (new_server (rw_redirect R) token (service_backend polls E (rw_log R)))"

definition run_app :: "nat \<Rightarrow> 'w adapters \<Rightarrow> ('c, 'w) run_world \<Rightarrow> (resources \<Rightarrow> ('c, 'w) env) \<Rightarrow> bytes \<Rightarrow> engine_config \<Rightarrow>
    application \<Rightarrow> bytes \<Rightarrow> generation \<Rightarrow> ('w, bytes option) prog" where
  "run_app fuel A R env worker engine application token generation w =
     (case new_app A env engine application generation worker w of
        (Inl e, w1) \<Rightarrow> (Some (Some e), w1)
      | (Inr app, w1) \<Rightarrow>
          (case rw_serve R (en_listen engine) (operator_handler fuel R (env (app_resources app)) token) w1 of
             (finish, w2) \<Rightarrow>
               (case run_state (start fuel (env (app_resources app))) (app_service app, w2) of
                  (False, s', w3) \<Rightarrow> (None, w3)
                | (True, s', w3) \<Rightarrow>
                    (Some (case finish of ServerFailed e \<Rightarrow> Some e | _ \<Rightarrow> None),
                     close_resources A (app_resources app) (rw_shutdown R (en_drain_timeout engine) w3)))))"

end
