(* ===== verification/ConfigLaws.thy ===== *)
theory ConfigLaws
  imports Config
begin

text \<open>
  What a loaded configuration is: the tree of the file with every reference replaced and nothing else changed,
  and values that keep all the rules of validation.
\<close>

section \<open>References\<close>

text \<open>
  The pattern said declaratively: a name is a letter or underscore and then letters, digits and underscores;
  \<open>expands lookup s t\<close> reads \<open>s\<close> from the left, once, and puts values in place of references.
\<close>

definition valid_name :: "bytes \<Rightarrow> bool" where
  "valid_name name \<longleftrightarrow> name \<noteq> [] \<and> name_start (hd name) \<and> (\<forall>c \<in> set name. name_char c)"

definition reference_text :: "bytes \<Rightarrow> bytes" where
  "reference_text name = ''${'' @ name @ ''}''"

inductive expands :: "(bytes \<Rightarrow> bytes option) \<Rightarrow> bytes \<Rightarrow> bytes \<Rightarrow> bool" for lookup where
  nil: "expands lookup [] []"
| reference: "valid_name name \<Longrightarrow> lookup name = Some v \<Longrightarrow> expands lookup s t \<Longrightarrow>
    expands lookup (reference_text name @ s) (v @ t)"
| plain: "\<forall>name r. valid_name name \<longrightarrow> c # s \<noteq> reference_text name @ r \<Longrightarrow> expands lookup s t \<Longrightarrow>
    expands lookup (c # s) (c # t)"

lemma brace_no_name: "\<not> name_char (CHR ''}'')"
  by (simp add: name_char_def name_start_def)

lemma newline_no_name: "\<not> name_char (CHR 0x0A)"
  by (simp add: name_char_def name_start_def)

lemma reference_at_text:
  assumes "valid_name name"
  shows "reference_at (reference_text name @ r) = Some name"
proof -
  have "takeWhile name_char (name @ CHR ''}'' # r) = name" "dropWhile name_char (name @ CHR ''}'' # r) = CHR ''}'' # r"
    using assms brace_no_name by (simp_all add: valid_name_def)
  then show ?thesis using assms
    by (simp add: reference_at_def reference_text_def valid_name_def)
qed

lemma reference_at_SomeD:
  assumes "reference_at s = Some name"
  shows "valid_name name \<and> s = reference_text name @ drop (length name + 3) s"
proof -
  from assms have pre: "has_prefix s ''${''" and name: "name = takeWhile name_char (drop 2 s)"
    and ok: "name \<noteq> []" "name_start (hd name)" and rest: "dropWhile name_char (drop 2 s) \<noteq> []"
      "hd (dropWhile name_char (drop 2 s)) = CHR ''}''"
    by (auto simp: reference_at_def Let_def split: if_splits)
  have "s = ''${'' @ drop 2 s" using has_prefixD [OF pre] by (simp add: numeral_2_eq_2)
  also have "drop 2 s = name @ dropWhile name_char (drop 2 s)" by (simp add: name)
  also have "dropWhile name_char (drop 2 s) = CHR ''}'' # tl (dropWhile name_char (drop 2 s))"
    using rest by (metis list.collapse)
  finally have s: "s = reference_text name @ tl (dropWhile name_char (drop 2 s))" by (simp add: reference_text_def)
  have "length (reference_text name) = length name + 3" by (simp add: reference_text_def)
  with s have "drop (length name + 3) s = tl (dropWhile name_char (drop 2 s))" by (metis append_eq_conv_conj)
  with s ok show ?thesis by (auto simp: valid_name_def name dest: set_takeWhileD)
qed

lemma reference_at_iff: "reference_at s = Some name \<longleftrightarrow> valid_name name \<and> (\<exists>r. s = reference_text name @ r)"
  using reference_at_SomeD reference_at_text by blast

definition substitute :: "(bytes \<Rightarrow> bytes option) \<Rightarrow> bytes \<Rightarrow> bytes" where
  "substitute lookup s = concat (map (piece_value lookup) (pieces s))"

definition unset :: "(bytes \<Rightarrow> bytes option) \<Rightarrow> bytes \<Rightarrow> bytes set" where
  "unset lookup s = {name \<in> set (reference_names (pieces s)). lookup name = None}"

lemma substitute_expands: "unset lookup s = {} \<Longrightarrow> expands lookup s (substitute lookup s)"
proof (induction s rule: pieces.induct)
  case 1
  show ?case by (simp add: substitute_def expands.nil)
next
  case (2 c s)
  show ?case
  proof (cases "reference_at (c # s)")
    case None
    then have "unset lookup s = {}" using "2.prems" by (simp add: unset_def)
    with "2.IH" None have "expands lookup s (substitute lookup s)" by simp
    moreover have "\<forall>name r. valid_name name \<longrightarrow> c # s \<noteq> reference_text name @ r"
      using None reference_at_iff by (metis option.distinct(1))
    ultimately show ?thesis using None expands.plain by (simp add: substitute_def)
  next
    case (Some name)
    let ?r = "drop (length name + 3) (c # s)"
    from "2.prems" Some have un: "unset lookup ?r = {}" and "lookup name \<noteq> None"
      by (auto simp: unset_def)
    then obtain v where v: "lookup name = Some v" by blast
    from reference_at_SomeD [OF Some] have n: "valid_name name" "c # s = reference_text name @ ?r" by auto
    have "expands lookup ?r (substitute lookup ?r)" using "2.IH" Some un by simp
    from expands.reference [of name lookup v, OF n(1) v this] n(2)
    have "expands lookup (c # s) (v @ substitute lookup ?r)" by metis
    with Some v show ?thesis by (simp add: substitute_def)
  qed
qed

section \<open>Missing names\<close>

lemma distinct_remdups_adj_sorted: "sorted xs \<Longrightarrow> distinct (remdups_adj (xs :: 'a :: linorder list))"
proof (induction xs rule: remdups_adj.induct)
  case (3 x y xs)
  then show ?case
    by (cases "x = y") (auto simp: remdups_adj_set intro: antisym)
qed simp_all

lemma remdups_adj_sort: "remdups_adj (sort xs) = sorted_list_of_set (set (xs :: 'a :: linorder list))"
  by (rule sorted_distinct_set_unique) (simp_all add: distinct_remdups_adj_sorted sorted_remdups_adj)

lemma missing_variables_eq: "missing_variables lookup s = sorted_list_of_set (unset lookup s)"
  by (simp add: missing_variables_def remdups_adj_sort unset_def set_filter)

lemma finite_unset [simp]: "finite (unset lookup s)"
  by (simp add: unset_def)

lemma expand_environment_eq:
  "expand_environment lookup s =
     (if unset lookup s = {} then Inr (substitute lookup s)
      else Inl (missing_error (sorted_list_of_set (unset lookup s))))"
  by (simp add: expand_environment_def missing_variables_eq substitute_def)

text \<open>A reference never crosses the line ends between the joined values.\<close>

lemma has_prefix_newline: "has_prefix (s @ CHR 0x0A # t) ''${'' \<longleftrightarrow> has_prefix s ''${''"
proof (cases s)
  case (Cons a s')
  then show ?thesis by (cases s') auto
qed simp

lemma reference_at_newline: "reference_at (s @ CHR 0x0A # t) = reference_at s"
proof (cases "has_prefix s ''${''")
  case True
  then obtain r where s: "s = ''${'' @ r" using has_prefixD by blast
  have d: "takeWhile name_char (r @ CHR 0x0A # t) = takeWhile name_char r"
    "dropWhile name_char (r @ CHR 0x0A # t) = dropWhile name_char r @ CHR 0x0A # t"
    using newline_no_name by (induction r) auto
  show ?thesis
  proof (cases "dropWhile name_char r")
    case Nil
    then show ?thesis by (simp add: s reference_at_def Let_def d del: dropWhile_eq_Nil_conv)
  qed (simp add: s reference_at_def Let_def d)
next
  case False
  then show ?thesis by (simp add: reference_at_def has_prefix_newline)
qed

lemma pieces_newline: "pieces (s @ CHR 0x0A # t) = pieces s @ Literal (CHR 0x0A) # pieces t"
proof (induction s rule: pieces.induct)
  case 1
  have "reference_at (CHR 0x0A # t) = None" by (simp add: reference_at_def)
  then show ?case by simp
next
  case (2 c s)
  have at: "reference_at (c # s @ CHR 0x0A # t) = reference_at (c # s)"
    using reference_at_newline [of "c # s" t] by simp
  show ?case
  proof (cases "reference_at (c # s)")
    case None
    with "2.IH" at show ?thesis by simp
  next
    case (Some name)
    have "length name + 3 \<le> length (c # s)"
      using arg_cong [OF conjunct2 [OF reference_at_SomeD [OF Some]], of length]
      by (simp add: reference_text_def)
    then have "drop (length name + 3) (c # s @ CHR 0x0A # t) = drop (length name + 3) (c # s) @ CHR 0x0A # t"
      by (metis append_Cons drop_append diff_is_0_eq drop_0)
    with "2.IH" Some at show ?thesis by simp
  qed
qed

lemma reference_names_append [simp]: "reference_names (xs @ ys) = reference_names xs @ reference_names ys"
  by (induction xs rule: reference_names.induct) simp_all

lemma unset_join: "unset lookup (join [CHR 0x0A] vs) = (\<Union>v \<in> set vs. unset lookup v)"
proof (induction "[CHR 0x0A]" vs rule: join.induct)
  case 1
  show ?case by (simp add: unset_def)
next
  case (3 s t ts)
  then show ?case by (auto simp: unset_def pieces_newline)
qed simp

lemma expand_each_eq:
  "(\<Union>v \<in> set vs. unset lookup v) = {} \<Longrightarrow> expand_each lookup vs = Inr (map (substitute lookup) vs)"
  by (induction vs) (auto simp: expand_environment_eq)

lemma expand_scalars_eq:
  "expand_scalars lookup vs =
     (let missing = (\<Union>v \<in> set vs. unset lookup v)
      in if missing = {} then Inr (map (substitute lookup) vs)
         else Inl (missing_error (sorted_list_of_set missing)))"
  using expand_each_eq [of lookup vs] by (simp add: expand_scalars_def expand_environment_eq unset_join Let_def)

section \<open>The tree keeps its shape\<close>

text \<open>A tree without the values of its strings: kinds, keys, tags and every other scalar.\<close>

fun skeleton :: "yaml \<Rightarrow> yaml" and skeleton_all :: "yaml list \<Rightarrow> yaml list" and
  skeleton_values :: "yaml list \<Rightarrow> yaml list" where
  "skeleton (YMapping ns) = YMapping (skeleton_values ns)"
| "skeleton (YDocument ns) = YDocument (skeleton_all ns)"
| "skeleton (YSequence ns) = YSequence (skeleton_all ns)"
| "skeleton (YScalar tag v) = YScalar tag (if tag = ''!!str'' then [] else v)"
| "skeleton (YAlias a) = YAlias a"
| "skeleton_all [] = []"
| "skeleton_all (n # ns) = skeleton n # skeleton_all ns"
| "skeleton_values (k # v # ns) = k # skeleton v # skeleton_values ns"
| "skeleton_values [k] = [k]"
| "skeleton_values [] = []"

lemma put_scalars_spec:
  "length xs = length (string_scalars n) \<Longrightarrow>
     \<exists>n'. put_scalars n (xs @ r) = (n', r) \<and> string_scalars n' = xs \<and> skeleton n' = skeleton n"
  "length xs = length (scalars_all ns) \<Longrightarrow>
     \<exists>ns'. put_all ns (xs @ r) = (ns', r) \<and> scalars_all ns' = xs \<and> skeleton_all ns' = skeleton_all ns"
  "length xs = length (scalars_values ms) \<Longrightarrow>
     \<exists>ms'. put_values ms (xs @ r) = (ms', r) \<and> scalars_values ms' = xs \<and> skeleton_values ms' = skeleton_values ms"
proof (induction n and ns and ms arbitrary: xs r and xs r and xs r
    rule: string_scalars_scalars_all_scalars_values.induct)
  case (1 ns)
  then obtain ns' where "put_values ns (xs @ r) = (ns', r)" "scalars_values ns' = xs" "skeleton_values ns' = skeleton_values ns"
    by fastforce
  then show ?case by simp
next
  case (2 ns)
  then obtain ns' where "put_all ns (xs @ r) = (ns', r)" "scalars_all ns' = xs" "skeleton_all ns' = skeleton_all ns"
    by fastforce
  then show ?case by simp
next
  case (3 ns)
  then obtain ns' where "put_all ns (xs @ r) = (ns', r)" "scalars_all ns' = xs" "skeleton_all ns' = skeleton_all ns"
    by fastforce
  then show ?case by simp
next
  case (4 tag v)
  then show ?case by (cases xs) (auto split: if_splits)
next
  case (7 n ns)
  let ?k = "length (string_scalars n)"
  from 7(3) have len: "length (take ?k xs) = ?k" "length (drop ?k xs) = length (scalars_all ns)" by auto
  from 7(1) [OF len(1), of "drop ?k xs @ r"] obtain n' where
    n': "put_scalars n (xs @ r) = (n', drop ?k xs @ r)" "string_scalars n' = take ?k xs" "skeleton n' = skeleton n"
    by (metis append.assoc append_take_drop_id)
  from 7(2) [OF len(2), of r] obtain ns' where
    "put_all ns (drop ?k xs @ r) = (ns', r)" "scalars_all ns' = drop ?k xs" "skeleton_all ns' = skeleton_all ns"
    by blast
  with n' show ?case by simp
next
  case (8 k v ns)
  let ?k = "length (string_scalars v)"
  from 8(3) have len: "length (take ?k xs) = ?k" "length (drop ?k xs) = length (scalars_values ns)" by auto
  from 8(1) [OF len(1), of "drop ?k xs @ r"] obtain v' where
    v': "put_scalars v (xs @ r) = (v', drop ?k xs @ r)" "string_scalars v' = take ?k xs" "skeleton v' = skeleton v"
    by (metis append.assoc append_take_drop_id)
  from 8(2) [OF len(2), of r] obtain ns' where
    "put_values ns (drop ?k xs @ r) = (ns', r)" "scalars_values ns' = drop ?k xs" "skeleton_values ns' = skeleton_values ns"
    by blast
  with v' show ?case by simp
qed auto

section \<open>Accepted configurations\<close>

definition good_source :: "source_config \<Rightarrow> bool" where
  "good_source s \<longleftrightarrow>
     so_id s \<noteq> [] \<and> so_description s \<noteq> [] \<and> so_type s = ''postgres'' \<and> so_host s \<noteq> [] \<and> 1 \<le> so_port s \<and>
     so_username s \<noteq> [] \<and> so_database s \<noteq> [] \<and> so_table s \<noteq> [] \<and> so_serial s \<noteq> [] \<and> so_partitioning s \<noteq> [] \<and>
     {so_serial s, so_partitioning s} \<subseteq> set (so_columns s)"

definition good_destination :: "bytes set \<Rightarrow> destination_config \<Rightarrow> bool" where
  "good_destination sources d \<longleftrightarrow>
     de_id d \<noteq> [] \<and> de_description d \<noteq> [] \<and> de_type d = ''http-push'' \<and> de_endpoint d \<noteq> [] \<and> de_username d \<noteq> [] \<and>
     de_sources d \<noteq> [] \<and> set (de_sources d) \<subseteq> sources \<and>
     (\<forall>f. de_filter d = Some f \<longrightarrow> fi_column f \<noteq> [] \<and> fi_values f \<noteq> [])"

definition good_application :: "application \<Rightarrow> bool" where
  "good_application a \<longleftrightarrow>
     ap_sources a \<noteq> [] \<and> distinct (map so_id (ap_sources a)) \<and> (\<forall>s \<in> set (ap_sources a). good_source s) \<and>
     distinct (map de_id (ap_destinations a)) \<and>
     (\<forall>d \<in> set (ap_destinations a). good_destination (so_id ` set (ap_sources a)) d)"

definition good_engine :: "engine_config \<Rightarrow> bool" where
  "good_engine c \<longleftrightarrow>
     en_version c = 1 \<and> en_namespace c \<noteq> [] \<and> en_environment c \<noteq> [] \<and> en_brokers c \<noteq> [] \<and> 1 \<le> en_partitions c \<and>
     1 \<le> en_replication c \<and> (en_environment c = ''production'' \<longrightarrow> en_replication c = 3) \<and> en_connect_url c \<noteq> [] \<and>
     en_listen c \<noteq> [] \<and> en_database_url c \<noteq> [] \<and> en_request_timeout c \<noteq> 0 \<and> en_drain_timeout c \<noteq> 0"

lemma validate_source_None:
  "so_id s \<noteq> [] \<Longrightarrow> so_description s \<noteq> [] \<Longrightarrow> validate_source s = None \<longleftrightarrow> good_source s"
  by (auto simp: validate_source_def good_source_def source_postgres_def Let_def)

lemma validate_sources_Inr:
  "validate_sources ss seen = Inr ids \<longleftrightarrow>
     ids = rev (map so_id ss) @ seen \<and> ids \<noteq> [] \<and> distinct (map so_id ss) \<and> so_id ` set ss \<inter> set seen = {} \<and>
     (\<forall>s \<in> set ss. good_source s)"
proof (induction ss seen rule: validate_sources.induct)
  case (1 seen)
  then show ?case by auto
next
  case (2 s ss seen)
  show ?case
  proof (cases "so_id s = [] \<or> so_description s = [] \<or> so_id s \<in> set seen \<or> validate_source s \<noteq> None")
    case True
    then have "so_id s \<in> set seen \<or> \<not> good_source s"
      using validate_source_None [of s] by (cases "so_id s = [] \<or> so_description s = []") (auto simp: good_source_def)
    moreover have "validate_sources (s # ss) seen \<noteq> Inr ids"
      using True by (cases "validate_source s") auto
    ultimately show ?thesis by auto
  next
    case False
    then have "good_source s" using validate_source_None by blast
    with False 2 show ?thesis by auto
  qed
qed

lemma validate_destination_None:
  "de_id d \<noteq> [] \<Longrightarrow> de_description d \<noteq> [] \<Longrightarrow>
   validate_destination d sources = None \<longleftrightarrow> good_destination (set sources) d"
  by (auto simp: validate_destination_def good_destination_def destination_http_push_def Let_def find_None_iff
      dest: find_SomeD split: option.splits)

lemma validate_destinations_None:
  "validate_destinations ds sources seen = None \<longleftrightarrow>
     distinct (map de_id ds) \<and> de_id ` set ds \<inter> set seen = {} \<and> (\<forall>d \<in> set ds. good_destination (set sources) d)"
proof (induction ds sources seen rule: validate_destinations.induct)
  case (2 d ds sources seen)
  show ?case
  proof (cases "de_id d = [] \<or> de_description d = [] \<or> de_id d \<in> set seen \<or> validate_destination d sources \<noteq> None")
    case True
    then have "de_id d \<in> set seen \<or> \<not> good_destination (set sources) d"
      using validate_destination_None [of d sources]
      by (cases "de_id d = [] \<or> de_description d = []") (auto simp: good_destination_def)
    moreover have "validate_destinations (d # ds) sources seen \<noteq> None"
      using True by (cases "validate_destination d sources") auto
    ultimately show ?thesis by auto
  next
    case False
    then have "good_destination (set sources) d" using validate_destination_None by blast
    with False 2 show ?thesis by auto
  qed
qed auto

lemma validate_application_None: "validate_application a = None \<longleftrightarrow> good_application a"
proof (cases "validate_sources (ap_sources a) []")
  case (Inl e)
  then have "\<not> (distinct (map so_id (ap_sources a)) \<and> ap_sources a \<noteq> [] \<and> (\<forall>s \<in> set (ap_sources a). good_source s))"
    using validate_sources_Inr [of "ap_sources a" "[]" "rev (map so_id (ap_sources a))"] by auto
  with Inl show ?thesis by (auto simp: validate_application_def good_application_def)
next
  case (Inr ids)
  from validate_sources_Inr [of "ap_sources a" "[]" ids] Inr
  have ids: "set ids = so_id ` set (ap_sources a)" "distinct (map so_id (ap_sources a))" "ap_sources a \<noteq> []"
    "\<forall>s \<in> set (ap_sources a). good_source s" by auto
  with Inr show ?thesis
    by (simp add: validate_application_def good_application_def validate_destinations_None)
qed

lemma check_engine_None:
  "check_engine (apply_defaults c) = None \<longleftrightarrow> good_engine (apply_defaults c)"
  by (auto simp: check_engine_def good_engine_def apply_defaults_def default_to_def)

section \<open>Properties\<close>

text \<open>
  C12. Loading a file replaces the references in its string values and nothing else: when every variable named in
  them is set, the tree keeps its shape, keys, tags and other scalars, and each string is read once from the left
  with every reference replaced by its value, so that a value never adds structure and is never expanded again.
  Otherwise the file is refused with one error that names every variable of the file that is not set, sorted and
  without repetition.
\<close>

theorem environment_is_substituted:
  assumes "cw_read W path = Inr b" and "cw_parse W b = Inr document"
    and missing: "missing = (\<Union>v \<in> set (string_scalars document). unset (cw_lookup W) v)"
  shows "if missing = {}
    then (\<exists>tree. load_tree W path = Inr tree \<and> skeleton tree = skeleton document \<and>
      list_all2 (expands (cw_lookup W)) (string_scalars document) (string_scalars tree))
    else load_tree W path = Inl (Errorf (path @ '': '' @ error_text (missing_error (sorted_list_of_set missing))))"
proof (cases "missing = {}")
  case True
  let ?vs = "map (substitute (cw_lookup W)) (string_scalars document)"
  obtain tree where tree: "put_scalars document ?vs = (tree, [])" "string_scalars tree = ?vs" "skeleton tree = skeleton document"
    using put_scalars_spec(1) [of ?vs document "[]"] by auto
  have "expand_scalars (cw_lookup W) (string_scalars document) = Inr ?vs"
    using True by (simp add: expand_scalars_eq missing)
  with tree(1) assms(1,2) have "load_tree W path = Inr tree" by (simp add: load_tree_def)
  moreover have "list_all2 (expands (cw_lookup W)) (string_scalars document) ?vs"
    using True substitute_expands unfolding missing list_all2_map2 by (intro list_all2_same [THEN iffD2]) auto
  ultimately show ?thesis using True tree(2,3) by auto
next
  case False
  then have "expand_scalars (cw_lookup W) (string_scalars document) = Inl (missing_error (sorted_list_of_set missing))"
    by (simp add: expand_scalars_eq missing)
  with assms(1,2) False show ?thesis by (simp add: load_tree_def)
qed

text \<open>A file with two references, of which one variable is set.\<close>

definition small_tree :: yaml where
  "small_tree = YDocument [YMapping [YScalar ''!!str'' ''${KEY}'', YScalar ''!!str'' ''pg://${USER}@db'',
     YScalar ''!!str'' ''port'', YScalar ''!!int'' ''5432'']]"

definition small_world :: config_world where
  "small_world =
     \<lparr>cw_read = (\<lambda>_. Inr []), cw_parse = (\<lambda>_. Inr small_tree),
      cw_lookup = (\<lambda>n. if n = ''USER'' then Some ''${KEY}'' else None),
      cw_engine = (\<lambda>_. Inl Canceled), cw_application = (\<lambda>_. Inl Canceled)\<rparr>"

lemma environment_is_substituted_witness:
  "\<exists>tree. load_tree small_world ''postie.yaml'' = Inr tree \<and> skeleton tree = skeleton small_tree \<and>
     list_all2 (expands (cw_lookup small_world)) [''pg://${USER}@db''] (string_scalars tree)"
proof -
  have "string_scalars small_tree = [''pg://${USER}@db'']" by code_simp
  moreover have "unset (cw_lookup small_world) ''pg://${USER}@db'' = {}"
  proof -
    have "filter (\<lambda>n. cw_lookup small_world n = None) (reference_names (pieces ''pg://${USER}@db'')) = []" by code_simp
    then show ?thesis by (auto simp: unset_def filter_empty_conv)
  qed
  ultimately show ?thesis
    using environment_is_substituted [of small_world "''postie.yaml''" "[]" small_tree "{}"]
    by (simp add: small_world_def)
qed

text \<open>
  C1. The engine starts only with a configuration that keeps all the rules: loading succeeds exactly when the
  engine file, with defaults in place of its zero settings, and the application file it names both decode and
  are well formed. A well-formed application has sources and destinations with unique identifiers, complete
  connections, serial and partitioning columns among the captured ones, and destinations that name known sources.
\<close>

theorem loaded_configuration_is_valid:
  "load_config W path = Inr (c, a) \<longleftrightarrow>
     (\<exists>d c0 d'. load_tree W path = Inr d \<and> cw_engine W d = Inr c0 \<and> c = apply_defaults c0 \<and> good_engine c \<and>
        load_tree W (en_application_config c) = Inr d' \<and> cw_application W d' = Inr a \<and> good_application a)"
proof -
  have "load_engine W path = Inr c \<longleftrightarrow>
      (\<exists>d c0. load_tree W path = Inr d \<and> cw_engine W d = Inr c0 \<and> c = apply_defaults c0 \<and> good_engine c)" for c
    by (auto simp: load_engine_def validate_engine_def Let_def check_engine_None split: sum.splits option.splits)
       (metis check_engine_None option.distinct(1))+
  moreover have "load_application W p = Inr a \<longleftrightarrow>
      (\<exists>d'. load_tree W p = Inr d' \<and> cw_application W d' = Inr a \<and> good_application a)" for p
    by (auto simp: load_application_def validate_application_None split: sum.splits option.splits)
       (metis validate_application_None option.distinct(1))+
  moreover have "load_config W path = Inr (c, a) \<longleftrightarrow>
      load_engine W path = Inr c \<and> load_application W (en_application_config c) = Inr a"
    by (auto simp: load_config_def split: sum.splits)
  ultimately show ?thesis by blast
qed

end
