(* ===== verification/WiringLaws.thy ===== *)
theory WiringLaws
  imports Wiring ConfigLaws ControlSafety
begin

text \<open>
  Every lookup of the composition finds what the configuration says, and the engine ends in the right order.
\<close>

section \<open>What the loop over the sources leaves\<close>

lemma add_sources:
  "res_sources (fold (add_source D en) inputs r) = rev (map (\<lambda>s. (so_id s, source_of s)) inputs) @ res_sources r"
  "res_inspectors (fold (add_source D en) inputs r) =
     rev (map (\<lambda>s. (so_id s, open_source D (source_of s) (connection_of s))) inputs) @ res_inspectors r"
  "res_connections (fold (add_source D en) inputs r) =
     rev (map (\<lambda>s. (so_id s, connection_of s)) inputs) @ res_connections r"
  "res_publications (fold (add_source D en) inputs r) =
     rev (map (\<lambda>s. (so_id s, read_map [] (en_sources en) (so_id s))) inputs) @ res_publications r"
  "res_scope (fold (add_source D en) inputs r) = res_scope r"
  by (induction inputs arbitrary: r) (simp_all add: add_source_def Let_def source_of_def)

lemma map_of_rev_key:
  assumes "\<And>y. y \<in> set xs \<Longrightarrow> f y = f x \<Longrightarrow> g y = g x" "x \<in> set xs"
  shows "map_of (rev (map (\<lambda>y. (f y, g y)) xs)) (f x) = Some (g x)"
proof -
  have "map_of (rev (map (\<lambda>y. (f y, g y)) xs)) (f x) \<noteq> None"
    using assms(2) by (auto simp: map_of_eq_None_iff image_iff)
  then obtain v where v: "map_of (rev (map (\<lambda>y. (f y, g y)) xs)) (f x) = Some v" by blast
  then have "(f x, v) \<in> set (map (\<lambda>y. (f y, g y)) xs)" by (auto dest: map_of_SomeD)
  then obtain y where "y \<in> set xs" "f y = f x" "v = g y" by auto
  with assms(1) v show ?thesis by metis
qed

lemma map_of_unique_key:
  "distinct (map f xs) \<Longrightarrow> x \<in> set xs \<Longrightarrow> map_of (rev (map (\<lambda>y. (f y, g y)) xs)) (f x) = Some (g x)"
  by (rule map_of_rev_key) (auto simp: distinct_map inj_on_def)

text \<open>The entries of one configured source.\<close>

definition resolved :: "pg_driver \<Rightarrow> engine_config \<Rightarrow> resources \<Rightarrow> source_config \<Rightarrow> bool" where
  "resolved D en r input \<longleftrightarrow>
     map_of (res_sources r) (so_id input) = Some (source_of input) \<and>
     map_of (res_inspectors r) (so_id input) = Some (open_source D (source_of input) (connection_of input)) \<and>
     map_of (res_connections r) (so_id input) = Some (connection_of input) \<and>
     map_of (res_publications r) (so_id input) = Some (read_map [] (en_sources en) (so_id input))"

lemma bootstrap_resolves:
  assumes "bootstrap A en a g w = (Inr r, w1)" and "good_application a" and "input \<in> set (ap_sources a)"
  shows "resolved (ad_driver A) en r input" and "res_scope r = \<lparr>sc_namespace = en_namespace en,
           sc_environment = en_environment en, sc_generation = g\<rparr>" and "generation_valid g"
proof -
  have r: "r = fold (add_source (ad_driver A) en) (ap_sources a) (new_resources en g)" and g: "generation_valid g"
    using assms(1) by (auto simp: bootstrap_def split: if_splits prod.splits option.splits)
  from assms(2) have d: "distinct (map so_id (ap_sources a))" by (simp add: good_application_def)
  note entry = map_of_unique_key [OF d assms(3)]
  show "resolved (ad_driver A) en r input"
    by (simp add: resolved_def r add_sources new_resources_def entry [of source_of] entry [of connection_of]
        entry [of "\<lambda>s. open_source (ad_driver A) (source_of s) (connection_of s)"]
        entry [of "\<lambda>s. read_map [] (en_sources en) (so_id s)"])
  show "res_scope r = \<lparr>sc_namespace = en_namespace en, sc_environment = en_environment en, sc_generation = g\<rparr>"
    by (simp add: r add_sources new_resources_def)
  show "generation_valid g" by (rule g)
qed

lemma destinations_by_id_resolves:
  "good_application a \<Longrightarrow> d \<in> set (ap_destinations a) \<Longrightarrow>
   map_of (destinations_by_id (ap_destinations a)) (de_id d) = Some d"
  unfolding destinations_by_id_def good_application_def
  by (rule map_of_unique_key [where g = "\<lambda>d. d", simplified]) auto

section \<open>The maps of a consumer\<close>

definition wired_source :: "'w wiring \<Rightarrow> bytes \<Rightarrow> source" where
  "wired_source W i = read_map zero_source (res_sources (wr_resources W)) i"

definition wired_topic :: "(bytes \<times> registration) list \<Rightarrow> bytes \<Rightarrow> bytes" where
  "wired_topic registered i = nm_topic (reg_names (read_map zero_registration registered i))"

lemma wire_sources_maps:
  "wire_sources W c input registered d is topics workers =
     (rev (map (\<lambda>i. (wired_topic registered i, wired_source W i)) is) @ topics,
      rev (map (\<lambda>i. (wired_topic registered i,
        worker_of W c input (wired_source W i) (read_map zero_registration registered i) d)) is) @ workers)"
  by (induction "is" arbitrary: topics workers) (simp_all add: Let_def wired_topic_def wired_source_def)

lemma wiring_consumer_maps:
  assumes "inj_on (wired_topic registered) (set (tg_sources target))" and "i \<in> set (tg_sources target)"
  shows "map_of (co_sources (wiring_consumer W c target registered d)) (wired_topic registered i) = Some (wired_source W i)"
    and "rr_topic raw = wired_topic registered i \<Longrightarrow>
      co_process (wiring_consumer W c target registered d) fuel raw commit =
        worker_process fuel c
          (worker_of W c (read_map zero_destination (wr_destinations W) (tg_id target)) (wired_source W i)
            (read_map zero_registration registered i) d) raw commit"
proof -
  have same: "\<And>y. y \<in> set (tg_sources target) \<Longrightarrow> wired_topic registered y = wired_topic registered i \<Longrightarrow> y = i"
    using assms by (auto dest: inj_onD)
  have key: "map_of (rev (map (\<lambda>y. (wired_topic registered y, g y)) (tg_sources target))) (wired_topic registered i) = Some (g i)"
    for g :: "bytes \<Rightarrow> 'x"
    by (rule map_of_rev_key) (use same assms(2) in auto)
  show "map_of (co_sources (wiring_consumer W c target registered d)) (wired_topic registered i) = Some (wired_source W i)"
    by (simp add: wiring_consumer_def wire_sources_maps Let_def key)
  show "rr_topic raw = wired_topic registered i \<Longrightarrow>
      co_process (wiring_consumer W c target registered d) fuel raw commit =
        worker_process fuel c
          (worker_of W c (read_map zero_destination (wr_destinations W) (tg_id target)) (wired_source W i)
            (read_map zero_registration registered i) d) raw commit"
    by (simp add: wiring_consumer_def wire_sources_maps Let_def key)
qed

text \<open>
  C7. A record is delivered for the source and the destination the configuration names. With a configuration that
  passed validation, the consumer of every destination gets, for each of its sources that is registered, the topic of
  the registration with the configured source, and a record of that topic goes to a worker that decodes it with that
  source, its registered identity and the generation of the process, asks the gate about that source, and sends to the
  endpoint, with the credentials and the filter, of that destination. The consumer subscribes to the topics of these
  sources and no others. No lookup falls back to a zero value.
\<close>

theorem records_reach_their_worker:
  assumes "validate_application a = None" and "bootstrap A en a g w = (Inr r, w1)"
    and "wr_resources W = r" and "wr_destinations W = destinations_by_id (ap_destinations a)"
    and "dest \<in> set (ap_destinations a)" and "i \<in> set (de_sources dest)" and "map_of registered i = Some reg"
    and "inj_on (wired_topic registered) (set (de_sources dest))"
    and "target = \<lparr>tg_id = de_id dest, tg_sources = de_sources dest\<rparr>" and "rr_topic raw = nm_topic (reg_names reg)"
  shows "\<exists>input wk. input \<in> set (ap_sources a) \<and> so_id input = i \<and> resolved (ad_driver A) en r input \<and>
    target \<in> set (control_destinations (ap_destinations a)) \<and>
    set (ks_topics (consumer_settings (wiring_consumer W c target registered d))) = wired_topic registered ` set (de_sources dest) \<and>
    map_of (co_sources (wiring_consumer W c target registered d)) (rr_topic raw) = Some (source_of input) \<and>
    co_process (wiring_consumer W c target registered d) fuel raw commit = worker_process fuel c wk raw commit \<and>
    wk = worker_of W c dest (source_of input) reg d \<and>
    wk_decode wk raw = decode_event (source_of input) (reg_identity reg) g (Some raw) \<and>
    wk_source wk = i \<and> wk_destination wk = de_id dest \<and> wk_gate wk = Some (gate_of_dispatch d) \<and>
    dst_filter (pr_destination (wk_processor wk)) = filter_for (de_filter dest)"
proof -
  have good: "good_application a" using assms(1) by (simp add: validate_application_None)
  then have "i \<in> so_id ` set (ap_sources a)"
    using assms(5,6) by (auto simp: good_application_def good_destination_def)
  then obtain input where input: "input \<in> set (ap_sources a)" "so_id input = i" by auto
  have res: "resolved (ad_driver A) en r input" and scope: "sc_generation (res_scope r) = g"
    using bootstrap_resolves [OF assms(2) good input(1)] by simp_all
  have src: "wired_source W i = source_of input"
    using res input(2) assms(3) by (simp add: wired_source_def read_map_def resolved_def)
  have reg: "read_map zero_registration registered i = reg" and topic: "wired_topic registered i = rr_topic raw"
    using assms(7,10) by (simp_all add: read_map_def wired_topic_def)
  have dest: "read_map zero_destination (wr_destinations W) (tg_id target) = dest"
    using destinations_by_id_resolves [OF good assms(5)] assms(4,9) by (simp add: read_map_def)
  have maps: "map_of (co_sources (wiring_consumer W c target registered d)) (wired_topic registered i) = Some (wired_source W i)"
      "co_process (wiring_consumer W c target registered d) fuel raw commit =
        worker_process fuel c
          (worker_of W c (read_map zero_destination (wr_destinations W) (tg_id target)) (wired_source W i)
            (read_map zero_registration registered i) d) raw commit"
    by (rule wiring_consumer_maps; use assms(6,8,9) topic in simp)+
  have "target \<in> set (control_destinations (ap_destinations a))"
    using assms(5,9) by (auto simp: control_destinations_def)
  moreover have "set (ks_topics (consumer_settings (wiring_consumer W c target registered d))) = wired_topic registered ` set (de_sources dest)"
    using assms(9) by (simp add: consumer_settings_def wiring_consumer_def wire_sources_maps Let_def image_image)
  ultimately show ?thesis
    using input res maps
    unfolding src reg dest topic
    by (intro exI [of _ input] exI [of _ "worker_of W c dest (source_of input) reg d"])
       (simp add: worker_of_def Let_def scope assms(3) source_of_def new_processor_def)
qed

section \<open>The end of a run\<close>

text \<open>
  C9. The engine ends in order. A run that starts ends only after its control loop has ended and left no subscription
  with a consumer; the server is drained after that, with the configured time-out, and the adapters are closed last.
  Its result is the error of a failed server, and no error when the context ended or the server was closed.
\<close>

theorem engine_ends_in_order:
  assumes "\<And>r. workers_only (env r)" and "run_app fuel A R env worker en a token g w = (Some res, w')"
  shows "(\<exists>e. new_app A env en a g worker w = (Inl e, w') \<and> res = Some e) \<or>
    (\<exists>app w1 finish w2 s' w3. new_app A env en a g worker w = (Inr app, w1) \<and>
       rw_serve R (en_listen en) (operator_handler fuel R (env (app_resources app)) token) w1 = (finish, w2) \<and>
       run_state (start fuel (env (app_resources app))) (app_service app, w2) = (True, s', w3) \<and>
       (\<forall>i. case sub_of i s' of None \<Rightarrow> True | Some y \<Rightarrow> sub_consumer y = None) \<and>
       w' = close_resources A (app_resources app) (rw_shutdown R (en_drain_timeout en) w3) \<and>
       res = (case finish of ServerFailed e \<Rightarrow> Some e | _ \<Rightarrow> None))"
proof (cases "new_app A env en a g worker w")
  case (Pair x w1)
  show ?thesis
  proof (cases x)
    case (Inl e)
    with Pair assms(2) show ?thesis by (auto simp: run_app_def)
  next
    case (Inr app)
    let ?E = "env (app_resources app)"
    obtain finish w2 where f: "rw_serve R (en_listen en) (operator_handler fuel R ?E token) w1 = (finish, w2)"
      by (rule prod.exhaust)
    obtain b s' w3 where run: "run_state (start fuel ?E) (app_service app, w2) = (b, s', w3)"
      by (metis prod.exhaust)
    have b: b using assms(2) Pair Inr f run by (cases b) (simp_all add: run_app_def)
    from Pair Inr obtain u where "new_service ?E (res_scope (app_resources app)) (ordered_sources (ap_sources a)
        (res_sources (app_resources app))) (control_destinations (ap_destinations a)) worker u = (Inr (app_service app), w1)"
      by (auto simp: new_app_def split: prod.splits sum.splits)
    then have "pass_ok (app_service app)" by (rule new_service_ok)
    then have "no_consumers s'"
      using tripleD [OF start_leaves [OF assms(1)] _ run] b by simp
    then have none: "\<forall>i. case sub_of i s' of None \<Rightarrow> True | Some y \<Rightarrow> sub_consumer y = None"
      by (auto simp: no_consumers_def split: option.splits)
    have "res = (case finish of ServerFailed e \<Rightarrow> Some e | _ \<Rightarrow> None)"
      "w' = close_resources A (app_resources app) (rw_shutdown R (en_drain_timeout en) w3)"
      using assms(2) Pair Inr f run b by (simp_all add: run_app_def)
    with Pair Inr f run b none show ?thesis
      by (intro disjI2 exI [of _ app] exI [of _ w1] exI [of _ finish] exI [of _ w2] exI [of _ s'] exI [of _ w3]) simp
  qed
qed


section \<open>Witnesses\<close>

text \<open>One source, one destination, and adapters that open and do nothing.\<close>

definition users_config :: source_config where
  "users_config =
     \<lparr>so_id = ''users'', so_description = ''Users'', so_type = ''postgres'', so_host = ''db'', so_port = 5432,
      so_username = ''postie'', so_password = ''p@ss/word'', so_database = ''app'', so_table = ''users'',
      so_columns = [''id'', ''name''], so_serial = ''id'', so_partitioning = ''id''\<rparr>"

definition billing_config :: destination_config where
  "billing_config =
     \<lparr>de_id = ''billing'', de_description = ''Billing'', de_type = ''http-push'', de_endpoint = ''https://billing'',
      de_username = ''postie'', de_password = [], de_sources = [''users''], de_filter = None\<rparr>"

definition users_application :: application where
  "users_application = \<lparr>ap_sources = [users_config], ap_destinations = [billing_config]\<rparr>"

definition acme_engine :: engine_config where
  "acme_engine =
     \<lparr>en_version = 1, en_namespace = ''acme'', en_environment = ''staging'', en_application_config = ''app.yaml'',
      en_brokers = [''kafka:9092''], en_partitions = 10, en_replication = 1, en_connect_url = ''http://connect:8083'',
      en_listen = '':8080'', en_token_file = [], en_database_url = ''postgres://control'',
      en_request_timeout = 60 * 1000000000, en_drain_timeout = 30 * 1000000000, en_sources = []\<rparr>"

definition calm_http :: "'w http_env" where
  "calm_http = \<lparr>he_url_error = (\<lambda>_. None), he_default = (\<lambda>_ w. (Inl Canceled, w)), he_close = id, he_release = id, he_now = (\<lambda>_. 0)\<rparr>"

definition calm_adapters :: "'w adapters" where
  "calm_adapters =
     \<lparr>ad_new_admin = (\<lambda>_ w. (None, w)), ad_close_admin = id, ad_store_new = (\<lambda>_. None),
      ad_store_ping = (\<lambda>w. (None, w)), ad_store_schema = (\<lambda>w. (None, w)), ad_close_store = id,
      ad_close_pool = (\<lambda>_. id), ad_driver = \<lparr>pd_parse = (\<lambda>_. None), pd_open = (\<lambda>_. None)\<rparr>,
      ad_query = (\<lambda>_ w. (Inl ''refused'', w)),
      ad_kafka = \<lparr>ka_list = (\<lambda>_ w. (Inr [], w)), ka_create = (\<lambda>_ _ _ _ w. (Inl TopicAlreadyExists, w)),
                  ka_describe = (\<lambda>_ w. (Inr [], w)), ka_wait = (\<lambda>w. (None, w))\<rparr>,
      ad_http = calm_http, ad_client = default_client calm_http, ad_deadline = (\<lambda>_. None),
      ad_get_stream = (\<lambda>_ _ w. (Inr None, w)), ad_register = (\<lambda>_ _ w. (None, w)), ad_block = (\<lambda>_ _ _ w. (None, w)),
      ad_ensure = (\<lambda>_ _ w. (None, w)), ad_wait = (\<lambda>w. (False, w)), ad_begin = id\<rparr>"

definition users_resources :: resources where
  "users_resources = fold (add_source (ad_driver (calm_adapters :: unit adapters)) acme_engine) [users_config]
     (new_resources acme_engine 1)"

lemma calm_store: "open_store (calm_adapters :: unit adapters) (en_database_url acme_engine) w = (None, w)"
proof -
  have "trim_space (en_database_url acme_engine) \<noteq> []" by code_simp
  then show ?thesis by (simp add: open_store_def ping_store_def calm_adapters_def)
qed

lemma users_bootstrap: "bootstrap (calm_adapters :: unit adapters) acme_engine users_application 1 w = (Inr users_resources, w)"
  using calm_store [of w]
  by (simp add: bootstrap_def generation_valid_def users_resources_def users_application_def)
     (simp add: calm_adapters_def)

definition users_wiring :: "unit wiring" where
  "users_wiring =
     \<lparr>wr_engine = acme_engine, wr_resources = users_resources, wr_destinations = destinations_by_id [billing_config],
      wr_log = (\<lambda>_. id), wr_http = calm_http, wr_deadline = (\<lambda>_. None), wr_jitter = (\<lambda>_ w. (0, w)),
      wr_has_skip = (\<lambda>_ _ _ w. (Inr False, w)), wr_save_skip = (\<lambda>_ _ _ w. (None, w))\<rparr>"

definition users_stream :: registration where
  "users_stream = zero_registration\<lparr>reg_source := ''users'', reg_names := zero_names\<lparr>nm_topic := ''t''\<rparr>\<rparr>"

definition ended_context :: "unit go_context" where
  "ended_context = \<lparr>ctx_err = (\<lambda>_. Some Canceled), ctx_wait = (\<lambda>_ w. (False, w))\<rparr>"

definition shut_dispatch :: "unit dispatch" where
  "shut_dispatch = \<lparr>dp_allowed = (\<lambda>_ _. False), dp_deadline = (\<lambda>_. 0), dp_block = (\<lambda>_ _. id)\<rparr>"

lemma records_reach_their_worker_witness:
  "\<exists>input wk. input \<in> {users_config} \<and>
     map_of (co_sources (wiring_consumer users_wiring ended_context \<lparr>tg_id = ''billing'', tg_sources = [''users'']\<rparr>
       [(''users'', users_stream)] shut_dispatch)) ''t'' = Some (source_of input) \<and>
     co_process (wiring_consumer users_wiring ended_context \<lparr>tg_id = ''billing'', tg_sources = [''users'']\<rparr>
       [(''users'', users_stream)] shut_dispatch) 1 (example_raw\<lparr>rr_topic := ''t''\<rparr>) (\<lambda>_ w. (None, w)) =
     worker_process 1 ended_context wk (example_raw\<lparr>rr_topic := ''t''\<rparr>) (\<lambda>_ w. (None, w)) \<and>
     wk_source wk = ''users'' \<and> wk_destination wk = ''billing''"
proof -
  have "validate_application users_application = None" by code_simp
  note law = records_reach_their_worker [OF this users_bootstrap, of users_wiring billing_config "''users''"
      "[(''users'', users_stream)]" users_stream "\<lparr>tg_id = ''billing'', tg_sources = [''users'']\<rparr>"
      "example_raw\<lparr>rr_topic := ''t''\<rparr>" ended_context shut_dispatch 1 "\<lambda>_ w. (None, w)"]
  show ?thesis
    using law by (simp add: users_wiring_def users_application_def billing_config_def users_stream_def) blast
qed

definition calm_run :: "(nat, unit) run_world" where
  "calm_run = \<lparr>rw_redirect = 301, rw_log = (\<lambda>_. new_log ''b'' True), rw_serve = (\<lambda>_ _ w. (ContextDone, w)),
     rw_shutdown = (\<lambda>_. id)\<rparr>"

lemma calm_run_ends:
  "run_app 1 calm_adapters calm_run (\<lambda>_. calm_env state_running) ''w1'' acme_engine users_application ''secret'' 1 () =
     (Some None, ())"
  by code_simp

lemma engine_ends_in_order_witness:
  "\<exists>app s'. new_app calm_adapters (\<lambda>_. calm_env state_running) acme_engine users_application 1 ''w1'' () = (Inr app, ()) \<and>
     run_state (start 1 (calm_env state_running)) (app_service app, ()) = (True, s', ()) \<and>
     (\<forall>i. case sub_of i s' of None \<Rightarrow> True | Some y \<Rightarrow> sub_consumer y = None)"
  using engine_ends_in_order [OF calm_workers calm_run_ends] by auto

end
