(* ===== verification/CommandLaws.thy ===== *)
theory CommandLaws
  imports Command WiringLaws ConnectorLaws
begin

text \<open>What the exit code of the provision command says.\<close>

section \<open>One attempt per source\<close>

text \<open>
  \<open>rs\<close> are the results of provisioning the sources \<open>ss\<close> one after the other, each in a fresh context, and \<open>ws\<close> the
  worlds before, between and after them.
\<close>

definition tried :: "nat \<Rightarrow> 'w adapters \<Rightarrow> resources \<Rightarrow> source_config list \<Rightarrow> (capture_error + registration) list \<Rightarrow>
    'w list \<Rightarrow> bool" where
  "tried fuel A r ss rs ws \<longleftrightarrow>
     length rs = length ss \<and> length ws = Suc (length ss) \<and>
     (\<forall>k < length ss. provision_source fuel (capture_of fuel A r) (source_of (ss ! k)) (ad_begin A (ws ! k)) =
        (Some (rs ! k), ws ! Suc k))"

lemma tried_Nil: "tried fuel A r [] [] [w]"
  by (simp add: tried_def)

lemma tried_Cons:
  assumes "provision_source fuel (capture_of fuel A r) (source_of s) (ad_begin A w) = (Some res, w1)"
    and "tried fuel A r ss rs ws" and "hd ws = w1"
  shows "tried fuel A r (s # ss) (res # rs) (w # ws)"
proof -
  have "ws ! 0 = w1" using assms(2,3) by (cases ws) (auto simp: tried_def)
  with assms(1,2) show ?thesis by (auto simp: tried_def nth_Cons less_Suc_eq_0_disj split: nat.splits)
qed

lemma provision_sources_tried:
  assumes "\<And>s. s \<in> set ss \<Longrightarrow> map_of (res_sources r) (so_id s) = Some (source_of s)"
    and "provision_sources fuel A r ss g w = (Some (ok, lines), w')"
  shows "\<exists>rs ws. tried fuel A r ss rs ws \<and> hd ws = w \<and> last ws = w' \<and>
    lines = map2 (\<lambda>s. provision_line s g) ss rs \<and> (ok \<longleftrightarrow> (\<forall>x \<in> set rs. \<not> isl x))"
  using assms
proof (induction ss arbitrary: w ok lines)
  case Nil
  then show ?case by (intro exI [of _ "[]"] exI [of _ "[w]"]) (simp add: tried_Nil)
next
  case (Cons s ss)
  have src: "read_map zero_source (res_sources r) (so_id s) = source_of s"
    using Cons.prems(1) [of s] by (simp add: read_map_def)
  from Cons.prems(2) obtain res w1 ok' lines' where
    *: "provision_source fuel (capture_of fuel A r) (source_of s) (ad_begin A w) = (Some res, w1)"
      "provision_sources fuel A r ss g w1 = (Some (ok', lines'), w')"
      "ok \<longleftrightarrow> ok' \<and> \<not> isl res" "lines = provision_line s g res # lines'"
    by (auto simp: src split: prod.splits option.splits sum.splits)
  from Cons.IH [OF Cons.prems(1) *(2)] obtain rs ws where
    "tried fuel A r ss rs ws" "hd ws = w1" "last ws = w'"
    "lines' = map2 (\<lambda>s. provision_line s g) ss rs" "ok' \<longleftrightarrow> (\<forall>x \<in> set rs. \<not> isl x)"
    by auto
  moreover from this have "ws \<noteq> []" by (auto simp: tried_def)
  ultimately show ?case
    using * by (intro exI [of _ "res # rs"] exI [of _ "w # ws"]) (auto intro: tried_Cons)
qed

section \<open>The command\<close>

text \<open>Every step of the command succeeded.\<close>

definition provisioned :: "nat \<Rightarrow> config_world \<Rightarrow> 'w adapters \<Rightarrow> bytes list \<Rightarrow> 'w \<Rightarrow> bool" where
  "provisioned fuel W A args w \<longleftrightarrow>
     (\<exists>path g en a r w0 rs ws. fst (provision_flags args) = Some (path, g) \<and> load_config W path = Inr (en, a) \<and>
        bootstrap A en a g w = (Inr r, w0) \<and> tried fuel A r (ap_sources a) rs ws \<and> hd ws = w0 \<and>
        (\<forall>x \<in> set rs. \<not> isl x) \<and> fst (ad_ensure A (res_scope r) (map de_id (ap_destinations a)) (last ws)) = None)"

lemma load_config_good: "load_config W path = Inr (en, a) \<Longrightarrow> good_application a"
  by (auto simp: load_config_def load_application_def validate_application_None [symmetric] split: sum.splits option.splits)

lemma tried_unique:
  assumes "tried fuel A r ss rs ws" "tried fuel A r ss rs' ws'" "hd ws = hd ws'"
  shows "rs = rs' \<and> ws = ws'"
proof -
  have len: "length ws = Suc (length ss)" "length ws' = Suc (length ss)" "length rs = length ss" "length rs' = length ss"
    using assms by (simp_all add: tried_def)
  have w: "k \<le> length ss \<Longrightarrow> ws ! k = ws' ! k" for k
  proof (induction k)
    case 0
    with assms(3) len show ?case by (cases ws; cases ws') auto
  next
    case (Suc k)
    then have k: "k < length ss" "ws ! k = ws' ! k" by simp_all
    with assms(1,2) have "(Some (rs ! k), ws ! Suc k) = (Some (rs' ! k), ws' ! Suc k)"
      unfolding tried_def by metis
    then show ?case by simp
  qed
  have "k < length ss \<Longrightarrow> rs ! k = rs' ! k" for k
    using w [of k] assms(1,2) unfolding tried_def by (metis less_imp_le old.prod.inject option.inject)
  with w len show ?thesis by (auto simp: list_eq_iff_nth_eq less_Suc_eq_le)
qed

lemma provision_tries:
  assumes "bootstrap A en a g w = (Inr r, w0)" and "good_application a"
    and "provision fuel A en a g w = (Some (code, lines), w')"
  shows "\<exists>rs ws. tried fuel A r (ap_sources a) rs ws \<and> hd ws = w0 \<and>
    take (length rs) lines = map2 (\<lambda>s. provision_line s g) (ap_sources a) rs \<and>
    code = (if (\<forall>x \<in> set rs. \<not> isl x) \<and>
      fst (ad_ensure A (res_scope r) (map de_id (ap_destinations a)) (last ws)) = None then 0 else 1) \<and>
    ((\<exists>x \<in> set rs. isl x) \<longrightarrow> w' = close_resources A r (last ws))"
proof -
  have res: "map_of (res_sources r) (so_id s) = Some (source_of s)" if "s \<in> set (ap_sources a)" for s
    using bootstrap_resolves(1) [OF assms(1,2) that] by (simp add: resolved_def)
  from assms(1,3) obtain ok ls w2 where ps: "provision_sources fuel A r (ap_sources a) g w0 = (Some (ok, ls), w2)"
    by (auto simp: provision_def split: prod.splits option.splits)
  from provision_sources_tried [OF res ps] obtain rs ws where
    t: "tried fuel A r (ap_sources a) rs ws" "hd ws = w0" "last ws = w2"
      "ls = map2 (\<lambda>s. provision_line s g) (ap_sources a) rs" "ok \<longleftrightarrow> (\<forall>x \<in> set rs. \<not> isl x)"
    by auto
  have len: "length ls = length rs" using t(1,4) by (simp add: tried_def)
  have "code = (if ok \<and> fst (ad_ensure A (res_scope r) (map de_id (ap_destinations a)) w2) = None then 0 else 1)"
    and "take (length ls) lines = ls" and "\<not> ok \<longrightarrow> w' = close_resources A r w2"
    using assms(1,3) ps
    by (auto simp: provision_def record_subscriptions_def destination_ids_def split: if_splits prod.splits option.splits)
  with t len show ?thesis
    by (intro exI [of _ rs] exI [of _ ws]) auto
qed

lemma provisioned_iff:
  assumes "fst (provision_flags args) = Some (path, g)" "load_config W path = Inr (en, a)"
    and "bootstrap A en a g w = (Inr r, w0)" and "tried fuel A r (ap_sources a) rs ws" "hd ws = w0"
  shows "provisioned fuel W A args w \<longleftrightarrow>
    (\<forall>x \<in> set rs. \<not> isl x) \<and> fst (ad_ensure A (res_scope r) (map de_id (ap_destinations a)) (last ws)) = None"
proof -
  have "provisioned fuel W A args w \<longleftrightarrow> (\<exists>rs' ws'. tried fuel A r (ap_sources a) rs' ws' \<and> hd ws' = w0 \<and>
      (\<forall>x \<in> set rs'. \<not> isl x) \<and> fst (ad_ensure A (res_scope r) (map de_id (ap_destinations a)) (last ws')) = None)"
    using assms(1-3) by (auto simp: provisioned_def)
  also have "\<dots> \<longleftrightarrow> (\<forall>x \<in> set rs. \<not> isl x) \<and>
      fst (ad_ensure A (res_scope r) (map de_id (ap_destinations a)) (last ws)) = None"
    using assms(4,5) tried_unique [OF assms(4)] by metis
  finally show ?thesis .
qed

text \<open>
  C8. The exit code of the provision command is the truth. It is 2 exactly for bad usage, without touching anything.
  It is 0 exactly when the configuration loaded, the adapters opened, every configured source was provisioned and the
  subscriptions were recorded, and otherwise 1. Once the adapters are open every configured source is tried, once, in
  the order of the configuration and whatever happened to the others, with a line for each; the subscriptions are
  recorded only when all of them succeeded.
\<close>

theorem exit_code_is_the_truth:
  assumes "run_provision fuel W A args w = (Some (code, lines), w')"
  shows "(code = 2 \<longleftrightarrow> fst (provision_flags args) = None) \<and> (code = 2 \<longrightarrow> w' = w) \<and> code \<in> {0, 1, 2} \<and>
    (code = 0 \<longleftrightarrow> provisioned fuel W A args w) \<and>
    (\<forall>path g en a r w0. fst (provision_flags args) = Some (path, g) \<and> load_config W path = Inr (en, a) \<and>
       bootstrap A en a g w = (Inr r, w0) \<longrightarrow>
       (\<exists>rs ws. tried fuel A r (ap_sources a) rs ws \<and> hd ws = w0 \<and>
          take (length rs) lines = map2 (\<lambda>s. provision_line s g) (ap_sources a) rs \<and>
          ((\<exists>x \<in> set rs. isl x) \<longrightarrow> code = 1 \<and> w' = close_resources A r (last ws))))"
proof (cases "fst (provision_flags args)")
  case None
  with assms show ?thesis by (auto simp: run_provision_def provisioned_def split: prod.splits)
next
  case (Some pg)
  obtain path g where pg: "pg = (path, g)" by (rule prod.exhaust)
  show ?thesis
  proof (cases "load_config W path")
    case (Inl e)
    with Some pg assms show ?thesis by (auto simp: run_provision_def provisioned_def split: prod.splits)
  next
    case (Inr ea)
    obtain en a where ea: "ea = (en, a)" by (rule prod.exhaust)
    have good: "good_application a" using Inr ea by (auto intro: load_config_good)
    have run: "provision fuel A en a g w = (Some (code, lines), w')"
      using assms Some pg Inr ea by (auto simp: run_provision_def split: prod.splits)
    obtain b w0 where boot: "bootstrap A en a g w = (b, w0)" by (rule prod.exhaust)
    show ?thesis
    proof (cases b)
      case (Inl e)
      with run boot Some pg Inr ea show ?thesis by (auto simp: provision_def provisioned_def)
    next
      case r: (Inr r)
      with boot have boot': "bootstrap A en a g w = (Inr r, w0)" by simp
      from provision_tries [OF this good run] obtain rs ws where
        t: "tried fuel A r (ap_sources a) rs ws" "hd ws = w0"
          "take (length rs) lines = map2 (\<lambda>s. provision_line s g) (ap_sources a) rs"
        and code: "code = (if (\<forall>x \<in> set rs. \<not> isl x) \<and>
            fst (ad_ensure A (res_scope r) (map de_id (ap_destinations a)) (last ws)) = None then 0 else 1)"
        and closed: "(\<exists>x \<in> set rs. isl x) \<longrightarrow> w' = close_resources A r (last ws)"
        by blast
      have flags: "fst (provision_flags args) = Some (path, g)" and load: "load_config W path = Inr (en, a)"
        using Some pg Inr ea by simp_all
      have "code = 0 \<longleftrightarrow> provisioned fuel W A args w" "code = 0 \<or> code = 1" "(\<exists>x \<in> set rs. isl x) \<Longrightarrow> code = 1"
        using provisioned_iff [OF flags load boot' t(1,2)] code by auto
      with flags load boot' t closed show ?thesis
        by (intro conjI allI impI) (auto intro!: exI [of _ rs] exI [of _ ws])
    qed
  qed
qed

section \<open>Witnesses\<close>

text \<open>A configuration on disk, and adapters with which its source can be provisioned.\<close>

definition acme_world :: config_world where
  "acme_world =
     \<lparr>cw_read = (\<lambda>_. Inr []), cw_parse = (\<lambda>_. Inr (YDocument [])), cw_lookup = (\<lambda>_. None),
      cw_engine = (\<lambda>_. Inr acme_engine), cw_application = (\<lambda>_. Inr users_application)\<rparr>"

definition users_catalog :: catalog where
  "users_catalog =
     \<lparr>ct_classes = [\<lparr>pc_oid = 1, pc_namespace = ''public'', pc_name = ''users'', pc_kind = CHR ''r''\<rparr>],
      ct_attributes =
        [\<lparr>pa_class = 1, pa_name = ''id'', pa_type = ''int8'', pa_not_null = True, pa_number = 1, pa_dropped = False\<rparr>,
         \<lparr>pa_class = 1, pa_name = ''name'', pa_type = ''text'', pa_not_null = False, pa_number = 2, pa_dropped = False\<rparr>],
      ct_indexes = [\<lparr>px_class = 1, px_key = [1], px_unique = True, px_primary = True\<rparr>],
      ct_slots = [(nm_slot (names_for ''acme'' ''staging'' (source_of users_config) 1), Some ''reserved'')]\<rparr>"

definition ready_http :: "unit http_env" where
  "ready_http =
     \<lparr>he_url_error = (\<lambda>_. None),
      he_default = (\<lambda>_ w. (Inr \<lparr>rs_status = 200, rs_body = status_body, rs_body_error = None, rs_lease = False\<rparr>, w)),
      he_close = id, he_release = id, he_now = (\<lambda>_. 0)\<rparr>"

definition ready_adapters :: "unit adapters" where
  "ready_adapters = calm_adapters
     \<lparr>ad_query := (\<lambda>_ w. (Inr users_catalog, w)), ad_http := ready_http, ad_client := default_client ready_http,
      ad_kafka := \<lparr>ka_list = (\<lambda>_ w. (Inr [], w)), ka_create = (\<lambda>_ _ _ _ w. (Inr (None, zero_id), w)),
                   ka_describe = (\<lambda>_ w. (Inr [], w)), ka_wait = (\<lambda>w. (None, w))\<rparr>\<rparr>"

definition users_identity_config :: identity where
  "users_identity_config =
     \<lparr>idn_table = ''users'', idn_serial = ''id'', idn_partitioning = ''id'', idn_event_id = [], idn_partitions = 10,
      idn_columns = [\<lparr>col_name = ''id'', col_type = ''int8''\<rparr>, \<lparr>col_name = ''name'', col_type = ''text''\<rparr>]\<rparr>"

definition acme_names :: names where
  "acme_names = names_for ''acme'' ''staging'' (source_of users_config) 1"

lemma users_resources_fields:
  "res_inspectors users_resources =
     [(''users'', \<lparr>sp_source = source_of users_config, sp_pool = Some (conn_string (connection_of users_config)), sp_error = []\<rparr>)]"
  "res_partitions users_resources = 10" "res_replication users_resources = 1" "res_publications users_resources = [(''users'', [])]"
  "res_scope users_resources = \<lparr>sc_namespace = ''acme'', sc_environment = ''staging'', sc_generation = 1\<rparr>"
  by (simp_all add: users_resources_def add_source_def new_resources_def open_source_def calm_adapters_def Let_def
      source_of_def users_config_def acme_engine_def read_map_def)

lemma users_source_fields:
  "src_id (source_of users_config) = ''users''" "src_table (source_of users_config) = ''users''"
  "src_serial (source_of users_config) = ''id''"
  by (simp_all add: source_of_def users_config_def)

lemma ready_table:
  "cap_table (capture_of f ready_adapters users_resources) ''users'' () =
     (Inr \<lparr>tf_exists = True, tf_columns = [(''name'', \<lparr>cf_type = ''text'', cf_not_null = False\<rparr>),
        (''id'', \<lparr>cf_type = ''int8'', cf_not_null = True\<rparr>)], tf_serial_unique = True\<rparr>, ())"
proof -
  have "table_exists users_catalog ''users''" "serial_unique_index users_catalog ''users'' ''id''"
    by (simp_all add: table_exists_def serial_unique_index_def users_catalog_def public_class_def)
  moreover have "rev (column_rows users_catalog ''users'') =
      [(''name'', \<lparr>cf_type = ''text'', cf_not_null = False\<rparr>), (''id'', \<lparr>cf_type = ''int8'', cf_not_null = True\<rparr>)]"
    by (simp add: column_rows_def users_catalog_def public_class_def)
  ultimately show ?thesis
    by (simp add: capture_of_def Let_def users_resources_fields inspect_table_def ready_adapters_def users_source_fields)
qed

lemma ready_topic: "cap_ensure_topic (capture_of f ready_adapters users_resources) n 10 1 () = (Inr zero_id, ())"
  by (simp add: capture_of_def ready_adapters_def Let_def ensure_topic_def existing_topic_def found_def)

lemma ready_connector:
  "cap_ensure_connector (capture_of f ready_adapters users_resources) src idn n m () = (None, ())"
  "cap_connector (capture_of f ready_adapters users_resources) c () =
     (Inr \<lparr>cs_connector = StateRunning, cs_tasks = [StateRunning], cs_failed = False, cs_trace = []\<rparr>, ())"
proof -
  show "cap_ensure_connector (capture_of f ready_adapters users_resources) src idn n m () = (None, ())"
    by (simp add: capture_of_def Let_def client_ensure_connector_def ensure_connector_def ready_adapters_def ready_http_def
        send_request_def default_client_def)
  show "cap_connector (capture_of f ready_adapters users_resources) c () =
     (Inr \<lparr>cs_connector = StateRunning, cs_tasks = [StateRunning], cs_failed = False, cs_trace = []\<rparr>, ())"
    using status_body_decoded(2)
    by (simp add: capture_of_def Let_def client_connector_status_def connector_status_of_def ready_adapters_def ready_http_def
        send_request_def default_client_def status_from_def connector_state_of_def)
qed

lemma ready_slot:
  "cap_slot (capture_of f ready_adapters users_resources) ''users'' (nm_slot acme_names) () =
     (Inr \<lparr>sl_exists = True, sl_wal = WALReserved\<rparr>, ())"
  by (simp add: capture_of_def Let_def users_resources_fields slot_health_def ready_adapters_def users_catalog_def
      acme_names_def wal_status_of_def)

lemma ready_source:
  "\<exists>reg. provision_source (Suc f) (capture_of (Suc f) ready_adapters users_resources) (source_of users_config) () = (Some (Inr reg), ())"
proof -
  let ?C = "capture_of (Suc f) ready_adapters users_resources"
  have fields: "cap_partitions ?C = 10" "cap_replication ?C = 1" "cap_get_stream ?C s i () = (Inr None, ())"
    "cap_register ?C s g () = (None, ())" for s i g
    by (simp_all add: capture_of_def Let_def users_resources_fields ready_adapters_def calm_adapters_def)
  have names: "capture_names ?C (source_of users_config) = (acme_names, PublicationManaged)"
    by (simp add: capture_names_def capture_of_def Let_def users_resources_fields acme_names_def)
  have identity: "identity_from (source_of users_config) \<lparr>tf_exists = True, tf_columns =
      [(''name'', \<lparr>cf_type = ''text'', cf_not_null = False\<rparr>), (''id'', \<lparr>cf_type = ''int8'', cf_not_null = True\<rparr>)],
      tf_serial_unique = True\<rparr> 10 = Inr users_identity_config"
    by code_simp
  have ready: "capture_ready \<lparr>cs_connector = StateRunning, cs_tasks = [StateRunning], cs_failed = False, cs_trace = []\<rparr>
      \<lparr>sl_exists = True, sl_wal = WALReserved\<rparr>"
    by (simp add: capture_ready_def tasks_running_def Provision.history_lost_def)
  show ?thesis
    by (simp add: provision_source_def users_source_fields ready_table fields identity names establish_def ready_topic
        ready_connector ready_slot ready users_identity_config_def)
qed

lemma ready_bootstrap: "bootstrap ready_adapters acme_engine users_application 1 () = (Inr users_resources, ())"
proof -
  have fields: "ad_new_admin ready_adapters = ad_new_admin calm_adapters" "ad_close_admin ready_adapters = ad_close_admin calm_adapters"
    "ad_store_new ready_adapters = ad_store_new (calm_adapters :: unit adapters)" "ad_store_ping ready_adapters = ad_store_ping calm_adapters"
    "ad_store_schema ready_adapters = ad_store_schema calm_adapters" "ad_close_store ready_adapters = ad_close_store calm_adapters"
    "ad_driver ready_adapters = ad_driver (calm_adapters :: unit adapters)"
    by (simp_all add: ready_adapters_def)
  have "bootstrap ready_adapters acme_engine users_application 1 () =
      bootstrap calm_adapters acme_engine users_application 1 ()"
    by (simp only: bootstrap_def open_store_def ping_store_def fields)
  then show ?thesis by (simp only: users_bootstrap)
qed

lemma ready_run:
  "\<exists>lines. run_provision 1 acme_world ready_adapters [''--config=postie.yaml'', ''-generation'', ''0x1''] () = (Some (0, lines), ())"
proof -
  have flags: "provision_flags [''--config=postie.yaml'', ''-generation'', ''0x1''] = (Some (''postie.yaml'', 1), [])"
    by code_simp
  have "load_config acme_world ''postie.yaml'' = Inr (acme_engine, users_application)"
    by code_simp
  moreover have "bootstrap ready_adapters acme_engine users_application 1 () = (Inr users_resources, ())"
    using ready_bootstrap .
  moreover obtain reg where "provision_source 1 (capture_of 1 ready_adapters users_resources) (source_of users_config) () = (Some (Inr reg), ())"
    using ready_source [of 0] by auto
  moreover have "read_map zero_source (res_sources users_resources) (so_id users_config) = source_of users_config"
    by (simp add: users_resources_def add_source_def new_resources_def Let_def source_of_def users_config_def read_map_def)
  moreover have "record_subscriptions ready_adapters users_resources ids () = ((0, []), ())"
    and "ad_begin ready_adapters () = ()" for ids
    by (simp_all add: record_subscriptions_def ready_adapters_def calm_adapters_def)
  ultimately show ?thesis
    by (simp add: run_provision_def flags provision_def users_application_def)
qed

lemma exit_code_is_the_truth_witness:
  "provisioned 1 acme_world ready_adapters [''--config=postie.yaml'', ''-generation'', ''0x1''] () \<and>
   fst (provision_flags [''--config=postie.yaml'', ''-generation'', ''0x1'']) \<noteq> None"
proof -
  obtain lines where "run_provision 1 acme_world ready_adapters [''--config=postie.yaml'', ''-generation'', ''0x1''] () =
      (Some (0, lines), ())"
    using ready_run by blast
  from exit_code_is_the_truth [OF this] show ?thesis by simp
qed

end
