(* ===== verification/Liveness.thy ===== *)
theory Liveness
  imports ControlStoreLaws
begin

text \<open>
  Progress: a worker whose context does not end and whose dependencies each fail only finitely often commits the
  record it is given. The failures left are counted by a measure on the world.
\<close>

section \<open>Failing finitely often\<close>

text \<open>No call adds failures, and a call whose answer is not \<open>ok\<close> uses one up.\<close>

definition answering :: "('w \<Rightarrow> nat) \<Rightarrow> ('a \<Rightarrow> bool) \<Rightarrow> ('w \<Rightarrow> 'a \<times> 'w) \<Rightarrow> bool" where
  "answering m ok f \<longleftrightarrow> (\<forall>w a w'. f w = (a, w') \<longrightarrow> m w' \<le> m w \<and> (\<not> ok a \<longrightarrow> m w' < m w))"

lemma answeringD: "answering m ok f \<Longrightarrow> f w = (a, w') \<Longrightarrow> m w' \<le> m w \<and> (\<not> ok a \<longrightarrow> m w' < m w)"
  unfolding answering_def by blast

text \<open>A context that never ends: every wait for its timer is served.\<close>

definition unending :: "('w \<Rightarrow> nat) \<Rightarrow> 'w go_context \<Rightarrow> bool" where
  "unending m c \<longleftrightarrow> (\<forall>w. ctx_err c w = None) \<and> (\<forall>d. answering m (\<lambda>_. True) (ctx_wait c d) \<and> (\<forall>w. fst (ctx_wait c d w)))"

lemma unending_sleep:
  assumes "unending m c"
  obtains w' where "ctx_sleep c d w = (None, w')" "m w' \<le> m w"
proof -
  obtain b w' where b: "ctx_wait c d w = (b, w')" by (rule prod.exhaust)
  from assms have a: "answering m (\<lambda>_. True) (ctx_wait c d)" and f: "fst (ctx_wait c d w)" by (simp_all add: unending_def)
  from f b have "b" by simp
  moreover have "m w' \<le> m w" using answeringD [OF a b] by simp
  ultimately show thesis using b that by (simp add: ctx_sleep_def)
qed

lemma unending_err: "unending m c \<Longrightarrow> ctx_err c w = None"
  by (simp add: unending_def)

section \<open>The loops\<close>

lemma retry_live:
  assumes c: "unending m c" and fn: "answering m (\<lambda>a. a = None) fn"
  shows "m w < fuel \<Longrightarrow> \<exists>w0 w'. retry fuel c delay fn w = (Some None, w') \<and> fn w0 = (None, w') \<and> m w' \<le> m w"
proof (induction fuel arbitrary: w)
  case (Suc fuel)
  obtain a w1 where a: "fn w = (a, w1)" by (rule prod.exhaust)
  show ?case
  proof (cases a)
    case None
    with a answeringD [OF fn a] unending_err [OF c] show ?thesis by auto
  next
    case (Some e)
    obtain w2 where s: "ctx_sleep c delay w1 = (None, w2)" "m w2 \<le> m w1" by (rule unending_sleep [OF c])
    have "m w1 < m w" using answeringD [OF fn a] Some by simp
    with s Suc.prems have "m w2 < fuel" "m w2 \<le> m w" by linarith+
    with Suc.IH [of w2] Some a s unending_err [OF c] show ?thesis by fastforce
  qed
qed simp

lemma retry_value_live:
  assumes c: "unending m c" and fn: "answering m (\<lambda>a. \<not> isl a) fn"
  shows "m w < fuel \<Longrightarrow> \<exists>x w'. retry_value fuel c delay fn w = (Some (Inr x), w') \<and> m w' \<le> m w"
proof (induction fuel arbitrary: w)
  case (Suc fuel)
  obtain a w1 where a: "fn w = (a, w1)" by (rule prod.exhaust)
  show ?case
  proof (cases a)
    case (Inr x)
    with a answeringD [OF fn a] unending_err [OF c] show ?thesis by auto
  next
    case (Inl e)
    obtain w2 where s: "ctx_sleep c delay w1 = (None, w2)" "m w2 \<le> m w1" by (rule unending_sleep [OF c])
    have "m w1 < m w" using answeringD [OF fn a] Inl by simp
    with s Suc.prems have "m w2 < fuel" "m w2 \<le> m w" by linarith+
    with Suc.IH [of w2] Inl a s unending_err [OF c] show ?thesis by fastforce
  qed
qed simp

lemma attempts_live:
  assumes c: "unending m c" and send: "answering m (\<lambda>a. \<not> isl a) (pr_send p r body)"
    and sleep: "pr_sleep p = ctx_sleep c" and jitter: "\<And>n. answering m (\<lambda>_. True) (pr_jitter p n)"
    and told: "\<And>k e w. m (on_attempt k e w) \<le> m w"
  shows "m w < fuel \<Longrightarrow> \<exists>x w'. attempts fuel p r body on_attempt k w = (Some (Inr x), w') \<and> m w' \<le> m w"
proof (induction fuel arbitrary: k w)
  case (Suc fuel)
  obtain a w1 where a: "pr_send p r body w = (a, w1)" by (rule prod.exhaust)
  let ?w2 = "on_attempt k (result_error a) w1"
  show ?case
  proof (cases a)
    case (Inr x)
    have "m ?w2 \<le> m w" using answeringD [OF send a] told [of k "result_error a" w1] by linarith
    with a Inr show ?thesis by auto
  next
    case (Inl e)
    obtain d w3 where d: "backoff k (pr_jitter p) ?w2 = (d, w3)" by (rule prod.exhaust)
    have "m w3 \<le> m ?w2"
      using d answeringD [OF jitter] by (auto simp: backoff_def Let_def split: prod.splits)
    moreover obtain w4 where s: "ctx_sleep c d w3 = (None, w4)" "m w4 \<le> m w3" by (rule unending_sleep [OF c])
    moreover have "m w1 < m w" using answeringD [OF send a] Inl by simp
    moreover have "m ?w2 \<le> m w1" by (rule told)
    ultimately have "m w4 < fuel" "m w4 \<le> m w" using Suc.prems by linarith+
    with Suc.IH [of w4 "Suc k"] Inl a d s sleep show ?thesis by fastforce
  qed
qed simp

section \<open>A worker\<close>

definition quiet_log :: "('w \<Rightarrow> nat) \<Rightarrow> 'w worker \<Rightarrow> bool" where
  "quiet_log m wk \<longleftrightarrow> (\<forall>e w. m (worker_log wk e w) \<le> m w)"

text \<open>The dependencies of a worker, each of which fails only as often as the measure allows.\<close>

definition recovering :: "('w \<Rightarrow> nat) \<Rightarrow> 'w go_context \<Rightarrow> 'w worker \<Rightarrow> stream_record \<Rightarrow> raw_record \<Rightarrow>
    (raw_record \<Rightarrow> 'w \<Rightarrow> go_error option \<times> 'w) \<Rightarrow> bool" where
  "recovering m c wk r raw commit \<longleftrightarrow>
     unending m c \<and> quiet_log m wk \<and>
     answering m (\<lambda>a. \<not> isl a) (wk_has_skip wk (wk_scope wk) (wk_destination wk) r) \<and>
     (\<forall>body. answering m (\<lambda>a. \<not> isl a) (pr_send (wk_processor wk) r body)) \<and>
     pr_sleep (wk_processor wk) = ctx_sleep c \<and> (\<forall>n. answering m (\<lambda>_. True) (pr_jitter (wk_processor wk) n)) \<and>
     answering m (\<lambda>a. a = None) (wk_save_skip wk (wk_scope wk) (wk_destination wk) r) \<and>
     answering m (\<lambda>a. a = None) (commit raw)"

lemma worker_send_live:
  assumes "recovering m c wk r raw commit"
    and "marshal_envelope (envelope_for r (pr_destination (wk_processor wk))) \<noteq> None" and "m w < fuel"
  shows "\<exists>x w'. worker_send fuel wk r entry w = (Some (Inr x), w') \<and> m w' \<le> m w"
proof -
  let ?p = "wk_processor wk"
  let ?on = "\<lambda>attempt err. worker_log wk (attempt_entry entry attempt err)"
  let ?w0 = "worker_log wk (started_entry entry) w"
  from assms(1) have log: "\<And>e w. m (worker_log wk e w) \<le> m w" by (simp add: recovering_def quiet_log_def)
  have w0: "m ?w0 \<le> m w" by (rule log)
  obtain body where body: "marshal_envelope (envelope_for r (pr_destination ?p)) = Some body" using assms(2) by blast
  have "\<exists>x w'. attempts fuel ?p r body ?on 0 ?w0 = (Some (Inr x), w') \<and> m w' \<le> m ?w0"
    by (rule attempts_live [where c = c])
       (use assms(1,3) w0 log le_less_trans [OF w0 assms(3)] in \<open>simp_all add: recovering_def\<close>)
  then obtain x w' where run: "process fuel ?p r ?on ?w0 = (Some (Inr x), w')" "m w' \<le> m ?w0"
    using body by (cases "matches_filter (dst_filter (pr_destination ?p)) (rec_payload r)") (auto simp: process_def)
  have "m (worker_log wk (outcome_entry entry x) w') \<le> m w"
    using log [of "outcome_entry entry x" w'] run(2) w0 by linarith
  with run show ?thesis by (auto simp: worker_send_def bindp_def)
qed

lemma worker_commit_live:
  assumes "recovering m c wk r raw commit"
  shows "answering m (\<lambda>a. a = None) (worker_commit c wk raw entry commit)"
proof -
  from assms have log: "\<And>e w. m (worker_log wk e w) \<le> m w" and commit: "answering m (\<lambda>a. a = None) (commit raw)"
    by (simp_all add: recovering_def quiet_log_def)
  show ?thesis
    unfolding answering_def
  proof (intro allI impI)
    fix w a w'
    assume *: "worker_commit c wk raw entry commit w = (a, w')"
    obtain b w1 where b: "commit raw w = (b, w1)" by (rule prod.exhaust)
    from * b have a: "a = b" and w': "\<exists>e. w' = worker_log wk e w1 \<or> w' = w1"
      by (auto simp: worker_commit_def split: option.splits if_splits)
    from w' log have "m w' \<le> m w1" by auto
    with answeringD [OF commit b] a show "m w' \<le> m w \<and> (a \<noteq> None \<longrightarrow> m w' < m w)" by auto
  qed
qed

lemma worker_skipped_live:
  assumes "recovering m c wk r raw commit"
  shows "answering m (\<lambda>a. \<not> isl a) (act_skipped (worker_actions fuel c wk raw r commit))"
  using assms by (auto simp: recovering_def worker_actions_def answering_def)

text \<open>
  A worker is given a record its decoder accepts, while its gate is open and its context does not end. If the
  skip store, the destination, the saving of skips and the commit may each fail, in any order and at any moment,
  but only a bounded number of times in all, then the worker returns without an error, and the last thing it did
  to the broker is a commit of this record that succeeded. As many rounds as there are failures left are enough
  for each of its loops.
\<close>

theorem every_record_is_committed:
  assumes "recovering m c wk r raw commit" and "worker_allowed wk w" and "wk_decode wk raw = Inr r"
    and "marshal_envelope (envelope_for r (pr_destination (wk_processor wk))) \<noteq> None" and "m w < fuel"
  shows "\<exists>w1 w2 w'. worker_process fuel c wk raw commit w = (Some None, w') \<and> commit raw w1 = (None, w2) \<and>
    w' = worker_log wk (committed_entry (entry_for r (wk_destination wk))) w2 \<and> m w' \<le> m w"
proof -
  let ?acts = "worker_actions fuel c wk raw r commit"
  let ?entry = "entry_for r (wk_destination wk)"
  from assms(1) have c: "unending m c" by (simp add: recovering_def)
  have commits: "\<exists>w1 w2 w'. retry fuel c store_retry_delay (act_commit ?acts) u = (Some None, w') \<and>
      commit raw w1 = (None, w2) \<and> w' = worker_log wk (committed_entry ?entry) w2 \<and> m w' \<le> m u" if "m u < fuel" for u
  proof -
    from retry_live [OF c worker_commit_live [OF assms(1), of ?entry] that, of store_retry_delay]
    obtain w0 w' where "retry fuel c store_retry_delay (worker_commit c wk raw ?entry commit) u = (Some None, w')"
        "worker_commit c wk raw ?entry commit w0 = (None, w')" "m w' \<le> m u" by blast
    then show ?thesis
      by (auto simp: worker_actions_def worker_commit_def split: prod.splits option.splits)
  qed
  obtain x u where skip: "retry_value fuel c store_retry_delay (act_skipped ?acts) w = (Some (Inr x), u)" "m u \<le> m w"
    using retry_value_live [OF c worker_skipped_live [OF assms(1)] assms(5)] by blast
  have "\<exists>u'. send_and_audit fuel c store_retry_delay ?acts u = (Some None, u') \<and> m u' \<le> m u"
  proof -
    have mu: "m u < fuel" using skip(2) assms(5) by linarith
    obtain y u1 where send: "act_send ?acts u = (Some (Inr y), u1)" "m u1 \<le> m u"
      using worker_send_live [OF assms(1,4) mu, of ?entry] by (auto simp: worker_actions_def)
    have audit: "answering m (\<lambda>a. a = None) (act_audit ?acts)"
      using assms(1) by (simp add: recovering_def worker_actions_def)
    have "m u1 < fuel" using mu send(2) by linarith
    from retry_live [OF c audit this, of store_retry_delay] send show ?thesis
      by (cases "y = Skipped") (force simp: send_and_audit_def bindp_def retp_def)+
  qed
  then obtain u' where sent: "send_and_audit fuel c store_retry_delay ?acts u = (Some None, u')" "m u' \<le> m u" by blast
  have le: "m u \<le> m w" "m u' \<le> m w" using skip(2) sent(2) by linarith+
  obtain v where v: "v = (if x then u else u')" and mv: "m v \<le> m w" using le by (metis (full_types))
  from commits [OF le_less_trans [OF mv assms(5)]]
  obtain w1 w2 w' where "retry fuel c store_retry_delay (act_commit ?acts) v = (Some None, w')"
      "commit raw w1 = (None, w2)" "w' = worker_log wk (committed_entry ?entry) w2" "m w' \<le> m v" by blast
  moreover from this(4) mv have "m w' \<le> m w" by (rule order_trans)
  ultimately show ?thesis
    using v skip sent assms(2,3) by (cases x) (auto simp: worker_process_def complete_record_def bindp_def)
qed

section \<open>An example\<close>

text \<open>Dependencies that fail, whichever is called, as often as the world says.\<close>

definition flaky :: "'a \<Rightarrow> 'a \<Rightarrow> nat \<Rightarrow> 'a \<times> nat" where
  "flaky bad good n = (case n of 0 \<Rightarrow> (good, 0) | Suc k \<Rightarrow> (bad, k))"

definition flaky_worker :: "nat worker" where
  "flaky_worker =
     \<lparr>wk_processor =
        \<lparr>pr_send = (\<lambda>_ _. flaky (Inl Canceled) (Inr Skipped)),
         pr_destination = \<lparr>dst_id = ''billing'', dst_description = [], dst_filter = None\<rparr>,
         pr_sleep = ctx_sleep endless, pr_jitter = (\<lambda>_ n. (0, n))\<rparr>,
      wk_decode = (\<lambda>_. Inr example_record), wk_has_skip = (\<lambda>_ _ _. flaky (Inl Canceled) (Inr False)),
      wk_save_skip = (\<lambda>_ _ _. flaky (Some Canceled) None), wk_scope = example_scope, wk_destination = ''billing'',
      wk_source = ''users'', wk_gate = None, wk_log = None\<rparr>"

lemma flaky_answering: "\<not> ok bad \<Longrightarrow> ok good \<Longrightarrow> answering (\<lambda>n. n) ok (flaky bad good)"
  by (auto simp: answering_def flaky_def split: nat.splits)

lemma flaky_recovering:
  "recovering (\<lambda>n. n) endless flaky_worker example_record example_raw (\<lambda>_. flaky (Some NotFound) None)"
  unfolding recovering_def
  by (intro conjI allI)
     (auto simp: flaky_worker_def unending_def endless_def quiet_log_def worker_log_def answering_def
       intro: flaky_answering split: nat.splits simp: flaky_def)

lemma every_record_is_committed_witness:
  "\<exists>w'. worker_process 6 endless flaky_worker example_raw (\<lambda>_. flaky (Some NotFound) None) 5 = (Some None, w')"
proof -
  have "marshal_envelope (envelope_for example_record (pr_destination (wk_processor flaky_worker))) \<noteq> None"
    by code_simp
  moreover have "worker_allowed flaky_worker 5" "wk_decode flaky_worker example_raw = Inr example_record"
    by (simp_all add: worker_allowed_def flaky_worker_def)
  ultimately show ?thesis
    using every_record_is_committed [OF flaky_recovering, of 5 6] by auto
qed

end
