(* ===== verification/Keeps.thy ===== *)
theory Keeps
  imports Consumer Ghost
begin

text \<open>
  What every operation keeps, the programs built from them keep: a delivery worker, the handling of one record and
  the whole goroutine of a partition, in finished runs and at every moment of a run under way.
\<close>

section \<open>Operations\<close>

definition call_keeps :: "('w \<Rightarrow> bool) \<Rightarrow> ('w \<Rightarrow> 'a \<times> 'w) \<Rightarrow> bool" where
  "call_keeps P f \<longleftrightarrow> (\<forall>w a w'. P w \<longrightarrow> f w = (a, w') \<longrightarrow> P w')"

definition step_keeps :: "('w \<Rightarrow> bool) \<Rightarrow> ('w \<Rightarrow> 'w) \<Rightarrow> bool" where
  "step_keeps P f \<longleftrightarrow> (\<forall>w. P w \<longrightarrow> P (f w))"

lemma call_keepsI: "(\<And>w a w'. P w \<Longrightarrow> f w = (a, w') \<Longrightarrow> P w') \<Longrightarrow> call_keeps P f"
  unfolding call_keeps_def by blast

lemma call_keepsD: "call_keeps P f \<Longrightarrow> f w = (a, w') \<Longrightarrow> P w \<Longrightarrow> P w'"
  unfolding call_keeps_def by blast

lemma step_keepsD: "step_keeps P f \<Longrightarrow> P w \<Longrightarrow> P (f w)"
  unfolding step_keeps_def by blast

lemma safe_keeps: "call_keeps P f \<Longrightarrow> safe P (liftp f) (\<lambda>_. P) P"
  by (rule safe_liftp) (rule call_keepsD)

text \<open>The operations of a delivery worker and of the goroutine of a partition.\<close>

definition worker_keeps :: "('w \<Rightarrow> bool) \<Rightarrow> 'w worker \<Rightarrow> bool" where
  "worker_keeps P wk \<longleftrightarrow>
     (\<forall>r body. call_keeps P (pr_send (wk_processor wk) r body)) \<and> (\<forall>d. call_keeps P (pr_sleep (wk_processor wk) d)) \<and>
     (\<forall>n. call_keeps P (pr_jitter (wk_processor wk) n)) \<and> (\<forall>s d r. call_keeps P (wk_has_skip wk s d r)) \<and>
     (\<forall>s d r. call_keeps P (wk_save_skip wk s d r)) \<and> (\<forall>e. step_keeps P (worker_log wk e)) \<and>
     (\<forall>reason. step_keeps P (worker_block wk reason))"

definition partition_keeps :: "('w \<Rightarrow> bool) \<Rightarrow> 'w partition_env \<Rightarrow> bool" where
  "partition_keeps P N \<longleftrightarrow>
     (\<forall>d. call_keeps P (ctx_wait (pn_ctx N) d)) \<and> call_keeps P (pn_fetch_offsets N) \<and>
     call_keeps P (pn_start_offsets N) \<and> call_keeps P (pn_end_offsets N) \<and> call_keeps P (pn_started N) \<and>
     call_keeps P (pn_mark_started N) \<and> (\<forall>o' e. call_keeps P (commit_position N o' e)) \<and>
     (\<forall>reason. step_keeps P (pn_block N reason)) \<and> step_keeps P (pn_cancel N) \<and> step_keeps P (pn_cancel_consumer N) \<and>
     step_keeps P (pn_set_initialized N) \<and> step_keeps P (pn_signal N) \<and> call_keeps P (pn_receive N) \<and>
     step_keeps P (pn_resume N)"

section \<open>One record\<close>

lemma safe_send_keeps:
  assumes "worker_keeps P wk"
  shows "safe P (worker_send fuel wk r e) (\<lambda>_. P) P"
proof -
  from assms have log: "step_keeps P (worker_log wk x)" for x by (simp add: worker_keeps_def)
  have "safe P (attempts fuel (wk_processor wk) r body (\<lambda>n err. worker_log wk (attempt_entry e n err)) 0) (\<lambda>_. P) P" for body
    by (rule safe_attempts) (use assms in \<open>auto simp: worker_keeps_def dest: call_keepsD step_keepsD\<close>)
  then have run: "safe P (process fuel (wk_processor wk) r (\<lambda>n err. worker_log wk (attempt_entry e n err))) (\<lambda>_. P) P"
    by (rule safe_process)
  have "safe P (bindp (process fuel (wk_processor wk) r (\<lambda>n err. worker_log wk (attempt_entry e n err)))
      (\<lambda>res w'. case res of Inr outcome \<Rightarrow> (Some res, worker_log wk (outcome_entry e outcome) w')
                 | Inl _ \<Rightarrow> (Some res, w'))) (\<lambda>_. P) P"
    by (rule safe_bindp [OF run]) (auto simp: safe_def step_keepsD [OF log] split: sum.splits)
  then show ?thesis
    unfolding worker_send_def by (rule safe_after) (rule step_keepsD [OF log])
qed

lemma safe_worker_keeps:
  assumes wk: "worker_keeps P wk" and ctx: "\<forall>d. call_keeps P (ctx_wait c d)" and commit: "call_keeps P (commit raw)"
  shows "safe P (worker_process fuel c wk raw commit) (\<lambda>_. P) P"
proof -
  from wk have log: "step_keeps P (worker_log wk x)" and block: "step_keeps P (worker_block wk reason)"
    and has: "call_keeps P (wk_has_skip wk s d r)" and save: "call_keeps P (wk_save_skip wk s d r)"
    and wait: "call_keeps P (ctx_wait c d')" for x reason s d r d'
    using ctx by (simp_all add: worker_keeps_def)
  have "safe P (complete_record fuel c store_retry_delay (worker_actions fuel c wk raw r commit))
      (\<lambda>x w. case x of None \<Rightarrow> P w | Some _ \<Rightarrow> P w) P" for r
  proof (rule safe_complete)
    fix w a w'
    assume "P w" "act_commit (worker_actions fuel c wk raw r commit) w = (a, w')"
    then have "P w'"
      using call_keepsD [OF commit] step_keepsD [OF log]
      by (auto simp: worker_actions_def worker_commit_def split: prod.splits option.splits if_splits)
    then show "case a of None \<Rightarrow> P w' | Some _ \<Rightarrow> P w'" by (simp split: option.splits)
  qed (auto simp: worker_actions_def split: if_splits intro: safe_send_keeps [OF wk]
      dest: call_keepsD [OF has] call_keepsD [OF save] call_keepsD [OF wait])
  then have run: "safe P (complete_record fuel c store_retry_delay (worker_actions fuel c wk raw r commit)) (\<lambda>_. P) P" for r
    by (rule safe_weaken) (auto split: option.splits)
  show ?thesis
  proof (rule safe_runI)
    fix w x w'
    assume P: "P w" and *: "worker_process fuel c wk raw commit w = (x, w')"
    have "P w'"
    proof (cases "\<not> worker_allowed wk w \<or> isl (wk_decode wk raw)")
      case True
      with * P show ?thesis
        by (auto simp: worker_process_def step_keepsD [OF block] split: if_splits sum.splits)
    next
      case False
      then obtain r where "wk_decode wk raw = Inr r" by (cases "wk_decode wk raw") auto
      with False * have "complete_record fuel c store_retry_delay (worker_actions fuel c wk raw r commit) w = (x, w')"
        by (simp add: worker_process_def)
      with safeD_Some [OF run P] safeD_None [OF run P] show ?thesis by (cases x) auto
    qed
    then show "case x of Some _ \<Rightarrow> P w' | None \<Rightarrow> P w'" by (simp split: option.splits)
  qed
qed

section \<open>The goroutine of a partition\<close>

text \<open>Beside the operations, the processing of one record has to keep the invariant when its commit does.\<close>

definition process_keeps :: "('w \<Rightarrow> bool) \<Rightarrow> 'w partition_env \<Rightarrow> bool" where
  "process_keeps P N \<longleftrightarrow>
     (\<forall>raw commit. call_keeps P (commit raw) \<longrightarrow> safe P (pn_process N raw commit) (\<lambda>_. P) P)"

lemma safe_record_keeps:
  assumes "\<forall>o' e. call_keeps P (commit_position N o' e)" "process_keeps P N"
  shows "safe P (process_record N h k) (\<lambda>_. P) P"
  using assms unfolding process_record_def process_keeps_def by simp

lemma safe_batch_keeps:
  assumes "\<forall>o' e. call_keeps P (commit_position N o' e)" "process_keeps P N"
  shows "safe P (process_batch N h ks) (\<lambda>_. P) P"
proof (induction ks)
  case (Cons k ks)
  then show ?case
    unfolding process_batch.simps
    by (intro safe_bindp [OF safe_record_keeps [OF assms]]) (auto intro: safe_retp split: option.splits)
qed (auto intro: safe_retp)

lemma step_keeps_lift: "step_keeps P f \<Longrightarrow> safe P (liftp (\<lambda>w. ((), if b w then f w else w))) (\<lambda>_. P) P"
  by (rule safe_liftp) (auto dest: step_keepsD split: if_splits)

lemma safe_loop_keeps:
  assumes N: "partition_keeps P N" "process_keeps P N"
  shows "safe P (batch_loop fuel N h) (\<lambda>_. P) P"
proof (induction fuel)
  case 0
  show ?case by (simp add: safe_def)
next
  case (Suc fuel)
  from N(1) have ops: "call_keeps P (pn_receive N)" "step_keeps P (pn_cancel_consumer N)" "step_keeps P (pn_resume N)"
    and commits: "\<forall>o' e. call_keeps P (commit_position N o' e)"
    by (simp_all add: partition_keeps_def)
  have "safe P (bindp (liftp (pn_receive N))
      (\<lambda>b. case b of None \<Rightarrow> retp ()
           | Some ks \<Rightarrow> bindp (process_batch N h ks)
               (\<lambda>err. case err of Some _ \<Rightarrow> give_up N
                       | None \<Rightarrow> bindp (resume_fetching N) (\<lambda>_. batch_loop fuel N h)))) (\<lambda>_. P) P"
    by (intro safe_bindp [OF safe_keeps [OF ops(1)]])
       (auto intro!: safe_retp safe_bindp [OF safe_batch_keeps [OF commits N(2)]] safe_bindp [OF step_keeps_lift [OF ops(3)]]
         step_keeps_lift [OF ops(2)] Suc simp: give_up_def resume_fetching_def split: option.splits)
  then show ?case by (simp add: safe_def)
qed

lemma check_keeps:
  assumes N: "partition_keeps P N"
  shows "call_keeps P (check_offsets N c lo hi)"
proof (rule call_keepsI)
  fix w a w'
  assume P: "P w" and run: "check_offsets N c lo hi w = (a, w')"
  from N have ops: "call_keeps P (pn_started N)" "call_keeps P (pn_mark_started N)"
    "call_keeps P (commit_position N o' e)" "step_keeps P (pn_cancel N)" "step_keeps P (pn_block N reason)"
    for o' e reason by (simp_all add: partition_keeps_def)
  have base: "P y" if "establish_baseline N lo hi known s x = (r, y)" "P x" for known s x r y
    using that by (auto simp: establish_baseline_def split: if_splits
        dest: call_keepsD [OF ops(3)] step_keepsD [OF ops(4)] step_keepsD [OF ops(5)])
  from run P show "P w'"
    by (auto simp: check_offsets_def split: option.splits prod.splits sum.splits
        dest: base call_keepsD [OF ops(1)] call_keepsD [OF ops(2)])
qed

lemma safe_initialize_keeps:
  assumes N: "partition_keeps P N"
  shows "safe P (initialize fuel N) (\<lambda>_. P) P"
proof -
  from N have ops: "call_keeps P (pn_fetch_offsets N)" "call_keeps P (pn_start_offsets N)" "call_keeps P (pn_end_offsets N)"
    and wait: "call_keeps P (ctx_wait (pn_ctx N) d)" for d
    by (simp_all add: partition_keeps_def)
  have once: "call_keeps P (initialize_once N)"
    by (rule call_keepsI)
       (auto simp: initialize_once_def split: prod.splits sum.splits dest: call_keepsD [OF check_keeps [OF N]]
         call_keepsD [OF ops(1)] call_keepsD [OF ops(2)] call_keepsD [OF ops(3)])
  have "safe P (initialize fuel N) (\<lambda>x w. case x of Inr _ \<Rightarrow> P w | Inl _ \<Rightarrow> P w) P"
    unfolding initialize_def
    by (rule safe_retry_value) (auto dest: call_keepsD [OF once] call_keepsD [OF wait] split: sum.splits)
  then show ?thesis by (rule safe_weaken) (auto split: sum.splits)
qed

lemma safe_run_keeps:
  assumes N: "partition_keeps P N" "process_keeps P N"
  shows "safe P (worker_run fuel N) (\<lambda>_. P) P"
proof -
  from N(1) have ops: "step_keeps P (pn_set_initialized N)" "step_keeps P (pn_signal N)" "step_keeps P (pn_cancel_consumer N)"
    by (simp_all add: partition_keeps_def)
  have tell: "safe P (liftp (\<lambda>w. ((), pn_signal N (pn_set_initialized N w)))) (\<lambda>_. P) P"
    by (rule safe_liftp) (auto intro: step_keepsD [OF ops(1)] step_keepsD [OF ops(2)])
  show ?thesis
    unfolding worker_run_def
    by (intro safe_bindp [OF safe_initialize_keeps [OF N(1)]])
       (auto intro!: safe_bindp [OF tell] safe_loop_keeps [OF N] step_keeps_lift [OF ops(3)]
         simp: give_up_def split: sum.splits)
qed

end
