(* ===== verification/PartitionLiveness.thy ===== *)
theory PartitionLiveness
  imports Liveness PartitionLaws Keeps
begin

text \<open>
  Progress of a whole partition: the offset check succeeds, no record makes the goroutine give up, and every batch
  it takes is committed to the last record before the next one is taken. As in theory \<open>Liveness\<close>, each of the
  calls may fail, but all of them together only as often as a measure on the world allows.
\<close>

section \<open>A partition that can recover\<close>

text \<open>The broker and the store of the offset check; history is never lost.\<close>

definition intact :: "'w partition_env \<Rightarrow> bool" where
  "intact N \<longleftrightarrow>
     (\<forall>v c lo hi s v'. answers N v c lo hi s v' \<longrightarrow>
        (uncommitted_entry c \<longrightarrow> \<not> s \<and> lo = 0) \<and> (\<forall>at. c = Some (None, at) \<longrightarrow> 0 \<le> at \<longrightarrow> lo \<le> at \<and> at \<le> hi))"

definition checkable :: "('w \<Rightarrow> nat) \<Rightarrow> 'w partition_env \<Rightarrow> bool" where
  "checkable m N \<longleftrightarrow>
     answering m (\<lambda>a. \<exists>c. a = Inr c \<and> (\<forall>e at. c \<noteq> Some (Some e, at))) (pn_fetch_offsets N) \<and>
     answering m (\<lambda>a. \<exists>at. a = Inr (Some (None, at))) (pn_start_offsets N) \<and>
     answering m (\<lambda>a. \<exists>at. a = Inr (Some (None, at))) (pn_end_offsets N) \<and>
     answering m (\<lambda>a. \<not> isl a) (pn_started N) \<and> answering m (\<lambda>a. a = None) (pn_mark_started N) \<and> intact N"

text \<open>The partition is owned and its source open, and what the goroutine tells others adds no failures.\<close>

definition undisturbed :: "('w \<Rightarrow> nat) \<Rightarrow> 'w partition_env \<Rightarrow> bool" where
  "undisturbed m N \<longleftrightarrow>
     unending m (pn_ctx N) \<and> (\<forall>w. pn_owned N w \<and> pn_allowed N w) \<and>
     (\<forall>o' e. answering m (\<lambda>a. a = None) (pn_commit_records N o' e)) \<and>
     (\<forall>w. m (pn_set_initialized N w) \<le> m w \<and> m (pn_signal N w) \<le> m w \<and> m (pn_resume N w) \<le> m w) \<and>
     answering m (\<lambda>_. True) (pn_receive N)"

text \<open>The record the worker makes of a broker record, and dependencies that recover for it.\<close>

definition deliverable :: "('w \<Rightarrow> nat) \<Rightarrow> 'w worker \<Rightarrow> 'w partition_env \<Rightarrow> int \<Rightarrow> kafka_record \<Rightarrow> bool" where
  "deliverable m wk N h k \<longleftrightarrow>
     (\<exists>r. wk_decode wk (raw_of h k) = Inr r \<and>
        marshal_envelope (envelope_for r (pr_destination (wk_processor wk))) \<noteq> None \<and>
        recovering m (pn_ctx N) wk r (raw_of h k)
          (\<lambda>position. commit_position N (rr_offset position) (rr_leader_epoch position)))"

definition progressing :: "('w \<Rightarrow> nat) \<Rightarrow> 'w worker \<Rightarrow> 'w partition_env \<Rightarrow> bool" where
  "progressing m wk N \<longleftrightarrow>
     checkable m N \<and> undisturbed m N \<and> (\<forall>w. worker_allowed wk w) \<and>
     (\<forall>v ks v' h k. pn_receive N v = (Some ks, v') \<longrightarrow> k \<in> set ks \<longrightarrow> deliverable m wk N h k)"

section \<open>The offset check\<close>

lemma commit_position_live:
  "undisturbed m N \<Longrightarrow> answering m (\<lambda>a. a = None) (commit_position N o' e)"
  by (auto simp: undisturbed_def commit_position_def [abs_def] unending_def answering_def)

lemma establish_live:
  assumes N: "undisturbed m N" "intact N" and ans: "answers N v c lo hi s w"
    and c: "\<forall>e at. c \<noteq> Some (Some e, at)" and run: "establish_baseline N lo hi c s w = (a, w')"
  shows "m w' \<le> m w \<and> (a \<noteq> None \<longrightarrow> m w' < m w)"
proof (cases "uncommitted_entry c")
  case True
  with N(2) ans have "\<not> s" "lo = 0" unfolding intact_def by blast+
  with True run have "commit_position N (-1) (-1) w = (a, w')"
    by (auto simp: establish_baseline_def uncommitted_entry_def)
  with answeringD [OF commit_position_live [OF N(1)]] show ?thesis by blast
next
  case False
  with c obtain at where at: "c = Some (None, at)" "0 \<le> at"
    unfolding uncommitted_entry_def by (metis not_le old.prod.exhaust option.exhaust)
  with N(2) ans have "lo \<le> at \<and> at \<le> hi" unfolding intact_def by blast
  with at run show ?thesis by (simp add: establish_baseline_def)
qed

lemma check_offsets_live:
  assumes N: "undisturbed m N" "checkable m N" and run: "check_offsets N c lo hi w3 = (a, w')"
    and c: "\<forall>e at. c \<noteq> Some (Some e, at)"
    and ans: "pn_fetch_offsets N w = (Inr c, w1)" "pn_start_offsets N w1 = (Inr (Some (None, lo)), w2)"
      "pn_end_offsets N w2 = (Inr (Some (None, hi)), w3)"
  shows "m w' \<le> m w3 \<and> (isl a \<longrightarrow> m w' < m w3)"
proof -
  have started: "answering m (\<lambda>a. \<not> isl a) (pn_started N)" and mark: "answering m (\<lambda>a. a = None) (pn_mark_started N)"
    and "intact N" using N(2) by (simp_all add: checkable_def)
  obtain s w4 where s: "pn_started N w3 = (s, w4)" by (rule prod.exhaust)
  note m4 = answeringD [OF started s]
  have skip: "check_offsets N c lo hi w3 =
      (case s of Inl e \<Rightarrow> (Inl e, w4)
       | Inr started \<Rightarrow> (case establish_baseline N lo hi c started w4 of
            (Some e, w5) \<Rightarrow> (Inl e, w5)
          | (None, w5) \<Rightarrow> (case pn_mark_started N w5 of (Some e, w6) \<Rightarrow> (Inl e, w6) | (None, w6) \<Rightarrow> (Inr hi, w6))))"
    using s c by (auto simp: check_offsets_def split: option.splits)
  show ?thesis
  proof (cases s)
    case (Inl e)
    with skip run m4 show ?thesis by simp
  next
    case (Inr b)
    obtain e w5 where e: "establish_baseline N lo hi c b w4 = (e, w5)" by (rule prod.exhaust)
    from ans s Inr have "answers N w c lo hi b w4" by (auto simp: answers_def)
    note m5 = establish_live [OF N(1) \<open>intact N\<close> this c e]
    obtain f w6 where f: "pn_mark_started N w5 = (f, w6)" by (rule prod.exhaust)
    note m6 = answeringD [OF mark f]
    show ?thesis
      using skip run Inr e f m4 m5 m6 by (cases e; cases f) auto
  qed
qed

lemma initialize_once_live:
  assumes N: "undisturbed m N" "checkable m N"
  shows "answering m (\<lambda>a. \<not> isl a) (initialize_once N)"
  unfolding answering_def
proof (intro allI impI)
  fix w a w'
  assume run: "initialize_once N w = (a, w')"
  obtain c w1 where c: "pn_fetch_offsets N w = (c, w1)" by (rule prod.exhaust)
  obtain lo w2 where lo: "pn_start_offsets N w1 = (lo, w2)" by (rule prod.exhaust)
  obtain hi w3 where hi: "pn_end_offsets N w2 = (hi, w3)" by (rule prod.exhaust)
  have fs: "answering m (\<lambda>a. \<exists>c. a = Inr c \<and> (\<forall>e at. c \<noteq> Some (Some e, at))) (pn_fetch_offsets N)"
    "answering m (\<lambda>a. \<exists>at. a = Inr (Some (None, at))) (pn_start_offsets N)"
    "answering m (\<lambda>a. \<exists>at. a = Inr (Some (None, at))) (pn_end_offsets N)"
    using N(2) by (simp_all add: checkable_def)
  note ms = answeringD [OF fs(1) c] answeringD [OF fs(2) lo] answeringD [OF fs(3) hi]
  show "m w' \<le> m w \<and> (\<not> \<not> isl a \<longrightarrow> m w' < m w)"
  proof (cases "(\<exists>x. c = Inr x \<and> (\<forall>e at. x \<noteq> Some (Some e, at))) \<and> (\<exists>at. lo = Inr (Some (None, at))) \<and>
      (\<exists>at. hi = Inr (Some (None, at)))")
    case True
    then obtain x l h where eq: "c = Inr x" "\<forall>e at. x \<noteq> Some (Some e, at)" "lo = Inr (Some (None, l))"
      "hi = Inr (Some (None, h))" by blast
    with run c lo hi have "check_offsets N x l h w3 = (a, w')" by (simp add: initialize_once_def)
    from check_offsets_live [OF N this eq(2) c [unfolded eq] lo [unfolded eq] hi [unfolded eq]] ms
    show ?thesis by linarith
  next
    case False
    then consider (c) "\<nexists>x. c = Inr x \<and> (\<forall>e at. x \<noteq> Some (Some e, at))" | (lo) "\<nexists>at. lo = Inr (Some (None, at))"
      | (hi) "\<nexists>at. hi = Inr (Some (None, at))" by blast
    then have "m w1 < m w \<or> m w2 < m w1 \<or> m w3 < m w2" using ms by cases blast+
    then have "m w3 < m w" using ms by linarith
    moreover have "w' = w1 \<and> isl c \<or> w' = w2 \<and> isl lo \<or> w' = w3"
      using False run c lo hi
      by (auto simp: initialize_once_def check_offsets_def known_offset_def split: sum.splits option.splits)
    ultimately show ?thesis using ms by (auto dest: isl_def [THEN iffD1])
  qed
qed

lemma initialize_live:
  assumes "undisturbed m N" "checkable m N" "m w < fuel"
  obtains h w' where "initialize fuel N w = (Some (Inr h), w')" "m w' \<le> m w"
proof -
  have "unending m (pn_ctx N)" using assms(1) by (simp add: undisturbed_def)
  from retry_value_live [OF this initialize_once_live [OF assms(1,2)] assms(3)] that show thesis
    unfolding initialize_def by blast
qed

section \<open>Batches\<close>

lemma delivering_fields [simp]:
  "pn_ctx (delivering fuel wk N) = pn_ctx N" "pn_fetch_offsets (delivering fuel wk N) = pn_fetch_offsets N"
  "pn_start_offsets (delivering fuel wk N) = pn_start_offsets N" "pn_end_offsets (delivering fuel wk N) = pn_end_offsets N"
  "pn_started (delivering fuel wk N) = pn_started N" "pn_mark_started (delivering fuel wk N) = pn_mark_started N"
  "pn_commit_records (delivering fuel wk N) = pn_commit_records N" "pn_owned (delivering fuel wk N) = pn_owned N"
  "pn_allowed (delivering fuel wk N) = pn_allowed N" "pn_block (delivering fuel wk N) = pn_block N"
  "pn_cancel (delivering fuel wk N) = pn_cancel N" "pn_set_initialized (delivering fuel wk N) = pn_set_initialized N"
  "pn_signal (delivering fuel wk N) = pn_signal N" "pn_receive (delivering fuel wk N) = pn_receive N"
  "pn_current (delivering fuel wk N) = pn_current N" "pn_resume (delivering fuel wk N) = pn_resume N"
  "pn_process (delivering fuel wk N) = worker_process fuel (pn_ctx N) wk"
  by (simp_all add: delivering_def)

lemma delivering_commit [simp]: "commit_position (delivering fuel wk N) = commit_position N"
  by (simp add: commit_position_def [abs_def] cong: if_cong)

lemma delivering_initialize [simp]: "initialize n (delivering fuel wk N) = initialize n N"
proof -
  have "establish_baseline (delivering fuel wk N) = establish_baseline N"
    by (simp add: establish_baseline_def [abs_def] cong: if_cong)
  then have "check_offsets (delivering fuel wk N) = check_offsets N"
    by (simp add: check_offsets_def [abs_def] cong: if_cong option.case_cong sum.case_cong prod.case_cong)
  then have "initialize_once (delivering fuel wk N) = initialize_once N"
    by (simp add: initialize_once_def [abs_def] cong: sum.case_cong prod.case_cong)
  then show ?thesis by (simp add: initialize_def)
qed

lemma process_record_live:
  assumes "deliverable m wk N h k" "\<forall>w. worker_allowed wk w" "m w < fuel"
  obtains w' where "process_record (delivering fuel wk N) h k w = (Some None, w')" "m w' \<le> m w"
proof -
  let ?commit = "\<lambda>position. commit_position N (rr_offset position) (rr_leader_epoch position)"
  from assms(1) obtain r where r: "wk_decode wk (raw_of h k) = Inr r"
    "marshal_envelope (envelope_for r (pr_destination (wk_processor wk))) \<noteq> None"
    "recovering m (pn_ctx N) wk r (raw_of h k) ?commit" unfolding deliverable_def by blast
  from every_record_is_committed [OF r(3) assms(2) [rule_format] r(1,2) assms(3)] that show thesis
    by (auto simp: process_record_def)
qed

lemma process_batch_live:
  assumes "\<forall>w. worker_allowed wk w"
  shows "\<forall>k \<in> set ks. deliverable m wk N h k \<Longrightarrow> m w < fuel \<Longrightarrow>
    \<exists>w'. process_batch (delivering fuel wk N) h ks w = (Some None, w') \<and> m w' \<le> m w"
proof (induction ks arbitrary: w)
  case Nil
  then show ?case by (simp add: retp_def)
next
  case (Cons k ks)
  have k: "deliverable m wk N h k" using Cons.prems(1) by simp
  obtain w1 where w1: "process_record (delivering fuel wk N) h k w = (Some None, w1)" "m w1 \<le> m w"
    using process_record_live [OF k assms Cons.prems(2)] by blast
  with Cons.prems have "m w1 < fuel" by linarith
  with Cons.IH Cons.prems(1) obtain w2 where "process_batch (delivering fuel wk N) h ks w1 = (Some None, w2)" "m w2 \<le> m w1"
    by auto
  with w1 show ?case by (simp add: bindp_def)
qed

text \<open>How many batches a log holds.\<close>

definition batches :: "part_event list \<Rightarrow> nat" where
  "batches t = length (filter (\<lambda>e. \<exists>ks. e = Received ks) t)"

lemma batches_snoc [simp]: "batches (t @ [e]) = batches t + (if \<exists>ks. e = Received ks then 1 else 0)"
  by (simp add: batches_def)

text \<open>Nothing but taking a batch adds one to the log.\<close>

lemma traced_keeps_batches:
  "worker_keeps (\<lambda>x. batches (snd x) = n) (traced_worker wk)"
  by (auto simp: worker_keeps_def call_keeps_def step_keeps_def traced_worker_def traced_processor_def worker_log_def
      worker_block_def dest: lift_call_log note_call_log split: option.splits)

lemma batch_keeps_batches:
  "safe (\<lambda>x. batches (snd x) = n) (process_batch (traced_partition fuel wk N) h ks) (\<lambda>_ x. batches (snd x) = n)
    (\<lambda>x. batches (snd x) = n)"
proof (rule safe_batch_keeps)
  show "\<forall>o' e. call_keeps (\<lambda>x. batches (snd x) = n) (commit_position (traced_partition fuel wk N) o' e)"
    by (auto simp: call_keeps_def commit_position_def traced_partition_def dest!: note_call_log split: if_splits)
  have "\<forall>d. call_keeps (\<lambda>x. batches (snd x) = n) (ctx_wait (lift_ctx (pn_ctx N)) d)"
    by (auto simp: call_keeps_def lift_ctx_def dest: lift_call_log)
  then show "process_keeps (\<lambda>x. batches (snd x) = n) (traced_partition fuel wk N)"
    by (auto simp: process_keeps_def traced_partition_def intro!: safe_worker_keeps traced_keeps_batches)
qed

lemma setup_batches: "watch dec Setup t = Some st \<Longrightarrow> st = Setup \<or> st = Checked \<Longrightarrow> batches t = 0"
proof (induction t arbitrary: st rule: rev_induct)
  case Nil
  then show ?case by (simp add: batches_def)
next
  case (snoc e t)
  then obtain st1 where "watch dec Setup t = Some st1" "advance dec st1 e = Some st" by (auto split: option.splits)
  with snoc show ?case by (cases "(dec, st1, e)" rule: advance.cases) (auto split: if_splits)
qed

lemma batch_loop_live:
  assumes prog: "progressing m wk N"
  shows "at wk (Working []) (w, t) \<Longrightarrow> m w < fuel \<Longrightarrow> batch_loop n (traced_partition fuel wk N) h (w, t) = (r, w', t') \<Longrightarrow>
    at wk (Working []) (w', t') \<and>
    (case r of None \<Rightarrow> batches t' = batches t + n | Some _ \<Rightarrow> \<exists>v. pn_receive N v = (None, w'))"
proof (induction n arbitrary: w t)
  case 0
  then show ?case by simp
next
  case (Suc n)
  let ?N = "traced_partition fuel wk N"
  obtain b v where b: "pn_receive N w = (b, v)" by (rule prod.exhaust)
  have receive: "answering m (\<lambda>_. True) (pn_receive N)" and resume: "m (pn_resume N u) \<le> m u" for u
    using prog by (simp_all add: progressing_def undisturbed_def)
  from answeringD [OF receive b] have mv: "m v \<le> m w" by simp
  show ?case
  proof (cases b)
    case None
    with Suc.prems b show ?thesis
      by (auto simp: bindp_def liftp_def retp_def traced_partition_def note_receive_def at_def)
  next
    case (Some ks)
    let ?t = "t @ [Received ks]"
    have P: "at wk (Working ks) (v, ?t)" using Suc.prems(1) by (simp add: at_def)
    obtain q v1 t1 where q: "process_batch ?N h ks (v, ?t) = (q, v1, t1)" by (metis prod.exhaust)
    have "\<forall>k \<in> set ks. deliverable m wk N h k" and "\<forall>w. worker_allowed wk w"
      using prog b Some unfolding progressing_def by blast+
    with process_batch_live mv Suc.prems(2)
    obtain v2 where "process_batch (delivering fuel wk N) h ks v = (Some None, v2)" "m v2 \<le> m v"
      by (meson le_less_trans)
    with mirrorsD [OF mirrors_process_batch q] have q': "q = Some None" "m v1 \<le> m v" by auto
    have at1: "at wk (Working []) (v1, t1)"
      using safeD_Some [OF safe_process_batch P] q q'(1) by fastforce
    have count: "batches t1 = Suc (batches t)"
      using safeD_Some [OF batch_keeps_batches _ q [unfolded q'(1)], of "batches ?t"] by simp
    obtain u where u: "u = (if pn_current N v1 \<and> ctx_err (pn_ctx N) v1 = None then pn_resume N v1 else v1)" by blast
    have "m u \<le> m v1" using u resume [of v1] by simp
    then have mu: "m u < fuel" using mv q'(2) Suc.prems(2) by linarith
    have "pn_receive ?N (w, t) = (Some ks, v, ?t)" "resume_fetching ?N (v1, t1) = (Some (), u, t1)"
      using b Some u
      by (auto simp: resume_fetching_def liftp_def traced_partition_def note_receive_def lift_step_def lift_read_def lift_ctx_def)
    with Suc.prems(3) q q'(1) have "batch_loop n ?N h (u, t1) = (r, w', t')"
      by (simp add: bindp_def liftp_def)
    from Suc.IH [OF _ mu this] at1 count show ?thesis by (simp add: at_def split: option.splits)
  qed
qed

section \<open>Properties\<close>

text \<open>
  C3. Every record a partition receives is committed. The partition is owned, its source stays open, history is
  not lost, the decoder accepts its records, and every dependency (broker, partition store, skip store, destination)
  may fail at any moment and in any order, but all of them together only as often as the measure of the world says.
  Then the offset check succeeds and the goroutine never gives up: at the end of every round all records received
  are committed, in order, and there are as many rounds as batches were taken. The run stops taking batches only
  when its context ends. One round more than there are failures left is enough for each loop inside.
\<close>

theorem every_received_record_is_committed:
  assumes "progressing m wk N" and "m w < fuel" and "logged_partition_run fuel wk N (w, []) = (res, w', t)"
  shows "partition_run fuel wk N w = (res, w') \<and> Initialized \<in> set t \<and> committed t = map position (received t) \<and>
    (case res of None \<Rightarrow> batches t = fuel | Some _ \<Rightarrow> \<exists>v. pn_receive N v = (None, w'))"
proof -
  let ?N = "traced_partition fuel wk N"
  have N: "undisturbed m N" "checkable m N" using assms(1) by (simp_all add: progressing_def)
  obtain h w1 where init: "initialize fuel N w = (Some (Inr h), w1)" "m w1 \<le> m w"
    using initialize_live [OF N assms(2)] by blast
  obtain a x where a: "initialize fuel ?N (w, []) = (a, x)" by (rule prod.exhaust)
  from mirrorsD [OF mirrors_initialize a] init(1) obtain t1 where x: "a = Some (Inr h)" "x = (w1, t1)"
    by (cases x) auto
  have start: "at wk Setup (w, [])" by (simp add: at_def)
  from safeD_Some [OF safe_initialize this a [unfolded x(1)]] x have at1: "at wk Checked (w1, t1)" by simp
  have b1: "batches t1 = 0" using at1 by (auto simp: at_def intro: setup_batches)
  let ?w2 = "pn_signal N (pn_set_initialized N w1)" and ?t2 = "t1 @ [Initialized]"
  have run: "batch_loop fuel ?N h (?w2, ?t2) = (res, w', t)"
    using assms(3) a x by (simp add: logged_partition_run_def worker_run_def bindp_def liftp_def)
       (simp add: traced_partition_def lift_step_def)
  have at2: "at wk (Working []) (?w2, ?t2)" using at1 by (simp add: at_def)
  have "m ?w2 \<le> m (pn_set_initialized N w1)" "m (pn_set_initialized N w1) \<le> m w1"
    using N(1) unfolding undisturbed_def by blast+
  then have "m ?w2 < fuel" using init(2) assms(2) by linarith
  from batch_loop_live [OF assms(1) at2 this run] b1
  have live: "at wk (Working []) (w', t)" "case res of None \<Rightarrow> batches t = fuel | Some _ \<Rightarrow> \<exists>v. pn_receive N v = (None, w')"
    by (auto split: option.splits)
  from live(1) have "ledger (Working []) t" by (auto simp: at_def dest: watch_ledger)
  with live(2) mirrorsD [OF mirrors_run assms(3)] show ?thesis by auto
qed

text \<open>A broker that always has two more records, and dependencies that fail as often as the world says.\<close>

definition flaky_partition :: "nat partition_env" where
  "flaky_partition = small_partition
     \<lparr>pn_fetch_offsets := flaky (Inl Canceled) (Inr None), pn_start_offsets := flaky (Inl Canceled) (Inr (Some (None, 0))),
      pn_end_offsets := flaky (Inr None) (Inr (Some (None, 2))), pn_started := flaky (Inl Canceled) (Inr False),
      pn_mark_started := flaky (Some Canceled) None, pn_commit_records := (\<lambda>_ _. flaky (Some Canceled) None),
      pn_receive := (\<lambda>w. (Some two_records, w))\<rparr>"

lemma flaky_inert:
  "flaky bad good w = (a, w') \<Longrightarrow> a = bad \<or> a = good"
  by (auto simp: flaky_def split: nat.splits)

lemma flaky_progressing: "progressing (\<lambda>n. n) flaky_worker flaky_partition"
proof -
  have env: "marshal_envelope (envelope_for example_record (pr_destination (wk_processor flaky_worker))) \<noteq> None"
    by code_simp
  have ctx: "pn_ctx flaky_partition = endless" by (simp add: flaky_partition_def small_partition_def)
  have "commit_position flaky_partition o' e = flaky (Some Canceled) None" for o' e
    by (rule ext) (simp add: commit_position_def flaky_partition_def small_partition_def endless_def)
  then have "recovering (\<lambda>n. n) endless flaky_worker example_record (raw_of h k)
      (\<lambda>position. commit_position flaky_partition (rr_offset position) (rr_leader_epoch position))" for h k
    using flaky_recovering by (simp add: recovering_def flaky_answering)
  then have "deliverable (\<lambda>n. n) flaky_worker flaky_partition h k" for h k
    using env ctx by (simp add: deliverable_def) (simp add: flaky_worker_def)
  moreover have "checkable (\<lambda>n. n) flaky_partition"
    unfolding checkable_def intact_def answers_def uncommitted_entry_def
    by (auto simp: flaky_partition_def intro!: flaky_answering dest!: flaky_inert)
  moreover have "undisturbed (\<lambda>n. n) flaky_partition"
    unfolding undisturbed_def
  proof (intro conjI allI)
    show "answering (\<lambda>n. n) (\<lambda>a. a = None) (pn_commit_records flaky_partition o' e)" for o' e
      by (simp add: flaky_partition_def flaky_answering)
  qed (auto simp: flaky_partition_def small_partition_def unending_def endless_def answering_def)
  ultimately show ?thesis by (simp add: progressing_def worker_allowed_def flaky_worker_def)
qed

text \<open>With four failures to come, five rounds take five batches and commit all of them.\<close>

lemma every_received_record_is_committed_witness:
  "\<exists>w' t. logged_partition_run 5 flaky_worker flaky_partition (4, []) = (None, w', t) \<and> batches t = 5 \<and>
     committed t = map position (received t)"
proof -
  obtain res w' t where run: "logged_partition_run 5 flaky_worker flaky_partition (4, []) = (res, w', t)"
    by (metis prod.exhaust)
  from every_received_record_is_committed [OF flaky_progressing _ run]
  have "committed t = map position (received t)"
    "case res of None \<Rightarrow> batches t = 5 | Some _ \<Rightarrow> \<exists>v. pn_receive flaky_partition v = (None, w')" by auto
  with run show ?thesis by (cases res) (auto simp: flaky_partition_def)
qed

end
