(* ===== verification/Goroutine.thy ===== *)
theory Goroutine
  imports Keeps Ownership PartitionLaws
begin

text \<open>
  The goroutine of a partition (theory \<open>Consumer\<close>) among the others of its consumer (theory \<open>Ownership\<close>): the flags
  the goroutine reads and writes are those of its worker in the consumer's state, and whenever it calls out, the other
  goroutines and the rebalance callbacks take steps of their own. The run then refines the step relation of
  \<open>Ownership\<close>, and what holds of every reachable consumer holds at each of its commits.
\<close>

section \<open>The shared state\<close>

text \<open>
  The consumer, the rest of the world, and, as a history no operation reads, the states of the consumer in which a commit
  request of this goroutine was sent and answered.
\<close>

record 'w shared =
  sh_consumer :: consumer
  sh_world :: 'w
  sh_commits :: "consumer list"

text \<open>\<open>others\<close> draws from the world what the other goroutines do to the consumer during a call.\<close>

type_synonym 'w others = "'w \<Rightarrow> (consumer \<Rightarrow> consumer) \<times> 'w"

definition meanwhile :: "'w others \<Rightarrow> 'w shared \<Rightarrow> 'w shared" where
  "meanwhile others x =
     (case others (sh_world x) of (g, w) \<Rightarrow> x\<lparr>sh_consumer := g (sh_consumer x), sh_world := w\<rparr>)"

definition beside :: "'w others \<Rightarrow> ('w \<Rightarrow> 'a \<times> 'w) \<Rightarrow> 'w shared \<Rightarrow> 'a \<times> 'w shared" where
  "beside others f x = (case f (sh_world x) of (a, w) \<Rightarrow> (a, meanwhile others (x\<lparr>sh_world := w\<rparr>)))"

definition aside :: "'w others \<Rightarrow> ('w \<Rightarrow> 'w) \<Rightarrow> 'w shared \<Rightarrow> 'w shared" where
  "aside others f x = meanwhile others (x\<lparr>sh_world := f (sh_world x)\<rparr>)"

definition touch :: "'w others \<Rightarrow> (consumer \<Rightarrow> consumer) \<Rightarrow> 'w shared \<Rightarrow> 'w shared" where
  "touch others f x = meanwhile others (x\<lparr>sh_consumer := f (sh_consumer x)\<rparr>)"

text \<open>
  \<^verbatim>\<open>commit\<close> past its guard: the worker is inside, holding \<^verbatim>\<open>w.mu\<close>, from the moment it was let in until the
  broker has answered.
\<close>

definition record_commit :: "'w shared \<Rightarrow> 'w shared" where
  "record_commit x = x\<lparr>sh_commits := sh_commits x @ [sh_consumer x]\<rparr>"

definition commit_inside :: "nat \<Rightarrow> 'w others \<Rightarrow> ('w \<Rightarrow> 'a \<times> 'w) \<Rightarrow> 'w shared \<Rightarrow> 'a \<times> 'w shared" where
  "commit_inside i others f x =
     (case beside others f (record_commit (x\<lparr>sh_consumer := begin_commit i (sh_consumer x)\<rparr>)) of
        (a, y) \<Rightarrow> (a, let z = record_commit y in z\<lparr>sh_consumer := end_commit i (sh_consumer z)\<rparr>))"

section \<open>The goroutine\<close>

definition owned_ctx :: "nat \<Rightarrow> 'w others \<Rightarrow> 'w go_context \<Rightarrow> 'w shared go_context" where
  "owned_ctx i others c =
     \<lparr>ctx_err = (\<lambda>x. if worker_ended (sh_consumer x) i then Some Canceled else None),
      ctx_wait = (\<lambda>d. beside others (ctx_wait c d))\<rparr>"

definition owned_worker :: "'w others \<Rightarrow> 'w worker \<Rightarrow> 'w shared worker" where
  "owned_worker others wk =
     \<lparr>wk_processor =
        \<lparr>pr_send = (\<lambda>r body. beside others (pr_send (wk_processor wk) r body)),
         pr_destination = pr_destination (wk_processor wk), pr_sleep = (\<lambda>d. beside others (pr_sleep (wk_processor wk) d)),
         pr_jitter = (\<lambda>n. beside others (pr_jitter (wk_processor wk) n))\<rparr>,
      wk_decode = wk_decode wk, wk_has_skip = (\<lambda>s d r. beside others (wk_has_skip wk s d r)),
      wk_save_skip = (\<lambda>s d r. beside others (wk_save_skip wk s d r)), wk_scope = wk_scope wk,
      wk_destination = wk_destination wk, wk_source = wk_source wk,
      wk_gate = map_option (\<lambda>g. \<lparr>gate_allowed = (\<lambda>s x. gate_allowed g s (sh_world x)),
        gate_block = (\<lambda>s reason. aside others (gate_block g s reason))\<rparr>) (wk_gate wk),
      wk_log = map_option (\<lambda>add e. aside others (add e)) (wk_log wk)\<rparr>"

text \<open>Worker \<open>i\<close> of the consumer: its flags are the consumer's, everything else is as in \<open>N\<close>.\<close>

definition owned_partition :: "nat \<Rightarrow> 'w others \<Rightarrow> nat \<Rightarrow> 'w worker \<Rightarrow> 'w partition_env \<Rightarrow> 'w shared partition_env" where
  "owned_partition i others fuel wk N =
     \<lparr>pn_ctx = owned_ctx i others (pn_ctx N), pn_fetch_offsets = beside others (pn_fetch_offsets N),
      pn_start_offsets = beside others (pn_start_offsets N), pn_end_offsets = beside others (pn_end_offsets N),
      pn_started = beside others (pn_started N), pn_mark_started = beside others (pn_mark_started N),
      pn_commit_records = (\<lambda>o' e. commit_inside i others (pn_commit_records N o' e)),
      pn_owned = (\<lambda>x. pw_owned (cn_started (sh_consumer x) ! i)), pn_allowed = (\<lambda>x. pn_allowed N (sh_world x)),
      pn_block = (\<lambda>reason. aside others (pn_block N reason)), pn_cancel = touch others (cancel_worker i),
      pn_cancel_consumer = touch others cancel_consumer, pn_set_initialized = touch others (set_initialized i),
      pn_signal = aside others (pn_signal N), pn_receive = beside others (pn_receive N),
      pn_current = (\<lambda>x. (pw_key (cn_started (sh_consumer x) ! i), i) \<in> set (cn_workers (sh_consumer x))),
      pn_resume = aside others (pn_resume N),
      pn_process = worker_process fuel (owned_ctx i others (pn_ctx N)) (owned_worker others wk)\<rparr>"

text \<open>\<^verbatim>\<open>run\<close>, with the \<^verbatim>\<open>close(w.done)\<close> it defers.\<close>

definition goroutine :: "nat \<Rightarrow> 'w others \<Rightarrow> nat \<Rightarrow> 'w worker \<Rightarrow> 'w partition_env \<Rightarrow> ('w shared, unit) prog" where
  "goroutine i others fuel wk N =
     bindp (worker_run fuel (owned_partition i others fuel wk N))
       (\<lambda>_. liftp (\<lambda>x. ((), x\<lparr>sh_consumer := end_worker i (sh_consumer x)\<rparr>)))"

section \<open>What the others do\<close>

text \<open>
  Steps of the other goroutines and of the callbacks: whether worker \<open>i\<close> is inside \<^verbatim>\<open>commit\<close> and whether it has ended
  is up to itself.
\<close>

definition foreign_step :: "nat \<Rightarrow> consumer \<Rightarrow> consumer \<Rightarrow> bool" where
  "foreign_step i c c' \<longleftrightarrow> consumer_step c c' \<and>
     (i < length (cn_started c) \<longrightarrow>
        pw_committing (worker_at c' i) = pw_committing (worker_at c i) \<and> pw_done (worker_at c' i) = pw_done (worker_at c i))"

definition foreign :: "nat \<Rightarrow> 'w others \<Rightarrow> bool" where
  "foreign i others \<longleftrightarrow> (\<forall>w c. (foreign_step i)\<^sup>*\<^sup>* c (fst (others w) c))"

lemma assign_one_length: "length (cn_started c) \<le> length (cn_started (assign_one key c))"
  by (simp add: assign_one_def)

lemma operation_lengths:
  "length (cn_started (on_revoked keys c)) = length (cn_started c)"
  "length (cn_started (stop_all_workers c)) = length (cn_started c)"
  "length (cn_started (lose_assignment c)) = length (cn_started c)"
  "length (cn_started (fence i c)) = length (cn_started c)"
  "length (cn_started (set_initialized i c)) = length (cn_started c)"
  "length (cn_started (cancel_worker i c)) = length (cn_started c)"
  "length (cn_started (begin_commit i c)) = length (cn_started c)"
  "length (cn_started (end_commit i c)) = length (cn_started c)"
  "length (cn_started (end_worker i c)) = length (cn_started c)"
  "length (cn_started (cancel_consumer c)) = length (cn_started c)"
  "length (cn_started (c\<lparr>cn_workers := ws\<rparr>)) = length (cn_started c)"
  "length (cn_started (c\<lparr>cn_callback := is\<rparr>)) = length (cn_started c)"
  "length (cn_started (c\<lparr>cn_final := is\<rparr>)) = length (cn_started c)"
  by (simp_all add: on_revoked_def stop_all_workers_def cancel_workers_eq lose_assignment_def fence_def
      set_initialized_def cancel_worker_def begin_commit_def end_commit_def end_worker_def cancel_consumer_def)

lemma step_length: "consumer_step c c' \<Longrightarrow> length (cn_started c) \<le> length (cn_started c')"
proof (induction rule: consumer_step.induct)
  case (assign c keys)
  have "length (cn_started d) \<le> length (cn_started (fold assign_one keys d))" for d
  proof (induction keys arbitrary: d)
    case (Cons key keys)
    show ?case using order_trans [OF assign_one_length Cons.IH] by simp
  qed simp
  from this [of "c\<lparr>cn_assigned := True\<rparr>"] show ?case by (simp add: on_assigned_def)
qed (simp_all only: operation_lengths order_refl)

lemma foreign_steps:
  assumes "(foreign_step i)\<^sup>*\<^sup>* c c'" and "i < length (cn_started c)"
  shows "consumer_step\<^sup>*\<^sup>* c c' \<and> i < length (cn_started c') \<and>
    pw_committing (worker_at c' i) = pw_committing (worker_at c i) \<and> pw_done (worker_at c' i) = pw_done (worker_at c i)"
  using assms
proof (induction rule: rtranclp_induct)
  case (step c1 c2)
  then have "consumer_step c1 c2" by (simp add: foreign_step_def)
  with step step_length [OF this] show ?case
    by (auto simp: foreign_step_def intro: rtranclp.rtrancl_into_rtrancl)
qed simp

section \<open>The run refines the step relation\<close>

text \<open>
  From \<open>c\<close> the goroutine has come to a state of its consumer reachable by steps, and it is running; every request
  was made from such a state, with the worker inside \<^verbatim>\<open>commit\<close>.
\<close>

definition inside :: "nat \<Rightarrow> consumer \<Rightarrow> consumer \<Rightarrow> bool" where
  "inside i c s \<longleftrightarrow> consumer_step\<^sup>*\<^sup>* c s \<and> committing s i"

definition stepping :: "nat \<Rightarrow> consumer \<Rightarrow> 'w shared \<Rightarrow> bool" where
  "stepping i c x \<longleftrightarrow> consumer_step\<^sup>*\<^sup>* c (sh_consumer x) \<and> idle (sh_consumer x) i \<and> (\<forall>s \<in> set (sh_commits x). inside i c s)"

lemma foreignD:
  assumes "foreign i others" and "others w = (g, w')" and "i < length (cn_started s)"
  shows "consumer_step\<^sup>*\<^sup>* s (g s)" "i < length (cn_started (g s))"
    "pw_committing (worker_at (g s) i) = pw_committing (worker_at s i)" "pw_done (worker_at (g s) i) = pw_done (worker_at s i)"
proof -
  have "(foreign_step i)\<^sup>*\<^sup>* s (g s)" using assms(1,2) unfolding foreign_def by (metis fst_conv)
  from foreign_steps [OF this assms(3)]
  show "consumer_step\<^sup>*\<^sup>* s (g s)" "i < length (cn_started (g s))"
    "pw_committing (worker_at (g s) i) = pw_committing (worker_at s i)" "pw_done (worker_at (g s) i) = pw_done (worker_at s i)"
    by blast+
qed

lemma meanwhile_stepping:
  assumes "foreign i others" and "stepping i c x"
  shows "stepping i c (meanwhile others x)"
proof -
  obtain g w where g: "others (sh_world x) = (g, w)" by (rule prod.exhaust)
  have "i < length (cn_started (sh_consumer x))" using assms(2) by (simp add: stepping_def idle_def)
  from foreignD [OF assms(1) g this] assms(2) g show ?thesis
    by (auto simp: stepping_def meanwhile_def idle_def)
qed

lemma beside_stepping: "foreign i others \<Longrightarrow> call_keeps (stepping i c) (beside others f)"
  by (auto simp: call_keeps_def beside_def split: prod.splits intro!: meanwhile_stepping) (simp add: stepping_def)

lemma aside_stepping: "foreign i others \<Longrightarrow> step_keeps (stepping i c) (aside others f)"
  by (auto simp: step_keeps_def aside_def intro!: meanwhile_stepping) (simp add: stepping_def)

lemma touch_stepping:
  assumes "foreign i others" and "\<And>s. idle s i \<Longrightarrow> consumer_step s (f s) \<and> idle (f s) i"
  shows "step_keeps (stepping i c) (touch others f)"
  using assms(2)
  by (auto simp: step_keeps_def touch_def stepping_def intro!: meanwhile_stepping [OF assms(1), unfolded stepping_def]
      intro: rtranclp.rtrancl_into_rtrancl)

lemma own_operations:
  assumes "idle s i"
  shows "consumer_step s (cancel_worker i s) \<and> idle (cancel_worker i s) i"
    and "consumer_step s (cancel_consumer s) \<and> idle (cancel_consumer s) i"
    and "consumer_step s (set_initialized i s) \<and> idle (set_initialized i s) i"
  using assms
  by (auto intro: consumer_step.intros simp: idle_def operation_lengths)
     (auto simp: cancel_worker_def set_initialized_def cancel_consumer_def worker_at_update)

text \<open>A commit let in by the guard: the worker goes in, the others go on, and it comes out again.\<close>

lemma commit_inside_stepping:
  assumes others: "foreign i others" and x: "stepping i c x" and may: "may_commit (sh_consumer x) i"
    and run: "commit_inside i others f x = (a, y)"
  shows "stepping i c y"
proof -
  let ?s = "begin_commit i (sh_consumer x)"
  obtain b w where b: "f (sh_world x) = (b, w)" by (rule prod.exhaust)
  obtain g w' where g: "others w = (g, w')" by (rule prod.exhaust)
  have y: "sh_consumer y = end_commit i (g ?s)" "sh_commits y = sh_commits x @ [?s, g ?s]"
    using run b g by (auto simp: commit_inside_def beside_def meanwhile_def record_commit_def Let_def)
  from x have idle: "idle (sh_consumer x) i" and to: "consumer_step\<^sup>*\<^sup>* c (sh_consumer x)"
    and old: "\<forall>s \<in> set (sh_commits x). inside i c s" by (simp_all add: stepping_def)
  from idle have less: "i < length (cn_started ?s)" by (simp add: idle_def operation_lengths)
  from idle may have "consumer_step (sh_consumer x) ?s" by (rule consumer_step.commit)
  with to have s: "consumer_step\<^sup>*\<^sup>* c ?s" by (rule rtranclp.rtrancl_into_rtrancl)
  have at: "pw_committing (worker_at ?s i)" "\<not> pw_done (worker_at ?s i)"
    using idle by (auto simp: begin_commit_def worker_at_update idle_def)
  note gs = foreignD [OF others g less]
  have s': "consumer_step\<^sup>*\<^sup>* c (g ?s)" using s gs(1) by (rule rtranclp_trans)
  from less at s have "inside i c ?s" by (simp add: inside_def committing_def)
  moreover from gs at s' have "inside i c (g ?s)" by (simp add: inside_def committing_def)
  moreover have "consumer_step (g ?s) (end_commit i (g ?s))" using gs(2) by (rule consumer_step.committed)
  with s' have "consumer_step\<^sup>*\<^sup>* c (end_commit i (g ?s))" by (rule rtranclp.rtrancl_into_rtrancl)
  moreover have "idle (end_commit i (g ?s)) i"
    using gs(2,4) at(2) by (simp add: idle_def operation_lengths) (simp add: end_commit_def worker_at_update)
  ultimately show ?thesis using old y by (simp add: stepping_def)
qed

lemma commit_position_stepping:
  assumes "foreign i others"
  shows "call_keeps (stepping i c) (commit_position (owned_partition i others fuel wk N) o' e)"
  by (rule call_keepsI)
     (auto simp: commit_position_def owned_partition_def owned_ctx_def may_commit_def split: if_splits
       dest: commit_inside_stepping [OF assms, unfolded may_commit_def, rotated 2])

lemma partition_stepping:
  assumes "foreign i others"
  shows "partition_keeps (stepping i c) (owned_partition i others fuel wk N)"
  unfolding partition_keeps_def
proof (intro conjI allI)
  show "call_keeps (stepping i c) (commit_position (owned_partition i others fuel wk N) o' e)" for o' e
    by (rule commit_position_stepping [OF assms])
qed (simp_all add: owned_partition_def owned_ctx_def beside_stepping [OF assms] aside_stepping [OF assms]
    touch_stepping [OF assms own_operations(1)] touch_stepping [OF assms own_operations(2)]
    touch_stepping [OF assms own_operations(3)])

lemma worker_stepping:
  assumes "foreign i others"
  shows "worker_keeps (stepping i c) (owned_worker others wk)"
  using assms
  by (auto simp: worker_keeps_def owned_worker_def worker_log_def worker_block_def step_keeps_def beside_stepping
      intro: step_keepsD [OF aside_stepping] split: option.splits)

lemma goroutine_stepping:
  assumes "foreign i others"
  shows "safe (stepping i c) (worker_run fuel (owned_partition i others fuel wk N)) (\<lambda>_. stepping i c) (stepping i c)"
proof (rule safe_run_keeps [OF partition_stepping [OF assms]])
  show "process_keeps (stepping i c) (owned_partition i others fuel wk N)"
    by (auto simp: process_keeps_def owned_partition_def owned_ctx_def
        intro!: safe_worker_keeps worker_stepping beside_stepping assms)
qed

section \<open>Properties\<close>

text \<open>
  C26. The goroutine of a partition is a part of its consumer. Started for a worker of a reachable consumer, and whatever
  the other goroutines, the callbacks, the broker, the stores and the destination do meanwhile, every state in which its
  run is found or ends is reached from the first by the steps of the consumer; when it returns, the worker is marked as
  done. Every commit request, from the moment it is let in until it is answered, is made by a worker that owns its
  partition and is alone in committing for it.
\<close>

theorem goroutine_refines_consumer:
  assumes "foreign i others" and "consumer_step\<^sup>*\<^sup>* new_consumer c" and "idle c i"
    and "goroutine i others fuel wk N \<lparr>sh_consumer = c, sh_world = w, sh_commits = []\<rparr> = (res, x)"
  shows "consumer_step\<^sup>*\<^sup>* c (sh_consumer x) \<and> (res = None \<or> pw_done (cn_started (sh_consumer x) ! i)) \<and>
    (\<forall>s \<in> set (sh_commits x). consumer_step\<^sup>*\<^sup>* c s \<and> committing s i \<and> pw_owned (cn_started s ! i) \<and>
       (\<forall>j. committing s j \<longrightarrow> pw_key (cn_started s ! j) = pw_key (cn_started s ! i) \<longrightarrow> j = i))"
proof -
  let ?start = "\<lparr>sh_consumer = c, sh_world = w, sh_commits = []\<rparr>" and ?N = "owned_partition i others fuel wk N"
  have start: "stepping i c ?start" using assms(3) by (simp add: stepping_def)
  obtain r y where y: "worker_run fuel ?N ?start = (r, y)" by (rule prod.exhaust)
  have keep: "stepping i c y"
    using safeD_Some [OF goroutine_stepping [OF assms(1)] start] safeD_None [OF goroutine_stepping [OF assms(1)] start] y
    by (cases r) auto
  then have "consumer_step (sh_consumer y) (end_worker i (sh_consumer y))" and less: "i < length (cn_started (sh_consumer y))"
    by (auto simp: stepping_def idle_def intro: consumer_step.finish)
  with keep have last: "consumer_step\<^sup>*\<^sup>* c (end_worker i (sh_consumer y))"
    by (auto simp: stepping_def intro: rtranclp.rtrancl_into_rtrancl)
  have x: "case r of None \<Rightarrow> res = None \<and> x = y
      | Some _ \<Rightarrow> x = y\<lparr>sh_consumer := end_worker i (sh_consumer y)\<rparr>"
    using assms(4) y by (cases r) (auto simp: goroutine_def bindp_def liftp_def)
  have alone: "pw_owned (cn_started s ! i) \<and>
      (\<forall>j. committing s j \<longrightarrow> pw_key (cn_started s ! j) = pw_key (cn_started s ! i) \<longrightarrow> j = i)" if "inside i c s" for s
  proof -
    from that assms(2) have "consumer_step\<^sup>*\<^sup>* new_consumer s" by (auto simp: inside_def intro: rtranclp_trans)
    from reachable_ok [OF this] that show ?thesis by (auto simp: consumer_ok_def fenced_def single_def inside_def)
  qed
  from keep x have "\<forall>s \<in> set (sh_commits x). inside i c s" by (auto simp: stepping_def split: option.splits)
  with alone have "\<forall>s \<in> set (sh_commits x). consumer_step\<^sup>*\<^sup>* c s \<and> committing s i \<and> pw_owned (cn_started s ! i) \<and>
       (\<forall>j. committing s j \<longrightarrow> pw_key (cn_started s ! j) = pw_key (cn_started s ! i) \<longrightarrow> j = i)"
    by (auto simp: inside_def)
  moreover have "consumer_step\<^sup>*\<^sup>* c (sh_consumer x)" using keep last x by (auto simp: stepping_def split: option.splits)
  moreover have "res = None \<or> pw_done (cn_started (sh_consumer x) ! i)"
    using x less by (auto simp: end_worker_def worker_at_update split: option.splits)
  ultimately show ?thesis by blast
qed

text \<open>While worker 0 consumes its partition, the other partition of the consumer is revoked again and again.\<close>

definition revoking :: "nat others" where
  "revoking n = ((\<lambda>c. if cn_callback c = [] then on_revoked [(''t'', 1)] c else c), n)"

definition two_workers :: consumer where
  "two_workers = on_assigned [(''t'', 0), (''t'', 1)] new_consumer"

lemma revoking_foreign: "foreign i revoking"
  unfolding foreign_def
proof (intro allI)
  fix w c
  show "(foreign_step i)\<^sup>*\<^sup>* c (fst (revoking w) c)"
  proof (cases "cn_callback c = []")
    case True
    then have "consumer_step c (on_revoked [(''t'', 1)] c)" by (rule consumer_step.revoke)
    then have "foreign_step i c (on_revoked [(''t'', 1)] c)"
      by (simp add: foreign_step_def on_revoked_def cancel_workers_eq cancel_all_worker)
    with True show ?thesis by (auto simp: revoking_def)
  qed (simp add: revoking_def)
qed

lemma goroutine_refines_consumer_witness:
  "\<exists>x. goroutine 0 revoking 5 delivering_worker small_partition
       \<lparr>sh_consumer = two_workers, sh_world = 1, sh_commits = []\<rparr> = (Some (), x) \<and> length (sh_commits x) = 6 \<and>
     pw_done (cn_started (sh_consumer x) ! 0) \<and>
     (\<forall>s \<in> set (sh_commits x). consumer_step\<^sup>*\<^sup>* two_workers s \<and> committing s 0 \<and> pw_owned (cn_started s ! 0))"
proof -
  let ?run = "goroutine 0 revoking 5 delivering_worker small_partition
    \<lparr>sh_consumer = two_workers, sh_world = 1, sh_commits = []\<rparr>"
  have "fst ?run = Some ()" "length (sh_commits (snd ?run)) = 6" by code_simp+
  moreover have "consumer_step new_consumer two_workers"
    unfolding two_workers_def by (rule consumer_step.assign) (simp add: new_consumer_def)
  then have "consumer_step\<^sup>*\<^sup>* new_consumer two_workers" by (rule r_into_rtranclp)
  moreover have "idle two_workers 0" by code_simp
  ultimately show ?thesis
    using goroutine_refines_consumer [OF revoking_foreign, of two_workers 0 5 delivering_worker small_partition 1]
    by (metis prod.collapse option.distinct(1))
qed

end
