(* ===== verification/JsonText.thy ===== *)
theory JsonText
  imports PayloadLaws
begin

text \<open>
  Written JSON reads back: a text that is valid UTF-8 survives quoting and decoding, compacted values keep their scanner
  runs, and the members of a written object are the ones it was written from.
\<close>

section \<open>Valid UTF-8\<close>

text \<open>\<^verbatim>\<open>utf8.Valid\<close>: no byte decodes to the replacement rune of an invalid byte.\<close>

function valid_utf8 :: "bytes \<Rightarrow> bool" where
  "valid_utf8 [] = True"
| "valid_utf8 (c # s) =
     (decode_rune (c # s) \<noteq> (rune_error, 1) \<and> valid_utf8 (drop (snd (decode_rune (c # s)) - 1) s))"
  by pat_completeness auto
termination
  by (relation "measure length") auto

declare valid_utf8.simps [simp del]

text \<open>A rune in the range of its encoding is written as the bytes it was read from.\<close>

lemma encode2:
  assumes "between 194 223 (byte a)" "between 128 191 (byte b)"
  shows "encode_rune ((byte a - 192) * 64 + (byte b - 128)) = [a, b]"
proof -
  define i j where "i = byte a - 192" and "j = byte b - 128"
  with assms have ij: "byte a = 192 + i" "byte b = 128 + j" "2 \<le> i" "i < 32" "j < 64" by (auto simp: between_def)
  then have "encode_rune (i * 64 + j) = [chr (192 + i), chr (128 + j)]" by (simp add: encode_rune_def)
  then show ?thesis unfolding i_def [symmetric] j_def [symmetric] ij(1,2) [symmetric] by simp
qed

lemma encode3:
  assumes "between 224 239 (byte a)" "between 128 191 (byte c)"
    and "between (if byte a = 224 then 160 else 128) (if byte a = 237 then 159 else 191) (byte b)"
  shows "encode_rune ((byte a - 224) * 4096 + (byte b - 128) * 64 + (byte c - 128)) = [a, b, c]"
proof -
  define i j k where "i = byte a - 224" and "j = byte b - 128" and "k = byte c - 128"
  with assms have ij: "byte a = 224 + i" "byte b = 128 + j" "byte c = 128 + k" "i < 16" "j < 64" "k < 64"
    "i = 0 \<Longrightarrow> 32 \<le> j" "i = 13 \<Longrightarrow> j < 32" by (auto simp: between_def split: if_splits)
  let ?r = "i * 4096 + j * 64 + k"
  have "?r = (i * 64 + j) * 64 + k" by simp
  then have "?r mod 64 = k" using ij(6) by (metis mod_less mod_mult_self3)
  moreover have "?r div 64 = i * 64 + j" "?r div 4096 = i" using ij(5,6) by auto
  moreover have "2048 \<le> ?r" using ij(7) by (cases "i = 0") auto
  moreover have "\<not> between 55296 57343 ?r"
  proof (cases "i = 13")
    case False
    then show ?thesis using ij(5,6) by (cases "i < 13") (auto simp: between_def)
  qed (use ij(6,8) in \<open>auto simp: between_def\<close>)
  moreover have "?r < 65536" using ij(4-6) by auto
  ultimately have "encode_rune ?r = [chr (224 + i), chr (128 + j), chr (128 + k)]"
    using ij(5) by (simp add: encode_rune_def)
  then show ?thesis unfolding i_def [symmetric] j_def [symmetric] k_def [symmetric] ij(1-3) [symmetric] by simp
qed

lemma encode4:
  assumes "between 240 244 (byte a)" "between 128 191 (byte c)" "between 128 191 (byte d)"
    and "between (if byte a = 240 then 144 else 128) (if byte a = 244 then 143 else 191) (byte b)"
  shows "encode_rune ((byte a - 240) * 262144 + (byte b - 128) * 4096 + (byte c - 128) * 64 + (byte d - 128)) = [a, b, c, d]"
proof -
  define i j k l where "i = byte a - 240" and "j = byte b - 128" and "k = byte c - 128" and "l = byte d - 128"
  with assms have ij: "byte a = 240 + i" "byte b = 128 + j" "byte c = 128 + k" "byte d = 128 + l" "i < 5" "j < 64" "k < 64" "l < 64"
    "i = 0 \<Longrightarrow> 16 \<le> j" "i = 4 \<Longrightarrow> j < 16" by (auto simp: between_def split: if_splits)
  let ?r = "i * 262144 + j * 4096 + k * 64 + l"
  have split: "?r = (i * 4096 + j * 64 + k) * 64 + l" "i * 4096 + j * 64 + k = (i * 64 + j) * 64 + k" by simp_all
  have "?r mod 64 = l" unfolding split(1) mod_mult_self3 using ij(8) by simp
  moreover have "(i * 4096 + j * 64 + k) mod 64 = k" unfolding split(2) mod_mult_self3 using ij(7) by simp
  moreover have "?r div 64 = i * 4096 + j * 64 + k" "?r div 4096 = i * 64 + j" "?r div 262144 = i" "(i * 64 + j) mod 64 = j"
    using ij(6-8) by auto
  moreover have "65536 \<le> ?r" using ij(9) by (cases "i = 0") auto
  moreover have "?r \<le> 1114111" using ij(5-8,10) by (cases "i = 4") auto
  ultimately have "encode_rune ?r = [chr (240 + i), chr (128 + j), chr (128 + k), chr (128 + l)]"
    by (simp add: encode_rune_def between_def)
  then show ?thesis unfolding i_def [symmetric] j_def [symmetric] k_def [symmetric] l_def [symmetric] ij(1-4) [symmetric] by simp
qed

lemma decode_encode:
  assumes "decode_rune (c # s) = (r, n)" and "(r, n) \<noteq> (rune_error, 1)"
  shows "encode_rune r = take n (c # s) \<and> 1 \<le> n \<and> n \<le> length (c # s) \<and> (\<forall>t. decode_rune (take n (c # s) @ t) = (r, n))"
proof -
  let ?a = "byte c"
  consider "?a < 128" | "between 194 223 ?a" | "between 224 239 ?a" | "between 240 244 ?a"
    using assms by (auto simp: Let_def split: if_splits)
  then show ?thesis
  proof cases
    case 1
    with assms show ?thesis by (auto simp: encode_rune_def)
  next
    case 2
    then have d: "decode_rune (c # u) = decode2 ?a u" for u by (simp add: between_def)
    with assms have d2: "decode2 ?a s = (r, n)" by simp
    with assms(2) obtain b u where s: "s = b # u" "between 128 191 (byte b)"
      by (auto simp: decode2_def split: list.splits if_splits)
    with d2 encode2 [OF 2] show ?thesis by (auto simp: d decode2_def simp del: decode_rune.simps)
  next
    case 3
    then have d: "decode_rune (c # u) = decode3 ?a u" for u by (simp add: between_def)
    with assms have d3: "decode3 ?a s = (r, n)" by simp
    with assms(2) obtain b e u where s: "s = b # e # u" "between 128 191 (byte e)"
      "between (if ?a = 224 then 160 else 128) (if ?a = 237 then 159 else 191) (byte b)"
      by (auto simp: decode3_def split: list.splits if_splits)
    with d3 encode3 [OF 3 s(2,3)] show ?thesis by (auto simp: d decode3_def simp del: decode_rune.simps)
  next
    case 4
    then have d: "decode_rune (c # u) = decode4 ?a u" for u by (simp add: between_def)
    with assms have d4: "decode4 ?a s = (r, n)" by simp
    with assms(2) obtain b e f u where s: "s = b # e # f # u" "between 128 191 (byte e)" "between 128 191 (byte f)"
      "between (if ?a = 240 then 144 else 128) (if ?a = 244 then 143 else 191) (byte b)"
      by (auto simp: decode4_def split: list.splits if_splits)
    with d4 encode4 [OF 4 s(2,3,4)] show ?thesis by (auto simp: d decode4_def simp del: decode_rune.simps)
  qed
qed

section \<open>Quoted texts\<close>

lemma marshal_body_ascii: "byte c < 128 \<Longrightarrow> marshal_body (c # s) = marshal_ascii c @ marshal_body s"
  by (simp add: marshal_body.simps)

lemma marshal_body_rune:
  assumes "\<not> byte c < 128" "decode_rune (c # s) = (r, n)" "(r, n) \<noteq> (rune_error, 1)"
  shows "marshal_body (c # s) =
    (if r = 8232 then CHR 0x5C # ''u2028'' else if r = 8233 then CHR 0x5C # ''u2029'' else take n (c # s)) @
    marshal_body (drop (n - 1) s)"
  using assms by (subst marshal_body.simps) (auto simp: Let_def simp del: decode_rune.simps)

lemma hexval_digit: "d < 16 \<Longrightarrow> hexchar (hex_digit d) \<and> hexval (hex_digit d) = d"
  by (auto simp: hexchar_def hex_digit_def hexval_def between_def)

lemma getu4_hex2:
  assumes "b < 256"
  shows "getu4 (''00'' @ hex2 b @ t) = Some b"
proof -
  have "b div 16 < 16" "b mod 16 < 16" using assms by auto
  moreover have "hexchar (CHR ''0'')" "hexval (CHR ''0'') = 0" by (simp_all add: hexchar_def hexval_def between_def)
  moreover have "b div 16 * 16 + b mod 16 = b" by simp
  ultimately show ?thesis using hexval_digit by (simp add: getu4_def hex2_def)
qed

lemma unquote_u00:
  assumes "b < 128"
  shows "unquote_body (u00 b @ t) = chr b # unquote_body t"
proof -
  have "getu4 (''00'' @ hex2 b @ t) = Some b" "\<not> between 55296 56319 b"
    using getu4_hex2 [of b t] assms by (simp_all add: between_def)
  moreover have "drop 4 (''00'' @ hex2 b @ t) = t" by (simp add: hex2_def)
  ultimately show ?thesis
    using assms by (simp add: u00_def unquote_body.simps(2) [of "CHR 0x5C"] encode_rune_def)
qed

lemma unquote_escape: "e \<noteq> CHR ''u'' \<Longrightarrow> unquote_body (CHR 0x5C # e # t) = unescape e # unquote_body t"
  by (subst unquote_body.simps(2)) simp

lemma unquote_plain: "byte c < 128 \<Longrightarrow> byte c \<noteq> 92 \<Longrightarrow> unquote_body (c # t) = c # unquote_body t"
  by (subst unquote_body.simps(2)) auto

lemma unquote_ascii:
  assumes "byte c < 128"
  shows "unquote_body (marshal_ascii c @ t) = c # unquote_body t"
proof -
  consider (quoted) "byte c = 34 \<or> byte c = 92" | (b) "byte c = 8" | (t) "byte c = 9" | (n) "byte c = 10"
    | (f) "byte c = 12" | (r) "byte c = 13"
    | (u) "byte c \<notin> {34, 92, 8, 9, 10, 12, 13}" "byte c < 32 \<or> byte c = 60 \<or> byte c = 62 \<or> byte c = 38"
    | (plain) "byte c \<notin> {34, 92, 8, 9, 10, 12, 13}" "\<not> (byte c < 32 \<or> byte c = 60 \<or> byte c = 62 \<or> byte c = 38)"
    by blast
  then show ?thesis
  proof cases
    case quoted
    then have "marshal_ascii c = [CHR 0x5C, c]" "c \<noteq> CHR ''u''" "unescape c = c"
      by (auto simp: marshal_ascii_def unescape_def)
    then show ?thesis by (simp add: unquote_escape)
  next
    case u
    then have "marshal_ascii c = u00 (byte c)" by (simp add: marshal_ascii_def)
    with unquote_u00 [OF assms] show ?thesis by simp
  next
    case plain
    then have "marshal_ascii c = [c]" by (simp add: marshal_ascii_def)
    with plain assms show ?thesis by (simp add: unquote_plain)
  qed (simp add: marshal_ascii_def unquote_escape unescape_def, metis chr_byte)+
qed

lemma unquote_rune:
  assumes "\<not> byte c < 128" "decode_rune (c # s) = (r, n)"
  shows "unquote_body (c # s) = encode_rune r @ unquote_body (drop (n - 1) s)"
proof -
  have "c \<noteq> CHR 0x5C" using assms(1) by auto
  with assms show ?thesis by (subst unquote_body.simps(2)) (simp del: decode_rune.simps)
qed

lemma unquote_separator:
  assumes "v = 8232 \<and> d = CHR ''8'' \<or> v = 8233 \<and> d = CHR ''9''"
  shows "unquote_body (CHR 0x5C # ''u202'' @ d # t) = encode_rune v @ unquote_body t"
proof -
  have "getu4 (''202'' @ d # t) = Some v" using assms by (auto simp: getu4_def hexchar_def hexval_def between_def)
  with assms show ?thesis by (subst unquote_body.simps(2)) (auto simp: between_def)
qed

lemma unquote_marshal: "valid_utf8 s \<Longrightarrow> unquote_body (marshal_body s) = s"
proof (induction s rule: valid_utf8.induct)
  case 1
  then show ?case by (simp add: marshal_body.simps unquote_body.simps)
next
  case (2 c s)
  obtain r n where d: "decode_rune (c # s) = (r, n)" by (rule prod.exhaust)
  with 2 have ok: "(r, n) \<noteq> (rune_error, 1)" and rest: "valid_utf8 (drop (n - 1) s)"
    and IH: "unquote_body (marshal_body (drop (n - 1) s)) = drop (n - 1) s"
    by (auto simp: valid_utf8.simps simp del: decode_rune.simps)
  from decode_encode [OF d ok] have enc: "encode_rune r = take n (c # s)" "1 \<le> n"
    and again: "\<And>t. decode_rune (take n (c # s) @ t) = (r, n)" and len: "n \<le> length (c # s)" by blast+
  have whole: "take n (c # s) @ drop (n - 1) s = c # s"
    using enc(2) by (cases n) simp_all
  show ?case
  proof (cases "byte c < 128")
    case True
    then have "n = 1" using d by simp
    with True IH show ?thesis by (simp add: marshal_body_ascii unquote_ascii)
  next
    case False
    let ?m = "marshal_body (drop (n - 1) s)"
    consider "r = 8232" | "r = 8233" | "r \<noteq> 8232" "r \<noteq> 8233" by blast
    then show ?thesis
    proof cases
      case 3
      obtain u where u: "take n (c # s) @ ?m = c # u" "drop (n - 1) u = ?m"
        using enc(2) len by (cases n) auto
      from unquote_rune [OF False, of u r n] again [of ?m] u have "unquote_body (c # u) = encode_rune r @ unquote_body ?m"
        by simp
      with u marshal_body_rune [OF False d ok] 3 IH enc(1) whole show ?thesis by simp
    qed (use marshal_body_rune [OF False d ok] unquote_separator [of r _ ?m] IH enc(1) whole in auto)
  qed
qed

lemma decode_high:
  assumes "decode_rune (c # s) = (r, n)" "(r, n) \<noteq> (rune_error, 1)" "\<not> byte c < 128"
  shows "\<forall>x \<in> set (take n (c # s)). 128 \<le> byte x"
  using assms
  by (auto simp: Let_def decode2_def decode3_def decode4_def between_def split: if_splits list.splits)

lemma run_high: "\<forall>x \<in> set xs. 128 \<le> byte x \<Longrightarrow> jrun (InString, stk) (xs @ t) = jrun (InString, stk) t"
  by (induction xs) (auto split: if_splits)

lemma run_u00: "b < 256 \<Longrightarrow> jrun (InString, stk) (u00 b @ t) = jrun (InString, stk) t"
proof -
  assume "b < 256"
  then have "hexchar (hex_digit (b div 16))" "hexchar (hex_digit (b mod 16))" using hexval_digit by auto
  moreover have "hexchar (CHR ''0'')" by (simp add: hexchar_def between_def)
  ultimately show ?thesis by (simp add: u00_def hex2_def escapable_def numeral_3_eq_3)
qed

lemma run_ascii:
  assumes "byte c < 128"
  shows "jrun (InString, stk) (marshal_ascii c @ t) = jrun (InString, stk) t"
proof -
  have quote: "c = CHR 0x22 \<longleftrightarrow> byte c = 34" "c = CHR 0x5C \<longleftrightarrow> byte c = 92"
    using byte_inject [of c "CHR 0x22"] byte_inject [of c "CHR 0x5C"] by simp_all
  consider (quoted) "byte c = 34 \<or> byte c = 92" | (u) "marshal_ascii c = u00 (byte c)"
    | (letter) x where "marshal_ascii c = [CHR 0x5C, x]" "escapable x"
    | (plain) "marshal_ascii c = [c]" "32 \<le> byte c" "byte c \<noteq> 34" "byte c \<noteq> 92"
  proof -
    have "byte c = 34 \<or> byte c = 92 \<or> marshal_ascii c = u00 (byte c) \<or> (\<exists>x. marshal_ascii c = [CHR 0x5C, x] \<and> escapable x) \<or>
      marshal_ascii c = [c] \<and> 32 \<le> byte c"
      by (auto simp: marshal_ascii_def escapable_def)
    then show thesis using that by blast
  qed
  then show ?thesis
  proof cases
    case quoted
    then show ?thesis by (auto simp: marshal_ascii_def escapable_def quote [symmetric])
  next
    case u
    with run_u00 assms show ?thesis by simp
  qed (auto simp: quote)
qed

lemma run_marshal: "jrun (InString, stk) (marshal_body s @ t) = jrun (InString, stk) t"
proof (induction s rule: valid_utf8.induct)
  case 1
  then show ?case by (simp add: marshal_body.simps)
next
  case (2 c s)
  obtain r n where d: "decode_rune (c # s) = (r, n)" by (rule prod.exhaust)
  let ?rest = "drop (n - 1) s"
  have IH: "jrun (InString, stk) (marshal_body ?rest @ t) = jrun (InString, stk) t" using 2 d by simp
  show ?case
  proof (cases "byte c < 128")
    case True
    with d have "n = 1" by simp
    with True IH show ?thesis by (simp add: marshal_body_ascii run_ascii)
  next
    case False
    show ?thesis
    proof (cases "(r, n) = (rune_error, 1)")
      case True
      with False d have "marshal_body (c # s) = (CHR 0x5C # ''ufffd'') @ marshal_body ?rest"
        by (subst marshal_body.simps) (simp add: Let_def del: decode_rune.simps)
      then show ?thesis using IH by (simp add: escapable_def hexchar_def between_def numeral_3_eq_3)
    next
      case ok: False
      from marshal_body_rune [OF False d ok] run_high [OF decode_high [OF d ok False]] IH show ?thesis
        by (auto simp: escapable_def hexchar_def between_def numeral_3_eq_3)
    qed
  qed
qed

text \<open>A quoted text is one string token, and decoding it gives the text back.\<close>

lemma run_quoted: "jrun (BeginValue, stk) (marshal_string s @ t) = jrun (EndValue, stk) t"
  by (simp add: marshal_string_def run_marshal begin_value_def jspace_def)

lemma trim_marshal: "trim_json (marshal_string s) = marshal_string s"
  by (rule trim_json_hd) (simp_all add: marshal_string_def jspace_def)

lemma unquote_marshal_string: "valid_utf8 s \<Longrightarrow> unquote (marshal_string s) = s"
  by (simp add: unquote_def marshal_string_def unquote_marshal)

lemma json_string_marshal:
  assumes "valid_utf8 s"
  shows "json_string (marshal_string s) = Some s"
proof -
  have "json_valid (marshal_string s)"
    using run_quoted [of "[]" s "[]"] by (simp add: json_valid_def jended_def jspace_def)
  moreover have "json_kind_of (marshal_string s) = JString"
    unfolding json_kind_of_def trim_marshal by (simp add: marshal_string_def)
  ultimately show ?thesis
    using assms by (simp add: json_string_def json_string_ptr_def trim_marshal unquote_marshal_string)
qed

section \<open>A value inside an object\<close>

text \<open>
  The scanner inside an enclosing object behaves as it does on the value alone, with the enclosing state below its own;
  the end of the text is the end of the value.
\<close>

definition lift_scan :: "pstate \<Rightarrow> scan \<Rightarrow> scan" where
  "lift_scan p st = (if fst st = EndTop then (EndValue, [p]) else (fst st, snd st @ [p]))"

definition scan_ok :: "scan \<Rightarrow> bool" where
  "scan_ok st \<longleftrightarrow> (fst st = BeginStringOrEmpty \<longrightarrow> snd st \<noteq> []) \<and> (fst st = EndTop \<longrightarrow> snd st = [])"

fun nesting :: "scan \<Rightarrow> bytes \<Rightarrow> nat" where
  "nesting st [] = length (snd st)"
| "nesting st (c # s) = max (length (snd st)) (case jstep st c of None \<Rightarrow> 0 | Some st' \<Rightarrow> nesting st' s)"

lemma nesting_ge: "length (snd st) \<le> nesting st s"
  by (cases s) auto

lemma end_value_ok: "end_value stk c = Some st \<Longrightarrow> scan_ok st"
  by (cases "(stk, c)" rule: end_value.cases) (auto simp: scan_ok_def pop_def split: if_splits pstate.splits)

lemma begin_value_ok: "begin_value stk c = Some st \<Longrightarrow> scan_ok st"
  by (auto simp: begin_value_def scan_ok_def push_def split: if_splits)

lemma step_scan_ok: "scan_ok st \<Longrightarrow> jstep st c = Some st' \<Longrightarrow> scan_ok st'"
  by (cases "(st, c)" rule: jstep.cases)
     (auto simp: begin_string_def scan_ok_def pop_def split: if_splits
       dest: end_value_ok [unfolded scan_ok_def] begin_value_ok [unfolded scan_ok_def])

lemma lift_end_value:
  assumes "end_value stk c = Some st"
  shows "end_value (stk @ [p]) c = Some (lift_scan p st) \<or> stk = [] \<and> jspace c \<and> st = (EndTop, [])"
proof (cases stk)
  case Nil
  with assms show ?thesis by (auto split: if_splits)
next
  case (Cons q qs)
  with assms show ?thesis by (cases q) (auto simp: lift_scan_def pop_def split: if_splits)
qed

lemma lift_begin_value:
  assumes "begin_value stk c = Some st" "length (snd st) < max_nesting"
  shows "begin_value (stk @ [p]) c = Some (lift_scan p st)"
proof -
  have push: "push q (stk @ [p]) m = Some (lift_scan p st)" if "push q stk m = Some st" "m \<noteq> EndTop" for q m
    using that assms(2) by (auto simp: push_def lift_scan_def split: if_splits)
  have keep: "Some (m, stk @ [p]) = Some (lift_scan p st)" if "Some (m, stk) = Some st" "m \<noteq> EndTop" for m
    using that by (auto simp: lift_scan_def)
  show ?thesis
    using assms(1) unfolding begin_value_def
    by (simp only: push keep mode.distinct if_True if_False not_False_eq_True split: if_split_asm) simp_all
qed

lemma lift_step:
  assumes "jstep st c = Some st'" "scan_ok st" "length (snd st') < max_nesting"
  shows "jstep (lift_scan p st) c = Some (lift_scan p st')"
proof -
  have top: "end_value (stk @ [p]) d = Some (lift_scan p st')" if "end_value stk d = Some st'" for stk d
    using lift_end_value [OF that, of p] by (cases p) (auto simp: lift_scan_def)
  from assms show ?thesis
    by (cases "(st, c)" rule: jstep.cases)
       (auto simp: lift_begin_value top begin_string_def scan_ok_def split: if_splits
         simp: lift_scan_def pop_def)
qed

text \<open>A piece of text during which the outermost open object stays in the same state.\<close>

fun stays :: "pstate \<Rightarrow> scan \<Rightarrow> bytes \<Rightarrow> bool" where
  "stays p st [] \<longleftrightarrow> snd st \<noteq> [] \<and> last (snd st) = p"
| "stays p st (c # s) \<longleftrightarrow> snd st \<noteq> [] \<and> last (snd st) = p \<and> (\<exists>st'. jstep st c = Some st' \<and> stays p st' s)"

lemma stays_bottom: "stays p st s \<Longrightarrow> snd st \<noteq> [] \<and> last (snd st) = p"
  by (cases s) auto

lemma stays_split:
  assumes "stays p st s" "jrun st s = Some st'"
  shows "split_object st key cur (s @ t) = split_object st' key (cur @ s) t"
  using assms
proof (induction s arbitrary: st cur)
  case (Cons c s)
  then obtain st1 where step: "jstep st c = Some st1" "stays p st1 s" by auto
  with Cons.prems have "jrun st1 s = Some st'" by simp
  with Cons.IH [OF step(2)] have "split_object st1 key (cur @ [c]) (s @ t) = split_object st' key (cur @ c # s) t" by simp
  moreover have "split_object st key cur ((c # s) @ t) = split_object st1 key (cur @ [c]) (s @ t)"
    using Cons.prems(1) stays_bottom [OF step(2)] step(1) by (auto split: if_splits)
  ultimately show ?case by simp
qed simp

lemma lift_run:
  assumes "scan_ok st" "nesting st s < max_nesting" "jrun st s = Some st'"
  shows "stays p (lift_scan p st) s \<and> jrun (lift_scan p st) s = Some (lift_scan p st') \<and> scan_ok st'"
  using assms
proof (induction s arbitrary: st)
  case Nil
  then show ?case by (simp add: lift_scan_def)
next
  case (Cons c s)
  then obtain st1 where st1: "jstep st c = Some st1" "jrun st1 s = Some st'" by (auto split: option.splits)
  from Cons.prems(2) st1(1) have n: "nesting st1 s < max_nesting" by simp
  then have "length (snd st1) < max_nesting" using nesting_ge le_less_trans by blast
  with lift_step [OF st1(1) Cons.prems(1)] Cons.IH [OF step_scan_ok [OF Cons.prems(1) st1(1)] n st1(2)] st1
  show ?case by (simp add: lift_scan_def)
qed

text \<open>A JSON value without space around it that leaves room for one more level.\<close>

definition value_text :: "bytes \<Rightarrow> bool" where
  "value_text v \<longleftrightarrow> json_valid v \<and> trim_json v = v \<and> nesting jstart v < max_nesting"

lemma value_ends:
  assumes "scan_ok st" "jended st"
  shows "jstep (lift_scan PObjVal st) (CHR '','') = Some (BeginString, [PObjKey])"
    and "jstep (lift_scan PObjVal st) (CHR ''}'') = Some (EndTop, [])" and "snd (lift_scan PObjVal st) = [PObjVal]"
proof -
  have "fst st = EndTop \<or> (snd st = [] \<and> fst st \<in> {EndValue, Int0, Int1, Frac, ExpDig})"
    using assms
    by (cases "(st, CHR '' '')" rule: jstep.cases)
       (auto simp: jended_def begin_value_def begin_string_def jspace_def is_digit_def hexchar_def between_def
         split: if_splits option.splits prod.splits mode.splits elim!: end_value.elims)
  then show "jstep (lift_scan PObjVal st) (CHR '','') = Some (BeginString, [PObjKey])"
    "jstep (lift_scan PObjVal st) (CHR ''}'') = Some (EndTop, [])" "snd (lift_scan PObjVal st) = [PObjVal]"
    by (cases st, auto simp: lift_scan_def jspace_def is_digit_def pop_def)+
qed

section \<open>Written objects\<close>

definition member_text :: "bytes \<times> bytes \<Rightarrow> bytes" where
  "member_text m = marshal_string (fst m) @ '':'' @ snd m"

definition object_text :: "(bytes \<times> bytes) list \<Rightarrow> bytes" where
  "object_text ms = ''{'' @ join '','' (map member_text ms) @ ''}''"

lemma value_run:
  assumes "value_text v"
  obtains st where "jrun (BeginValue, [PObjVal]) v = Some (lift_scan PObjVal st)" "stays PObjVal (BeginValue, [PObjVal]) v"
    "scan_ok st" "jended st"
proof -
  from assms obtain st where st: "jrun jstart v = Some st" "jended st" by (auto simp: value_text_def json_valid_def split: option.splits)
  have "scan_ok jstart" by (simp add: scan_ok_def)
  with lift_run [OF this _ st(1)] assms st(2) that [of st] show thesis
    by (simp add: value_text_def lift_scan_def [of _ jstart])
qed

lemma end_top_run: "jrun (EndTop, []) s = Some st \<Longrightarrow> st = (EndTop, [])"
  by (induction s) (auto split: if_splits)

lemma nesting_quoted: "nesting (InString, []) (marshal_body k @ [CHR 0x22]) = 0"
proof -
  have in_run: "jrun (m, []) s = Some (EndValue, []) \<Longrightarrow> in_string m \<Longrightarrow> nesting (m, []) s = 0" for m s
  proof (induction s arbitrary: m)
    case (Cons c s)
    show ?case
    proof (cases "m = InString \<and> c = CHR 0x22")
      case True
      with Cons.prems show ?thesis by (cases s) (auto split: option.splits if_splits dest: end_top_run)
    next
      case False
      with Cons show ?thesis by (cases m) (auto split: option.splits if_splits)
    qed
  qed simp
  show ?thesis by (rule in_run) (simp_all add: run_marshal)
qed

lemma key_run:
  assumes "m = BeginString \<or> m = BeginStringOrEmpty"
  shows "jrun (m, [PObjKey]) (marshal_string k) = Some (EndValue, [PObjKey])" "stays PObjKey (m, [PObjKey]) (marshal_string k)"
proof -
  have first: "jstep (m, [PObjKey]) (CHR 0x22) = Some (InString, [PObjKey])"
    using assms by (auto simp: begin_string_def jspace_def)
  have "scan_ok (InString, [])" by (simp add: scan_ok_def)
  moreover have "jrun (InString, []) (marshal_body k @ [CHR 0x22]) = Some (EndValue, [])" by (simp add: run_marshal)
  moreover have "nesting (InString, []) (marshal_body k @ [CHR 0x22]) < max_nesting" by (simp add: nesting_quoted max_nesting_def)
  ultimately have "stays PObjKey (InString, [PObjKey]) (marshal_body k @ [CHR 0x22]) \<and>
      jrun (InString, [PObjKey]) (marshal_body k @ [CHR 0x22]) = Some (EndValue, [PObjKey])"
    using lift_run [of "(InString, [])" "marshal_body k @ [CHR 0x22]" "(EndValue, [])" PObjKey] by (simp add: lift_scan_def)
  with first show "jrun (m, [PObjKey]) (marshal_string k) = Some (EndValue, [PObjKey])"
    "stays PObjKey (m, [PObjKey]) (marshal_string k)"
    by (simp_all add: marshal_string_def del: jstep.simps)
qed

lemma member_run:
  assumes m: "m = BeginString \<or> m = BeginStringOrEmpty" and v: "value_text v"
  shows "jrun (m, [PObjKey]) (member_text (k, v) @ CHR '','' # t) = jrun (BeginString, [PObjKey]) t"
    "split_object (m, [PObjKey]) key [] (member_text (k, v) @ CHR '','' # t) =
      (marshal_string k, v) # split_object (BeginString, [PObjKey]) [] [] t"
    "jrun (m, [PObjKey]) (member_text (k, v) @ ''}'') = Some (EndTop, [])"
    "split_object (m, [PObjKey]) key [] (member_text (k, v) @ ''}'') = [(marshal_string k, v)]"
proof -
  obtain st where st: "jrun (BeginValue, [PObjVal]) v = Some (lift_scan PObjVal st)" "stays PObjVal (BeginValue, [PObjVal]) v"
    "scan_ok st" "jended st" using v by (rule value_run)
  note colon = key_run [OF m, of k]
  have col: "jstep (EndValue, [PObjKey]) (CHR '':'') = Some (BeginValue, [PObjVal])" by (simp add: jspace_def)
  have bottom: "snd (lift_scan PObjVal st) \<noteq> []" "last (snd (lift_scan PObjVal st)) = PObjVal" by (simp_all add: lift_scan_def)
  have run: "jrun (m, [PObjKey]) (member_text (k, v) @ u) = jrun (lift_scan PObjVal st) u" for u
    using colon(1) col st(1) by (simp add: member_text_def jrun_append del: jstep.simps)
  have parts: "split_object (m, [PObjKey]) key [] (member_text (k, v) @ u) = split_object (lift_scan PObjVal st) (marshal_string k) v u" for u
    using stays_split [OF colon(2,1), of key "[]" "CHR '':'' # v @ u"] col stays_split [OF st(2,1), of "marshal_string k" "[]" u]
    by (simp add: member_text_def del: jstep.simps)
  note ends = value_ends [OF st(3,4)]
  show "jrun (m, [PObjKey]) (member_text (k, v) @ CHR '','' # t) = jrun (BeginString, [PObjKey]) t"
    "jrun (m, [PObjKey]) (member_text (k, v) @ ''}'') = Some (EndTop, [])"
    using ends by (simp_all add: run del: jstep.simps)
  show "split_object (m, [PObjKey]) key [] (member_text (k, v) @ CHR '','' # t) =
      (marshal_string k, v) # split_object (BeginString, [PObjKey]) [] [] t"
    "split_object (m, [PObjKey]) key [] (member_text (k, v) @ ''}'') = [(marshal_string k, v)]"
    using ends by (simp_all add: parts del: jstep.simps)
qed

lemma members_run:
  assumes "ms \<noteq> []" "\<forall>x \<in> set ms. value_text (snd x)" "m = BeginString \<or> m = BeginStringOrEmpty"
  shows "jrun (m, [PObjKey]) (join '','' (map member_text ms) @ ''}'') = Some (EndTop, []) \<and>
    split_object (m, [PObjKey]) key [] (join '','' (map member_text ms) @ ''}'') = map (\<lambda>(k, v). (marshal_string k, v)) ms"
  using assms
proof (induction ms arbitrary: m key rule: induct_list012)
  case 1
  then show ?case by simp
next
  case (2 x)
  then show ?case using member_run(3,4) [where k = "fst x" and v = "snd x"] by (simp add: case_prod_beta)
next
  case (3 x y zs)
  let ?rest = "join '','' (map member_text (y # zs)) @ ''}''"
  have eq: "join '','' (map member_text (x # y # zs)) @ ''}'' = member_text (fst x, snd x) @ CHR '','' # ?rest" by simp
  have v: "value_text (snd x)" using 3(4) by simp
  have "jrun (BeginString, [PObjKey]) ?rest = Some (EndTop, [])"
    "split_object (BeginString, [PObjKey]) [] [] ?rest = map (\<lambda>(k, v). (marshal_string k, v)) (y # zs)"
    using 3(2) [of BeginString "[]"] 3(4) by auto
  then show ?case
    unfolding eq member_run(1) [OF 3(5) v] member_run(2) [OF 3(5) v] by (simp add: case_prod_beta)
qed

text \<open>An object reads back as the members it was written from.\<close>

theorem object_reads_back:
  assumes "ms \<noteq> []" "\<forall>(k, v) \<in> set ms. valid_utf8 k \<and> value_text v"
  shows "json_object (object_text ms) = Some (Some ms)"
proof -
  have vals: "\<forall>x \<in> set ms. value_text (snd x)" using assms(2) by auto
  have first: "jstep jstart (CHR ''{'') = Some (BeginStringOrEmpty, [PObjKey])"
    by (simp add: begin_value_def jspace_def push_def max_nesting_def)
  note run = members_run [OF assms(1) vals, of BeginStringOrEmpty, simplified]
  have "json_valid (object_text ms)"
    using first run by (simp add: json_valid_def object_text_def jended_def del: jstep.simps)
  moreover have trim: "trim_json (object_text ms) = object_text ms"
    by (rule trim_json_hd) (simp_all add: object_text_def jspace_def)
  then have "json_kind_of (object_text ms) = JObject" unfolding json_kind_of_def trim by (simp add: object_text_def)
  moreover have "split_object jstart [] [] (object_text ms) = map (\<lambda>(k, v). (marshal_string k, v)) ms"
    using first run by (simp add: object_text_def del: jstep.simps)
  then have "json_members (object_text ms) = ms"
    using assms(2) by (auto simp: json_members_def trim_marshal unquote_marshal_string value_text_def intro!: map_idI)
  ultimately show ?thesis by (simp add: json_object_def)
qed

section \<open>Compacted values\<close>

text \<open>Literals are letters, and the characters \<^verbatim>\<open>Marshal\<close> escapes occur inside strings only.\<close>

definition lit_ok :: "scan \<Rightarrow> bool" where
  "lit_ok st \<longleftrightarrow> (\<forall>ds. fst st = Lit ds \<longrightarrow> list_all (\<lambda>c. between 97 122 (byte c)) ds)"

lemma end_value_lit: "end_value stk c = Some st \<Longrightarrow> lit_ok st"
  by (cases "(stk, c)" rule: end_value.cases) (auto simp: lit_ok_def pop_def split: if_splits pstate.splits)

lemma begin_value_lit: "begin_value stk c = Some st \<Longrightarrow> lit_ok st"
  by (auto simp: begin_value_def lit_ok_def push_def between_def split: if_splits)

lemma step_lit_ok: "lit_ok st \<Longrightarrow> jstep st c = Some st' \<Longrightarrow> lit_ok st'"
  by (cases "(st, c)" rule: jstep.cases)
     (auto simp: begin_string_def pop_def lit_ok_def split: if_splits
       dest: end_value_lit [unfolded lit_ok_def] begin_value_lit [unfolded lit_ok_def])

definition structural :: "char \<Rightarrow> bool" where
  "structural c \<longleftrightarrow> c \<in> set '':,}]''"

lemma end_value_structural: "end_value stk c = Some st \<Longrightarrow> \<not> jspace c \<Longrightarrow> structural c"
  by (cases "(stk, c)" rule: end_value.cases) (auto simp: structural_def split: if_splits pstate.splits)

lemma special_chars:
  assumes "byte c \<in> {60, 62, 38, 226}"
  shows "\<not> jspace c" "\<not> is_digit c" "\<not> hexchar c" "\<not> escapable c" "\<not> between 97 122 (byte c)" "\<not> byte c < 32"
    and "c \<notin> set ''{[]}:,.-+0eEtfnu''" "c \<noteq> CHR 0x22" "c \<noteq> CHR 0x5C"
  using assms by (auto simp: jspace_def is_digit_def hexchar_def escapable_def between_def)

lemma special_inside:
  assumes "jstep st c = Some st'" "lit_ok st" "byte c \<in> {60, 62, 38, 226}"
  shows "st' = st \<and> fst st = InString"
proof -
  note sp = special_chars [OF assms(3)]
  then have "\<not> structural c" by (auto simp: structural_def)
  with sp have ev: "end_value stk c = None" for stk
    using end_value_structural [of stk c] by (cases "end_value stk c") auto
  from sp have bv: "begin_value stk c = None" for stk by (simp add: begin_value_def)
  obtain m stk where st: "st = (m, stk)" by (rule prod.exhaust)
  show ?thesis
  proof (cases m)
    case (Lit ds)
    with assms(1,2) sp(5) st show ?thesis by (cases ds) (auto simp: lit_ok_def split: if_splits)
  qed (use assms(1) st sp in \<open>auto simp: ev bv begin_string_def\<close>)
qed

text \<open>\<open>st'\<close> has seen what \<open>st\<close> has, without the spaces.\<close>

definition trails :: "scan \<Rightarrow> scan \<Rightarrow> bool" where
  "trails st' st \<longleftrightarrow> st' = st \<or>
     fst st' \<in> {Int0, Int1, Frac, ExpDig, EndValue} \<and> snd st' = snd st \<and>
     (fst st = EndValue \<or> fst st = EndTop \<and> snd st = [])"

fun tight :: "scan \<Rightarrow> bytes \<Rightarrow> bool" where
  "tight st [] \<longleftrightarrow> True"
| "tight st (c # s) \<longleftrightarrow> (jspace c \<longrightarrow> in_string (fst st)) \<and> (\<exists>st'. jstep st c = Some st' \<and> tight st' s)"

lemma trails_space:
  assumes "trails st' st" "jspace c" "\<not> in_string (fst st)" "jstep st c = Some st1" "lit_ok st"
  shows "trails st' st1"
proof -
  have no: "\<not> is_digit c" "\<not> between 97 122 (byte c)" "c \<noteq> CHR ''.''" "\<not> (c = CHR ''e'' \<or> c = CHR ''E'')"
    "c \<noteq> CHR ''+''" "c \<noteq> CHR ''-''" "c \<noteq> CHR ''0''"
    using assms(2) by (auto simp: jspace_def is_digit_def between_def)
  have ev: "end_value stk c = Some x \<Longrightarrow> snd x = stk \<and> (fst x = EndValue \<or> fst x = EndTop \<and> stk = [])" for stk x
    using assms(2) by (cases "(stk, c)" rule: end_value.cases) auto
  from assms no show ?thesis
    by (cases "(st, c)" rule: jstep.cases)
       (auto simp: trails_def begin_value_def begin_string_def lit_ok_def split: if_splits dest: ev)
qed

lemma trails_step:
  assumes "trails st' st" "\<not> jspace c \<or> in_string (fst st)" "jstep st c = Some st1"
  shows "jstep st' c = Some st1"
proof (cases "st' = st")
  case False
  with assms(1) have st': "fst st' \<in> {Int0, Int1, Frac, ExpDig, EndValue}" "snd st' = snd st"
    and st: "fst st = EndValue \<or> fst st = EndTop \<and> snd st = []" by (auto simp: trails_def)
  with assms(2) have "\<not> jspace c" by auto
  with st assms(3) have ev: "end_value (snd st) c = Some st1" by (cases st) auto
  with \<open>\<not> jspace c\<close> have "structural c" by (simp add: end_value_structural)
  then have "\<not> is_digit c" "c \<noteq> CHR ''.''" "\<not> (c = CHR ''e'' \<or> c = CHR ''E'')" by (auto simp: structural_def is_digit_def)
  with st' ev show ?thesis by (cases st') auto
qed (use assms in simp)

lemma trails_ended: "trails st' st \<Longrightarrow> jended st \<Longrightarrow> jended st'"
  by (cases st'; cases st)
     (auto simp: trails_def jended_def is_digit_def jspace_def split: option.splits prod.splits mode.splits elim!: end_value.elims)

text \<open>A written value: its run ends, it nests no deeper than the value it was made from, and holds no space between tokens.\<close>

definition written :: "scan \<Rightarrow> bytes \<Rightarrow> nat \<Rightarrow> bool" where
  "written st out n \<longleftrightarrow> (\<exists>f. jrun st out = Some f \<and> jended f) \<and> nesting st out \<le> n \<and> tight st out"

lemma written_high:
  assumes "written (InString, stk) out n" "\<forall>x \<in> set xs. jstep (InString, stk) x = Some (InString, stk)"
    "list_all (\<lambda>x. \<not> jspace x) xs"
  shows "written (InString, stk) (xs @ out) n"
  using assms(2,3)
proof (induction xs)
  case (Cons x xs)
  then have "written (InString, stk) (xs @ out) n" "jstep (InString, stk) x = Some (InString, stk)" by simp_all
  moreover from this(1) have "length stk \<le> n"
    using nesting_ge [of "(InString, stk)" "xs @ out"] by (auto simp: written_def)
  ultimately show ?case by (simp add: written_def del: jstep.simps)
qed (simp add: assms(1))

lemma written_escape:
  assumes "written (InString, stk) out n" "hexchar a" "hexchar b" "hexchar c" "hexchar d"
  shows "written (InString, stk) (CHR 0x5C # CHR ''u'' # a # b # c # d # out) n"
proof -
  have "length stk \<le> n" using assms(1) nesting_ge [of "(InString, stk)" out] by (auto simp: written_def)
  moreover have "\<not> jspace (CHR 0x5C)" "\<not> jspace (CHR ''u'')" "\<not> escapable (CHR ''u'')"
    by (simp_all add: jspace_def escapable_def)
  ultimately show ?thesis using assms by (simp add: written_def numeral_3_eq_3)
qed

lemma written_step:
  assumes "written st1 out n" "jstep st' c = Some st1" "jspace c \<Longrightarrow> in_string (fst st')" "length (snd st') \<le> n"
  shows "written st' (c # out) n"
  using assms by (simp add: written_def)

lemma written_same:
  assumes "written st1 out n" "jstep st c = Some st1" "trails st' st" "jspace c \<Longrightarrow> in_string (fst st)" "length (snd st') \<le> n"
  shows "written st' (c # out) n"
proof (rule written_step [OF assms(1) trails_step [OF assms(3) _ assms(2)] _ assms(5)])
  show "\<not> jspace c \<or> in_string (fst st)" using assms(4) by blast
  show "jspace c \<Longrightarrow> in_string (fst st')" using assms(3,4) by (cases st) (auto simp: trails_def)
qed

lemma written_more: "written st out n \<Longrightarrow> n \<le> n' \<Longrightarrow> written st out n'"
  by (auto simp: written_def)

lemma trails_string: "trails st' st \<Longrightarrow> fst st = InString \<Longrightarrow> st' = st"
  by (auto simp: trails_def)

lemma high_stays: "fst st = InString \<Longrightarrow> 128 \<le> byte c \<Longrightarrow> jstep st c = Some st"
  by (cases st) (auto split: if_splits)

text \<open>The two separators \<^verbatim>\<open>Marshal\<close> escapes, U+2028 and U+2029.\<close>

definition separator :: "char \<Rightarrow> bytes \<Rightarrow> bool" where
  "separator c s \<longleftrightarrow> byte c = 226 \<and> take 1 s = [chr 128] \<and> (take 1 (drop 1 s) = [chr 168] \<or> take 1 (drop 1 s) = [chr 169])"

definition html :: "char \<Rightarrow> bool" where
  "html c \<longleftrightarrow> byte c = 60 \<or> byte c = 62 \<or> byte c = 38"

lemma compact_from_Cons:
  "compact_from True st skip (c # s) =
    (case jstep st c of
       None \<Rightarrow> None
     | Some st' \<Rightarrow>
         map_option ((@) (if 0 < skip then [] else if html c then u00 (byte c)
             else if separator c s then CHR 0x5C # ''u202'' @ [hex_digit (byte (hd (drop 1 s)) - 160)]
             else if jspace c \<and> \<not> in_string (fst st) then [] else [c]))
           (compact_from True st' (if 0 < skip then skip - 1 else if separator c s then 2 else 0) s))"
  by (cases "jstep st c") (simp_all add: html_def separator_def Let_def)

lemma html_separator: "html c \<Longrightarrow> \<not> separator c s"
  by (auto simp: html_def separator_def)

lemma compact_cases:
  assumes "compact_from True st skip (c # s) = Some out"
  obtains (skip) st1 where "jstep st c = Some st1" "0 < skip" "compact_from True st1 (skip - 1) s = Some out"
  | (html) st1 out1 where "jstep st c = Some st1" "skip = 0" "html c" "out = u00 (byte c) @ out1"
      "compact_from True st1 0 s = Some out1"
  | (separator) st1 out1 where "jstep st c = Some st1" "skip = 0" "separator c s"
      "out = CHR 0x5C # ''u202'' @ hex_digit (byte (hd (drop 1 s)) - 160) # out1" "compact_from True st1 2 s = Some out1"
  | (space) st1 where "jstep st c = Some st1" "skip = 0" "jspace c" "\<not> in_string (fst st)" "compact_from True st1 0 s = Some out"
  | (same) st1 out1 where "jstep st c = Some st1" "skip = 0" "jspace c \<Longrightarrow> in_string (fst st)" "out = c # out1"
      "compact_from True st1 0 s = Some out1" "\<not> html c" "\<not> separator c s"
proof -
  from assms obtain st1 where st1: "jstep st c = Some st1" by (auto split: option.splits)
  consider "0 < skip" | "skip = 0" "html c" | "skip = 0" "\<not> html c" "separator c s"
    | "skip = 0" "\<not> html c" "\<not> separator c s" "jspace c" "\<not> in_string (fst st)"
    | "skip = 0" "\<not> html c" "\<not> separator c s" "jspace c \<Longrightarrow> in_string (fst st)" by blast
  then show thesis
  proof cases
    case 1
    then show thesis using assms st1 that(1) [OF st1] by (simp add: compact_from_Cons del: compact_from.simps)
  next
    case 2
    then show thesis using assms st1 that(2) [OF st1] by (auto simp: compact_from_Cons html_separator simp del: compact_from.simps)
  next
    case 3
    then show thesis using assms st1 that(3) [OF st1] by (auto simp: compact_from_Cons simp del: compact_from.simps)
  next
    case 4
    then show thesis using assms st1 that(4) [OF st1] by (auto simp: compact_from_Cons simp del: compact_from.simps)
  next
    case 5
    then show thesis using assms st1 that(5) [OF st1] by (auto simp: compact_from_Cons simp del: compact_from.simps)
  qed
qed

lemma separator_bytes:
  assumes "separator c s"
  obtains d u where "s = chr 128 # d # u" "d = chr 168 \<or> d = chr 169"
  using assms by (cases s; cases "tl s") (auto simp: separator_def)

lemma written_html:
  assumes "written st out n" "fst st = InString" "html c"
  shows "written st (u00 (byte c) @ out) n"
proof -
  have "byte c < 128" using assms(3) by (auto simp: html_def)
  then have hex: "hexchar (hex_digit (byte c div 16))" "hexchar (hex_digit (byte c mod 16))" "hexchar (CHR ''0'')"
    using hexval_digit by (auto simp: hexchar_def between_def)
  show ?thesis
    using written_escape [OF _ hex(3,3,1,2), of "snd st" out n] assms(1,2) by (cases st) (simp add: u00_def hex2_def)
qed

lemma written_separator:
  assumes "written st out n" "fst st = InString" "separator c s"
  shows "written st (CHR 0x5C # ''u202'' @ hex_digit (byte (hd (drop 1 s)) - 160) # out) n"
proof -
  obtain d u where s: "s = chr 128 # d # u" "d = chr 168 \<or> d = chr 169" by (rule separator_bytes [OF assms(3)])
  then have hex: "hexchar (hex_digit (byte (hd (drop 1 s)) - 160))" "hexchar (CHR ''2'')" "hexchar (CHR ''0'')"
    by (auto simp: hexchar_def between_def hex_digit_def)
  show ?thesis
    using written_escape [OF _ hex(2,3,2,1), of "snd st" out n] assms(1,2) by (cases st) simp
qed

lemma compact_written:
  assumes "compact_from True st skip s = Some out" "trails st' st" "lit_ok st"
    and "0 < skip \<Longrightarrow> fst st = InString \<and> skip \<le> length s \<and> (\<forall>x \<in> set (take skip s). 128 \<le> byte x)"
  shows "written st' out (nesting st s)"
  using assms
proof (induction s arbitrary: st st' skip out)
  case Nil
  then have "out = []" "jended st'" using trails_ended [of st' st] by (auto split: if_splits)
  moreover have "length (snd st') = length (snd st)" using Nil.prems(2) by (auto simp: trails_def)
  ultimately show ?case by (simp add: written_def)
next
  case (Cons c s)
  have depth: "length (snd st') \<le> nesting st (c # s)" using Cons.prems(2) nesting_ge [of st "c # s"] by (auto simp: trails_def)
  have deeper: "nesting st1 s \<le> nesting st (c # s)" if "jstep st c = Some st1" for st1 using that by simp
  from Cons.prems(1) show ?case
  proof (cases rule: compact_cases)
    case (skip st1)
    with Cons.prems(4) have in_s: "fst st = InString" "128 \<le> byte c" by (cases skip; auto)+
    with skip(1) high_stays have st1: "st1 = st" by fastforce
    have "written st' out (nesting st s)"
      using Cons.IH [OF skip(3) [unfolded st1] Cons.prems(2,3)] Cons.prems(4) skip(2) by (cases "skip") auto
    with deeper [OF skip(1)] st1 show ?thesis by (auto intro: written_more)
  next
    case (html st1 out1)
    then have st1: "st1 = st" "fst st = InString"
      using special_inside [OF html(1) Cons.prems(3)] by (auto simp: html_def)
    with trails_string Cons.prems(2) have st': "st' = st" by blast
    have "written st out1 (nesting st s)"
      using Cons.IH [of st 0 out1 st] html(5) st1 Cons.prems(2,3) st' by simp
    then have "written st (u00 (byte c) @ out1) (nesting st s)" by (rule written_html [OF _ st1(2) html(3)])
    with deeper [OF html(1)] st1 st' html(4) show ?thesis by (auto intro: written_more)
  next
    case (separator st1 out1)
    then have st1: "st1 = st" "fst st = InString"
      using special_inside [OF separator(1) Cons.prems(3)] by (auto simp: separator_def)
    with trails_string Cons.prems(2) have st': "st' = st" by blast
    obtain d u where s: "s = chr 128 # d # u" "d = chr 168 \<or> d = chr 169" by (rule separator_bytes [OF separator(3)])
    have "written st out1 (nesting st s)"
      using Cons.IH [of st 2 out1 st] separator(5) st1 Cons.prems(2,3) st' s by (auto simp: numeral_2_eq_2)
    then have "written st (CHR 0x5C # ''u202'' @ hex_digit (byte (hd (drop 1 s)) - 160) # out1) (nesting st s)"
      by (rule written_separator [OF _ st1(2) separator(3)])
    with deeper [OF separator(1)] st1 st' separator(4) show ?thesis by (auto intro: written_more)
  next
    case (space st1)
    from trails_space [OF Cons.prems(2) space(3,4,1) Cons.prems(3)]
    have "written st' out (nesting st1 s)" using Cons.IH [OF space(5) _ step_lit_ok [OF Cons.prems(3) space(1)]] by simp
    with deeper [OF space(1)] show ?thesis by (auto intro: written_more)
  next
    case (same st1 out1)
    have "written st1 out1 (nesting st1 s)"
      using Cons.IH [OF same(5) _ step_lit_ok [OF Cons.prems(3) same(1)]] by (simp add: trails_def)
    then have "written st1 out1 (nesting st (c # s))" using deeper [OF same(1)] by (rule written_more)
    with same depth show ?thesis by (auto intro: written_same [OF _ same(1) Cons.prems(2)])
  qed
qed

lemma tight_last:
  assumes "tight st (s @ [c])" "jrun st (s @ [c]) = Some f" "jended f"
  shows "\<not> jspace c"
proof
  assume c: "jspace c"
  obtain g where g: "jrun st s = Some g" "jstep g c = Some f"
    using assms(2) by (auto simp: jrun_append split: option.splits)
  have "in_string (fst g)" using assms(1) g(1) c by (induction s arbitrary: st) (auto split: option.splits)
  with g(2) c have "fst f = InString" by (cases g; cases "fst g") (auto simp: jspace_def escapable_def hexchar_def between_def split: if_splits)
  with assms(3) show False by (cases f) (auto simp: jended_def)
qed

text \<open>What \<^verbatim>\<open>Marshal\<close> writes for a raw message is one value without space around it.\<close>

theorem compact_shape:
  assumes "compact True s = Some out"
  shows "json_valid out \<and> trim_json out = out \<and> tight jstart out \<and> nesting jstart out \<le> nesting jstart s"
proof -
  have "written jstart out (nesting jstart s)"
    using compact_written [of jstart 0 s out jstart] assms by (simp add: compact_def trails_def lit_ok_def)
  then obtain f where f: "jrun jstart out = Some f" "jended f" "nesting jstart out \<le> nesting jstart s" "tight jstart out"
    by (auto simp: written_def)
  have "\<not> jended jstart" by (simp add: jended_def begin_value_def jspace_def)
  with f(1,2) have out: "out \<noteq> []" by (cases out) auto
  have "\<not> jspace (hd out)" using f(4) out by (cases out) auto
  moreover have "\<not> jspace (last out)"
    using tight_last [of jstart "butlast out" "last out" f] f out by simp
  ultimately have "trim_json out = out" using out by (intro trim_json_hd)
  with f show ?thesis by (simp add: json_valid_def)
qed

section \<open>Values that fit\<close>

text \<open>An object whose scan ends leaves every member's value one level.\<close>

lemma end_value_length: "end_value stk c = Some st \<Longrightarrow> length (snd st) \<le> length stk"
  by (cases "(stk, c)" rule: end_value.cases) (auto simp: pop_def split: if_splits pstate.splits)

lemma step_fits:
  assumes "jstep st c = Some st1" "jstep (lift_scan p st) c = Some x" "scan_ok st" "length (snd st) < max_nesting"
  shows "length (snd st1) < max_nesting"
proof -
  have top: "length (snd st1) < max_nesting" if "end_value stk d = Some st1" "length stk < max_nesting" for stk d
    using end_value_length [OF that(1)] that(2) by simp
  from assms show ?thesis
    by (cases "(st, c)" rule: jstep.cases)
       (auto simp: begin_string_def begin_value_def push_def pop_def scan_ok_def lift_scan_def dest: top split: if_splits)
qed

lemma run_fits:
  assumes "jrun st s = Some f" "jrun (lift_scan p st) (s @ t) = Some g" "scan_ok st" "length (snd st) < max_nesting"
  shows "nesting st s < max_nesting"
  using assms
proof (induction s arbitrary: st)
  case (Cons c s)
  then obtain st1 x where st1: "jstep st c = Some st1" "jrun st1 s = Some f"
    and x: "jstep (lift_scan p st) c = Some x" "jrun x (s @ t) = Some g" by (auto split: option.splits)
  have n: "length (snd st1) < max_nesting" by (rule step_fits [OF st1(1) x(1) Cons.prems(3,4)])
  with lift_step [OF st1(1) Cons.prems(3)] x have "jrun (lift_scan p st1) (s @ t) = Some g" by simp
  with Cons.IH [OF st1(2) _ step_scan_ok [OF Cons.prems(3) st1(1)] n] st1(1) Cons.prems(4) show ?case by simp
qed simp

lemma member_fits:
  assumes "m = BeginString \<or> m = BeginStringOrEmpty" "json_valid v" "trim_json v = v"
    and "jrun (m, [PObjKey]) (member_text (k, v) @ t) = Some g"
  shows "value_text v"
proof -
  have "jstep (EndValue, [PObjKey]) (CHR '':'') = Some (BeginValue, [PObjVal])" by (simp add: jspace_def)
  with assms(4) key_run(1) [OF assms(1), of k] have "jrun (lift_scan PObjVal jstart) (v @ t) = Some g"
    by (simp add: member_text_def jrun_append lift_scan_def del: jstep.simps)
  with assms(2) run_fits [of jstart v _ PObjVal t g] have "nesting jstart v < max_nesting"
    by (auto simp: json_valid_def scan_ok_def max_nesting_def split: option.splits)
  with assms(2,3) show ?thesis by (simp add: value_text_def)
qed

lemma members_fit:
  assumes "jrun (m, [PObjKey]) (join '','' (map member_text ms) @ ''}'') = Some g"
    and "\<forall>x \<in> set ms. json_valid (snd x) \<and> trim_json (snd x) = snd x" "m = BeginString \<or> m = BeginStringOrEmpty"
  shows "\<forall>x \<in> set ms. value_text (snd x)"
  using assms
proof (induction ms arbitrary: m rule: induct_list012)
  case (2 x)
  then show ?case using member_fits [of m "snd x" "fst x" "''}''" g] by simp
next
  case (3 x y zs)
  let ?rest = "join '','' (map member_text (y # zs)) @ ''}''"
  have eq: "join '','' (map member_text (x # y # zs)) @ ''}'' = member_text (fst x, snd x) @ CHR '','' # ?rest" by simp
  from 3(3) have run: "jrun (m, [PObjKey]) (member_text (fst x, snd x) @ CHR '','' # ?rest) = Some g" unfolding eq .
  with member_fits [OF 3(5) _ _ run] 3(4) have v: "value_text (snd x)" by simp
  from run [unfolded member_run(1) [OF 3(5) v]] have "jrun (BeginString, [PObjKey]) ?rest = Some g" .
  with 3(2) [of BeginString] 3(4) v show ?case by simp
qed simp

end
