(* ===== verification/JsonCompact.thy ===== *)
theory JsonCompact
  imports JsonText
begin

text \<open>
  Compaction is done once: what \<^verbatim>\<open>Marshal\<close> has written is not changed when it is written again as part of a larger
  value.
\<close>

section \<open>Texts without characters to escape\<close>

fun clean :: "bytes \<Rightarrow> bool" where
  "clean [] \<longleftrightarrow> True"
| "clean (c # s) \<longleftrightarrow> \<not> html c \<and> \<not> separator c s \<and> clean s"

text \<open>A text that starts with an ASCII character, or is empty, completes no separator.\<close>

definition ascii_first :: "bytes \<Rightarrow> bool" where
  "ascii_first s \<longleftrightarrow> s = [] \<or> byte (hd s) < 128"

lemma separator_append:
  assumes "ascii_first t" "separator c (s @ t)"
  shows "separator c s"
proof -
  have t: "take 1 t \<noteq> [chr b]" if "128 \<le> b" "b < 256" for b
    using assms(1) that by (cases t) (auto simp: ascii_first_def)
  show ?thesis
  proof (cases s)
    case Nil
    with assms(2) t [of 128] show ?thesis by (auto simp: separator_def)
  next
    case (Cons d u)
    with assms(2) t [of 168] t [of 169] show ?thesis by (cases u) (auto simp: separator_def)
  qed
qed

lemma clean_append: "ascii_first t \<Longrightarrow> clean s \<Longrightarrow> clean t \<Longrightarrow> clean (s @ t)"
  by (induction s) (auto dest: separator_append)

lemma separator_rune: "separator c s \<Longrightarrow> decode_rune (c # s) = (8232, 3) \<or> decode_rune (c # s) = (8233, 3)"
  by (cases s; cases "tl s") (auto simp: separator_def Let_def between_def decode3_def)

lemma decode_tail:
  assumes "decode_rune (c # s) = (r, n)" "(r, n) \<noteq> (rune_error, 1)" "\<not> byte c < 128"
  shows "\<forall>x \<in> set (tl (take n (c # s))). between 128 191 (byte x)"
  using assms
  by (auto simp: Let_def decode2_def decode3_def decode4_def between_def split: if_splits list.splits)

lemma continuation_clean:
  assumes "\<forall>x \<in> set s. between 128 191 (byte x)" "clean t"
  shows "clean (s @ t)"
  using assms(1)
proof (induction s)
  case (Cons c s)
  then have "\<not> html c" "\<not> separator c (s @ t)" by (auto simp: html_def separator_def between_def)
  with Cons show ?case by simp
qed (simp add: assms(2))

lemma ascii_clean: "list_all (\<lambda>c. byte c < 128 \<and> \<not> html c) s \<Longrightarrow> clean t \<Longrightarrow> clean (s @ t)"
  by (induction s) (auto simp: separator_def)

lemma hex_plain: "d < 16 \<Longrightarrow> byte (hex_digit d) < 128 \<and> \<not> html (hex_digit d)"
  by (auto simp: hex_digit_def html_def)

lemma marshal_ascii_clean: "byte c < 128 \<Longrightarrow> list_all (\<lambda>c. byte c < 128 \<and> \<not> html c) (marshal_ascii c)"
  using hex_plain [of "byte c div 16"] hex_plain [of "byte c mod 16"]
  by (auto simp: marshal_ascii_def u00_def hex2_def html_def)

lemma marshal_clean: "clean t \<Longrightarrow> ascii_first t \<Longrightarrow> clean (marshal_body s @ t)"
proof (induction s rule: valid_utf8.induct)
  case 1
  then show ?case by (simp add: marshal_body.simps)
next
  case (2 c s)
  obtain r n where d: "decode_rune (c # s) = (r, n)" by (rule prod.exhaust)
  let ?m = "marshal_body (drop (n - 1) s) @ t"
  have IH: "clean ?m" using 2 d by simp
  show ?case
  proof (cases "byte c < 128")
    case True
    with d have "n = 1" by simp
    with True IH show ?thesis by (simp add: marshal_body_ascii ascii_clean marshal_ascii_clean)
  next
    case False
    show ?thesis
    proof (cases "(r, n) = (rune_error, 1)")
      case True
      with False d have "marshal_body (c # s) = (CHR 0x5C # ''ufffd'') @ marshal_body (drop (n - 1) s)"
        by (subst marshal_body.simps) (simp add: Let_def del: decode_rune.simps)
      with IH show ?thesis by (auto simp: html_def separator_def)
    next
      case ok: False
      from decode_encode [OF d ok] have n: "1 \<le> n" "n \<le> length (c # s)"
        and again: "decode_rune (take n (c # s) @ ?m) = (r, n)" by blast+
      consider "r = 8232 \<or> r = 8233" | "r \<noteq> 8232" "r \<noteq> 8233" by blast
      then show ?thesis
      proof cases
        case 1
        with marshal_body_rune [OF False d ok] IH show ?thesis by (auto simp: html_def separator_def)
      next
        case 2
        obtain u where u: "take n (c # s) = c # u" using n(1) by (cases n) auto
        have "clean (u @ ?m)" by (rule continuation_clean [OF _ IH]) (use decode_tail [OF d ok False] u in simp)
        moreover have "\<not> separator c (u @ ?m)" using separator_rune [of c "u @ ?m"] again u 2 by auto
        moreover have "\<not> html c" using False by (auto simp: html_def)
        ultimately show ?thesis using marshal_body_rune [OF False d ok] 2 u by simp
      qed
    qed
  qed
qed

section \<open>What compaction writes\<close>

lemma compact_high:
  assumes "compact_from True st 0 s = Some out" "fst st = InString" "out = c # u" "128 \<le> byte c" "lit_ok st"
  shows "\<exists>v. s = c # v \<and> compact_from True st 0 v = Some u"
proof (cases s)
  case Nil
  with assms(1,3) show ?thesis by (simp split: if_splits)
next
  case (Cons d v)
  have "\<not> byte (CHR 0x5C) \<ge> 128" by simp
  with assms(3,4) have no: "out \<noteq> CHR 0x5C # w" for w by auto
  from assms(1) [unfolded Cons] show ?thesis
  proof (cases rule: compact_cases)
    case (same st1 out1)
    with assms(3) Cons have "c = d" "u = out1" by simp_all
    with same high_stays [OF assms(2), of c] assms(4) Cons show ?thesis by simp
  qed (use assms(2) no in \<open>auto simp: u00_def\<close>)
qed

lemma compact_separator:
  assumes "jstep st c = Some st1" "lit_ok st" "compact_from True st1 0 s = Some out" "separator c out"
  shows "separator c s"
proof -
  obtain d u where out: "out = chr 128 # d # u" "d = chr 168 \<or> d = chr 169" by (rule separator_bytes [OF assms(4)])
  have "byte c \<in> {60, 62, 38, 226}" using assms(4) by (simp add: separator_def)
  from special_inside [OF assms(1,2) this] have st1: "st1 = st" "fst st = InString" by simp_all
  from compact_high [OF assms(3) [unfolded st1(1)] st1(2) out(1) _ assms(2)]
  obtain v where v: "s = chr 128 # v" "compact_from True st 0 v = Some (d # u)" by auto
  from compact_high [OF v(2) st1(2) refl _ assms(2)] out(2) obtain x where "v = d # x" by auto
  with v(1) out(2) assms(4) show ?thesis by (auto simp: separator_def)
qed

lemma html_plain: "html c \<Longrightarrow> list_all (\<lambda>c. byte c < 128 \<and> \<not> html c) (u00 (byte c))"
  using hex_plain [of "byte c div 16"] hex_plain [of "byte c mod 16"] by (auto simp: u00_def hex2_def html_def)

lemma separator_plain:
  assumes "separator c s"
  shows "list_all (\<lambda>c. byte c < 128 \<and> \<not> html c) (CHR 0x5C # ''u202'' @ [hex_digit (byte (hd (drop 1 s)) - 160)])"
proof -
  obtain d u where "s = chr 128 # d # u" "d = chr 168 \<or> d = chr 169" by (rule separator_bytes [OF assms])
  then show ?thesis by (auto simp: html_def hex_digit_def)
qed

lemma compact_clean:
  assumes "compact_from True st skip s = Some out" "lit_ok st"
    and "0 < skip \<Longrightarrow> fst st = InString \<and> skip \<le> length s \<and> (\<forall>x \<in> set (take skip s). 128 \<le> byte x)"
  shows "clean out"
  using assms
proof (induction s arbitrary: st skip out)
  case Nil
  then show ?case by (auto split: if_splits)
next
  case (Cons c s)
  note lit = step_lit_ok [OF Cons.prems(2)]
  from Cons.prems(1) show ?case
  proof (cases rule: compact_cases)
    case (skip st1)
    with Cons.prems(3) have in_s: "fst st = InString" "128 \<le> byte c" by (cases skip; auto)+
    with skip(1) high_stays have st1: "st1 = st" by fastforce
    show ?thesis
      using Cons.IH [OF skip(3) lit [OF skip(1)]] Cons.prems(3) skip(2) st1 by (cases "skip") auto
  next
    case (html st1 out1)
    have "clean out1" using Cons.IH [OF html(5) lit [OF html(1)]] by simp
    with html(4) ascii_clean [OF html_plain [OF html(3)]] show ?thesis by simp
  next
    case (separator st1 out1)
    then have st1: "st1 = st" "fst st = InString"
      using special_inside [OF separator(1) Cons.prems(2)] by (auto simp: separator_def)
    obtain d u where s: "s = chr 128 # d # u" "d = chr 168 \<or> d = chr 169" by (rule separator_bytes [OF separator(3)])
    have "clean out1" using Cons.IH [OF separator(5)] st1 Cons.prems(2) s by (auto simp: numeral_2_eq_2)
    with separator(4) ascii_clean [OF separator_plain [OF separator(3)]] show ?thesis by simp
  next
    case (space st1)
    show ?thesis using Cons.IH [OF space(5) lit [OF space(1)]] by simp
  next
    case (same st1 out1)
    have "clean out1" using Cons.IH [OF same(5) lit [OF same(1)]] by simp
    moreover have "\<not> JsonText.separator c out1"
      using compact_separator [OF same(1) Cons.prems(2) same(5)] same(7) by blast
    ultimately show ?thesis using same(4,6) by simp
  qed
qed

section \<open>Nothing left to compact\<close>

text \<open>A value as \<^verbatim>\<open>Marshal\<close> writes it: no space between its tokens and nothing to escape.\<close>

definition compact_text :: "bytes \<Rightarrow> bool" where
  "compact_text v \<longleftrightarrow> value_text v \<and> tight jstart v \<and> clean v"

lemma compact_same:
  assumes "tight st s" "clean s" "jrun st s = Some f" "jended f"
  shows "compact_from True st 0 s = Some s"
  using assms(1-3)
proof (induction s arbitrary: st)
  case (Cons c s)
  then obtain st1 where "jstep st c = Some st1" "tight st1 s" "jspace c \<longrightarrow> in_string (fst st)" by auto
  with Cons show ?case by (auto simp: compact_from_Cons simp del: compact_from.simps)
qed (use assms(4) in simp)

theorem compact_idem: "compact_text v \<Longrightarrow> compact True v = Some v"
  unfolding compact_text_def compact_def value_text_def json_valid_def
  by (auto simp del: compact_from.simps intro!: compact_same split: option.splits)

theorem compact_is_compact:
  assumes "compact True s = Some out" "nesting jstart out < max_nesting"
  shows "compact_text out"
proof -
  have "clean out" using compact_clean [of jstart 0 s out] assms(1) by (simp add: compact_def lit_ok_def)
  with compact_shape [OF assms(1)] assms(2) show ?thesis by (simp add: compact_text_def value_text_def)
qed

lemma tight_append: "tight st s \<Longrightarrow> jrun st s = Some st' \<Longrightarrow> tight st' t \<Longrightarrow> tight st (s @ t)"
  by (induction s arbitrary: st) (auto split: option.splits)

lemma tight_lift:
  assumes "scan_ok st" "nesting st s < max_nesting" "tight st s"
  shows "tight (lift_scan p st) s"
  using assms
proof (induction s arbitrary: st)
  case (Cons c s)
  then obtain st1 where st1: "jstep st c = Some st1" "tight st1 s" "jspace c \<longrightarrow> in_string (fst st)" by auto
  from Cons.prems(2) st1(1) have n: "nesting st1 s < max_nesting" by simp
  then have "length (snd st1) < max_nesting" using nesting_ge le_less_trans by blast
  with lift_step [OF st1(1) Cons.prems(1)] Cons.IH [OF step_scan_ok [OF Cons.prems(1) st1(1)] n st1(2)] st1(3)
  show ?case by (cases "fst st = EndTop") (auto simp: lift_scan_def)
qed simp

lemma tight_inside:
  assumes "jrun (m, []) s = Some (InString, [])" "in_string m"
  shows "tight (m, []) s"
  using assms
proof (induction s arbitrary: m)
  case (Cons c s)
  show ?case
  proof (cases "m = InString \<and> c = CHR 0x22")
    case True
    with Cons.prems show ?thesis by (cases s) (auto split: option.splits if_splits dest: end_top_run)
  next
    case False
    with Cons show ?thesis by (cases m) (auto split: option.splits if_splits)
  qed
qed simp

lemma tight_body: "tight (InString, []) (marshal_body k @ [CHR 0x22])"
proof (rule tight_append [OF tight_inside])
  show run: "jrun (InString, []) (marshal_body k) = Some (InString, [])" using run_marshal [of "[]" k "[]"] by simp
  then show "jrun (InString, []) (marshal_body k) = Some (InString, [])" .
qed (simp_all add: jspace_def)

lemma clean_quoted: "clean t \<Longrightarrow> clean (marshal_string k @ t)"
  using marshal_clean [of "CHR 0x22 # t" k] by (auto simp: marshal_string_def html_def separator_def ascii_first_def)

lemma quoted_compact: "compact_text (marshal_string k)"
proof -
  have "jrun jstart (marshal_string k) = Some (EndValue, [])" using run_quoted [of "[]" k "[]"] by simp
  moreover have "nesting jstart (marshal_string k) < max_nesting"
    using nesting_quoted [of k] by (simp add: marshal_string_def begin_value_def jspace_def max_nesting_def)
  ultimately have "value_text (marshal_string k)"
    by (simp add: value_text_def json_valid_def trim_marshal jended_def jspace_def)
  moreover have "tight jstart (marshal_string k)"
    using tight_body [of k] by (simp add: marshal_string_def begin_value_def jspace_def)
  ultimately show ?thesis using clean_quoted [of "[]" k] by (simp add: compact_text_def)
qed

section \<open>Written objects\<close>

lemma key_tight:
  assumes "m = BeginString \<or> m = BeginStringOrEmpty"
  shows "tight (m, [PObjKey]) (marshal_string k)"
proof -
  have "jstep (m, [PObjKey]) (CHR 0x22) = Some (InString, [PObjKey])"
    using assms by (auto simp: begin_string_def jspace_def)
  moreover have "nesting (InString, []) (marshal_body k @ [CHR 0x22]) < max_nesting" by (simp add: nesting_quoted max_nesting_def)
  then have "tight (InString, [PObjKey]) (marshal_body k @ [CHR 0x22])"
    using tight_lift [OF _ _ tight_body, of k PObjKey] by (simp add: scan_ok_def lift_scan_def)
  ultimately show ?thesis by (simp add: marshal_string_def jspace_def del: jstep.simps)
qed

lemma member_tight:
  assumes m: "m = BeginString \<or> m = BeginStringOrEmpty" and v: "value_text v" "tight jstart v"
  shows "tight (BeginString, [PObjKey]) t \<Longrightarrow> tight (m, [PObjKey]) (member_text (k, v) @ CHR '','' # t)"
    and "tight (m, [PObjKey]) (member_text (k, v) @ ''}'')"
proof -
  obtain st where st: "jrun (BeginValue, [PObjVal]) v = Some (lift_scan PObjVal st)" "scan_ok st" "jended st"
    using v(1) by (rule value_run)
  have col: "jstep (EndValue, [PObjKey]) (CHR '':'') = Some (BeginValue, [PObjVal])" "\<not> jspace (CHR '':'')"
    by (simp_all add: jspace_def)
  have "tight (BeginValue, [PObjVal]) v"
    using tight_lift [of jstart v PObjVal] v by (simp add: scan_ok_def lift_scan_def value_text_def)
  from tight_append [OF this st(1)]
  have val: "tight (lift_scan PObjVal st) u \<Longrightarrow> tight (m, [PObjKey]) (member_text (k, v) @ u)" for u
    using tight_append [OF key_tight [OF m] key_run(1) [OF m], of "CHR '':'' # v @ u" k] col
    by (simp add: member_text_def del: jstep.simps)
  have sep: "\<not> jspace (CHR '','')" "\<not> jspace (CHR ''}'')" by (simp_all add: jspace_def)
  show "tight (BeginString, [PObjKey]) t \<Longrightarrow> tight (m, [PObjKey]) (member_text (k, v) @ CHR '','' # t)"
    and "tight (m, [PObjKey]) (member_text (k, v) @ ''}'')"
    by (rule val; use value_ends [OF st(2,3)] sep in \<open>simp del: jstep.simps\<close>)+
qed

lemma member_clean: "clean v \<Longrightarrow> clean t \<Longrightarrow> ascii_first t \<Longrightarrow> clean (member_text (k, v) @ t)"
  using clean_quoted [of "'':'' @ v @ t" k] clean_append [of t v]
  by (auto simp: member_text_def html_def separator_def)

lemma members_compact:
  assumes "ms \<noteq> []" "\<forall>x \<in> set ms. compact_text (snd x)" "m = BeginString \<or> m = BeginStringOrEmpty"
  shows "tight (m, [PObjKey]) (join '','' (map member_text ms) @ ''}'') \<and> clean (join '','' (map member_text ms) @ ''}'')"
  using assms
proof (induction ms arbitrary: m rule: induct_list012)
  case 1
  then show ?case by simp
next
  case (2 x)
  then show ?case
    using member_tight(2) [of m "snd x" "fst x"] member_clean [of "snd x" "''}''" "fst x"]
    by (simp add: compact_text_def html_def separator_def ascii_first_def)
next
  case (3 x y zs)
  let ?rest = "join '','' (map member_text (y # zs)) @ ''}''"
  have eq: "join '','' (map member_text (x # y # zs)) @ ''}'' = member_text (fst x, snd x) @ CHR '','' # ?rest" by simp
  have v: "value_text (snd x)" "tight jstart (snd x)" "clean (snd x)" using 3(4) by (auto simp: compact_text_def)
  have rest: "tight (BeginString, [PObjKey]) ?rest" "clean ?rest" using 3(2) [of BeginString] 3(4) by auto
  then have "clean (CHR '','' # ?rest)" "ascii_first (CHR '','' # ?rest)"
    by (auto simp: html_def separator_def ascii_first_def)
  then show ?case unfolding eq using member_tight(1) [OF 3(5) v(1,2) rest(1)] member_clean [OF v(3)] by blast
qed

text \<open>A written object is the same text when it is written again as a member of a larger one.\<close>

theorem object_compact:
  assumes "ms \<noteq> []" "\<forall>x \<in> set ms. compact_text (snd x)"
  shows "compact True (object_text ms) = Some (object_text ms)"
proof -
  note parts = members_compact [OF assms, of BeginStringOrEmpty, simplified]
  have first: "jstep jstart (CHR ''{'') = Some (BeginStringOrEmpty, [PObjKey])" "\<not> jspace (CHR ''{'')"
    by (simp_all add: begin_value_def jspace_def push_def max_nesting_def)
  have vals: "\<forall>x \<in> set ms. value_text (snd x)" using assms(2) by (simp add: compact_text_def)
  have "jrun jstart (object_text ms) = Some (EndTop, [])"
    using members_run [OF assms(1) vals, of BeginStringOrEmpty] first by (simp add: object_text_def del: jstep.simps)
  moreover have "tight jstart (object_text ms)" using first parts by (simp add: object_text_def del: jstep.simps)
  moreover have "clean (object_text ms)" using parts by (simp add: object_text_def html_def separator_def)
  ultimately show ?thesis unfolding compact_def by (intro compact_same [of _ _ "(EndTop, [])"]) (simp_all add: jended_def)
qed

end
