(* ===== verification/Envelope.thy ===== *)
theory Envelope
  imports JsonCompact DebeziumLaws Delivery
begin

text \<open>
  From a row to the body a destination receives: a decoded event is marshaled twice, the columns into the payload and the
  payload into the envelope. Read by \<^verbatim>\<open>encoding/json\<close>, the body gives back the configured identities and, unchanged, the
  object of the row.
\<close>

section \<open>Marshaled maps and envelopes\<close>

lemma marshal_members_text:
  "marshal_members ms = Some parts \<Longrightarrow>
   \<exists>new. parts = map member_text new \<and> list_all2 (\<lambda>(k, v) (k', v'). k' = k \<and> compact True v = Some v') ms new"
proof (induction ms arbitrary: parts rule: marshal_members.induct)
  case (2 k v ms)
  then obtain v' rest where v': "compact True v = Some v'" "marshal_members ms = Some rest"
    "parts = (marshal_string k @ '':'' @ v') # rest" by (auto split: option.splits)
  from "2.IH" [OF v'(2)] obtain new where "rest = map member_text new"
    "list_all2 (\<lambda>(k, v) (k', v'). k' = k \<and> compact True v = Some v') ms new" by blast
  with v' show ?case by (intro exI [of _ "(k, v') # new"]) (simp add: member_text_def)
qed simp

lemma marshal_map_object:
  assumes "marshal_map vs = Some payload" "distinct (map fst vs)"
  shows "\<exists>ms. payload = object_text ms \<and> map fst ms = sort (map fst vs) \<and>
    (\<forall>(k, v') \<in> set ms. \<exists>v. (k, v) \<in> set vs \<and> compact True v = Some v')"
proof -
  from assms(1) obtain parts where parts: "marshal_members (sort_key fst vs) = Some parts"
    "payload = ''{'' @ join '','' parts @ ''}''" by (auto simp: marshal_map_def)
  from marshal_members_text [OF parts(1)] obtain ms where ms: "parts = map member_text ms"
    "list_all2 (\<lambda>(k, v) (k', v'). k' = k \<and> compact True v = Some v') (sort_key fst vs) ms" by blast
  have "map fst (sort_key fst vs) = sort (map fst vs)"
    using assms(2) by (intro sorted_distinct_set_unique) (simp_all add: distinct_map)
  moreover from ms(2) have "map fst ms = map fst (sort_key fst vs)"
    by (induction rule: list_all2_induct) auto
  moreover have "\<forall>(k, v') \<in> set ms. \<exists>v. (k, v) \<in> set (sort_key fst vs) \<and> compact True v = Some v'"
    using ms(2) by (induction rule: list_all2_induct) auto
  ultimately show ?thesis using ms(1) parts(2) by (intro exI [of _ ms]) (simp add: object_text_def)
qed

definition envelope_members :: "envelope \<Rightarrow> bytes \<Rightarrow> (bytes \<times> bytes) list" where
  "envelope_members e payload =
     [(''data_source_id'', marshal_string (env_source_id e)),
      (''data_source_description'', marshal_string (env_source_description e)),
      (''data_destination_id'', marshal_string (env_destination_id e)),
      (''data_destination_description'', marshal_string (env_destination_description e)),
      (''payload'', payload)]"

lemma marshal_envelope_object:
  "marshal_envelope e = map_option (\<lambda>p. object_text (envelope_members e p)) (compact True (env_payload e))"
  by (simp add: marshal_envelope_def marshal_field_def object_text_def envelope_members_def member_text_def)

lemma compact_runs: "compact_from esc st k s = Some out \<Longrightarrow> \<exists>f. jrun st s = Some f"
  by (induction s arbitrary: st k out) (auto split: option.splits simp: Let_def)

section \<open>The payload\<close>

text \<open>A marshaled map that can be marshaled again is not changed by it, and every member is a compact value.\<close>

lemma payload_compact:
  assumes "\<forall>(k, v') \<in> set ms. \<exists>v. compact True v = Some v'" "ms \<noteq> []" "compact True (object_text ms) = Some p"
  shows "p = object_text ms \<and> (\<forall>x \<in> set ms. compact_text (snd x))"
proof -
  have shape: "\<forall>x \<in> set ms. json_valid (snd x) \<and> trim_json (snd x) = snd x" using assms(1) compact_shape by fastforce
  obtain f where "jrun jstart (object_text ms) = Some f"
    using compact_runs [OF assms(3) [unfolded compact_def]] by blast
  moreover have "jstep jstart (CHR ''{'') = Some (BeginStringOrEmpty, [PObjKey])"
    by (simp add: begin_value_def jspace_def push_def max_nesting_def)
  ultimately have "jrun (BeginStringOrEmpty, [PObjKey]) (join '','' (map member_text ms) @ ''}'') = Some f"
    by (simp add: object_text_def del: jstep.simps)
  from members_fit [OF this shape] have "\<forall>x \<in> set ms. nesting jstart (snd x) < max_nesting" by (simp add: value_text_def)
  then have "\<forall>x \<in> set ms. compact_text (snd x)" using assms(1) compact_is_compact by fastforce
  with object_compact [OF assms(2)] assms(3) show ?thesis by simp
qed

lemma payload_reads_back:
  assumes "marshal_map vs = Some payload" "distinct (map fst vs)" "vs \<noteq> []" "\<forall>k \<in> set (map fst vs). valid_utf8 k"
    and "compact True payload = Some p"
  shows "p = payload \<and> (\<exists>ms. json_object payload = Some (Some ms) \<and> map fst ms = sort (map fst vs) \<and>
    (\<forall>(k, v') \<in> set ms. \<exists>v. (k, v) \<in> set vs \<and> compact True v = Some v'))"
proof -
  from marshal_map_object [OF assms(1,2)] obtain ms where ms: "payload = object_text ms" "map fst ms = sort (map fst vs)"
    "\<forall>(k, v') \<in> set ms. \<exists>v. (k, v) \<in> set vs \<and> compact True v = Some v'" by blast
  have "map fst ms \<noteq> []" using ms(2) assms(3) by (metis length_map length_sort list.map_disc_iff length_0_conv)
  then have ne: "ms \<noteq> []" by simp
  from payload_compact [OF _ ne assms(5) [unfolded ms(1)]] ms(3)
  have p: "p = object_text ms" "\<forall>x \<in> set ms. compact_text (snd x)" by fastforce+
  have "\<forall>(k, v) \<in> set ms. valid_utf8 k \<and> value_text v" using ms(3) assms(4) p(2) by (fastforce simp: compact_text_def)
  from object_reads_back [OF ne this] ms p(1) show ?thesis by blast
qed

lemma column_of_value:
  assumes "list_all2 (\<lambda>c (n, v). P c v) cs vs" "map col_name cs = map fst vs" "(n, v) \<in> set vs"
  shows "\<exists>c. c \<in> set cs \<and> col_name c = n \<and> P c v"
  using assms by (induction rule: list_all2_induct) auto

section \<open>Properties\<close>

text \<open>What a reader of the body finds under a name.\<close>

definition text_member :: "(bytes \<times> bytes) list \<Rightarrow> bytes \<Rightarrow> bytes \<Rightarrow> bool" where
  "text_member ms n t \<longleftrightarrow> (\<exists>raw. member ms n = Some raw \<and> json_string raw = Some t)"

lemma envelope_reads_back:
  assumes "list_all valid_utf8 [env_source_id e, env_source_description e, env_destination_id e,
      env_destination_description e]" and "value_text p"
  shows "json_object (object_text (envelope_members e p)) = Some (Some (envelope_members e p)) \<and>
    text_member (envelope_members e p) ''data_source_id'' (env_source_id e) \<and>
    text_member (envelope_members e p) ''data_source_description'' (env_source_description e) \<and>
    text_member (envelope_members e p) ''data_destination_id'' (env_destination_id e) \<and>
    text_member (envelope_members e p) ''data_destination_description'' (env_destination_description e) \<and>
    member (envelope_members e p) ''payload'' = Some p"
proof -
  have "valid_utf8 ''data_source_id''" "valid_utf8 ''data_source_description''" "valid_utf8 ''data_destination_id''"
    "valid_utf8 ''data_destination_description''" "valid_utf8 ''payload''" by (simp_all add: valid_utf8.simps rune_error_def)
  moreover have "value_text (marshal_string k)" for k using quoted_compact by (simp add: compact_text_def)
  ultimately have "json_object (object_text (envelope_members e p)) = Some (Some (envelope_members e p))"
    using assms(2) by (intro object_reads_back) (simp_all add: envelope_members_def)
  then show ?thesis using assms(1) by (simp add: envelope_members_def text_member_def member_def json_string_marshal)
qed

text \<open>
  C28. The row reaches the destination as it was decoded: the body marshaled for a decoded event is, to a JSON reader, an object
  of exactly the five members of the protocol. The four texts are the source's and the destination's identifiers and
  descriptions, with whatever characters they hold, and the payload is the decoded record's payload byte for byte: an object of
  the configured columns in the order of their names, each value the compacted conversion of the row's value.
  Identifiers and column names are valid UTF-8, and the payload leaves the one level of nesting that the envelope adds.
\<close>

theorem row_reaches_destination:
  assumes "decode_event s i g (Some r) = Inr rec" and "marshal_envelope (envelope_for rec d) = Some body"
    and "list_all valid_utf8 (src_id s # src_description s # dst_id d # dst_description d # src_columns s)"
    and "nesting jstart (rec_payload rec) < max_nesting"
  shows "\<exists>ms row after. json_object body = Some (Some ms) \<and>
    map fst ms = [''data_source_id'', ''data_source_description'', ''data_destination_id'', ''data_destination_description'',
      ''payload''] \<and>
    text_member ms ''data_source_id'' (src_id s) \<and> text_member ms ''data_source_description'' (src_description s) \<and>
    text_member ms ''data_destination_id'' (dst_id d) \<and>
    text_member ms ''data_destination_description'' (dst_description d) \<and>
    member ms ''payload'' = Some (rec_payload rec) \<and> json_object (rec_payload rec) = Some (Some row) \<and>
    map fst row = sort (src_columns s) \<and>
    (\<exists>raw. event_member r ''after'' raw \<and> json_object raw = Some (Some after)) \<and>
    (\<forall>(n, v') \<in> set row. \<exists>c v. c \<in> set (idn_columns i) \<and> col_name c = n \<and> column_value i after c v \<and> compact True v = Some v')"
proof -
  let ?e = "envelope_for rec d"
  from decode_event_SomeD [OF assms(1)] obtain after vs where vs: "marshal_map vs = Some (rec_payload rec)"
    "map fst vs = src_columns s" "distinct (src_columns s)" "src_columns s \<noteq> []" "rec_source rec = s"
    and after: "\<exists>raw. event_member r ''after'' raw \<and> json_object raw = Some (Some after)"
      "list_all2 (\<lambda>c (n, v). column_value i after c v) (idn_columns i) vs" "map col_name (idn_columns i) = src_columns s"
    using assms(1) by (auto simp: decode_event_def split: option.splits dest: validate_identity_NoneD)
  from assms(2) obtain p where p: "compact True (rec_payload rec) = Some p" "body = object_text (envelope_members ?e p)"
    by (auto simp: marshal_envelope_object envelope_for_def)
  have "vs \<noteq> []" using vs(2,4) by auto
  with payload_reads_back [OF vs(1) _ _ _ p(1)] vs(2,3) assms(3) obtain row where
    row: "p = rec_payload rec" "json_object (rec_payload rec) = Some (Some row)" "map fst row = sort (src_columns s)"
      "\<forall>(k, v') \<in> set row. \<exists>v. (k, v) \<in> set vs \<and> compact True v = Some v'" by (auto simp: list_all_iff)
  have "value_text p" using compact_shape [OF p(1)] assms(4) row(1) by (simp add: value_text_def)
  with envelope_reads_back [of ?e p] assms(3) vs(5)
  have "json_object body = Some (Some (envelope_members ?e p)) \<and>
    text_member (envelope_members ?e p) ''data_source_id'' (src_id s) \<and>
    text_member (envelope_members ?e p) ''data_source_description'' (src_description s) \<and>
    text_member (envelope_members ?e p) ''data_destination_id'' (dst_id d) \<and>
    text_member (envelope_members ?e p) ''data_destination_description'' (dst_description d) \<and>
    member (envelope_members ?e p) ''payload'' = Some (rec_payload rec)"
    by (simp add: p(2) row(1) envelope_for_def)
  moreover have "\<exists>c. c \<in> set (idn_columns i) \<and> col_name c = n \<and> column_value i after c v" if "(n, v) \<in> set vs" for n v
    by (rule column_of_value [OF after(2) _ that]) (simp add: vs(2) after(3))
  with row(4) have "\<forall>(n, v') \<in> set row. \<exists>c v. c \<in> set (idn_columns i) \<and> col_name c = n \<and> column_value i after c v \<and>
      compact True v = Some v'" by fast
  moreover have "map fst (envelope_members ?e p) = [''data_source_id'', ''data_source_description'',
      ''data_destination_id'', ''data_destination_description'', ''payload'']" by (simp add: envelope_members_def)
  ultimately show ?thesis using row(2,3) after(1)
    by (intro exI [of _ "envelope_members ?e p"] exI [of _ row] exI [of _ after]) (simp only: simp_thms)
qed

definition billing :: destination where
  \<open>billing = \<lparr>dst_id = ''billing'', dst_description = ''the "billing" <service> & more'', dst_filter = None\<rparr>\<close>

theorem row_reaches_destination_witness:
  \<open>\<exists>ms. json_object (the (marshal_envelope (envelope_for (projr (decode_event accounts accounts_identity 1
      (Some (accounts_event ''"c"'')))) billing))) = Some (Some ms) \<and>
    text_member ms ''data_destination_description'' ''the "billing" <service> & more'' \<and>
    member ms ''payload'' = Some ''{"id":42,"tenant":"acme"}''\<close>
proof -
  let ?rec = "projr (decode_event accounts accounts_identity 1 (Some (accounts_event ''\"c\"'')))"
  have rec: "decode_event accounts accounts_identity 1 (Some (accounts_event ''\"c\"'')) = Inr ?rec"
    by (simp add: accounts_decoded)
  have "marshal_envelope (envelope_for ?rec billing) \<noteq> None" unfolding accounts_decoded by code_simp
  then have body: "marshal_envelope (envelope_for ?rec billing) = Some (the (marshal_envelope (envelope_for ?rec billing)))"
    by simp
  have texts: "list_all valid_utf8 (src_id accounts # src_description accounts # dst_id billing # dst_description billing #
      src_columns accounts)" by (simp add: accounts_def billing_def valid_utf8.simps rune_error_def)
  have "nesting jstart (rec_payload ?rec) < max_nesting" unfolding accounts_decoded by code_simp
  from row_reaches_destination [OF rec body texts this]
  show ?thesis by (auto simp: accounts_decoded billing_def)
qed

end
