(* ===== verification/Spec2Isabelle.thy ===== *)
theory Spec2Isabelle
  imports Engine DebeziumLaws HttpLaws PartitionLaws Ownership AdminLaws ConnectorLaws SourceLaws
    OperatorLaws CommandLaws PartitionLiveness Goroutine Envelope
begin

text \<open>
  \<^bold>\<open>Postie.\<close> Postie copies the rows inserted into PostgreSQL tables to HTTP destinations: a Debezium connector
  writes them to one Kafka topic per source, and for every destination a consumer group reads the topics, decodes
  each record, sends it until the destination answers with a terminal outcome, and only then commits its offset.
  A control store (PostgreSQL) holds the registered streams, the desired states of the subscriptions, the skips
  and the leases of the workers. This library models the Go code under \<^verbatim>\<open>internal/\<close> and \<^verbatim>\<open>cmd/\<close> and proves what makes it
  correct. Every definition names the source construct it follows.

  \<^bold>\<open>How the parts interact.\<close> \<^verbatim>\<open>cmd/postie\<close> parses flags, loads the configuration and either provisions
  the streams or runs the engine. Provisioning checks each table against the capture contract, ensures topic and
  connector, waits for the capture and registers the stream last. The running engine is one control loop per process:
  it renews its lease, inspects the streams, starts and stops consumers as the desired states say and reports what it
  reached. Each consumer runs one goroutine per assigned partition, which checks its offsets, then hands records one
  at a time to a delivery worker. The worker asks the control loop's dispatch gate, decodes, delivers and commits. The
  operator API reads the state of the control loop and changes desired states.

  \<^bold>\<open>Theories and source files.\<close>

  \<^item> \<open>Prelude\<close>, \<open>GoStd\<close>, \<open>GoJson\<close>, \<open>Sha256\<close>: byte strings, Go's errors and maps, programs with fuel and the rules for
    them; the parts of \<^verbatim>\<open>strconv\<close>, \<^verbatim>\<open>strings\<close>, \<^verbatim>\<open>encoding/json\<close> (the byte-level scanner included) and
    \<^verbatim>\<open>crypto/sha256\<close> that the code calls. \<open>JsonText\<close>, \<open>JsonCompact\<close>: what \<^verbatim>\<open>Marshal\<close> writes, \<^verbatim>\<open>Unmarshal\<close> reads back,
    and writing it again inside a larger value does not change it.
  \<^item> \<open>StreamModel\<close> (\<^verbatim>\<open>internal/stream\<close>), \<open>Activity\<close> (\<^verbatim>\<open>internal/activity\<close>), \<open>Protocol\<close>, \<open>Payload\<close>, \<open>PayloadLaws\<close>,
    \<open>Calendar\<close>, \<open>Conversion\<close> (\<^verbatim>\<open>internal/protocol\<close>): the records passed around; the ring buffer of recent activity, a
    refinement of the list of all entries; acknowledgements, envelopes and filters; the conversion of column values.
  \<^item> \<open>Debezium\<close>, \<open>DebeziumLaws\<close> (\<^verbatim>\<open>adapters/debezium/decode.go\<close>): change events become records. \<open>Connector\<close>,
    \<open>ConnectorLaws\<close> (\<^verbatim>\<open>connector.go\<close>): the connector's configuration and status. \<open>Envelope\<close>: the way of a row into the body.
  \<^item> \<open>Delivery\<close>, \<open>DeliveryLaws\<close>, \<open>RecordOrder\<close>, \<open>Redelivery\<close>, \<open>Liveness\<close>, \<open>Ghost\<close> (\<^verbatim>\<open>internal/delivery\<close>): retries,
    backoff, attempts and the completion of one record; the order of its side effects; the interface to the skip
    store; progress; and ghost logs. \<open>Keeps\<close>: what every call of a worker keeps, its whole run keeps.
  \<^item> \<open>HttpDelivery\<close>, \<open>HttpLaws\<close> (\<^verbatim>\<open>adapters/httpdelivery\<close>): one attempt and the lease it is sent under.
  \<^item> \<open>Consumer\<close>, \<open>PartitionLaws\<close>, \<open>PartitionLiveness\<close>, \<open>Ownership\<close>, \<open>Goroutine\<close> (\<^verbatim>\<open>adapters/kafka/consumer.go\<close>): the
    goroutine of a partition, its progress, the ownership of partitions under interleaved rebalances as a step relation,
    and the refinement that joins the two: a run of the goroutine whose world is the consumer's state only makes steps of
    the relation. \<open>Admin\<close>, \<open>AdminLaws\<close> (\<^verbatim>\<open>admin.go\<close>): topics.
  \<^item> \<open>ControlStore\<close>, \<open>ControlStoreLaws\<close> (\<^verbatim>\<open>adapters/controlpg\<close>): the tables and every statement on them.
  \<^item> \<open>Control\<close>, \<open>ControlLaws\<close>, \<open>ControlPass\<close>, \<open>ControlSafety\<close>, \<open>Convergence\<close> (\<^verbatim>\<open>internal/control\<close>): the control loop.
  \<^item> \<open>Provision\<close>, \<open>ProvisionLaws\<close> (\<^verbatim>\<open>internal/provision\<close>): contract, names, inspection, provisioning. \<open>SourcePg\<close>,
    \<open>SourceLaws\<close> (\<^verbatim>\<open>adapters/sourcepg\<close>): the source database.
  \<^item> \<open>Operator\<close>, \<open>OperatorLaws\<close> (\<^verbatim>\<open>adapters/operator\<close>); \<open>Config\<close>, \<open>ConfigLaws\<close> (\<^verbatim>\<open>internal/config\<close>); \<open>Startup\<close>,
    \<open>Wiring\<close>, \<open>WiringLaws\<close>, \<open>Engine\<close> (\<^verbatim>\<open>internal/app\<close>); \<open>Command\<close>, \<open>CommandLaws\<close> (\<^verbatim>\<open>cmd/postie\<close>).

  \<^bold>\<open>State and effects.\<close> Structs are records, Go maps association lists read with \<open>map_of\<close>, and the order of a
  \<^verbatim>\<open>range\<close> over a map is either immaterial or a choice of the environment (\<open>env_range\<close>). Code that works on memory
  of its own is a function. What the code calls outside itself is an operation of a world \<open>'w\<close> that may answer
  anything: a theorem for all such operations holds for every behaviour of broker, network, clock and database. The
  control store is modelled itself: its statements are functions on tables, and \<open>pg_faults\<close> scripts for each whether
  it is refused, carried out, or carried out with its reply lost. The control service is a state monad over the fields
  its mutex guards: between two critical sections the environment applies whatever other goroutines did
  (\<open>env_between\<close>), so a property of an action holds under every interleaving at that granularity. Those sections
  are the step relation \<open>section_step\<close> (ControlLaws): latching a block, publishing the state of a source, caching a
  registration, and what touches neither. Every action of the service is proved to be a sequence of such steps
  (\<open>service_step_sections\<close>), and an action in flight is any of its sections, with whatever it read before. The
  properties of the dispatch fence hold for all of them; those of a pass and of a subscription hold with the
  blocks of workers between its sections (\<open>workers_only\<close>), for the loop is the only goroutine that reconciles. The consumer's
  ownership protocol is an inductive step relation over the sections under its mutexes.

  \<^bold>\<open>Errors.\<close> A function with an error result returns a sum or an option. Errors the code tells apart are
  constructors; others carry their text, and where a wrapped error is never told apart, its text is shortened.

  \<^bold>\<open>Fuel and termination.\<close> Loops that end only with their environment (retries, attempts, polls, the control loop, the
  partition loops) are programs that return \<open>None\<close> when their fuel runs out. \<open>retry_returns\<close>, \<open>attempts_return\<close>,
  \<open>retry_ends\<close> and \<open>process_ends\<close> say what fuel is enough: one round more than the measure the environment decreases.
  \<open>every_record_is_committed\<close> gives the result of a whole worker, and \<open>every_received_record_is_committed\<close> that of a
  partition with all its records, for \<open>fuel\<close> above the number of failures left. Safety
  theorems hold for every fuel, and so for runs cut off anywhere. The loop over sequence numbers of the activity log
  counts on 64-bit words and is a partial function whose results are proved to exist; everything else terminates
  structurally or by a measure.

  \<^bold>\<open>Machine integers.\<close> Durations and sequence numbers are 64-bit words with their wrap-around, SHA-256 works on
  32-bit words, and integer columns, flags and cursors are parsed with the range checks of \<^verbatim>\<open>strconv\<close>. Integers
  that are only copied, compared or printed are \<open>int\<close>.

  \<^bold>\<open>Groups of properties.\<close>

  \<^item> \<^emph>\<open>A record\<close>: commits follow outcomes, a skip is durable before its commit and is never sent again, every record is
    committed in the end, and a partition is worked off in order by its only owner: the program of its goroutine refines
    the ownership protocol.
  \<^item> \<^emph>\<open>What is sent\<close>: the decoded record is the row and the body reads back as it; values keep their number, instant and type; errors never echo
    values; requests are sent under a valid lease; outcomes are what the destination answered.
  \<^item> \<^emph>\<open>Control\<close>: a block is final, whatever was in flight when it returned; passes end consistent; a change was stored by
    its request and reached by every live worker before it is acknowledged; revisions order requests; the API needs its
    token.
  \<^item> \<^emph>\<open>Capture\<close>: tables, topics and connectors are exactly what was asked for, inspection blocks only on
    evidence, and names and credentials cannot change the text they are put into.
  \<^item> \<^emph>\<open>Composition\<close>: configuration is substituted once, every lookup resolves to what it names, exit codes
    tell the truth, and the engine ends in order.

  \<^bold>\<open>Interfaces\<close> are locales, each interpreted on the model of the component that provides it: \<open>retained_log\<close>
  (Activity), \<open>skip_store\<close> (ControlStoreLaws), \<open>dispatch_gate\<close> and \<open>control_environment\<close> (ControlSafety, Engine),
  \<open>source_monitor\<close> (ProvisionLaws), \<open>topic_inspection\<close> (AdminLaws).

  \<^bold>\<open>Not modelled.\<close> The Kafka client and its options, the PostgreSQL driver and pool, the HTTP client, server and JSON
  encoder of replies, and the YAML parser and decoder are libraries: they are operations of the world or parameters.
  Signals and time-outs are answers of the environment; the timeout of an HTTP client is modelled as the bound it puts on
  the deadline of each request. Routes are compared with the path as escaped, so a request that escapes letters of a
  route (\<^verbatim>\<open>/health/%6cive\<close>) is not found here, where \<^verbatim>\<open>net/http\<close> unescapes the segments first. Quoting (\<^verbatim>\<open>%q\<close>), used in texts of
  errors only, leaves bytes from 128 on as they are. The run of the engine serves the operator and then
  runs the control loop, one after the other, where the source runs both at once and waits for either to end. Ordering below a critical section is not modelled: the Go memory
  model makes the sections atomic to each other. A nil dereference gives no result or a fixed error;
  \<open>records_reach_their_worker\<close> shows that the lookups which could lead to one succeed.
\<close>

end
